(* ===== verification/Prelude.thy ===== *)
theory Prelude
  imports Main "HOL-Library.Word"
begin

text \<open>
  Shared vocabulary of the development: machine integers, byte strings and fixed-size
  byte arrays, the results of fallible Go functions, and the combinators that sequence
  stateful calls the way the code does (\<open>if err != nil { return err }\<close>).

  Go's \<open>uint\<close> is 64 bits wide on the platforms the program is built for, so it is a
  \<open>64 word\<close>: additions and subtractions wrap. A \<open>[32]byte\<close> hash and a \<open>[20]byte\<close>
  address are the words with the same number of bits, read in big-endian order; the
  order of such words is the lexicographic order of the arrays. A \<open>[]byte\<close> is a
  list of bytes.

  A function of the code that returns an error, or that panics, returns a value of the sum
  type \<open>failure + 'a\<close>. Errors are represented by the sentinel that \<open>errors.Is\<close>
  would find in them; the texts that \<open>fmt.Errorf\<close> wraps around it are left out.
\<close>

section \<open>Machine integers, hashes, addresses\<close>

type_synonym byte = "8 word"
type_synonym uint32 = "32 word"
type_synonym uint = "64 word"
type_synonym hash = "256 word"
type_synonym address = "160 word"
type_synonym time = int

named_theorems go_defs \<open>definitions of the model that proofs unfold together\<close>
named_theorems world_simps \<open>how an operation changes, or keeps, the parts of the state\<close>

lemma unat_uint_less [simp]: "unat (w :: uint) < 18446744073709551616"
proof -
  have "unat w < 2 ^ LENGTH(64)" by (rule unsigned_less)
  then show ?thesis by simp
qed

lemma unat_plus_small:
  fixes a b :: uint
  assumes "unat a + unat b < 18446744073709551616"
  shows "unat (a + b) = unat a + unat b"
  using assms by (simp add: unat_word_ariths)

section \<open>Errors, panics and results\<close>

datatype go_error =
    ErrNotFound
  | ErrWrongArgumentType
  | ErrIncompatibleABI
  | ErrInvalidEvent
  | ErrInvalidConfig
  | ErrNonEmptyTokenList
  | ErrEmptyTokenList
  | ErrIncompatibleChainID
  | ErrNodeIsNotSynced
  | ErrInvalidLogsQuery
  | ErrInvalidPostgresResult
  | ErrMissingChainID
  | ErrMissingBlockQueryParams
  | ErrMissingMsgHashAndMessageID
  | ErrInvalidBlockNumber
  | ErrIO
  | ErrDB
  | ErrConstraint
  | ErrRPC
  | ErrABI
  | ErrCrypto
  | ErrParse

text \<open>
  A panic is not an error value: nothing in the monitor recovers from it, so it ends the
  process (in the presenter it ends the request). Which panic it was is not distinguished.
\<close>

datatype failure = Err go_error | Panic

type_synonym 'a res = "failure + 'a"

definition res_bind :: "'a res \<Rightarrow> ('a \<Rightarrow> 'b res) \<Rightarrow> 'b res" where
  "res_bind r f = (case r of Inl e \<Rightarrow> Inl e | Inr a \<Rightarrow> f a)"

lemma res_bind_simps [simp]:
  "res_bind (Inl e) f = Inl e"
  "res_bind (Inr a) f = f a"
  by (simp_all add: res_bind_def)

lemma res_bind_Inr_iff:
  "res_bind r f = Inr b \<longleftrightarrow> (\<exists>a. r = Inr a \<and> f a = Inr b)"
  by (cases r) auto

lemma res_bind_Inl_iff:
  "res_bind r f = Inl e \<longleftrightarrow> r = Inl e \<or> (\<exists>a. r = Inr a \<and> f a = Inl e)"
  by (cases r) auto

section \<open>Stateful calls\<close>

text \<open>
  A stateful call takes the state and gives a result and the state it leaves. The state
  survives a failure: an error of the code rolls nothing back.
\<close>

type_synonym ('s, 'a) io = "'s \<Rightarrow> 'a res \<times> 's"

definition returnE :: "'a \<Rightarrow> ('s, 'a) io" where
  "returnE a = (\<lambda>s. (Inr a, s))"

definition failE :: "failure \<Rightarrow> ('s, 'a) io" where
  "failE e = (\<lambda>s. (Inl e, s))"

definition bindE :: "('s, 'a) io \<Rightarrow> ('a \<Rightarrow> ('s, 'b) io) \<Rightarrow> ('s, 'b) io" where
  "bindE m f = (\<lambda>s. case m s of (Inl e, s') \<Rightarrow> (Inl e, s') | (Inr a, s') \<Rightarrow> f a s')"

definition fmapE :: "('a \<Rightarrow> 'b) \<Rightarrow> ('s, 'a) io \<Rightarrow> ('s, 'b) io" where
  "fmapE f m = bindE m (\<lambda>a. returnE (f a))"

definition liftE :: "'a res \<Rightarrow> ('s, 'a) io" where
  "liftE r = (\<lambda>s. (r, s))"

lemma io_apply [simp]:
  "returnE a s = (Inr a, s)"
  "failE e s = (Inl e, s)"
  "liftE r s = (r, s)"
  by (simp_all add: returnE_def failE_def liftE_def)

lemma bindE_apply:
  "bindE m f s = (case m s of (Inl e, s') \<Rightarrow> (Inl e, s') | (Inr a, s') \<Rightarrow> f a s')"
  by (simp add: bindE_def)

lemma bindE_liftE [simp]:
  "bindE (liftE (Inr a)) f = f a"
  "bindE (liftE (Inl e)) f = failE e"
  "bindE (returnE a) f = f a"
  "bindE (failE e) f = failE e"
  by (simp_all add: bindE_def liftE_def returnE_def failE_def fun_eq_iff)

lemma bindE_liftE_apply:
  "bindE (liftE r) f s = (case r of Inl e \<Rightarrow> (Inl e, s) | Inr a \<Rightarrow> f a s)"
  by (simp add: bindE_def liftE_def split: sum.split)

lemma bindE_liftE_Inr:
  "bindE (liftE r) f w = (Inr b, w') \<longleftrightarrow> (\<exists>a. r = Inr a \<and> f a w = (Inr b, w'))"
  by (auto simp: bindE_liftE_apply split: sum.splits)

text \<open>Success of a sequence: every call succeeded, and the states chain.\<close>

lemma bindE_Inr_iff:
  "bindE m f s = (Inr b, s'') \<longleftrightarrow>
     (\<exists>a s'. m s = (Inr a, s') \<and> f a s' = (Inr b, s''))"
  by (auto simp: bindE_def split: prod.splits sum.splits)

lemma bindE_InrE:
  assumes "bindE m f s = (Inr b, s'')"
  obtains a s' where "m s = (Inr a, s')" and "f a s' = (Inr b, s'')"
  using assms by (auto simp: bindE_Inr_iff)

text \<open>
  A relation between the state before and the state after that every call of a sequence
  keeps, and that is reflexive and transitive, is kept by the sequence.
\<close>

definition keepsE :: "('s \<Rightarrow> 's \<Rightarrow> bool) \<Rightarrow> ('s, 'a) io \<Rightarrow> bool" where
  "keepsE R m \<longleftrightarrow> (\<forall>s. R s (snd (m s)))"

lemma keepsE_apply: "keepsE R m \<Longrightarrow> m s = (r, s') \<Longrightarrow> R s s'"
  by (metis keepsE_def snd_conv)

lemma keepsE_bindE:
  assumes m: "keepsE R m" and f: "\<And>a. keepsE R (f a)"
    and trans: "\<And>a b c. R a b \<Longrightarrow> R b c \<Longrightarrow> R a c"
  shows "keepsE R (bindE m f)"
  unfolding keepsE_def
proof
  fix s
  obtain r s' where ms: "m s = (r, s')" by (cases "m s")
  have R1: "R s s'" using keepsE_apply [OF m ms] .
  show "R s (snd (bindE m f s))"
  proof (cases r)
    case (Inl e)
    with ms R1 show ?thesis by (simp add: bindE_apply)
  next
    case (Inr a)
    have "R s' (snd (f a s'))" using f by (simp add: keepsE_def)
    with R1 have "R s (snd (f a s'))" by (rule trans)
    with ms Inr show ?thesis by (simp add: bindE_apply)
  qed
qed

lemma keepsE_pure:
  assumes "\<And>s. R s s"
  shows "keepsE R (returnE a)" "keepsE R (failE e)" "keepsE R (liftE r)"
  using assms by (simp_all add: keepsE_def)

section \<open>Byte strings\<close>

text \<open>
  Indexing \<open>bs[i]\<close> panics past the length; slicing \<open>bs[i:j]\<close> panics unless
  \<open>i \<le> j\<close> and \<open>j\<close> is at most the capacity. The byte strings the code slices are
  modelled with capacity equal to length.
\<close>

definition index_at :: "'a list \<Rightarrow> nat \<Rightarrow> 'a res" where
  "index_at xs i = (if i < length xs then Inr (xs ! i) else Inl Panic)"

definition slice :: "'a list \<Rightarrow> nat \<Rightarrow> nat \<Rightarrow> 'a list res" where
  "slice xs i j = (if i \<le> j \<and> j \<le> length xs then Inr (take (j - i) (drop i xs)) else Inl Panic)"

definition slice_from :: "'a list \<Rightarrow> nat \<Rightarrow> 'a list res" where
  "slice_from xs i = slice xs i (length xs)"

lemma slice_ok: "i \<le> j \<Longrightarrow> j \<le> length xs \<Longrightarrow> slice xs i j = Inr (take (j - i) (drop i xs))"
  by (simp add: slice_def)

lemma slice_panic: "length xs < j \<Longrightarrow> slice xs i j = Inl Panic"
  by (simp add: slice_def)

lemma slice_from_ok: "i \<le> length xs \<Longrightarrow> slice_from xs i = Inr (drop i xs)"
  by (simp add: slice_from_def slice_def)

lemma slice_from_panic: "length xs < i \<Longrightarrow> slice_from xs i = Inl Panic"
  by (simp add: slice_from_def slice_def)

lemma index_at_ok: "i < length xs \<Longrightarrow> index_at xs i = Inr (xs ! i)"
  by (simp add: index_at_def)

lemma index_at_panic: "length xs \<le> i \<Longrightarrow> index_at xs i = Inl Panic"
  by (simp add: index_at_def)

text \<open>A piece of known position in a concatenation.\<close>

lemma slice_append:
  assumes "length a = i" and "j = i + length b"
  shows "slice (a @ b @ c) i j = Inr b"
  using assms by (simp add: slice_def)

lemma slice_from_append: "length a = i \<Longrightarrow> slice_from (a @ b) i = Inr b"
  by (simp add: slice_from_ok)

lemma index_at_append: "length a = i \<Longrightarrow> index_at (a @ x # c) i = Inr x"
  by (auto simp: index_at_def nth_append)

subsection \<open>Fixed-size arrays as words\<close>

text \<open>
  \<open>be_bytes n w\<close> is the array \<open>w\<close> as a slice (\<open>w[:]\<close>), most significant
  byte first; the library's \<open>word_rcat\<close> reads a slice as a big-endian number and keeps
  its low bits, as \<open>binary.BigEndian\<close> does for exactly four bytes.
\<close>

definition be_bytes :: "nat \<Rightarrow> 'a::len word \<Rightarrow> byte list" where
  "be_bytes n w = map (\<lambda>i. ucast (drop_bit (8 * i) w)) (rev [0..<n])"

lemma length_be_bytes [simp]: "length (be_bytes n w) = n"
  by (simp add: be_bytes_def)

lemma bit_word_rcat_byte_iff:
  "bit (word_rcat (bs :: byte list) :: 'a::len word) k \<longleftrightarrow>
     k < LENGTH('a) \<and> k div 8 < length bs \<and> bit (rev bs ! (k div 8)) (k mod 8)"
  using bit_horner_sum_uint_exp_iff [of "rev bs" k]
  by (auto simp: word_rcat_def bit_word_of_int_iff)

lemma bit_be_bytes_nth:
  fixes w :: "'a::len word"
  assumes "i < n"
  shows "bit (rev (be_bytes n w) ! i) k \<longleftrightarrow> k < 8 \<and> bit w (8 * i + k)"
  using assms by (auto simp: be_bytes_def rev_map bit_simps add.commute numeral_eq_Suc)

lemma word_rcat_be_bytes [simp]:
  fixes w :: "'a::len word"
  assumes "LENGTH('a) = 8 * n"
  shows "word_rcat (be_bytes n w) = w"
proof (rule bit_word_eqI)
  fix k
  assume k: "k < LENGTH('a)"
  with assms have "k div 8 < n" by auto
  then show "bit (word_rcat (be_bytes n w) :: 'a word) k = bit w k"
    using k by (simp add: bit_word_rcat_byte_iff bit_be_bytes_nth)
qed

lemma be_bytes_word_rcat:
  fixes bs :: "byte list"
  assumes "LENGTH('a::len) = 8 * n" and "length bs = n"
  shows "be_bytes n (word_rcat bs :: 'a word) = bs"
proof -
  have "rev (be_bytes n (word_rcat bs :: 'a word)) = rev bs"
  proof (rule nth_equalityI)
    show "length (rev (be_bytes n (word_rcat bs :: 'a word))) = length (rev bs)"
      using assms by simp
  next
    fix i
    assume "i < length (rev (be_bytes n (word_rcat bs :: 'a word)))"
    then have i: "i < n" by simp
    show "rev (be_bytes n (word_rcat bs :: 'a word)) ! i = rev bs ! i"
    proof (rule bit_word_eqI)
      fix k
      assume "k < LENGTH(8)"
      then have k: "k < 8" by simp
      have "8 * i + k < LENGTH('a)" using assms(1) i k by simp
      moreover have "(8 * i + k) div 8 = i" and "(8 * i + k) mod 8 = k" using k by auto
      ultimately show "bit (rev (be_bytes n (word_rcat bs :: 'a word)) ! i) k = bit (rev bs ! i) k"
        using i k assms(2) by (simp add: bit_be_bytes_nth bit_word_rcat_byte_iff)
    qed
  qed
  then show ?thesis by simp
qed

text \<open>Hence different arrays of one size have different bytes.\<close>

lemma be_bytes_eq_iff:
  fixes v w :: "'a::len word"
  assumes "LENGTH('a) = 8 * n"
  shows "be_bytes n v = be_bytes n w \<longleftrightarrow> v = w"
  by (metis assms word_rcat_be_bytes)

definition hash_bytes :: "hash \<Rightarrow> byte list" where
  "hash_bytes h = be_bytes 32 h"

definition address_bytes :: "address \<Rightarrow> byte list" where
  "address_bytes a = be_bytes 20 a"

lemma length_hash_bytes [simp]: "length (hash_bytes h) = 32"
  by (simp add: hash_bytes_def)

lemma length_address_bytes [simp]: "length (address_bytes a) = 20"
  by (simp add: address_bytes_def)

lemma word_rcat_hash_bytes [simp]: "word_rcat (hash_bytes h) = h"
  by (simp add: hash_bytes_def)

lemma word_rcat_address_bytes [simp]: "word_rcat (address_bytes a) = a"
  by (simp add: address_bytes_def)

lemma hash_bytes_word_rcat: "length bs = 32 \<Longrightarrow> hash_bytes (word_rcat bs) = bs"
  by (simp add: hash_bytes_def be_bytes_word_rcat)

lemma address_bytes_word_rcat: "length bs = 20 \<Longrightarrow> address_bytes (word_rcat bs) = bs"
  by (simp add: address_bytes_def be_bytes_word_rcat)

lemma hash_bytes_eq_iff [simp]: "hash_bytes a = hash_bytes b \<longleftrightarrow> a = b"
  by (metis word_rcat_hash_bytes)

lemma address_bytes_eq_iff [simp]: "address_bytes a = address_bytes b \<longleftrightarrow> a = b"
  by (metis word_rcat_address_bytes)

definition be_uint32 :: "byte list \<Rightarrow> uint32 res" where
  "be_uint32 bs = (if length bs < 4 then Inl Panic else Inr (word_rcat (take 4 bs)))"

lemma be_uint32_be_bytes [simp]: "be_uint32 (be_bytes 4 w) = Inr w"
  by (simp add: be_uint32_def)

section \<open>Lists and options\<close>

text \<open>\<open>map_res\<close>: a loop that stops at the first failure.\<close>

fun map_res :: "('a \<Rightarrow> 'b res) \<Rightarrow> 'a list \<Rightarrow> 'b list res" where
  "map_res f [] = Inr []"
| "map_res f (x # xs) = res_bind (f x) (\<lambda>y. res_bind (map_res f xs) (\<lambda>ys. Inr (y # ys)))"

lemma map_res_Inr_map: "(\<And>x. x \<in> set xs \<Longrightarrow> f x = Inr (g x)) \<Longrightarrow> map_res f xs = Inr (map g xs)"
  by (induction xs) auto

lemma map_res_length: "map_res f xs = Inr ys \<Longrightarrow> length ys = length xs"
  by (induction xs arbitrary: ys) (auto simp: res_bind_Inr_iff)

lemma find_Some_in: "find P xs = Some x \<Longrightarrow> x \<in> set xs \<and> P x"
  by (induction xs) (auto split: if_splits)

lemma find_NoneD: "find P xs = None \<Longrightarrow> x \<in> set xs \<Longrightarrow> \<not> P x"
  by (simp add: find_None_iff)

lemma find_unique:
  assumes "x \<in> set xs" and "P x" and "\<And>y. y \<in> set xs \<Longrightarrow> P y \<Longrightarrow> y = x"
  shows "find P xs = Some x"
proof (cases "find P xs")
  case None
  then have "\<not> P x" using assms(1) by (rule find_NoneD)
  with assms(2) show ?thesis by blast
next
  case (Some y)
  then have "y \<in> set xs \<and> P y" by (rule find_Some_in)
  with assms(3) Some show ?thesis by blast
qed

end
