(* ===== verification/Entity.thy ===== *)
theory Entity
  imports Prelude
begin

text \<open>
  The structs of \<open>entity/\<close>, field by field. The columns \<open>created_at\<close> and
  \<open>updated_at\<close> that every struct carries are kept by the rows of the tables (theory
  \<open>Table\<close>). The surrogate keys \<open>id\<close> of messages and information requests, which
  no code reads, are left out; the key of a log, which every other table refers to, is a field
  here.

  The functions are \<open>NewLog\<close> and \<open>Topics\<close> of \<open>entity/log.go\<close> and the
  interface \<open>BridgeMessage\<close> of \<open>entity/bridge_message.go\<close>. The lemmas show that the
  conversions of topics lose nothing for a log of at most four topics.
\<close>

section \<open>Logs\<close>

record Log =
  log_ID :: uint
  log_ChainID :: string
  log_Address :: address
  log_Topic0 :: "hash option"
  log_Topic1 :: "hash option"
  log_Topic2 :: "hash option"
  log_Topic3 :: "hash option"
  log_Data :: "byte list"
  log_BlockNumber :: uint
  log_LogIndex :: uint
  log_TransactionHash :: hash

text \<open>A nil pointer is \<open>None\<close>, an empty filter slice is \<open>[]\<close>.\<close>

record LogsFilter =
  lf_ChainID :: "string option"
  lf_Addresses :: "address list"
  lf_FromBlock :: "uint option"
  lf_ToBlock :: "uint option"
  lf_TxHash :: "hash option"
  lf_Topic0 :: "hash list"
  lf_Topic1 :: "hash list"
  lf_Topic2 :: "hash list"
  lf_Topic3 :: "hash list"
  lf_DataLength :: "uint option"

definition emptyLogsFilter :: LogsFilter where
  "emptyLogsFilter = \<lparr>lf_ChainID = None, lf_Addresses = [], lf_FromBlock = None, lf_ToBlock = None,
     lf_TxHash = None, lf_Topic0 = [], lf_Topic1 = [], lf_Topic2 = [], lf_Topic3 = [],
     lf_DataLength = None\<rparr>"

text \<open>The log as a node's RPC reports it (the fields of go-ethereum's \<open>types.Log\<close> that are read).\<close>

record RpcLog =
  rl_Address :: address
  rl_Topics :: "hash list"
  rl_Data :: "byte list"
  rl_BlockNumber :: uint
  rl_TxHash :: hash
  rl_Index :: uint

definition NewLog :: "string \<Rightarrow> RpcLog \<Rightarrow> Log" where
  "NewLog chainID log =
     (let ts = rl_Topics log in
      \<lparr>log_ID = 0, log_ChainID = chainID, log_Address = rl_Address log,
       log_Topic0 = (if length ts > 0 then Some (ts ! 0) else None),
       log_Topic1 = (if length ts > 0 then if length ts > 1 then Some (ts ! 1) else None else None),
       log_Topic2 = (if length ts > 0 then if length ts > 1 then
          if length ts > 2 then Some (ts ! 2) else None else None else None),
       log_Topic3 = (if length ts > 0 then if length ts > 1 then if length ts > 2 then
          if length ts > 3 then Some (ts ! 3) else None else None else None else None),
       log_Data = rl_Data log, log_BlockNumber = rl_BlockNumber log, log_LogIndex = rl_Index log,
       log_TransactionHash = rl_TxHash log\<rparr>)"

definition Topics :: "Log \<Rightarrow> hash list" where
  "Topics l =
     (case log_Topic0 l of None \<Rightarrow> [] | Some t0 \<Rightarrow> t0 #
     (case log_Topic1 l of None \<Rightarrow> [] | Some t1 \<Rightarrow> t1 #
     (case log_Topic2 l of None \<Rightarrow> [] | Some t2 \<Rightarrow> t2 #
     (case log_Topic3 l of None \<Rightarrow> [] | Some t3 \<Rightarrow> [t3]))))"

lemma NewLog_fields [simp]:
  "log_ID (NewLog c l) = 0"
  "log_ChainID (NewLog c l) = c"
  "log_Address (NewLog c l) = rl_Address l"
  "log_Data (NewLog c l) = rl_Data l"
  "log_BlockNumber (NewLog c l) = rl_BlockNumber l"
  "log_LogIndex (NewLog c l) = rl_Index l"
  "log_TransactionHash (NewLog c l) = rl_TxHash l"
  by (simp_all add: NewLog_def Let_def)

lemma NewLog_topic:
  "log_Topic0 (NewLog c l) = (if 0 < length (rl_Topics l) then Some (rl_Topics l ! 0) else None)"
  "log_Topic1 (NewLog c l) = (if 1 < length (rl_Topics l) then Some (rl_Topics l ! 1) else None)"
  "log_Topic2 (NewLog c l) = (if 2 < length (rl_Topics l) then Some (rl_Topics l ! 2) else None)"
  "log_Topic3 (NewLog c l) = (if 3 < length (rl_Topics l) then Some (rl_Topics l ! 3) else None)"
  by (simp_all add: NewLog_def Let_def)

lemma take_4_list: "take 4 ts = (case ts of
    [] \<Rightarrow> [] | [a] \<Rightarrow> [a] | [a, b] \<Rightarrow> [a, b] | [a, b, c] \<Rightarrow> [a, b, c] | a # b # c # d # _ \<Rightarrow> [a, b, c, d])"
  by (simp add: numeral_eq_Suc split: list.splits)

lemma Topics_NewLog_take: "Topics (NewLog c l) = take 4 (rl_Topics l)"
proof -
  consider "rl_Topics l = []" | a where "rl_Topics l = [a]" | a b where "rl_Topics l = [a, b]"
    | a b d where "rl_Topics l = [a, b, d]" | a b d e r where "rl_Topics l = a # b # d # e # r"
    by (metis neq_Nil_conv)
  then show ?thesis
    by cases (simp_all add: Topics_def NewLog_topic)
qed

lemma Topics_length: "length (Topics l) \<le> 4"
  by (simp add: Topics_def split: option.splits)

text \<open>The position of a log in its chain, ordered by block, then by index in the block.\<close>

datatype log_pos = LogPos (pos_block: uint) (pos_index: uint)

definition log_pos_of :: "Log \<Rightarrow> log_pos" where
  "log_pos_of l = LogPos (log_BlockNumber l) (log_LogIndex l)"

instantiation log_pos :: linorder
begin

definition less_log_pos :: "log_pos \<Rightarrow> log_pos \<Rightarrow> bool" where
  "less_log_pos a b \<longleftrightarrow> pos_block a < pos_block b \<or> (pos_block a = pos_block b \<and> pos_index a < pos_index b)"

definition less_eq_log_pos :: "log_pos \<Rightarrow> log_pos \<Rightarrow> bool" where
  "less_eq_log_pos a b \<longleftrightarrow> a < b \<or> (a :: log_pos) = b"

instance
proof
  fix x y z :: log_pos
  show "x < y \<longleftrightarrow> x \<le> y \<and> \<not> y \<le> x"
    by (cases x; cases y) (auto simp: less_log_pos_def less_eq_log_pos_def)
  show "x \<le> x" by (simp add: less_eq_log_pos_def)
  show "x \<le> y \<Longrightarrow> y \<le> z \<Longrightarrow> x \<le> z"
    by (cases x; cases y; cases z) (auto simp: less_log_pos_def less_eq_log_pos_def)
  show "x \<le> y \<Longrightarrow> y \<le> x \<Longrightarrow> x = y"
    by (cases x; cases y) (auto simp: less_log_pos_def less_eq_log_pos_def)
  show "x \<le> y \<or> y \<le> x"
    by (cases x; cases y) (auto simp: less_log_pos_def less_eq_log_pos_def)
qed

end

lemma log_pos_le_block: "log_pos_of a \<le> log_pos_of b \<Longrightarrow> log_BlockNumber a \<le> log_BlockNumber b"
  by (auto simp: log_pos_of_def less_eq_log_pos_def less_log_pos_def)

section \<open>Messages and requests\<close>

datatype Direction = DirectionForeignToHome | DirectionHomeToForeign

record Message =
  msg_BridgeID :: string
  msg_MsgHash :: hash
  msg_MessageID :: hash
  msg_Direction :: Direction
  msg_Sender :: address
  msg_Executor :: address
  msg_Data :: "byte list"
  msg_DataType :: uint
  msg_GasLimit :: uint
  msg_RawMessage :: "byte list"

text \<open>\<open>Value\<close> is the decimal text of the amount.\<close>

record ErcToNativeMessage =
  erc_BridgeID :: string
  erc_MsgHash :: hash
  erc_Direction :: Direction
  erc_Sender :: address
  erc_Receiver :: address
  erc_Value :: string
  erc_RawMessage :: "byte list"

record InformationRequest =
  ir_BridgeID :: string
  ir_MessageID :: hash
  ir_Direction :: Direction
  ir_RequestSelector :: hash
  ir_Sender :: address
  ir_Executor :: address
  ir_Data :: "byte list"

record SentMessage =
  sm_LogID :: uint
  sm_BridgeID :: string
  sm_MsgHash :: hash

record SignedMessage =
  sgm_LogID :: uint
  sgm_BridgeID :: string
  sgm_MsgHash :: hash
  sgm_Signer :: address

record CollectedMessage =
  cm_LogID :: uint
  cm_BridgeID :: string
  cm_MsgHash :: hash
  cm_ResponsibleSigner :: address
  cm_NumSignatures :: uint

record ExecutedMessage =
  em_LogID :: uint
  em_BridgeID :: string
  em_MessageID :: hash
  em_Status :: bool

record SentInformationRequest =
  sir_LogID :: uint
  sir_BridgeID :: string
  sir_MessageID :: hash

record SignedInformationRequest =
  sgir_LogID :: uint
  sgir_BridgeID :: string
  sgir_MessageID :: hash
  sgir_Signer :: address
  sgir_Data :: "byte list"

record ExecutedInformationRequest =
  eir_LogID :: uint
  eir_BridgeID :: string
  eir_MessageID :: hash
  eir_Status :: bool
  eir_CallbackStatus :: bool
  eir_Data :: "byte list"

record BridgeValidator =
  bv_LogID :: uint
  bv_BridgeID :: string
  bv_ChainID :: string
  bv_Address :: address
  bv_RemovedLogID :: "uint option"

record LogsCursor =
  lc_ChainID :: string
  lc_Address :: address
  lc_LastFetchedBlock :: uint
  lc_LastProcessedBlock :: uint

record BlockTimestamp =
  bt_ChainID :: string
  bt_BlockNumber :: uint
  bt_Timestamp :: time

subsection \<open>The interface \<open>BridgeMessage\<close>\<close>

datatype BridgeMessage = AMBMessage Message | ErcMessage ErcToNativeMessage

fun GetMsgHash :: "BridgeMessage \<Rightarrow> hash" where
  "GetMsgHash (AMBMessage m) = msg_MsgHash m"
| "GetMsgHash (ErcMessage m) = erc_MsgHash m"

fun GetMessageID :: "BridgeMessage \<Rightarrow> hash" where
  "GetMessageID (AMBMessage m) = msg_MessageID m"
| "GetMessageID (ErcMessage m) = erc_MsgHash m"

fun GetDirection :: "BridgeMessage \<Rightarrow> Direction" where
  "GetDirection (AMBMessage m) = msg_Direction m"
| "GetDirection (ErcMessage m) = erc_Direction m"

fun GetRawMessage :: "BridgeMessage \<Rightarrow> byte list" where
  "GetRawMessage (AMBMessage m) = msg_RawMessage m"
| "GetRawMessage (ErcMessage m) = erc_RawMessage m"

text \<open>The dynamic types \<open>ToBridgeMessages\<close> switches over; any other type gives nil.\<close>

datatype MessagesValue = MessagesV "Message list" | ErcMessagesV "ErcToNativeMessage list" | OtherV

fun ToBridgeMessages :: "MessagesValue \<Rightarrow> BridgeMessage list" where
  "ToBridgeMessages (MessagesV msgs) = map AMBMessage msgs"
| "ToBridgeMessages (ErcMessagesV msgs) = map ErcMessage msgs"
| "ToBridgeMessages OtherV = []"

section \<open>Decimal numbers\<close>

text \<open>\<open>big.Int.String()\<close> of Go's standard library.\<close>

fun decimal_digits :: "nat \<Rightarrow> string" where
  "decimal_digits n =
     (if n < 10 then [char_of (48 + n)] else decimal_digits (n div 10) @ [char_of (48 + n mod 10)])"

declare decimal_digits.simps [simp del]

definition big_string :: "int \<Rightarrow> string" where
  "big_string v = (if v < 0 then CHR ''-'' # decimal_digits (nat (- v)) else decimal_digits (nat v))"

fun digits_value :: "nat \<Rightarrow> string \<Rightarrow> nat" where
  "digits_value acc [] = acc"
| "digits_value acc (c # cs) = digits_value (10 * acc + (of_char c - 48)) cs"

lemma digits_value_append: "digits_value acc (xs @ ys) = digits_value (digits_value acc xs) ys"
  by (induction xs arbitrary: acc) auto

lemma digits_value_decimal: "digits_value 0 (decimal_digits n) = n"
proof (induction n rule: decimal_digits.induct)
  case (1 n)
  show ?case
  proof (cases "n < 10")
    case True
    then show ?thesis by (subst decimal_digits.simps) simp
  next
    case False
    with 1 have "digits_value 0 (decimal_digits (n div 10)) = n div 10" by simp
    with False show ?thesis
      by (subst decimal_digits.simps) (simp add: digits_value_append)
  qed
qed

lemma decimal_digits_inject [simp]: "decimal_digits m = decimal_digits n \<longleftrightarrow> m = n"
  by (metis digits_value_decimal)

end
