(* ===== verification/Ranges.thy ===== *)
theory Ranges
  imports Entity
begin

text \<open>
  \<open>monitor/types.go\<close>: splitting a block range into ranges of bounded size, and the logs of
  a range into batches of one block each. \<open>SplitBlockRange\<close> is a loop over wrapping 64-bit
  numbers that may run forever, so it is an \<open>option\<close>-valued partial function (\<open>None\<close>:
  it does not return); the lemmas give its exact result where the arithmetic does not wrap,
  and inputs on which it never returns. \<open>SplitLogsInBatches\<close> is the index loop of the code;
  it is shown equal to grouping maximal runs of equal block numbers.
\<close>

section \<open>Block ranges\<close>

record BlocksRange =
  br_From :: uint
  br_To :: uint

partial_function (option) SplitBlockRange_loop ::
  "uint \<Rightarrow> uint \<Rightarrow> uint \<Rightarrow> BlocksRange list \<Rightarrow> BlocksRange list option" where
  "SplitBlockRange_loop fromBlock toBlock maxSize batches =
     (if fromBlock \<le> toBlock then
        SplitBlockRange_loop (fromBlock + maxSize) toBlock maxSize
          (batches @ [\<lparr>br_From = fromBlock,
             br_To = (let batchToBlock = fromBlock + maxSize - 1
                      in if batchToBlock > toBlock then toBlock else batchToBlock)\<rparr>])
      else Some batches)"

definition SplitBlockRange :: "uint \<Rightarrow> uint \<Rightarrow> uint \<Rightarrow> BlocksRange list option" where
  "SplitBlockRange fromBlock toBlock maxSize = SplitBlockRange_loop fromBlock toBlock maxSize []"

text \<open>The blocks of a range.\<close>

definition br_blocks :: "BlocksRange \<Rightarrow> nat list" where
  "br_blocks r = [unat (br_From r)..<Suc (unat (br_To r))]"

text \<open>
  The reference: the ranges the loop produces when nothing wraps, on numbers without bounds.
\<close>

function split_ranges :: "nat \<Rightarrow> nat \<Rightarrow> nat \<Rightarrow> (nat \<times> nat) list" where
  "split_ranges f t m =
     (if f \<le> t \<and> 0 < m then (f, min (f + m - 1) t) # split_ranges (f + m) t m else [])"
  by pat_completeness auto
termination
  by (relation "measure (\<lambda>(f, t, m). Suc t - f)") auto

declare split_ranges.simps [simp del]

definition range_of :: "nat \<times> nat \<Rightarrow> BlocksRange" where
  "range_of p = \<lparr>br_From = of_nat (fst p), br_To = of_nat (snd p)\<rparr>"

lemma SplitBlockRange_loop_ranges:
  assumes "0 < unat m" and "unat t + unat m < 2 ^ 64"
  shows "SplitBlockRange_loop f t m acc =
    Some (acc @ map range_of (split_ranges (unat f) (unat t) (unat m)))"
  using assms
proof (induction "unat t + 1 - unat f" arbitrary: f acc rule: less_induct)
  case less
  show ?case
  proof (cases "f \<le> t")
    case False
    then have "\<not> unat f \<le> unat t" by (simp add: word_le_nat_alt)
    then have "split_ranges (unat f) (unat t) (unat m) = []"
      by (subst split_ranges.simps) simp
    with False show ?thesis
      by (subst SplitBlockRange_loop.simps) simp
  next
    case True
    then have ft: "unat f \<le> unat t" by (simp add: word_le_nat_alt)
    with less.prems have fm: "unat (f + m) = unat f + unat m"
      by (intro unat_plus_small) simp
    have end_: "unat (f + m - 1) = unat f + unat m - 1"
    proof -
      have "f + m \<noteq> 0" using fm less.prems(1) by (metis add_is_0 less_irrefl unat_0)
      then show ?thesis using fm by (metis unat_minus_one)
    qed
    have head: "\<lparr>br_From = f, br_To = (if f + m - 1 > t then t else f + m - 1)\<rparr> =
        range_of (unat f, min (unat f + unat m - 1) (unat t))"
    proof -
      have "of_nat (min (unat (f + m - 1)) (unat t)) = (if f + m - 1 > t then t else f + m - 1)"
        by (cases "f + m - 1 > t") (simp_all add: word_less_nat_alt min_def)
      then show ?thesis using end_ by (simp add: range_of_def)
    qed
    have rec: "SplitBlockRange_loop (f + m) t m (acc @ [range_of (unat f, min (unat f + unat m - 1) (unat t))]) =
        Some ((acc @ [range_of (unat f, min (unat f + unat m - 1) (unat t))]) @
          map range_of (split_ranges (unat (f + m)) (unat t) (unat m)))"
      using less.prems fm ft by (intro less.hyps) auto
    have "split_ranges (unat f) (unat t) (unat m) =
        (unat f, min (unat f + unat m - 1) (unat t)) # split_ranges (unat f + unat m) (unat t) (unat m)"
      using ft less.prems(1) by (subst split_ranges.simps) simp
    with True rec fm head show ?thesis
      by (subst SplitBlockRange_loop.simps) (simp add: Let_def)
  qed
qed

lemma SplitBlockRange_ranges:
  assumes "0 < unat m" and "unat t + unat m < 2 ^ 64"
  shows "SplitBlockRange f t m = Some (map range_of (split_ranges (unat f) (unat t) (unat m)))"
  using SplitBlockRange_loop_ranges [OF assms, of f "[]"] by (simp add: SplitBlockRange_def)

lemma split_ranges_blocks:
  "0 < m \<Longrightarrow> concat (map (\<lambda>(a, b). [a..<Suc b]) (split_ranges f t m)) = [f..<Suc t]"
proof (induction f t m rule: split_ranges.induct)
  case (1 f t m)
  show ?case
  proof (cases "f \<le> t")
    case False
    then show ?thesis by (subst split_ranges.simps) simp
  next
    case True
    let ?e = "min (f + m - 1) t"
    have "[f..<Suc ?e] @ [f + m..<Suc t] = [f..<Suc t]"
    proof (cases "f + m \<le> t")
      case True
      then have e: "Suc ?e = f + m" using 1 by simp
      with True show ?thesis
        using upt_add_eq_append [of f "f + m" "Suc t - (f + m)"] by simp
    next
      case False
      then have "?e = t" by simp
      with \<open>f \<le> t\<close> False show ?thesis by simp
    qed
    with True 1 show ?thesis by (subst split_ranges.simps) simp
  qed
qed

lemma split_ranges_member:
  assumes "0 < m" and "(a, b) \<in> set (split_ranges f t m)"
  shows "f \<le> a \<and> a \<le> b \<and> b \<le> t \<and> b < a + m"
  using assms
proof (induction f t m rule: split_ranges.induct)
  case (1 f t m)
  then have "(f \<le> t)" by (subst (asm) (2) split_ranges.simps) (auto split: if_splits)
  with 1(2,3) have "(a, b) = (f, min (f + m - 1) t) \<or> (a, b) \<in> set (split_ranges (f + m) t m)"
    by (subst (asm) split_ranges.simps) auto
  then show ?case
    using 1 \<open>f \<le> t\<close> by (elim disjE) (auto simp: min_def)
qed

lemma range_of_member:
  assumes "0 < unat m" and "r \<in> set (map range_of (split_ranges (unat f) (unat (t :: uint)) (unat (m :: uint))))"
  shows "unat f \<le> unat (br_From r) \<and> br_From r \<le> br_To r \<and> br_To r \<le> t
    \<and> unat (br_To r) < unat (br_From r) + unat m"
proof -
  from assms(2) obtain a b where ab: "(a, b) \<in> set (split_ranges (unat f) (unat t) (unat m))"
    and r: "r = range_of (a, b)" by auto
  from split_ranges_member [OF assms(1) ab]
  have bounds: "unat f \<le> a" "a \<le> b" "b \<le> unat t" "b < a + unat m" by auto
  have "unat t < 2 ^ 64" by simp
  with bounds have "a < 2 ^ 64" "b < 2 ^ 64" by linarith+
  then have "unat (of_nat a :: uint) = a" "unat (of_nat b :: uint) = b"
    by (simp_all add: unat_of_nat)
  with bounds r show ?thesis
    by (simp add: range_of_def word_le_nat_alt)
qed

lemma br_blocks_range_of:
  "snd p < 2 ^ 64 \<Longrightarrow> fst p < 2 ^ 64 \<Longrightarrow> br_blocks (range_of p) = [fst p..<Suc (snd p)]"
  by (simp add: br_blocks_def range_of_def unat_of_nat)

lemma SplitBlockRange_blocks:
  assumes "0 < unat m" and "unat t + unat m < 2 ^ 64"
  shows "\<exists>rs. SplitBlockRange f t m = Some rs
    \<and> concat (map br_blocks rs) = [unat f..<Suc (unat t)]
    \<and> (\<forall>r \<in> set rs. br_From r \<le> br_To r \<and> unat (br_To r) < unat (br_From r) + unat m)"
proof -
  let ?ps = "split_ranges (unat f) (unat t) (unat m)"
  have "map (br_blocks \<circ> range_of) ?ps = map (\<lambda>(a, b). [a..<Suc b]) ?ps"
  proof (rule map_cong [OF refl])
    fix p assume mem: "p \<in> set ?ps"
    obtain a b where p: "p = (a, b)" by (cases p)
    with mem split_ranges_member [OF assms(1)] have "a \<le> b \<and> b \<le> unat t" by blast
    moreover have "unat t < 2 ^ 64" by simp
    ultimately have "a < 2 ^ 64" "b < 2 ^ 64" by linarith+
    then show "(br_blocks \<circ> range_of) p = (\<lambda>(a, b). [a..<Suc b]) p"
      using p br_blocks_range_of [of p] by simp
  qed
  then have "concat (map br_blocks (map range_of ?ps)) = concat (map (\<lambda>(a, b). [a..<Suc b]) ?ps)"
    by (simp only: map_map)
  then have "concat (map br_blocks (map range_of ?ps)) = [unat f..<Suc (unat t)]"
    by (simp only: split_ranges_blocks [OF assms(1)])
  moreover have "\<forall>r \<in> set (map range_of ?ps). br_From r \<le> br_To r \<and> unat (br_To r) < unat (br_From r) + unat m"
    using range_of_member [OF assms(1)] by blast
  ultimately show ?thesis
    using SplitBlockRange_ranges [OF assms] by blast
qed

text \<open>
  The ranges in order, one after another: each starts right after the one before it.
\<close>

fun gapless :: "nat \<Rightarrow> BlocksRange list \<Rightarrow> nat \<Rightarrow> bool" where
  "gapless u [] e = (e \<le> Suc u)"
| "gapless u (r # rs) e =
     (unat (br_From r) \<le> Suc u \<and> br_From r \<le> br_To r \<and> gapless (max u (unat (br_To r))) rs e)"

lemma gapless_mono: "gapless u rs e \<Longrightarrow> u \<le> v \<Longrightarrow> gapless v rs e"
proof (induction u rs e arbitrary: v rule: gapless.induct)
  case (2 u r rs e)
  have "gapless (max u (unat (br_To r))) rs e" using "2.prems"(1) by simp
  moreover have "max u (unat (br_To r)) \<le> max v (unat (br_To r))" using "2.prems"(2) by simp
  ultimately have "gapless (max v (unat (br_To r))) rs e" by (rule "2.IH")
  then show ?case using "2.prems" by simp
qed simp

lemma gapless_append:
  "gapless u (rs @ qs) e \<longleftrightarrow>
     gapless u rs 0 \<and> gapless (foldl max u (map (unat \<circ> br_To) rs)) qs e"
  by (induction rs arbitrary: u) auto

lemma gapless_end_mono: "gapless u rs e \<Longrightarrow> e' \<le> e \<Longrightarrow> gapless u rs e'"
  by (induction u rs e rule: gapless.induct) auto

lemma gapless_split_ranges:
  assumes "0 < m" and "t < 2 ^ 64" and "f \<le> Suc u"
  shows "gapless u (map range_of (split_ranges f t m)) (Suc t)"
  using assms
proof (induction f t m arbitrary: u rule: split_ranges.induct)
  case (1 f t m)
  show ?case
  proof (cases "f \<le> t")
    case False
    with 1 show ?thesis by (subst split_ranges.simps) simp
  next
    case True
    let ?e = "min (f + m - 1) t"
    have e: "f \<le> ?e" "?e < 2 ^ 64" using True 1 by auto
    have "f < 2 ^ 64" using e by linarith
    then have unats: "unat (of_nat f :: uint) = f" "unat (of_nat ?e :: uint) = ?e"
      using e(2) by (simp_all add: unat_of_nat)
    have "gapless (max u ?e) (map range_of (split_ranges (f + m) t m)) (Suc t)"
    proof (cases "f + m \<le> t")
      case True
      then show ?thesis using 1 by (intro "1.IH") auto
    next
      case False
      then show ?thesis by (subst split_ranges.simps) simp
    qed
    moreover have "br_From (range_of (f, ?e)) = of_nat f" "br_To (range_of (f, ?e)) = of_nat ?e"
      by (simp_all add: range_of_def)
    ultimately show ?thesis
      using True 1 e unats by (subst split_ranges.simps) (simp add: word_le_nat_alt)
  qed
qed

lemma gapless_SplitBlockRange:
  assumes "0 < unat m" and "unat t + unat m < 2 ^ 64" and "unat f \<le> Suc u"
    and "SplitBlockRange f t m = Some rs"
  shows "gapless u rs (Suc (unat t))"
proof -
  have "unat t < 2 ^ 64" by simp
  with assms show ?thesis
    using SplitBlockRange_ranges [OF assms(1,2), of f] gapless_split_ranges by auto
qed

subsection \<open>Inputs on which the loop does not return\<close>

lemma SplitBlockRange_loop_zero:
  assumes "SplitBlockRange_loop f t m acc = Some rs"
  shows "\<not> (m = 0 \<and> f \<le> t)"
proof (rule SplitBlockRange_loop.raw_induct
    [where P = "\<lambda>f t m acc rs. \<not> (m = 0 \<and> f \<le> t)", OF _ assms])
  fix loop f t m acc rs
  assume IH: "\<And>f t m acc rs. loop f t m acc = Some rs \<Longrightarrow> \<not> (m = 0 \<and> f \<le> t)"
    and eq: "(if f \<le> t then loop (f + m) t m
       (acc @ [\<lparr>br_From = f, br_To = (let batchToBlock = f + m - 1
          in if batchToBlock > t then t else batchToBlock)\<rparr>]) else Some acc) = Some rs"
  show "\<not> (m = 0 \<and> f \<le> t)"
  proof
    assume a: "m = 0 \<and> f \<le> t"
    with eq IH have "\<not> (m = 0 \<and> f + m \<le> t)" by (auto split: if_splits)
    with a show False by simp
  qed
qed

lemma SplitBlockRange_loop_max:
  assumes "SplitBlockRange_loop f t m acc = Some rs"
  shows "t \<noteq> -1"
proof (rule SplitBlockRange_loop.raw_induct [where P = "\<lambda>f t m acc rs. t \<noteq> -1", OF _ assms])
  fix loop f t m acc rs
  assume IH: "\<And>f t m acc rs. loop f t m acc = Some rs \<Longrightarrow> t \<noteq> -1"
    and eq: "(if f \<le> t then loop (f + m) t m
       (acc @ [\<lparr>br_From = f, br_To = (let batchToBlock = f + m - 1
          in if batchToBlock > t then t else batchToBlock)\<rparr>]) else Some acc) = Some rs"
  show "t \<noteq> (-1 :: uint)"
  proof
    assume "t = -1"
    then have "f \<le> t" by simp
    with eq IH have "t \<noteq> -1" by auto
    with \<open>t = -1\<close> show False by simp
  qed
qed

section \<open>Batches of logs\<close>

record LogsBatch =
  lb_BlockNumber :: uint
  lb_Logs :: "Log list"

definition MaxUint32 :: uint where
  "MaxUint32 = 4294967295"

definition sentinelLog :: Log where
  "sentinelLog = \<lparr>log_ID = 0, log_ChainID = [], log_Address = 0, log_Topic0 = None,
     log_Topic1 = None, log_Topic2 = None, log_Topic3 = None, log_Data = [],
     log_BlockNumber = MaxUint32, log_LogIndex = 0, log_TransactionHash = 0\<rparr>"

function SplitLogs_loop :: "Log list \<Rightarrow> nat \<Rightarrow> nat \<Rightarrow> LogsBatch list \<Rightarrow> LogsBatch list" where
  "SplitLogs_loop logs i batchStartIndex batches =
     (if i < length logs then
        if log_BlockNumber (logs ! i) > log_BlockNumber (logs ! batchStartIndex) then
          SplitLogs_loop logs (Suc i) i
            (batches @ [\<lparr>lb_BlockNumber = log_BlockNumber (logs ! batchStartIndex),
               lb_Logs = take (i - batchStartIndex) (drop batchStartIndex logs)\<rparr>])
        else SplitLogs_loop logs (Suc i) batchStartIndex batches
      else batches)"
  by pat_completeness auto
termination
  by (relation "measure (\<lambda>(logs, i, s, bs). length logs - i)") auto

declare SplitLogs_loop.simps [simp del]

definition SplitLogsInBatches :: "Log list \<Rightarrow> LogsBatch list" where
  "SplitLogsInBatches logs = SplitLogs_loop (logs @ [sentinelLog]) 0 0 []"

text \<open>
  The reference: cut the list after each log whose successor has a greater block number.
  \<open>cur\<close> is the batch being collected, in order; a batch that no greater block follows is
  dropped, which is what happens to the artificial last log.
\<close>

fun cut_batches :: "Log list \<Rightarrow> Log list \<Rightarrow> LogsBatch list" where
  "cut_batches cur [] = []"
| "cut_batches cur (l # ls) =
     (if log_BlockNumber l > log_BlockNumber (hd cur)
      then \<lparr>lb_BlockNumber = log_BlockNumber (hd cur), lb_Logs = cur\<rparr> # cut_batches [l] ls
      else cut_batches (cur @ [l]) ls)"

lemma SplitLogs_loop_cut:
  assumes "s < i" and "i \<le> length logs"
  shows "SplitLogs_loop logs i s acc =
    acc @ cut_batches (take (i - s) (drop s logs)) (drop i logs)"
  using assms
proof (induction logs i s acc rule: SplitLogs_loop.induct)
  case (1 logs i s acc)
  show ?case
  proof (cases "i < length logs")
    case False
    then show ?thesis by (subst SplitLogs_loop.simps) simp
  next
    case True
    let ?cur = "take (i - s) (drop s logs)"
    have hd: "hd ?cur = logs ! s"
      using 1(3) True by (simp add: hd_drop_conv_nth hd_conv_nth)
    have dr: "drop i logs = logs ! i # drop (Suc i) logs"
      using True by (simp add: Cons_nth_drop_Suc)
    show ?thesis
    proof (cases "log_BlockNumber (logs ! i) > log_BlockNumber (logs ! s)")
      case True
      have "take (Suc i - i) (drop i logs) = [logs ! i]" using dr by simp
      with "1.IH"(1) [OF \<open>i < length logs\<close> True] True hd dr \<open>i < length logs\<close> show ?thesis
        by (subst SplitLogs_loop.simps) simp
    next
      case False
      have "take (Suc i - s) (drop s logs) = ?cur @ [logs ! i]"
        using 1(3) \<open>i < length logs\<close>
        by (simp add: Suc_diff_le take_Suc_conv_app_nth)
      with "1.IH"(2) [OF \<open>i < length logs\<close> False] False hd dr 1(3) \<open>i < length logs\<close> show ?thesis
        by (subst SplitLogs_loop.simps) simp
    qed
  qed
qed

lemma SplitLogsInBatches_cut:
  "SplitLogsInBatches logs =
     (case logs of [] \<Rightarrow> [] | l # ls \<Rightarrow> cut_batches [l] (ls @ [sentinelLog]))"
proof (cases logs)
  case Nil
  then show ?thesis
    by (simp add: SplitLogsInBatches_def SplitLogs_loop.simps)
next
  case (Cons l ls)
  have "SplitLogs_loop (logs @ [sentinelLog]) 0 0 [] = SplitLogs_loop (logs @ [sentinelLog]) 1 0 []"
    by (subst SplitLogs_loop.simps) simp
  also have "\<dots> = cut_batches (take 1 (logs @ [sentinelLog])) (drop 1 (logs @ [sentinelLog]))"
    using SplitLogs_loop_cut [of 0 1 "logs @ [sentinelLog]" "[]"] Cons by simp
  finally show ?thesis
    using Cons by (simp add: SplitLogsInBatches_def)
qed

text \<open>A well-formed batch: not empty, one block number throughout.\<close>

definition batch_wf :: "LogsBatch \<Rightarrow> bool" where
  "batch_wf b \<longleftrightarrow> lb_Logs b \<noteq> [] \<and> list_all (\<lambda>l. log_BlockNumber l = lb_BlockNumber b) (lb_Logs b)"

text \<open>What the code assumes of its input: sorted by block, below the artificial last log.\<close>

definition batchable :: "Log list \<Rightarrow> bool" where
  "batchable logs \<longleftrightarrow> sorted (map log_BlockNumber logs) \<and> list_all (\<lambda>l. log_BlockNumber l < MaxUint32) logs"

lemma cut_batches_correct:
  assumes "batch_wf \<lparr>lb_BlockNumber = log_BlockNumber (hd cur), lb_Logs = cur\<rparr>"
    and "batchable (cur @ ls)"
  shows "concat (map lb_Logs (cut_batches cur (ls @ [sentinelLog]))) = cur @ ls
    \<and> list_all batch_wf (cut_batches cur (ls @ [sentinelLog]))
    \<and> sorted_wrt (<) (map lb_BlockNumber (cut_batches cur (ls @ [sentinelLog])))
    \<and> list_all (\<lambda>b. log_BlockNumber (hd cur) \<le> lb_BlockNumber b) (cut_batches cur (ls @ [sentinelLog]))"
  using assms
proof (induction cur ls rule: cut_batches.induct)
  case (1 cur)
  then have "log_BlockNumber (hd cur) < MaxUint32"
    by (cases cur) (auto simp: batchable_def batch_wf_def)
  with 1(1) show ?case
    by (simp add: sentinelLog_def)
next
  case (2 cur l ls)
  let ?rest = "\<lambda>c. cut_batches c (ls @ [sentinelLog])"
  have cur: "cur \<noteq> []" using "2.prems"(1) by (simp add: batch_wf_def)
  show ?case
  proof (cases "log_BlockNumber l > log_BlockNumber (hd cur)")
    case True
    have "batchable ([l] @ ls)"
      using "2.prems"(2) by (auto simp: batchable_def sorted_append)
    then have IH: "concat (map lb_Logs (?rest [l])) = [l] @ ls \<and> list_all batch_wf (?rest [l])
      \<and> sorted_wrt (<) (map lb_BlockNumber (?rest [l]))
      \<and> list_all (\<lambda>b. log_BlockNumber (hd [l]) \<le> lb_BlockNumber b) (?rest [l])"
      by (intro "2.IH"(1) [OF True]) (simp_all add: batch_wf_def)
    then have "list_all (\<lambda>b. log_BlockNumber (hd cur) < lb_BlockNumber b) (?rest [l])"
      using True by (auto simp: list_all_iff)
    with IH True "2.prems"(1) show ?thesis
      by (auto simp: list_all_iff less_imp_le)
  next
    case False
    have "log_BlockNumber (hd cur) \<le> log_BlockNumber l"
      using "2.prems"(2) cur by (cases cur) (auto simp: batchable_def sorted_append)
    with False have same: "log_BlockNumber l = log_BlockNumber (hd cur)" by simp
    have "batch_wf \<lparr>lb_BlockNumber = log_BlockNumber (hd (cur @ [l])), lb_Logs = cur @ [l]\<rparr>"
      using "2.prems"(1) same cur by (simp add: batch_wf_def)
    then have IH: "concat (map lb_Logs (?rest (cur @ [l]))) = (cur @ [l]) @ ls
      \<and> list_all batch_wf (?rest (cur @ [l])) \<and> sorted_wrt (<) (map lb_BlockNumber (?rest (cur @ [l])))
      \<and> list_all (\<lambda>b. log_BlockNumber (hd (cur @ [l])) \<le> lb_BlockNumber b) (?rest (cur @ [l]))"
      using "2.prems"(2) by (intro "2.IH"(2) [OF False]) simp_all
    with False cur show ?thesis by simp
  qed
qed

lemma SplitLogsInBatches_correct:
  assumes "batchable logs"
  shows "concat (map lb_Logs (SplitLogsInBatches logs)) = logs
    \<and> list_all batch_wf (SplitLogsInBatches logs)
    \<and> sorted_wrt (<) (map lb_BlockNumber (SplitLogsInBatches logs))"
proof (cases logs)
  case Nil
  then show ?thesis by (simp add: SplitLogsInBatches_cut)
next
  case (Cons l ls)
  with cut_batches_correct [of "[l]" ls] assms show ?thesis
    by (simp add: SplitLogsInBatches_cut batch_wf_def [of "\<lparr>lb_BlockNumber = b, lb_Logs = [l]\<rparr>" for b])
qed

section \<open>Properties\<close>

text \<open>Property C36. For a positive \<open>maxSize\<close> and a range whose arithmetic does not wrap,
  \<open>SplitBlockRange\<close> returns; its ranges list exactly the blocks from \<open>fromBlock\<close> to
  \<open>toBlock\<close>, each once and in order, and no range holds more than \<open>maxSize\<close> blocks.\<close>

theorem split_block_range_tiles:
  assumes "0 < unat maxSize" and "unat toBlock + unat maxSize < 2 ^ 64"
  shows "\<exists>rs. SplitBlockRange fromBlock toBlock maxSize = Some rs
    \<and> concat (map br_blocks rs) = [unat fromBlock..<Suc (unat toBlock)]
    \<and> list_all (\<lambda>r. br_From r \<le> br_To r \<and> unat (br_To r) < unat (br_From r) + unat maxSize) rs"
  using SplitBlockRange_blocks [OF assms, of fromBlock] by (auto simp: list_all_iff)

lemma split_block_range_tiles_witness:
  "\<exists>rs. SplitBlockRange 100 250 60 = Some rs
    \<and> concat (map br_blocks rs) = [unat (100 :: uint)..<Suc (unat (250 :: uint))]
    \<and> list_all (\<lambda>r. br_From r \<le> br_To r \<and> unat (br_To r) < unat (br_From r) + unat (60 :: uint)) rs"
  by (rule split_block_range_tiles) simp_all

text \<open>Property C37. With \<open>maxSize\<close> 0 \<open>SplitBlockRange\<close> returns for the empty ranges only, with no range; for every
  other it never returns. Nor does it for any range that ends at the greatest \<open>uint\<close>, whatever \<open>maxSize\<close>.\<close>

theorem split_block_range_diverges:
  "SplitBlockRange fromBlock toBlock 0 = (if fromBlock \<le> toBlock then None else Some [])
   \<and> SplitBlockRange fromBlock (-1) maxSize = None"
proof -
  have "SplitBlockRange fromBlock toBlock 0 = None" if "fromBlock \<le> toBlock"
    using that SplitBlockRange_loop_zero by (cases "SplitBlockRange fromBlock toBlock 0") (auto simp: SplitBlockRange_def)
  moreover have "SplitBlockRange fromBlock toBlock 0 = Some []" if "\<not> fromBlock \<le> toBlock"
    using that by (simp add: SplitBlockRange_def SplitBlockRange_loop.simps)
  moreover have "SplitBlockRange fromBlock (-1) maxSize = None"
    by (cases "SplitBlockRange fromBlock (-1) maxSize") (auto simp: SplitBlockRange_def dest: SplitBlockRange_loop_max)
  ultimately show ?thesis by auto
qed

text \<open>Logs sorted by block, below block \<open>math.MaxUint32\<close>, are cut into non-empty
  batches of one block each, with increasing block numbers, that hold every log once and in
  order.\<close>

theorem split_logs_partition:
  assumes "batchable logs"
  shows "concat (map lb_Logs (SplitLogsInBatches logs)) = logs
    \<and> list_all batch_wf (SplitLogsInBatches logs)
    \<and> sorted_wrt (<) (map lb_BlockNumber (SplitLogsInBatches logs))"
  by (rule SplitLogsInBatches_correct [OF assms])

lemma split_logs_partition_witness:
  "\<exists>logs. length logs = 2 \<and> concat (map lb_Logs (SplitLogsInBatches logs)) = logs
    \<and> list_all batch_wf (SplitLogsInBatches logs)
    \<and> sorted_wrt (<) (map lb_BlockNumber (SplitLogsInBatches logs))"
proof -
  let ?logs = "[sentinelLog\<lparr>log_BlockNumber := 7\<rparr>, sentinelLog\<lparr>log_BlockNumber := 9\<rparr>]"
  have "batchable ?logs" by (simp add: batchable_def MaxUint32_def)
  from split_logs_partition [OF this] show ?thesis
    by (intro exI [of _ ?logs]) simp
qed

end
