(* ===== verification/Decoders.thy ===== *)
theory Decoders
  imports Entity
begin

text \<open>
  \<open>monitor/decoders.go\<close>: reading a bridge message out of the bytes of an event, and the
  result of an information request out of the calldata of a transaction. The functions of
  go-ethereum that the program calls on bytes and numbers are the fields of the record
  \<open>geth\<close>, a parameter of every definition that uses them; \<open>geth_documented\<close> says
  what their documentation promises. An index or a slice past the end of the input is a panic.

  The lemmas say when each decoder panics, that nothing is read out of bounds, and that
  each one reads back what the layout it expects was packed from.
\<close>

section \<open>The library functions the program calls\<close>

record geth =
  Keccak256Hash :: "byte list \<Rightarrow> hash"
  BytesToHash :: "byte list \<Rightarrow> hash"
  BytesToAddress :: "byte list \<Rightarrow> address"
  BigToHash :: "int \<Rightarrow> hash"
  AddressHash :: "address \<Rightarrow> hash"

definition geth_documented :: "geth \<Rightarrow> bool" where
  "geth_documented G \<longleftrightarrow>
     (\<forall>bs. BytesToHash G bs = word_rcat bs) \<and> (\<forall>bs. BytesToAddress G bs = word_rcat bs) \<and>
     (\<forall>v. BigToHash G v = word_of_int \<bar>v\<bar>) \<and> (\<forall>a. AddressHash G a = ucast a)"

lemma geth_documentedD:
  assumes "geth_documented G"
  shows "BytesToHash G bs = word_rcat bs" "BytesToAddress G bs = word_rcat bs"
    "BigToHash G v = word_of_int \<bar>v\<bar>" "AddressHash G a = ucast a"
  using assms by (simp_all add: geth_documented_def)

text \<open>A library that behaves as documented, with a toy hash function: for concrete runs only.\<close>

definition sample_geth :: geth where
  "sample_geth = \<lparr>Keccak256Hash = (\<lambda>bs. word_rcat bs), BytesToHash = (\<lambda>bs. word_rcat bs),
     BytesToAddress = (\<lambda>bs. word_rcat bs), BigToHash = (\<lambda>v. word_of_int \<bar>v\<bar>), AddressHash = (\<lambda>a. ucast a)\<rparr>"

lemma sample_geth_documented: "geth_documented sample_geth"
  by (simp add: geth_documented_def sample_geth_def)

section \<open>Decoders\<close>

definition unmarshalMessage :: "geth \<Rightarrow> string \<Rightarrow> Direction \<Rightarrow> byte list \<Rightarrow> Message res" where
  "unmarshalMessage G bridgeID direction encodedData =
     res_bind (slice encodedData 0 32) (\<lambda>idBytes.
     let messageID = BytesToHash G idBytes in
     if take 4 (hash_bytes messageID) = [0, 4, 0, 0] then
       res_bind (slice encodedData 64 84) (\<lambda>sender.
       res_bind (slice encodedData 84 104) (\<lambda>executor.
       res_bind (slice encodedData 104 108) (\<lambda>gas4.
       res_bind (be_uint32 gas4) (\<lambda>gas.
       res_bind (index_at encodedData 108) (\<lambda>dataType.
       res_bind (slice_from encodedData 108) (\<lambda>rest.
       Inr \<lparr>msg_BridgeID = bridgeID, msg_MsgHash = Keccak256Hash G encodedData,
         msg_MessageID = messageID, msg_Direction = direction,
         msg_Sender = BytesToAddress G sender, msg_Executor = BytesToAddress G executor,
         msg_Data = rest, msg_DataType = ucast dataType, msg_GasLimit = ucast gas,
         msg_RawMessage = encodedData\<rparr>))))))
     else if take 4 (hash_bytes messageID) = [0, 5, 0, 0] then
       res_bind (slice encodedData 32 52) (\<lambda>sender.
       res_bind (slice encodedData 52 72) (\<lambda>executor.
       res_bind (slice encodedData 72 76) (\<lambda>gas4.
       res_bind (be_uint32 gas4) (\<lambda>gas.
       res_bind (index_at encodedData 78) (\<lambda>dataType.
       res_bind (index_at encodedData 76) (\<lambda>srcLen.
       res_bind (index_at encodedData 77) (\<lambda>dstLen.
       res_bind (slice_from encodedData (unat (79 + srcLen + dstLen :: byte))) (\<lambda>rest.
       Inr \<lparr>msg_BridgeID = bridgeID, msg_MsgHash = Keccak256Hash G encodedData,
         msg_MessageID = messageID, msg_Direction = direction,
         msg_Sender = BytesToAddress G sender, msg_Executor = BytesToAddress G executor,
         msg_Data = rest, msg_DataType = ucast dataType, msg_GasLimit = ucast gas,
         msg_RawMessage = encodedData\<rparr>))))))))
     else Inl Panic)"

definition unmarshalLegacyMessage :: "geth \<Rightarrow> string \<Rightarrow> Direction \<Rightarrow> byte list \<Rightarrow> Message res" where
  "unmarshalLegacyMessage G bridgeID direction encodedData =
     res_bind (index_at encodedData 104) (\<lambda>dataType.
     if dataType > 0 then Inl Panic else
     res_bind (slice encodedData 0 32) (\<lambda>idBytes.
     res_bind (slice encodedData 32 52) (\<lambda>sender.
     res_bind (slice encodedData 52 72) (\<lambda>executor.
     res_bind (slice encodedData 100 104) (\<lambda>gas4.
     res_bind (be_uint32 gas4) (\<lambda>gas.
     res_bind (slice_from encodedData 105) (\<lambda>rest.
     Inr \<lparr>msg_BridgeID = bridgeID, msg_MsgHash = Keccak256Hash G encodedData,
       msg_MessageID = BytesToHash G idBytes, msg_Direction = direction,
       msg_Sender = BytesToAddress G sender, msg_Executor = BytesToAddress G executor,
       msg_Data = rest, msg_DataType = 0, msg_GasLimit = ucast gas,
       msg_RawMessage = encodedData\<rparr>)))))))"

text \<open>The arithmetic on \<open>resultPtr\<close> and \<open>resultLen\<close> is on 32-bit numbers.\<close>

definition unmarshalConfirmInformationResult :: "byte list \<Rightarrow> byte list res" where
  "unmarshalConfirmInformationResult calldata =
     res_bind (slice calldata 96 100) (\<lambda>ptr4.
     res_bind (be_uint32 ptr4) (\<lambda>ptr.
     let resultPtr = 4 + ptr in
     res_bind (slice calldata (unat (resultPtr + 28)) (unat (resultPtr + 32))) (\<lambda>len4.
     res_bind (be_uint32 len4) (\<lambda>resultLen.
     slice calldata (unat (resultPtr + 32)) (unat (resultPtr + 32 + resultLen))))))"

section \<open>When the decoders panic\<close>

lemma slice_cases:
  "slice xs i j = (if i \<le> j \<and> j \<le> length xs then Inr (take (j - i) (drop i xs)) else Inl Panic)"
  by (rule slice_def)

lemma be_uint32_slice:
  assumes "j = i + 4" and "j \<le> length bs"
  shows "be_uint32 (take (j - i) (drop i bs)) = Inr (word_rcat (take 4 (drop i bs)))"
  using assms by (simp add: be_uint32_def)

text \<open>The version prefix the decoder reads, for a documented library.\<close>

lemma message_prefix:
  assumes "geth_documented G" and "32 \<le> length bs"
  shows "take 4 (hash_bytes (BytesToHash G (take 32 bs))) = take 4 bs"
  using assms by (simp add: geth_documentedD hash_bytes_word_rcat min_def)

definition v5_offset :: "byte list \<Rightarrow> nat" where
  "v5_offset bs = unat (79 + bs ! 76 + bs ! 77 :: byte)"

lemma unmarshalMessage_panics:
  assumes "geth_documented G"
  shows "unmarshalMessage G bridgeID dir bs = Inl f \<longleftrightarrow>
    f = Panic \<and>
    (length bs < 32 \<or>
     (take 4 bs = [0, 4, 0, 0] \<and> length bs < 109) \<or>
     (take 4 bs = [0, 5, 0, 0] \<and> (length bs < 79 \<or> length bs < v5_offset bs)) \<or>
     (take 4 bs \<noteq> [0, 4, 0, 0] \<and> take 4 bs \<noteq> [0, 5, 0, 0]))"
proof (cases "length bs < 32")
  case True
  then show ?thesis by (auto simp: unmarshalMessage_def slice_cases)
next
  case False
  then have len: "32 \<le> length bs" by simp
  note pre = message_prefix [OF assms len]
  consider (v4) "take 4 bs = [0, 4, 0, 0]" | (v5) "take 4 bs = [0, 5, 0, 0]"
    | (other) "take 4 bs \<noteq> [0, 4, 0, 0]" "take 4 bs \<noteq> [0, 5, 0, 0]" by blast
  then show ?thesis
  proof cases
    case v4
    with len pre show ?thesis
      by (auto simp: unmarshalMessage_def slice_cases slice_from_def index_at_def be_uint32_def Let_def
          res_bind_def split: if_splits)
  next
    case v5
    with len pre show ?thesis
      by (auto simp: unmarshalMessage_def slice_cases slice_from_def index_at_def be_uint32_def Let_def
          v5_offset_def res_bind_def split: if_splits)
  next
    case other
    with len pre show ?thesis
      by (auto simp: unmarshalMessage_def slice_cases Let_def)
  qed
qed

lemma unmarshalLegacyMessage_panics:
  "unmarshalLegacyMessage G bridgeID dir bs = Inl f \<longleftrightarrow>
    f = Panic \<and> (length bs < 105 \<or> bs ! 104 \<noteq> 0)"
  by (auto simp: unmarshalLegacyMessage_def slice_cases slice_from_def index_at_def be_uint32_def
      res_bind_def word_greater_zero_iff split: if_splits)

lemma unmarshalConfirmInformationResult_not_Err:
  "unmarshalConfirmInformationResult bs = Inl f \<Longrightarrow> f = Panic"
  by (auto simp: unmarshalConfirmInformationResult_def slice_cases be_uint32_def Let_def
      res_bind_def split: if_splits)

section \<open>Round trips\<close>

text \<open>
  The packed layouts. Version 5 of an AMB message is id, sender, executor, gas limit (4
  bytes), the lengths of the two chain ids, the data type, the chain ids, the calldata; a
  legacy message is transaction hash, sender, receiver, gas limit (32 bytes), data type,
  calldata, as the comment in the decoder lists them. The calldata of
  \<open>confirmInformation(bytes32,bool,bytes)\<close> is the ABI encoding with the byte string
  at offset 96.
\<close>

definition encode_v5 ::
  "hash \<Rightarrow> address \<Rightarrow> address \<Rightarrow> uint32 \<Rightarrow> byte \<Rightarrow> byte list \<Rightarrow> byte list \<Rightarrow> byte list \<Rightarrow> byte list" where
  "encode_v5 mid sender executor gas dataType src dst cd =
     hash_bytes mid @ address_bytes sender @ address_bytes executor @ be_bytes 4 gas @
     [of_nat (length src), of_nat (length dst), dataType] @ src @ dst @ cd"

definition encode_v4 ::
  "hash \<Rightarrow> hash \<Rightarrow> address \<Rightarrow> address \<Rightarrow> uint32 \<Rightarrow> byte \<Rightarrow> byte list \<Rightarrow> byte list" where
  "encode_v4 mid w sender executor gas dataType cd =
     hash_bytes mid @ hash_bytes w @ address_bytes sender @ address_bytes executor @ be_bytes 4 gas @
     [dataType] @ cd"

definition encode_legacy ::
  "hash \<Rightarrow> address \<Rightarrow> address \<Rightarrow> uint32 \<Rightarrow> byte \<Rightarrow> byte list \<Rightarrow> byte list" where
  "encode_legacy tx sender executor gas dataType cd =
     hash_bytes tx @ address_bytes sender @ address_bytes executor @ replicate 28 0 @ be_bytes 4 gas @
     [dataType] @ cd"

definition encode_confirm ::
  "byte list \<Rightarrow> hash \<Rightarrow> byte list \<Rightarrow> byte list \<Rightarrow> byte list \<Rightarrow> byte list" where
  "encode_confirm selector mid status result padding =
     selector @ hash_bytes mid @ status @ be_bytes 32 (96 :: hash) @
     be_bytes 32 (of_nat (length result) :: hash) @ result @ padding"

text \<open>Pieces of a concatenation, one at a time.\<close>

lemma drop_length_append: "length a = n \<Longrightarrow> drop n (a @ b) = b"
  by simp

lemma slice_skip: "length a \<le> i \<Longrightarrow> i \<le> j \<Longrightarrow> slice (a @ b) i j = slice b (i - length a) (j - length a)"
  by (simp add: slice_def) (auto simp: le_diff_conv2)

lemma slice_take: "length a = j \<Longrightarrow> slice (a @ b) 0 j = Inr a"
  by (simp add: slice_def)

lemma index_at_skip: "length a \<le> i \<Longrightarrow> index_at (a @ b) i = index_at b (i - length a)"
  by (auto simp: index_at_def nth_append)

lemma slice_from_skip: "length a \<le> i \<Longrightarrow> slice_from (a @ b) i = slice_from b (i - length a)"
  by (auto simp: slice_from_def slice_def le_diff_conv2)

lemma slice_from_0 [simp]: "slice_from xs 0 = Inr xs"
  by (simp add: slice_from_def slice_def)

lemma index_at_Cons [simp]: "index_at (x # xs) 0 = Inr x"
  "index_at (x # xs) (Suc n) = index_at xs n"
  by (simp_all add: index_at_def)

lemmas piece_simps = slice_skip slice_take index_at_skip slice_from_skip

lemma unmarshalMessage_encode_v5:
  assumes G: "geth_documented G"
    and version: "take 4 (hash_bytes mid) = [0, 5, 0, 0]"
    and lens: "79 + length src + length dst < 256"
  shows "unmarshalMessage G bridgeID dir (encode_v5 mid sender executor gas dataType src dst cd) =
    Inr \<lparr>msg_BridgeID = bridgeID,
      msg_MsgHash = Keccak256Hash G (encode_v5 mid sender executor gas dataType src dst cd),
      msg_MessageID = mid, msg_Direction = dir, msg_Sender = sender, msg_Executor = executor,
      msg_Data = cd, msg_DataType = ucast dataType, msg_GasLimit = ucast gas,
      msg_RawMessage = encode_v5 mid sender executor gas dataType src dst cd\<rparr>"
proof -
  let ?bs = "encode_v5 mid sender executor gas dataType src dst cd"
  have off: "unat (79 + of_nat (length src) + of_nat (length dst) :: byte) = 79 + length src + length dst"
  proof -
    have "(79 + of_nat (length src) + of_nat (length dst) :: byte) = of_nat (79 + length src + length dst)"
      by simp
    then show ?thesis using lens by (simp add: unat_of_nat del: of_nat_add)
  qed
  have parts: "slice ?bs 0 32 = Inr (hash_bytes mid)" "slice ?bs 32 52 = Inr (address_bytes sender)"
    "slice ?bs 52 72 = Inr (address_bytes executor)" "slice ?bs 72 76 = Inr (be_bytes 4 gas)"
    "index_at ?bs 78 = Inr dataType" "index_at ?bs 76 = Inr (of_nat (length src))"
    "index_at ?bs 77 = Inr (of_nat (length dst))"
    "slice_from ?bs (79 + length src + length dst) = Inr cd"
    by (simp_all add: encode_v5_def piece_simps numeral_eq_Suc slice_from_def slice_def)
  show ?thesis
    unfolding unmarshalMessage_def parts
    using version by (simp add: geth_documentedD [OF G] parts off)
qed

lemma unmarshalLegacyMessage_encode:
  assumes G: "geth_documented G"
  shows "unmarshalLegacyMessage G bridgeID dir (encode_legacy tx sender executor gas 0 cd) =
    Inr \<lparr>msg_BridgeID = bridgeID,
      msg_MsgHash = Keccak256Hash G (encode_legacy tx sender executor gas 0 cd),
      msg_MessageID = tx, msg_Direction = dir, msg_Sender = sender, msg_Executor = executor,
      msg_Data = cd, msg_DataType = 0, msg_GasLimit = ucast gas,
      msg_RawMessage = encode_legacy tx sender executor gas 0 cd\<rparr>"
proof -
  let ?bs = "encode_legacy tx sender executor gas 0 cd"
  have parts: "slice ?bs 0 32 = Inr (hash_bytes tx)" "slice ?bs 32 52 = Inr (address_bytes sender)"
    "slice ?bs 52 72 = Inr (address_bytes executor)" "slice ?bs 100 104 = Inr (be_bytes 4 gas)"
    "index_at ?bs 104 = Inr 0" "slice_from ?bs 105 = Inr cd"
    by (simp_all add: encode_legacy_def piece_simps slice_from_def slice_def)
  show ?thesis
    unfolding unmarshalLegacyMessage_def parts
    by (simp add: geth_documentedD [OF G] parts)
qed

text \<open>The version 4 branch keeps the data type byte at the head of the data.\<close>

lemma unmarshalMessage_encode_v4:
  assumes G: "geth_documented G"
    and version: "take 4 (hash_bytes mid) = [0, 4, 0, 0]"
  shows "unmarshalMessage G bridgeID dir (encode_v4 mid w sender executor gas dataType cd) =
    Inr \<lparr>msg_BridgeID = bridgeID,
      msg_MsgHash = Keccak256Hash G (encode_v4 mid w sender executor gas dataType cd),
      msg_MessageID = mid, msg_Direction = dir, msg_Sender = sender, msg_Executor = executor,
      msg_Data = dataType # cd, msg_DataType = ucast dataType, msg_GasLimit = ucast gas,
      msg_RawMessage = encode_v4 mid w sender executor gas dataType cd\<rparr>"
proof -
  let ?bs = "encode_v4 mid w sender executor gas dataType cd"
  have parts: "slice ?bs 0 32 = Inr (hash_bytes mid)" "slice ?bs 64 84 = Inr (address_bytes sender)"
    "slice ?bs 84 104 = Inr (address_bytes executor)" "slice ?bs 104 108 = Inr (be_bytes 4 gas)"
    "index_at ?bs 108 = Inr dataType" "slice_from ?bs 108 = Inr (dataType # cd)"
    by (simp_all add: encode_v4_def piece_simps slice_from_def slice_def)
  show ?thesis
    unfolding unmarshalMessage_def parts
    using version by (simp add: geth_documentedD [OF G] parts)
qed

text \<open>The low bytes of a number: \<open>drop\<close> leaves the last ones.\<close>

lemma drop_be_bytes: "k \<le> n \<Longrightarrow> drop k (be_bytes n w) = be_bytes (n - k) w"
  by (simp add: be_bytes_def drop_map drop_rev)

lemma be_bytes_4_of_nat: "be_bytes 4 (of_nat n :: hash) = be_bytes 4 (of_nat n :: uint32)"
proof -
  have "(ucast (drop_bit (8 * i) (of_nat n :: hash)) :: byte) = ucast (drop_bit (8 * i) (of_nat n :: uint32))"
    if "i < 4" for i
    by (rule bit_word_eqI) (use that in \<open>simp add: bit_simps\<close>)
  then show ?thesis by (simp add: be_bytes_def)
qed

lemma slice_low4:
  assumes "length a = i" and "j = i + 32"
  shows "slice (a @ be_bytes 32 (of_nat n :: hash) @ c) (i + 28) j = Inr (be_bytes 4 (of_nat n :: uint32))"
  using assms by (simp add: slice_def drop_be_bytes be_bytes_4_of_nat)

lemma unmarshalConfirmInformationResult_encode:
  assumes "length selector = 4" and "length status = 32" and "length result + 132 < 2 ^ 32"
  shows "unmarshalConfirmInformationResult (encode_confirm selector mid status result padding) = Inr result"
proof -
  let ?cd = "encode_confirm selector mid status result padding"
  let ?pre = "selector @ hash_bytes mid @ status"
  let ?pre2 = "?pre @ be_bytes 32 (96 :: hash)"
  have 1: "slice ?cd 96 100 = Inr (be_bytes 4 (96 :: uint32))"
    using slice_low4 [of ?pre 68 100 96 "be_bytes 32 (of_nat (length result) :: hash) @ result @ padding"]
      assms(1,2) by (simp add: encode_confirm_def)
  have 2: "slice ?cd 128 132 = Inr (be_bytes 4 (of_nat (length result) :: uint32))"
    using slice_low4 [of ?pre2 100 132 "length result" "result @ padding"]
      assms(1,2) by (simp add: encode_confirm_def)
  have 3: "slice ?cd 132 (132 + length result) = Inr result"
    using assms(1,2) by (simp add: encode_confirm_def slice_def)
  have "(4 + 96 + 32 + of_nat (length result) :: uint32) = of_nat (132 + length result)" by simp
  then have "unat (4 + 96 + 32 + of_nat (length result) :: uint32) = 132 + length result"
    using assms(3) by (simp add: unat_of_nat del: of_nat_add)
  then show ?thesis
    using 1 2 3 by (simp add: unmarshalConfirmInformationResult_def Let_def)
qed

section \<open>Properties\<close>

text \<open>Property C38. A version 5 message packed as the AMB contracts pack it, with chain ids whose
  lengths add up to at most 176 bytes, is decoded to the fields it was packed from.\<close>

theorem decode_v5_roundtrip:
  assumes "geth_documented G" and "take 4 (hash_bytes mid) = [0, 5, 0, 0]"
    and "79 + length src + length dst < 256"
  shows "\<exists>m. unmarshalMessage G bridgeID dir (encode_v5 mid sender executor gas dataType src dst cd) = Inr m
    \<and> msg_MessageID m = mid \<and> msg_Sender m = sender \<and> msg_Executor m = executor
    \<and> msg_GasLimit m = ucast gas \<and> msg_DataType m = ucast dataType \<and> msg_Data m = cd
    \<and> msg_BridgeID m = bridgeID \<and> msg_Direction m = dir"
  using unmarshalMessage_encode_v5 [OF assms] by simp

definition sample_mid :: hash where
  "sample_mid = word_rcat ([0, 5, 0, 0] @ replicate 28 7 :: byte list)"

lemma sample_mid_prefix: "take 4 (hash_bytes sample_mid) = [0, 5, 0, 0]"
  by (simp add: sample_mid_def hash_bytes_word_rcat)

lemma decode_v5_roundtrip_witness:
  "\<exists>m. unmarshalMessage sample_geth ''xdai'' DirectionForeignToHome
      (encode_v5 sample_mid 10 20 100000 0 [1] [0, 100] [1, 2, 3]) = Inr m
    \<and> msg_MessageID m = sample_mid \<and> msg_Sender m = 10 \<and> msg_Executor m = 20
    \<and> msg_GasLimit m = ucast (100000 :: uint32) \<and> msg_DataType m = ucast (0 :: byte) \<and> msg_Data m = [1, 2, 3]
    \<and> msg_BridgeID m = ''xdai'' \<and> msg_Direction m = DirectionForeignToHome"
  by (rule decode_v5_roundtrip [OF sample_geth_documented sample_mid_prefix]) simp

text \<open>A legacy message is decoded to the fields it was packed from; its id is the
  transaction hash.\<close>

theorem decode_legacy_roundtrip:
  assumes "geth_documented G"
  shows "\<exists>m. unmarshalLegacyMessage G bridgeID dir (encode_legacy tx sender executor gas 0 cd) = Inr m
    \<and> msg_MessageID m = tx \<and> msg_Sender m = sender \<and> msg_Executor m = executor
    \<and> msg_GasLimit m = ucast gas \<and> msg_DataType m = 0 \<and> msg_Data m = cd"
  using unmarshalLegacyMessage_encode [OF assms] by simp

lemma decode_legacy_roundtrip_witness:
  "\<exists>m. unmarshalLegacyMessage sample_geth ''xdai'' DirectionHomeToForeign
      (encode_legacy 99 10 20 100000 0 [1, 2, 3]) = Inr m
    \<and> msg_MessageID m = 99 \<and> msg_Sender m = 10 \<and> msg_Executor m = 20
    \<and> msg_GasLimit m = ucast (100000 :: uint32) \<and> msg_DataType m = 0 \<and> msg_Data m = [1, 2, 3]"
  by (rule decode_legacy_roundtrip [OF sample_geth_documented])

text \<open>\<open>unmarshalMessage\<close> never returns an error; it panics exactly when the input
  is shorter than what its version needs (for version 5, shorter than an offset that is computed
  on bytes and wraps at 256), or when the version prefix is unknown.\<close>

theorem decode_panics:
  assumes "geth_documented G"
  shows "unmarshalMessage G bridgeID dir bs = Inl f \<longleftrightarrow>
    f = Panic \<and>
    (length bs < 32 \<or>
     (take 4 bs = [0, 4, 0, 0] \<and> length bs < 109) \<or>
     (take 4 bs = [0, 5, 0, 0] \<and> (length bs < 79 \<or> length bs < v5_offset bs)) \<or>
     (take 4 bs \<noteq> [0, 4, 0, 0] \<and> take 4 bs \<noteq> [0, 5, 0, 0]))"
  by (rule unmarshalMessage_panics [OF assms])

lemma decode_panics_witness:
  "unmarshalMessage sample_geth ''xdai'' DirectionForeignToHome [1, 2, 3] = Inl Panic"
  using decode_panics [OF sample_geth_documented, of "''xdai''" DirectionForeignToHome "[1, 2, 3]" Panic]
  by simp

text \<open>The result of an information request is read back out of the calldata of
  \<open>confirmInformation\<close> that the ABI encodes it into.\<close>

theorem decode_confirm_roundtrip:
  assumes "length selector = 4" and "length status = 32" and "length result + 132 < 2 ^ 32"
  shows "unmarshalConfirmInformationResult (encode_confirm selector mid status result padding) = Inr result"
  by (rule unmarshalConfirmInformationResult_encode [OF assms])

lemma decode_confirm_roundtrip_witness:
  "unmarshalConfirmInformationResult
     (encode_confirm [1, 2, 3, 4] 5 (replicate 32 0) [9, 8, 7] (replicate 29 0)) = Inr [9, 8, 7]"
  by (rule decode_confirm_roundtrip) simp_all

end
