(* ===== verification/Table.thy ===== *)
theory Table
  imports Entity
begin

text \<open>
  A PostgreSQL table as the repositories of \<open>repository/postgres/\<close> use it: rows that
  are inserted, or updated when a unique key is already there (\<open>INSERT ... ON CONFLICT
  (key) DO UPDATE SET ...\<close>), and never deleted. The locale \<open>keyed\<close> states what an
  update clause promises (it keeps the key), and holds the lemmas every table shares: keys stay
  unique, an upsert acts on the table as an update acts on a map, rows are never lost; its extension
  \<open>keyed_idem\<close> adds that repeating a statement changes nothing but time stamps. Each table
  of the database is an interpretation (theory \<open>Database\<close>).
\<close>

record 'r row =
  r_val :: 'r
  r_created :: time
  r_updated :: time

type_synonym 'r table = "'r row list"

definition vals :: "'r table \<Rightarrow> 'r list" where
  "vals rows = map r_val rows"

definition upsert :: "('r \<Rightarrow> 'k) \<Rightarrow> ('r \<Rightarrow> 'r \<Rightarrow> 'r) \<Rightarrow> time \<Rightarrow> 'r \<Rightarrow> 'r table \<Rightarrow> 'r table" where
  "upsert key upd now new rows =
     (if list_ex (\<lambda>r. key (r_val r) = key new) rows
      then map (\<lambda>r. if key (r_val r) = key new
         then r\<lparr>r_val := upd (r_val r) new, r_updated := now\<rparr> else r) rows
      else rows @ [\<lparr>r_val = new, r_created = now, r_updated = now\<rparr>])"

text \<open>The update clause \<open>SET updated_at = NOW()\<close> leaves the other columns.\<close>

definition keep_row :: "'r \<Rightarrow> 'r \<Rightarrow> 'r" where
  "keep_row old new = old"

text \<open>
  One statement: the column checks of the proposed row come first, then the search for the
  key; an insertion is subject to the table's other constraints \<open>ins_ok\<close> (foreign keys,
  further unique indexes), an update to \<open>upd_ok\<close>. \<open>None\<close>: the statement is refused and
  nothing changes.
\<close>

definition ensure_row ::
  "('r \<Rightarrow> 'k) \<Rightarrow> ('r \<Rightarrow> 'r \<Rightarrow> 'r) \<Rightarrow> ('r \<Rightarrow> bool) \<Rightarrow> ('r \<Rightarrow> bool) \<Rightarrow> ('r \<Rightarrow> bool) \<Rightarrow> time \<Rightarrow> 'r \<Rightarrow>
    'r table \<Rightarrow> 'r table option" where
  "ensure_row key upd checks ins_ok upd_ok now new rows =
     (if \<not> checks new then None
      else if list_ex (\<lambda>r. key (r_val r) = key new) rows
        then if upd_ok new then Some (upsert key upd now new rows) else None
        else if ins_ok new then Some (upsert key upd now new rows) else None)"

definition lookup :: "('r \<Rightarrow> 'k) \<Rightarrow> 'r table \<Rightarrow> 'k \<Rightarrow> 'r option" where
  "lookup key rows k = find (\<lambda>v. key v = k) (vals rows)"

text \<open>The columns \<open>core\<close> of every row stay in the table.\<close>

definition tbl_le :: "('r \<Rightarrow> 'c) \<Rightarrow> 'r table \<Rightarrow> 'r table \<Rightarrow> bool" where
  "tbl_le core rows rows' \<longleftrightarrow> core ` set (vals rows) \<subseteq> core ` set (vals rows')"

lemma tbl_le_refl [simp, intro]: "tbl_le core rows rows"
  by (simp add: tbl_le_def)

lemma tbl_le_trans: "tbl_le core a b \<Longrightarrow> tbl_le core b c \<Longrightarrow> tbl_le core a c"
  by (auto simp: tbl_le_def)

lemma tbl_leD: "tbl_le core a b \<Longrightarrow> v \<in> set (vals a) \<Longrightarrow> \<exists>v' \<in> set (vals b). core v' = core v"
  by (fastforce simp: tbl_le_def)

lemma list_ex_key: "list_ex (\<lambda>r. key (r_val r) = k) rows \<longleftrightarrow> k \<in> key ` set (vals rows)"
  by (auto simp: list_ex_iff vals_def)

lemma ensure_row_Some:
  "ensure_row key upd checks ins_ok upd_ok now new rows = Some rows' \<longleftrightarrow>
     checks new \<and> (if key new \<in> key ` set (vals rows) then upd_ok new else ins_ok new)
     \<and> rows' = upsert key upd now new rows"
  by (auto simp: ensure_row_def list_ex_key)

lemma ensure_row_SomeD:
  "ensure_row key upd checks ins_ok upd_ok now new rows = Some rows' \<Longrightarrow>
     rows' = upsert key upd now new rows \<and> checks new"
  by (simp add: ensure_row_Some)

lemma lookup_in: "lookup key rows k = Some v \<Longrightarrow> v \<in> set (vals rows) \<and> key v = k"
  by (auto simp: lookup_def dest: find_Some_in)

lemma lookup_None: "lookup key rows k = None \<longleftrightarrow> k \<notin> key ` set (vals rows)"
  by (auto simp: lookup_def find_None_iff)

lemma lookup_unique:
  "distinct (map key (vals rows)) \<Longrightarrow> v \<in> set (vals rows) \<Longrightarrow> lookup key rows (key v) = Some v"
  unfolding lookup_def by (rule find_unique) (auto simp: distinct_map inj_on_def)

lemma find_map_step:
  "find P (map f xs) = map_option f (find (\<lambda>x. P (f x)) xs)"
  by (induction xs) auto

lemma find_append: "find P (xs @ ys) = (case find P xs of Some x \<Rightarrow> Some x | None \<Rightarrow> find P ys)"
  by (induction xs) auto

section \<open>Tables with a key\<close>

locale keyed =
  fixes key :: "'r \<Rightarrow> 'k" and upd :: "'r \<Rightarrow> 'r \<Rightarrow> 'r"
  assumes key_upd: "key old = key new \<Longrightarrow> key (upd old new) = key old"
begin

lemma vals_upsert:
  "vals (upsert key upd now new rows) =
     (if key new \<in> key ` set (vals rows)
      then map (\<lambda>v. if key v = key new then upd v new else v) (vals rows)
      else vals rows @ [new])"
  unfolding upsert_def list_ex_key by (auto simp: vals_def)

lemma keys_upsert:
  "map key (vals (upsert key upd now new rows)) =
     (if key new \<in> key ` set (vals rows) then map key (vals rows) else map key (vals rows) @ [key new])"
  by (simp add: vals_upsert key_upd cong: if_cong map_cong)

lemma distinct_upsert:
  "distinct (map key (vals rows)) \<Longrightarrow> distinct (map key (vals (upsert key upd now new rows)))"
  unfolding keys_upsert by auto

text \<open>The refinement to maps.\<close>

lemma lookup_upsert:
  "lookup key (upsert key upd now new rows) =
     (lookup key rows)(key new \<mapsto> (case lookup key rows (key new) of None \<Rightarrow> new | Some old \<Rightarrow> upd old new))"
proof
  fix k
  show "lookup key (upsert key upd now new rows) k =
     ((lookup key rows)(key new \<mapsto> (case lookup key rows (key new) of None \<Rightarrow> new | Some old \<Rightarrow> upd old new))) k"
  proof (cases "key new \<in> key ` set (vals rows)")
    case False
    then have none: "lookup key rows (key new) = None" by (simp add: lookup_None)
    then have "find (\<lambda>v. key v = key new) (vals rows) = None" by (simp add: lookup_def)
    with False none show ?thesis
      by (auto simp: lookup_def vals_upsert find_append split: option.splits)
  next
    case True
    have eq: "(\<lambda>v. key (if key v = key new then upd v new else v) = k) = (\<lambda>v. key v = k)"
      by (auto simp: key_upd fun_eq_iff)
    obtain old where old: "lookup key rows (key new) = Some old"
      using True lookup_None [of key rows "key new"] by (cases "lookup key rows (key new)") auto
    have "lookup key (upsert key upd now new rows) k =
        map_option (\<lambda>v. if key v = key new then upd v new else v) (lookup key rows k)"
      using True by (simp add: lookup_def vals_upsert find_map_step eq)
    then show ?thesis
      using old lookup_in [OF old] by (cases "lookup key rows k") (auto dest: lookup_in)
  qed
qed

lemma upsert_has_key: "key new \<in> key ` set (vals (upsert key upd now new rows))"
proof -
  have "lookup key (upsert key upd now new rows) (key new) \<noteq> None"
    by (simp add: lookup_upsert)
  then show ?thesis using lookup_None by metis
qed

lemma upsert_cases:
  assumes "v \<in> set (vals (upsert key upd now new rows))"
  shows "v \<in> set (vals rows) \<or> v = new \<or> (\<exists>old \<in> set (vals rows). key old = key new \<and> v = upd old new)"
  using assms by (auto simp: vals_upsert split: if_splits)

text \<open>Columns that the update clause does not touch are never lost.\<close>

lemma tbl_le_upsert:
  assumes "\<And>old. old \<in> set (vals rows) \<Longrightarrow> key old = key new \<Longrightarrow> core (upd old new) = core old"
  shows "tbl_le core rows (upsert key upd now new rows)"
proof -
  have "core v \<in> core ` set (vals (upsert key upd now new rows))" if v: "v \<in> set (vals rows)" for v
  proof (cases "key new \<in> key ` set (vals rows)")
    case True
    let ?f = "\<lambda>v. if key v = key new then upd v new else v"
    have "core (?f v) = core v" using assms v by auto
    moreover have "?f v \<in> set (vals (upsert key upd now new rows))"
      using True v by (simp add: vals_upsert)
    ultimately show ?thesis by (metis image_eqI)
  next
    case False
    then show ?thesis using v by (simp add: vals_upsert)
  qed
  then show ?thesis by (auto simp: tbl_le_def)
qed

end

text \<open>
  Repeating a statement: the second time, the row is found and updated to itself.
\<close>

locale keyed_idem = keyed key upd
  for key :: "'r \<Rightarrow> 'k" and upd :: "'r \<Rightarrow> 'r \<Rightarrow> 'r" +
  assumes upd_idem: "upd (upd old new) new = upd old new"
    and upd_self: "upd new new = new"
begin

lemma upsert_idem:
  "vals (upsert key upd now' new (upsert key upd now new rows)) = vals (upsert key upd now new rows)"
proof -
  have "key new \<in> key ` set (vals (upsert key upd now new rows))" by (rule upsert_has_key)
  then have "vals (upsert key upd now' new (upsert key upd now new rows)) =
      map (\<lambda>v. if key v = key new then upd v new else v) (vals (upsert key upd now new rows))"
    by (simp add: vals_upsert [of now' new "upsert key upd now new rows"])
  also have "\<dots> = vals (upsert key upd now new rows)"
  proof (rule map_idI)
    fix v assume "v \<in> set (vals (upsert key upd now new rows))"
    then consider "v = new" | old where "v = upd old new" | "key v \<noteq> key new"
      by (auto simp: vals_upsert image_iff split: if_splits)
    then show "(if key v = key new then upd v new else v) = v"
      by cases (simp_all add: upd_self upd_idem)
  qed
  finally show ?thesis .
qed

end

lemma keep_row_keyed_idem: "keyed_idem key keep_row"
  by unfold_locales (simp_all add: keep_row_def)

end
