(* ===== verification/Database.thy ===== *)
theory Database
  imports Table
begin

text \<open>
  The PostgreSQL database behind the repositories: the tables that \<open>db/migrations/\<close>
  creates, with the constraints the migrations declare, and the world the program's calls act
  on. A query may fail before it reaches the server (\<open>DbLost\<close>) or after it has been executed
  there (\<open>DbUnacked\<close>, the caller sees an error all the same); which of the two happens, and what
  the server's clock shows, is given for every moment by the environment.

  \<open>db_inv\<close> is what the constraints keep true of the tables; \<open>db_le\<close> orders databases
  by growth: no row is lost, and only the columns that some update clause names may change.

  Where a query names no order, rows come in the order of insertion: the server may give
  another one, and no lemma depends on it.
\<close>

record database =
  db_logs_cursors :: "LogsCursor table"
  db_logs :: "Log table"
  db_logs_seq :: nat
  db_block_timestamps :: "BlockTimestamp table"
  db_messages :: "Message table"
  db_erc_to_native_messages :: "ErcToNativeMessage table"
  db_sent_messages :: "SentMessage table"
  db_signed_messages :: "SignedMessage table"
  db_collected_messages :: "CollectedMessage table"
  db_executed_messages :: "ExecutedMessage table"
  db_information_requests :: "InformationRequest table"
  db_sent_information_requests :: "SentInformationRequest table"
  db_signed_information_requests :: "SignedInformationRequest table"
  db_executed_information_requests :: "ExecutedInformationRequest table"
  db_bridge_validators :: "BridgeValidator table"

definition emptyDatabase :: database where
  "emptyDatabase = \<lparr>db_logs_cursors = [], db_logs = [], db_logs_seq = 0, db_block_timestamps = [],
     db_messages = [], db_erc_to_native_messages = [], db_sent_messages = [], db_signed_messages = [],
     db_collected_messages = [], db_executed_messages = [], db_information_requests = [],
     db_sent_information_requests = [], db_signed_information_requests = [],
     db_executed_information_requests = [], db_bridge_validators = []\<rparr>"

section \<open>The world\<close>

datatype db_fault = DbOk | DbLost | DbUnacked

record env =
  env_db :: "nat \<Rightarrow> db_fault"
  env_clock :: "nat \<Rightarrow> time"

record world =
  w_db :: database
  w_tick :: nat

text \<open>A statement gives its result and the database it leaves; a query only a result.\<close>

definition db_exec :: "env \<Rightarrow> (time \<Rightarrow> database \<Rightarrow> 'a res \<times> database) \<Rightarrow> (world, 'a) io" where
  "db_exec E stmt w =
     (let t = w_tick w; (r, d) = stmt (env_clock E t) (w_db w) in
      case env_db E t of
        DbOk \<Rightarrow> (r, \<lparr>w_db = d, w_tick = Suc t\<rparr>)
      | DbLost \<Rightarrow> (Inl (Err ErrDB), \<lparr>w_db = w_db w, w_tick = Suc t\<rparr>)
      | DbUnacked \<Rightarrow> (Inl (Err ErrDB), \<lparr>w_db = d, w_tick = Suc t\<rparr>))"

definition db_query :: "env \<Rightarrow> (database \<Rightarrow> 'a res) \<Rightarrow> (world, 'a) io" where
  "db_query E q = db_exec E (\<lambda>now d. (q d, d))"

text \<open>\<open>GetContext\<close> of \<open>db/db.go\<close>: the first row, or \<open>ErrNotFound\<close>.\<close>

definition first_row :: "'a list \<Rightarrow> 'a res" where
  "first_row rows = (case rows of [] \<Rightarrow> Inl (Err ErrNotFound) | r # _ \<Rightarrow> Inr r)"

text \<open>\<open>db.IgnoreErrNotFound\<close>, on the result of a call: a missing row is the nil pointer.\<close>

definition IgnoreErrNotFound :: "(world, 'a) io \<Rightarrow> (world, 'a option) io" where
  "IgnoreErrNotFound m w = (case m w of
     (Inl e, w') \<Rightarrow> if e = Err ErrNotFound then (Inr None, w') else (Inl e, w')
   | (Inr a, w') \<Rightarrow> (Inr (Some a), w'))"

section \<open>Column domains, keys and constraints\<close>

definition int4_max :: nat where
  "int4_max = 2147483647"

definition int4_ok :: "uint \<Rightarrow> bool" where
  "int4_ok n \<longleftrightarrow> unat n \<le> int4_max"

definition byte_ok :: "uint \<Rightarrow> bool" where
  "byte_ok n \<longleftrightarrow> unat n \<le> 255"

text \<open>Chain ids are kept as the decimal texts of positive numbers.\<close>

definition chain_id_ok :: "string \<Rightarrow> bool" where
  "chain_id_ok c \<longleftrightarrow> list_all (\<lambda>ch. of_char ch \<in> {48..57 :: nat}) c \<and> 0 < digits_value 0 c"

definition log_key :: "Log \<Rightarrow> string \<times> uint \<times> uint" where
  "log_key l = (log_ChainID l, log_BlockNumber l, log_LogIndex l)"

definition cursor_key :: "LogsCursor \<Rightarrow> string \<times> address" where
  "cursor_key c = (lc_ChainID c, lc_Address c)"

definition ts_key :: "BlockTimestamp \<Rightarrow> string \<times> uint" where
  "ts_key t = (bt_ChainID t, bt_BlockNumber t)"

definition msg_key :: "Message \<Rightarrow> string \<times> hash" where
  "msg_key m = (msg_BridgeID m, msg_MsgHash m)"

definition erc_key :: "ErcToNativeMessage \<Rightarrow> string \<times> hash" where
  "erc_key m = (erc_BridgeID m, erc_MsgHash m)"

definition ir_key :: "InformationRequest \<Rightarrow> string \<times> hash" where
  "ir_key r = (ir_BridgeID r, ir_MessageID r)"

text \<open>The update clauses that name columns beside \<open>updated_at\<close>.\<close>

definition upd_cursor :: "LogsCursor \<Rightarrow> LogsCursor \<Rightarrow> LogsCursor" where
  "upd_cursor old new = old\<lparr>lc_LastFetchedBlock := lc_LastFetchedBlock new,
     lc_LastProcessedBlock := lc_LastProcessedBlock new\<rparr>"

definition upd_ts :: "BlockTimestamp \<Rightarrow> BlockTimestamp \<Rightarrow> BlockTimestamp" where
  "upd_ts old new = old\<lparr>bt_Timestamp := bt_Timestamp new\<rparr>"

definition upd_erc :: "ErcToNativeMessage \<Rightarrow> ErcToNativeMessage \<Rightarrow> ErcToNativeMessage" where
  "upd_erc old new = old\<lparr>erc_Sender := erc_Sender new\<rparr>"

definition upd_validator :: "BridgeValidator \<Rightarrow> BridgeValidator \<Rightarrow> BridgeValidator" where
  "upd_validator old new = old\<lparr>bv_RemovedLogID := bv_RemovedLogID new\<rparr>"

interpretation logs_tbl: keyed_idem log_key keep_row by (rule keep_row_keyed_idem)
interpretation messages_tbl: keyed_idem msg_key keep_row by (rule keep_row_keyed_idem)
interpretation sent_tbl: keyed_idem sm_LogID keep_row by (rule keep_row_keyed_idem)
interpretation signed_tbl: keyed_idem sgm_LogID keep_row by (rule keep_row_keyed_idem)
interpretation collected_tbl: keyed_idem cm_LogID keep_row by (rule keep_row_keyed_idem)
interpretation executed_tbl: keyed_idem em_LogID keep_row by (rule keep_row_keyed_idem)
interpretation requests_tbl: keyed_idem ir_key keep_row by (rule keep_row_keyed_idem)
interpretation sent_requests_tbl: keyed_idem sir_LogID keep_row by (rule keep_row_keyed_idem)
interpretation signed_requests_tbl: keyed_idem sgir_LogID keep_row by (rule keep_row_keyed_idem)
interpretation executed_requests_tbl: keyed_idem eir_LogID keep_row by (rule keep_row_keyed_idem)

interpretation cursors_tbl: keyed_idem cursor_key upd_cursor
  by unfold_locales (simp_all add: cursor_key_def upd_cursor_def)

interpretation timestamps_tbl: keyed_idem ts_key upd_ts
  by unfold_locales (simp_all add: ts_key_def upd_ts_def)

interpretation erc_tbl: keyed_idem erc_key upd_erc
  by unfold_locales (simp_all add: erc_key_def upd_erc_def)

interpretation validators_tbl: keyed_idem bv_LogID upd_validator
  by unfold_locales (simp_all add: upd_validator_def)

definition log_ids :: "database \<Rightarrow> uint list" where
  "log_ids d = map log_ID (vals (db_logs d))"

definition log_exists :: "database \<Rightarrow> uint \<Rightarrow> bool" where
  "log_exists d i \<longleftrightarrow> i \<in> set (log_ids d)"

definition opt_log_exists :: "database \<Rightarrow> uint option \<Rightarrow> bool" where
  "opt_log_exists d i \<longleftrightarrow> (case i of None \<Rightarrow> True | Some i \<Rightarrow> log_exists d i)"

text \<open>No other row has the same value of a second unique index.\<close>

definition index_free :: "('r \<Rightarrow> 'c) \<Rightarrow> 'r table \<Rightarrow> 'r \<Rightarrow> bool" where
  "index_free ix rows new \<longleftrightarrow> \<not> list_ex (\<lambda>v. ix v = ix new) (vals rows)"

definition signed_ix :: "SignedMessage \<Rightarrow> string \<times> hash \<times> address" where
  "signed_ix m = (sgm_BridgeID m, sgm_MsgHash m, sgm_Signer m)"

definition sir_ix :: "SentInformationRequest \<Rightarrow> string \<times> hash" where
  "sir_ix r = (sir_BridgeID r, sir_MessageID r)"

definition eir_ix :: "ExecutedInformationRequest \<Rightarrow> string \<times> hash" where
  "eir_ix r = (eir_BridgeID r, eir_MessageID r)"

section \<open>What the constraints keep\<close>

definition fk_ok :: "('r \<Rightarrow> uint) \<Rightarrow> database \<Rightarrow> 'r table \<Rightarrow> bool" where
  "fk_ok f d rows \<longleftrightarrow> (\<forall>v \<in> set (vals rows). log_exists d (f v))"

definition cursor_ok :: "LogsCursor \<Rightarrow> bool" where
  "cursor_ok c \<longleftrightarrow> lc_LastProcessedBlock c \<le> lc_LastFetchedBlock c
     \<and> int4_ok (lc_LastFetchedBlock c) \<and> int4_ok (lc_LastProcessedBlock c) \<and> chain_id_ok (lc_ChainID c)"

definition logs_inv :: "database \<Rightarrow> bool" where
  "logs_inv d \<longleftrightarrow> distinct (map log_key (vals (db_logs d))) \<and> distinct (log_ids d)
     \<and> (\<forall>i \<in> set (log_ids d). 0 < unat i \<and> unat i \<le> db_logs_seq d) \<and> db_logs_seq d \<le> int4_max"

definition keys_inv :: "database \<Rightarrow> bool" where
  "keys_inv d \<longleftrightarrow>
     distinct (map cursor_key (vals (db_logs_cursors d)))
     \<and> distinct (map ts_key (vals (db_block_timestamps d)))
     \<and> distinct (map msg_key (vals (db_messages d)))
     \<and> distinct (map erc_key (vals (db_erc_to_native_messages d)))
     \<and> distinct (map sm_LogID (vals (db_sent_messages d)))
     \<and> distinct (map sgm_LogID (vals (db_signed_messages d)))
     \<and> distinct (map signed_ix (vals (db_signed_messages d)))
     \<and> distinct (map cm_LogID (vals (db_collected_messages d)))
     \<and> distinct (map em_LogID (vals (db_executed_messages d)))
     \<and> distinct (map ir_key (vals (db_information_requests d)))
     \<and> distinct (map sir_LogID (vals (db_sent_information_requests d)))
     \<and> distinct (map sir_ix (vals (db_sent_information_requests d)))
     \<and> distinct (map sgir_LogID (vals (db_signed_information_requests d)))
     \<and> distinct (map eir_LogID (vals (db_executed_information_requests d)))
     \<and> distinct (map eir_ix (vals (db_executed_information_requests d)))
     \<and> distinct (map bv_LogID (vals (db_bridge_validators d)))"

definition refs_inv :: "database \<Rightarrow> bool" where
  "refs_inv d \<longleftrightarrow>
     fk_ok sm_LogID d (db_sent_messages d) \<and> fk_ok sgm_LogID d (db_signed_messages d)
     \<and> fk_ok cm_LogID d (db_collected_messages d) \<and> fk_ok em_LogID d (db_executed_messages d)
     \<and> fk_ok sir_LogID d (db_sent_information_requests d)
     \<and> fk_ok sgir_LogID d (db_signed_information_requests d)
     \<and> fk_ok eir_LogID d (db_executed_information_requests d)
     \<and> fk_ok bv_LogID d (db_bridge_validators d)
     \<and> (\<forall>v \<in> set (vals (db_bridge_validators d)). opt_log_exists d (bv_RemovedLogID v))"

definition db_inv :: "database \<Rightarrow> bool" where
  "db_inv d \<longleftrightarrow> logs_inv d \<and> keys_inv d \<and> refs_inv d
     \<and> (\<forall>c \<in> set (vals (db_logs_cursors d)). cursor_ok c)"

lemma vals_Nil [simp]: "vals [] = []"
  by (simp add: vals_def)

lemma db_inv_empty: "db_inv emptyDatabase"
  by (simp add: db_inv_def logs_inv_def keys_inv_def refs_inv_def fk_ok_def log_ids_def emptyDatabase_def)

section \<open>Growth\<close>

definition erc_core :: "ErcToNativeMessage \<Rightarrow> ErcToNativeMessage" where
  "erc_core m = m\<lparr>erc_Sender := 0\<rparr>"

definition validator_core :: "BridgeValidator \<Rightarrow> BridgeValidator" where
  "validator_core v = v\<lparr>bv_RemovedLogID := None\<rparr>"

definition db_le :: "database \<Rightarrow> database \<Rightarrow> bool" where
  "db_le a b \<longleftrightarrow>
     tbl_le cursor_key (db_logs_cursors a) (db_logs_cursors b)
     \<and> tbl_le id (db_logs a) (db_logs b)
     \<and> tbl_le ts_key (db_block_timestamps a) (db_block_timestamps b)
     \<and> tbl_le id (db_messages a) (db_messages b)
     \<and> tbl_le erc_core (db_erc_to_native_messages a) (db_erc_to_native_messages b)
     \<and> tbl_le id (db_sent_messages a) (db_sent_messages b)
     \<and> tbl_le id (db_signed_messages a) (db_signed_messages b)
     \<and> tbl_le id (db_collected_messages a) (db_collected_messages b)
     \<and> tbl_le id (db_executed_messages a) (db_executed_messages b)
     \<and> tbl_le id (db_information_requests a) (db_information_requests b)
     \<and> tbl_le id (db_sent_information_requests a) (db_sent_information_requests b)
     \<and> tbl_le id (db_signed_information_requests a) (db_signed_information_requests b)
     \<and> tbl_le id (db_executed_information_requests a) (db_executed_information_requests b)
     \<and> tbl_le validator_core (db_bridge_validators a) (db_bridge_validators b)"

lemma db_le_refl [simp, intro]: "db_le d d"
  by (simp add: db_le_def)

lemma db_le_trans: "db_le a b \<Longrightarrow> db_le b c \<Longrightarrow> db_le a c"
  unfolding db_le_def by (meson tbl_le_trans)

lemma tbl_le_idD: "tbl_le id a b \<Longrightarrow> v \<in> set (vals a) \<Longrightarrow> v \<in> set (vals b)"
  by (auto simp: tbl_le_def)

lemma tbl_le_keep: "keyed_idem key keep_row \<Longrightarrow> tbl_le id rows (upsert key keep_row now new rows)"
  by (rule keyed.tbl_le_upsert) (simp_all add: keyed_idem_def keep_row_def)

text \<open>
  What every call on the database does: the tables grow, and the constraints stay true.
\<close>

definition grows :: "world \<Rightarrow> world \<Rightarrow> bool" where
  "grows w w' \<longleftrightarrow> db_le (w_db w) (w_db w') \<and> (db_inv (w_db w) \<longrightarrow> db_inv (w_db w')) \<and> w_tick w \<le> w_tick w'"

lemma grows_refl [simp, intro]: "grows w w"
  by (simp add: grows_def)

lemma grows_trans: "grows a b \<Longrightarrow> grows b c \<Longrightarrow> grows a c"
  by (auto simp: grows_def intro: db_le_trans)

lemma grows_le: "grows w w' \<Longrightarrow> db_le (w_db w) (w_db w')"
  by (simp add: grows_def)

lemma keepsE_grows_bindE [intro]:
  "keepsE grows m \<Longrightarrow> (\<And>a. keepsE grows (f a)) \<Longrightarrow> keepsE grows (bindE m f)"
  by (rule keepsE_bindE) (auto intro: grows_trans)

lemma keepsE_grows_pure [simp, intro]:
  "keepsE grows (returnE a)" "keepsE grows (failE e)" "keepsE grows (liftE r)"
  by (simp_all add: keepsE_def)

definition stmt_grows :: "(time \<Rightarrow> database \<Rightarrow> 'a res \<times> database) \<Rightarrow> bool" where
  "stmt_grows stmt \<longleftrightarrow> (\<forall>now d. db_le d (snd (stmt now d)) \<and> (db_inv d \<longrightarrow> db_inv (snd (stmt now d))))"

lemma stmt_growsD:
  "stmt_grows stmt \<Longrightarrow> stmt now d = (r, d') \<Longrightarrow> db_le d d' \<and> (db_inv d \<longrightarrow> db_inv d')"
  by (metis stmt_grows_def snd_conv)

lemma keepsE_db_exec: "stmt_grows stmt \<Longrightarrow> keepsE grows (db_exec E stmt)"
  by (auto simp: keepsE_def db_exec_def grows_def Let_def dest!: stmt_growsD
      split: prod.split db_fault.split)

lemma keepsE_db_query [simp, intro]: "keepsE grows (db_query E q)"
  unfolding db_query_def by (rule keepsE_db_exec) (simp add: stmt_grows_def)

lemma keepsE_IgnoreErrNotFound [intro]: "keepsE grows m \<Longrightarrow> keepsE grows (IgnoreErrNotFound m)"
  by (auto simp: keepsE_def IgnoreErrNotFound_def split: prod.split sum.split) (metis snd_conv)+

lemma db_query_db [world_simps]: "w_db (snd (db_query E q w)) = w_db w"
  by (simp add: db_query_def db_exec_def Let_def split: db_fault.split)

lemma db_query_Inr:
  "db_query E q w = (Inr a, w') \<longleftrightarrow>
     env_db E (w_tick w) = DbOk \<and> q (w_db w) = Inr a \<and> w' = w\<lparr>w_tick := Suc (w_tick w)\<rparr>"
  by (cases w) (auto simp: db_query_def db_exec_def Let_def split: db_fault.splits)

lemma db_exec_Inr:
  "db_exec E stmt w = (Inr a, w') \<longleftrightarrow>
     env_db E (w_tick w) = DbOk \<and>
     (\<exists>d. stmt (env_clock E (w_tick w)) (w_db w) = (Inr a, d) \<and> w' = \<lparr>w_db = d, w_tick = Suc (w_tick w)\<rparr>)"
  by (auto simp: db_exec_def Let_def split: db_fault.splits prod.splits)

text \<open>A query that fails is not a missing row.\<close>

lemma first_row_Inr: "first_row rows = Inr v \<longleftrightarrow> rows \<noteq> [] \<and> v = hd rows"
  by (cases rows) (auto simp: first_row_def)

lemma first_row_in: "first_row (filter P rows) = Inr v \<Longrightarrow> v \<in> set rows \<and> P v"
  by (cases "filter P rows") (auto simp: first_row_def filter_eq_Cons_iff)

lemma first_row_not_found: "first_row (filter P rows) = Inl e \<longleftrightarrow> e = Err ErrNotFound \<and> (\<forall>v \<in> set rows. \<not> P v)"
  by (cases "filter P rows") (auto simp: first_row_def filter_eq_Cons_iff filter_empty_conv)

end
