(* ===== verification/Config.thy ===== *)
theory Config
  imports Ranges
begin

text \<open>
  \<open>config/config.go\<close>: the configuration records and their initialisation. A Go map is the
  list of its entries in the order of iteration, so a lemma about any list covers every order.
  Sections that the configuration must name (the two sides of a bridge, a bridge's own section) are
  not pointers here: \<open>init\<close> dereferences them at once. The entry of a chain may be a nil pointer
  (a YAML null), and \<open>init\<close> accepts a side with such a chain: what reads the chain of a side or
  looks for a chain by its id panics then. The sections that only the programs' mains
  read (the RPC of a chain, PostgreSQL, the presenter) may be missing. How a file becomes such a record is
  the subject of theory \<open>ConfigFile\<close>.

  The lemmas show what a configuration that \<open>init\<close> accepts satisfies, that initialising
  twice changes nothing, and which contracts a block range covers.
\<close>

text \<open>The rate limit, a \<open>float64\<close>, is kept as its bits: nothing reads it. A level of the log is a number.\<close>

record RPCConfig =
  rpc_Host :: string
  rpc_Timeout :: int
  rpc_RPS :: uint

record DBConfig =
  dbc_User :: string
  dbc_Password :: string
  dbc_Host :: string
  dbc_Port :: int
  dbc_DB :: string

record PresenterConfig =
  prc_Host :: string

record ChainConfig =
  ch_RPC :: "RPCConfig option"
  ch_ChainID :: string
  ch_BlockTime :: int
  ch_BlockIndexInterval :: int
  ch_SafeLogsRequest :: bool
  ch_ExplorerTxLinkFormat :: string

record TokenConfig =
  tok_Address :: address
  tok_StartBlock :: uint
  tok_EndBlock :: uint
  tok_BlacklistedSenders :: "address list"

record BridgeSideConfig =
  bs_ChainName :: string
  bs_Chain :: "ChainConfig option"
  bs_Address :: address
  bs_ValidatorContractAddress :: address
  bs_StartBlock :: uint
  bs_BlockConfirmations :: uint
  bs_MaxBlockRangeSize :: uint
  bs_WhitelistedSenders :: "address list"
  bs_ErcToNativeTokens :: "TokenConfig list"

record BridgeAlertConfig =
  al_HomeStartBlock :: uint
  al_ForeignStartBlock :: uint

text \<open>\<open>BridgeMode\<close> is a string type with two constants.\<close>

datatype BridgeMode = BridgeModeArbitraryMessage | BridgeModeErcToNative | OtherBridgeMode string

record BridgeConfig =
  bc_ID :: string
  bc_BridgeMode :: BridgeMode
  bc_Home :: BridgeSideConfig
  bc_Foreign :: BridgeSideConfig
  bc_Alerts :: "(string \<times> BridgeAlertConfig option) list"

record Config =
  cfg_Chains :: "(string \<times> ChainConfig option) list"
  cfg_Bridges :: "(string \<times> BridgeConfig) list"
  cfg_DBConfig :: "DBConfig option"
  cfg_LogLevel :: uint32
  cfg_DisabledBridges :: "string list"
  cfg_EnabledBridges :: "string list option"
  cfg_Presenter :: "PresenterConfig option"

text \<open>
  \<open>cfg.Chain.ChainID\<close>: a panic when the side has no chain. Code that runs only after the chain was
  dereferenced uses \<open>bs_ChainID\<close>.
\<close>

definition sideChainID :: "BridgeSideConfig \<Rightarrow> string res" where
  "sideChainID cfg = (case bs_Chain cfg of None \<Rightarrow> Inl Panic | Some c \<Rightarrow> Inr (ch_ChainID c))"

definition bs_ChainID :: "BridgeSideConfig \<Rightarrow> string" where
  "bs_ChainID cfg = (case bs_Chain cfg of None \<Rightarrow> [] | Some c \<Rightarrow> ch_ChainID c)"

lemma sideChainID_Inr: "sideChainID cfg = Inr c \<longleftrightarrow> bs_Chain cfg \<noteq> None \<and> c = bs_ChainID cfg"
  by (auto simp: sideChainID_def bs_ChainID_def split: option.splits)

lemma sideChainID_Some: "bs_Chain cfg = Some c \<Longrightarrow> sideChainID cfg = Inr (bs_ChainID cfg)"
  by (simp add: sideChainID_Inr)

section \<open>Initialisation\<close>

definition TokenConfig_init :: "uint \<Rightarrow> TokenConfig \<Rightarrow> TokenConfig" where
  "TokenConfig_init startBlock t = t\<lparr>
     tok_StartBlock := (if tok_StartBlock t = 0 then startBlock else tok_StartBlock t),
     tok_EndBlock := (if tok_EndBlock t = 0 then MaxUint32 else tok_EndBlock t)\<rparr>"

definition BridgeSideConfig_init :: "Config \<Rightarrow> BridgeSideConfig \<Rightarrow> BridgeSideConfig res" where
  "BridgeSideConfig_init parent cfg =
     (let cfg1 = (if bs_MaxBlockRangeSize cfg \<le> 0 then cfg\<lparr>bs_MaxBlockRangeSize := 1000\<rparr> else cfg) in
      case map_of (cfg_Chains parent) (bs_ChainName cfg1) of
        None \<Rightarrow> Inl (Err ErrInvalidConfig)
      | Some chain \<Rightarrow> Inr (cfg1\<lparr>bs_Chain := chain,
          bs_ErcToNativeTokens := map (TokenConfig_init (bs_StartBlock cfg1)) (bs_ErcToNativeTokens cfg1)\<rparr>))"

definition BridgeAlertConfig_init :: "BridgeConfig \<Rightarrow> BridgeAlertConfig \<Rightarrow> BridgeAlertConfig" where
  "BridgeAlertConfig_init parent cfg =
     (let cfg1 = (if al_HomeStartBlock cfg < bs_StartBlock (bc_Home parent)
         then cfg\<lparr>al_HomeStartBlock := bs_StartBlock (bc_Home parent)\<rparr> else cfg)
      in if al_ForeignStartBlock cfg1 < bs_StartBlock (bc_Foreign parent)
         then cfg1\<lparr>al_ForeignStartBlock := bs_StartBlock (bc_Foreign parent)\<rparr> else cfg1)"

definition emptyAlertConfig :: BridgeAlertConfig where
  "emptyAlertConfig = \<lparr>al_HomeStartBlock = 0, al_ForeignStartBlock = 0\<rparr>"

definition init_alerts :: "BridgeConfig \<Rightarrow> (string \<times> BridgeAlertConfig option) list \<Rightarrow>
    (string \<times> BridgeAlertConfig option) list" where
  "init_alerts parent alerts = map (\<lambda>(name, a).
     (name, Some (BridgeAlertConfig_init parent (case a of None \<Rightarrow> emptyAlertConfig | Some c \<Rightarrow> c)))) alerts"

definition BridgeConfig_init :: "Config \<Rightarrow> BridgeConfig \<Rightarrow> BridgeConfig res" where
  "BridgeConfig_init parent cfg =
     res_bind (BridgeSideConfig_init parent (bc_Home cfg)) (\<lambda>home.
     res_bind (BridgeSideConfig_init parent (bc_Foreign cfg)) (\<lambda>foreign.
     let cfg1 = cfg\<lparr>bc_Home := home, bc_Foreign := foreign\<rparr> in
     if length (bs_ErcToNativeTokens home) > 0 then Inl (Err ErrNonEmptyTokenList)
     else if bc_BridgeMode cfg = BridgeModeErcToNative then
       if length (bs_ErcToNativeTokens foreign) = 0 then Inl (Err ErrEmptyTokenList)
       else Inr (cfg1\<lparr>bc_Alerts := init_alerts cfg1 (bc_Alerts cfg1)\<rparr>)
     else
       if length (bs_ErcToNativeTokens foreign) > 0 then Inl (Err ErrNonEmptyTokenList)
       else let cfg2 = cfg1\<lparr>bc_BridgeMode := BridgeModeArbitraryMessage\<rparr>
         in Inr (cfg2\<lparr>bc_Alerts := init_alerts cfg2 (bc_Alerts cfg2)\<rparr>)))"

definition Config_init :: "Config \<Rightarrow> Config res" where
  "Config_init cfg =
     res_bind (map_res (\<lambda>(bridgeID, bridge).
         res_bind (BridgeConfig_init cfg (bridge\<lparr>bc_ID := bridgeID\<rparr>)) (\<lambda>b. Inr (bridgeID, b)))
       (cfg_Bridges cfg)) (\<lambda>bridges.
     Inr (cfg\<lparr>cfg_Bridges := bridges\<rparr>))"

section \<open>Queries\<close>

text \<open>
  The entry under a name, which may be nil; or else the first chain with that id, where a nil entry
  before it is dereferenced.
\<close>

fun GetChainConfig_loop :: "(string \<times> ChainConfig option) list \<Rightarrow> string \<Rightarrow> ChainConfig option res" where
  "GetChainConfig_loop [] chainID = Inr None"
| "GetChainConfig_loop ((name, None) # cs) chainID = Inl Panic"
| "GetChainConfig_loop ((name, Some chainCfg) # cs) chainID =
     (if ch_ChainID chainCfg = chainID then Inr (Some chainCfg) else GetChainConfig_loop cs chainID)"

definition GetChainConfig :: "Config \<Rightarrow> string \<Rightarrow> ChainConfig option res" where
  "GetChainConfig cfg chainID =
     (case map_of (cfg_Chains cfg) chainID of
        Some chainCfg \<Rightarrow> Inr chainCfg
      | None \<Rightarrow> GetChainConfig_loop (cfg_Chains cfg) chainID)"

text \<open>The chains that are there, and files in which every entry is one.\<close>

definition known_chains :: "Config \<Rightarrow> ChainConfig list" where
  "known_chains cfg = List.map_filter snd (cfg_Chains cfg)"

definition chains_given :: "Config \<Rightarrow> bool" where
  "chains_given cfg \<longleftrightarrow> list_all (\<lambda>(name, chain). chain \<noteq> None) (cfg_Chains cfg)"

lemma known_chains_in: "c \<in> set (known_chains cfg) \<longleftrightarrow> (\<exists>name. (name, Some c) \<in> set (cfg_Chains cfg))"
  by (force simp: known_chains_def List.map_filter_def)

lemma GetChainConfig_loop_in:
  "GetChainConfig_loop cs chainID = Inr (Some c) \<Longrightarrow> \<exists>name. (name, Some c) \<in> set cs"
  by (induction cs chainID rule: GetChainConfig_loop.induct) (auto split: if_splits)

lemma GetChainConfig_in: "GetChainConfig cfg chainID = Inr (Some c) \<Longrightarrow> c \<in> set (known_chains cfg)"
  by (auto simp: GetChainConfig_def known_chains_in dest: map_of_SomeD GetChainConfig_loop_in split: option.splits)

lemma GetChainConfig_loop_given:
  "list_all (\<lambda>(name, chain). chain \<noteq> None) cs \<Longrightarrow> \<exists>c. GetChainConfig_loop cs chainID = Inr c"
  by (induction cs chainID rule: GetChainConfig_loop.induct) auto

lemma GetChainConfig_given: "chains_given cfg \<Longrightarrow> \<exists>c. GetChainConfig cfg chainID = Inr c"
  by (auto simp: GetChainConfig_def chains_given_def GetChainConfig_loop_given split: option.splits)

fun ErcToNativeTokenAddresses_loop :: "uint \<Rightarrow> uint \<Rightarrow> TokenConfig list \<Rightarrow> address list" where
  "ErcToNativeTokenAddresses_loop fromBlock toBlock [] = []"
| "ErcToNativeTokenAddresses_loop fromBlock toBlock (token # tokens) =
     (if toBlock < tok_StartBlock token \<or> fromBlock > tok_EndBlock token
      then ErcToNativeTokenAddresses_loop fromBlock toBlock tokens
      else tok_Address token # ErcToNativeTokenAddresses_loop fromBlock toBlock tokens)"

definition ErcToNativeTokenAddresses :: "BridgeSideConfig \<Rightarrow> uint \<Rightarrow> uint \<Rightarrow> address list" where
  "ErcToNativeTokenAddresses cfg fromBlock toBlock =
     ErcToNativeTokenAddresses_loop fromBlock toBlock (bs_ErcToNativeTokens cfg)"

definition ContractAddresses :: "BridgeSideConfig \<Rightarrow> uint \<Rightarrow> uint \<Rightarrow> address list" where
  "ContractAddresses cfg fromBlock toBlock =
     ErcToNativeTokenAddresses cfg fromBlock toBlock @ [bs_Address cfg, bs_ValidatorContractAddress cfg]"

section \<open>What an accepted configuration satisfies\<close>

definition token_wf :: "BridgeSideConfig \<Rightarrow> TokenConfig \<Rightarrow> bool" where
  "token_wf cfg t \<longleftrightarrow> (tok_StartBlock t \<noteq> 0 \<or> bs_StartBlock cfg = 0) \<and> tok_EndBlock t \<noteq> 0"

definition side_wf :: "Config \<Rightarrow> BridgeSideConfig \<Rightarrow> bool" where
  "side_wf parent cfg \<longleftrightarrow> bs_MaxBlockRangeSize cfg \<noteq> 0
     \<and> map_of (cfg_Chains parent) (bs_ChainName cfg) = Some (bs_Chain cfg)
     \<and> list_all (token_wf cfg) (bs_ErcToNativeTokens cfg)"

definition alert_wf :: "BridgeConfig \<Rightarrow> string \<times> BridgeAlertConfig option \<Rightarrow> bool" where
  "alert_wf cfg a \<longleftrightarrow> (case snd a of None \<Rightarrow> False
     | Some c \<Rightarrow> bs_StartBlock (bc_Home cfg) \<le> al_HomeStartBlock c
         \<and> bs_StartBlock (bc_Foreign cfg) \<le> al_ForeignStartBlock c)"

definition bridge_wf :: "Config \<Rightarrow> string \<times> BridgeConfig \<Rightarrow> bool" where
  "bridge_wf parent b \<longleftrightarrow> (let cfg = snd b in
     bc_ID cfg = fst b \<and> side_wf parent (bc_Home cfg) \<and> side_wf parent (bc_Foreign cfg)
     \<and> bs_ErcToNativeTokens (bc_Home cfg) = []
     \<and> (bc_BridgeMode cfg = BridgeModeErcToNative \<and> bs_ErcToNativeTokens (bc_Foreign cfg) \<noteq> []
        \<or> bc_BridgeMode cfg = BridgeModeArbitraryMessage \<and> bs_ErcToNativeTokens (bc_Foreign cfg) = [])
     \<and> list_all (alert_wf cfg) (bc_Alerts cfg))"

lemma MaxUint32_nz [simp]: "MaxUint32 \<noteq> 0"
  by (simp add: MaxUint32_def)

lemma BridgeSideConfig_init_wf:
  assumes "BridgeSideConfig_init parent cfg = Inr cfg'"
  shows "side_wf parent cfg' \<and> bs_StartBlock cfg' = bs_StartBlock cfg"
  using assms
  by (cases "bs_MaxBlockRangeSize cfg = 0")
    (auto simp: BridgeSideConfig_init_def Let_def side_wf_def token_wf_def TokenConfig_init_def
      list_all_iff split: option.splits if_splits)

lemma init_alerts_wf:
  "bc_Home p = bc_Home q \<Longrightarrow> bc_Foreign p = bc_Foreign q \<Longrightarrow> list_all (alert_wf p) (init_alerts q as)"
  by (auto simp: init_alerts_def list_all_iff alert_wf_def BridgeAlertConfig_init_def Let_def)

lemma BridgeConfig_init_wf:
  assumes "BridgeConfig_init parent cfg = Inr cfg'"
  shows "bridge_wf parent (bc_ID cfg, cfg')"
proof -
  from assms obtain home foreign where
    h: "BridgeSideConfig_init parent (bc_Home cfg) = Inr home" and
    f: "BridgeSideConfig_init parent (bc_Foreign cfg) = Inr foreign"
    by (auto simp: BridgeConfig_init_def res_bind_Inr_iff)
  with assms BridgeSideConfig_init_wf [OF h] BridgeSideConfig_init_wf [OF f] show ?thesis
    by (auto simp: BridgeConfig_init_def Let_def bridge_wf_def init_alerts_wf split: if_splits)
qed

lemma side_wf_chains: "cfg_Chains p = cfg_Chains q \<Longrightarrow> side_wf p = side_wf q"
  by (simp add: side_wf_def fun_eq_iff)

lemma map_res_list_all:
  assumes "map_res f xs = Inr ys" and "\<And>x y. f x = Inr y \<Longrightarrow> P y"
  shows "list_all P ys"
  using assms(1)
proof (induction xs arbitrary: ys)
  case (Cons x xs)
  then obtain y zs where "f x = Inr y" "map_res f xs = Inr zs" "ys = y # zs"
    by (auto simp: res_bind_Inr_iff)
  with Cons.IH assms(2) show ?case by auto
qed simp

lemma map_res_map:
  assumes "map_res f xs = Inr ys" and "\<And>x y. f x = Inr y \<Longrightarrow> g y = h x"
  shows "map g ys = map h xs"
  using assms(1)
proof (induction xs arbitrary: ys)
  case (Cons x xs)
  then obtain y zs where "f x = Inr y" "map_res f xs = Inr zs" "ys = y # zs"
    by (auto simp: res_bind_Inr_iff)
  with Cons.IH assms(2) show ?case by auto
qed simp

lemma Config_init_wf:
  assumes "Config_init cfg = Inr cfg'"
  shows "list_all (bridge_wf cfg') (cfg_Bridges cfg') \<and> cfg_Chains cfg' = cfg_Chains cfg
    \<and> map fst (cfg_Bridges cfg') = map fst (cfg_Bridges cfg)"
proof -
  let ?f = "\<lambda>(bridgeID, bridge).
      res_bind (BridgeConfig_init cfg (bridge\<lparr>bc_ID := bridgeID\<rparr>)) (\<lambda>b. Inr (bridgeID, b))"
  from assms obtain bs where bs: "map_res ?f (cfg_Bridges cfg) = Inr bs"
    and cfg': "cfg' = cfg\<lparr>cfg_Bridges := bs\<rparr>"
    by (auto simp: Config_init_def res_bind_Inr_iff)
  have "list_all (bridge_wf cfg) bs"
    using bs by (rule map_res_list_all) (auto simp: res_bind_Inr_iff dest!: BridgeConfig_init_wf)
  moreover have "map fst bs = map fst (cfg_Bridges cfg)"
    using bs by (rule map_res_map) (auto simp: res_bind_Inr_iff)
  moreover have "bridge_wf cfg' = bridge_wf cfg"
  proof -
    have "side_wf cfg' = side_wf cfg" using cfg' by (intro side_wf_chains) simp
    then show ?thesis by (simp add: bridge_wf_def fun_eq_iff)
  qed
  ultimately show ?thesis using cfg' by simp
qed

text \<open>Initialising an initialised bridge changes nothing.\<close>

lemma BridgeSideConfig_init_stable:
  assumes "side_wf parent cfg"
  shows "BridgeSideConfig_init parent cfg = Inr cfg"
proof -
  have "map (TokenConfig_init (bs_StartBlock cfg)) (bs_ErcToNativeTokens cfg) = bs_ErcToNativeTokens cfg"
    using assms by (intro map_idI) (auto simp: side_wf_def token_wf_def TokenConfig_init_def list_all_iff)
  with assms show ?thesis
    by (auto simp: BridgeSideConfig_init_def side_wf_def)
qed

lemma init_alerts_stable: "list_all (alert_wf cfg) as \<Longrightarrow> bc_Home p = bc_Home cfg \<Longrightarrow>
    bc_Foreign p = bc_Foreign cfg \<Longrightarrow> init_alerts p as = as"
  unfolding init_alerts_def
  by (rule map_idI)
    (auto simp: list_all_iff alert_wf_def BridgeAlertConfig_init_def Let_def not_less split: option.splits dest!: bspec)

lemma BridgeConfig_init_stable:
  assumes "bridge_wf parent (i, cfg)"
  shows "BridgeConfig_init parent (cfg\<lparr>bc_ID := i\<rparr>) = Inr cfg"
  using assms
  by (auto simp: bridge_wf_def BridgeConfig_init_def BridgeSideConfig_init_stable init_alerts_stable)

lemma Config_init_stable:
  assumes "list_all (bridge_wf cfg) (cfg_Bridges cfg)"
  shows "Config_init cfg = Inr cfg"
proof -
  have "map_res (\<lambda>(bridgeID, bridge).
      res_bind (BridgeConfig_init cfg (bridge\<lparr>bc_ID := bridgeID\<rparr>)) (\<lambda>b. Inr (bridgeID, b)))
      (cfg_Bridges cfg) = Inr (map id (cfg_Bridges cfg))"
    using assms by (intro map_res_Inr_map) (auto simp: list_all_iff BridgeConfig_init_stable)
  then show ?thesis by (simp add: Config_init_def)
qed

section \<open>Contracts of a block range\<close>

lemma ErcToNativeTokenAddresses_filter:
  "ErcToNativeTokenAddresses cfg f t =
     map tok_Address (filter (\<lambda>k. tok_StartBlock k \<le> t \<and> f \<le> tok_EndBlock k) (bs_ErcToNativeTokens cfg))"
proof -
  have "ErcToNativeTokenAddresses_loop f t ts =
      map tok_Address (filter (\<lambda>k. tok_StartBlock k \<le> t \<and> f \<le> tok_EndBlock k) ts)" for ts
    by (induction ts) auto
  then show ?thesis by (simp add: ErcToNativeTokenAddresses_def)
qed

lemma ContractAddresses_mono:
  assumes "f \<le> f'" and "t' \<le> t"
  shows "set (ContractAddresses cfg f' t') \<subseteq> set (ContractAddresses cfg f t)"
  using assms
  by (auto simp: ContractAddresses_def ErcToNativeTokenAddresses_filter)

section \<open>Properties\<close>

text \<open>A small configuration file: two chains and one bridge with a token, most fields left out.\<close>

definition sample_side :: "string \<Rightarrow> address \<Rightarrow> uint \<Rightarrow> TokenConfig list \<Rightarrow> BridgeSideConfig" where
  "sample_side chain addr start toks = \<lparr>bs_ChainName = chain, bs_Chain = None, bs_Address = addr,
     bs_ValidatorContractAddress = 77, bs_StartBlock = start, bs_BlockConfirmations = 2,
     bs_MaxBlockRangeSize = 0, bs_WhitelistedSenders = [], bs_ErcToNativeTokens = toks\<rparr>"

definition sample_chain :: "string \<Rightarrow> ChainConfig" where
  "sample_chain i = \<lparr>ch_RPC = Some \<lparr>rpc_Host = i, rpc_Timeout = 20, rpc_RPS = 0\<rparr>, ch_ChainID = i, ch_BlockTime = 5, ch_BlockIndexInterval = 1, ch_SafeLogsRequest = True,
     ch_ExplorerTxLinkFormat = []\<rparr>"

definition sample_bridge :: BridgeConfig where
  "sample_bridge = \<lparr>bc_ID = [], bc_BridgeMode = BridgeModeErcToNative,
     bc_Home = sample_side ''xdai'' 10 100 [],
     bc_Foreign = sample_side ''mainnet'' 20 200
       [\<lparr>tok_Address = 30, tok_StartBlock = 0, tok_EndBlock = 0, tok_BlacklistedSenders = []\<rparr>],
     bc_Alerts = [(''stuck'', None)]\<rparr>"

definition sample_config :: Config where
  "sample_config = \<lparr>cfg_Chains = [(''xdai'', Some (sample_chain ''100'')), (''mainnet'', Some (sample_chain ''1''))],
     cfg_Bridges = [(''xdai-bridge'', sample_bridge)],
     cfg_DBConfig = Some \<lparr>dbc_User = ''postgres'', dbc_Password = ''pass'', dbc_Host = ''localhost'', dbc_Port = 5432, dbc_DB = ''db''\<rparr>,
     cfg_LogLevel = 4, cfg_DisabledBridges = [], cfg_EnabledBridges = None, cfg_Presenter = None\<rparr>"

definition sample_config_init :: Config where
  "sample_config_init = projr (Config_init sample_config)"

lemma sample_config_init_ok: "Config_init sample_config = Inr sample_config_init"
  by (simp add: sample_config_init_def sample_config_def Config_init_def BridgeConfig_init_def
      BridgeSideConfig_init_def sample_bridge_def sample_side_def Let_def)

text \<open>A configuration that \<open>init\<close> accepts: every side has the entry of the list of
  chains under its chain's name (nil when the file says so) and a positive range size, no token has a zero block bound (unless the side starts at 0), only
  foreign sides of ERC to native bridges have tokens and those have at least one, the mode is one of the two
  known ones, no alert starts before its side; the bridges and their ids are those of the file.\<close>

theorem config_init_wf:
  assumes "Config_init cfg = Inr cfg'"
  shows "list_all (bridge_wf cfg') (cfg_Bridges cfg') \<and> cfg_Chains cfg' = cfg_Chains cfg
    \<and> map fst (cfg_Bridges cfg') = map fst (cfg_Bridges cfg)"
  by (rule Config_init_wf [OF assms])

lemma config_init_wf_witness:
  "list_all (bridge_wf sample_config_init) (cfg_Bridges sample_config_init) \<and>
   cfg_Chains sample_config_init = cfg_Chains sample_config \<and>
   map fst (cfg_Bridges sample_config_init) = map fst (cfg_Bridges sample_config)"
  by (rule config_init_wf [OF sample_config_init_ok])

text \<open>Initialising a configuration that was initialised before changes nothing: the
  defaults are filled in once.\<close>

theorem config_init_idempotent:
  assumes "Config_init cfg = Inr cfg'"
  shows "Config_init cfg' = Inr cfg'"
  using Config_init_wf [OF assms] by (intro Config_init_stable) blast

lemma config_init_idempotent_witness:
  "Config_init sample_config_init = Inr sample_config_init"
  by (rule config_init_idempotent [OF sample_config_init_ok])

text \<open>The contracts of a block range are the bridge, its validator contract and the tokens
  that are active in some block of it; a range inside another one has no further contracts.\<close>

theorem contract_addresses_of_range:
  "set (ContractAddresses cfg f t) = {bs_Address cfg, bs_ValidatorContractAddress cfg} \<union>
     tok_Address ` {k \<in> set (bs_ErcToNativeTokens cfg). tok_StartBlock k \<le> t \<and> f \<le> tok_EndBlock k}
   \<and> set (ContractAddresses cfg (max f f') (min t t')) \<subseteq> set (ContractAddresses cfg f t)"
  using ContractAddresses_mono [of f "max f f'" "min t t'" t cfg]
  by (auto simp: ContractAddresses_def ErcToNativeTokenAddresses_filter)

end
