(* ===== verification/Repository.thy ===== *)
theory Repository
  imports Database Config "HOL-Library.Multiset"
begin

text \<open>
  The repositories of \<open>repository/postgres/\<close>: one definition per operation, named after the
  repository and the method, each a single SQL statement. \<open>Ensure\<close> inserts a row or updates the
  row with the same key; \<open>GetBy...\<close> returns one row or \<open>ErrNotFound\<close>; \<open>Find...\<close> returns
  all matching rows in the order the query names. A number beyond the range of its column is
  refused.

  The lemmas show that every operation keeps the constraints and loses no row (\<open>grows\<close>), what
  a successful \<open>Ensure\<close> leaves in its table, and what the queries return.
\<close>

section \<open>Statements that insert or update one row\<close>

definition ensure_stmt :: "('r table \<Rightarrow> database \<Rightarrow> database) \<Rightarrow> 'r table option \<Rightarrow> database \<Rightarrow>
    unit res \<times> database" where
  "ensure_stmt put r d = (case r of None \<Rightarrow> (Inl (Err ErrConstraint), d) | Some rows \<Rightarrow> (Inr (), put rows d))"

lemma ensure_stmt_Inr:
  "ensure_stmt put r d = (Inr u, d') \<longleftrightarrow> (\<exists>rows. r = Some rows \<and> d' = put rows d)"
  by (auto simp: ensure_stmt_def split: option.splits)

lemma stmt_grows_ensure:
  assumes "\<And>now d rows. r now d = Some rows \<Longrightarrow> db_le d (put rows d) \<and> (db_inv d \<longrightarrow> db_inv (put rows d))"
  shows "stmt_grows (\<lambda>now d. ensure_stmt put (r now d) d)"
  unfolding stmt_grows_def
proof (intro allI)
  fix now d
  show "db_le d (snd (ensure_stmt put (r now d) d)) \<and>
      (db_inv d \<longrightarrow> db_inv (snd (ensure_stmt put (r now d) d)))"
    using assms [of now d] by (cases "r now d") (simp_all add: ensure_stmt_def)
qed

lemma fk_ok_upsert_keep:
  assumes "keyed_idem key keep_row" and "fk_ok f d rows"
    and "key new \<in> key ` set (vals rows) \<or> log_exists d (f new)"
  shows "fk_ok f d (upsert key keep_row now new rows)"
  using assms(2,3)
  by (auto simp: fk_ok_def keyed.vals_upsert [OF keyed_idem.axioms(1) [OF assms(1)]] keep_row_def
      split: if_splits)


lemma distinct_index_upsert:
  assumes "keyed_idem key keep_row" and "distinct (map ix (vals rows))"
    and "key new \<in> key ` set (vals rows) \<or> index_free ix rows new"
  shows "distinct (map ix (vals (upsert key keep_row now new rows)))"
  using assms(2,3)
  by (auto simp: index_free_def list_ex_iff keyed.vals_upsert [OF keyed_idem.axioms(1) [OF assms(1)]]
      keep_row_def cong: if_cong split: if_splits)

lemmas inv_defs = db_inv_def logs_inv_def keys_inv_def refs_inv_def

text \<open>Statements on the other tables leave the logs alone.\<close>

lemma log_ids_other [world_simps, simp]:
  "log_ids (db_logs_cursors_update f1 d) = log_ids d"
  "log_ids (db_block_timestamps_update f2 d) = log_ids d"
  "log_ids (db_messages_update f3 d) = log_ids d"
  "log_ids (db_erc_to_native_messages_update f4 d) = log_ids d"
  "log_ids (db_sent_messages_update f5 d) = log_ids d"
  "log_ids (db_signed_messages_update f6 d) = log_ids d"
  "log_ids (db_collected_messages_update f7 d) = log_ids d"
  "log_ids (db_executed_messages_update f8 d) = log_ids d"
  "log_ids (db_information_requests_update f9 d) = log_ids d"
  "log_ids (db_sent_information_requests_update f10 d) = log_ids d"
  "log_ids (db_signed_information_requests_update f11 d) = log_ids d"
  "log_ids (db_executed_information_requests_update f12 d) = log_ids d"
  "log_ids (db_bridge_validators_update f13 d) = log_ids d"
  by (simp_all add: log_ids_def)

lemma refs_other [world_simps, simp]:
  "\<And>d g. log_exists (db_logs_cursors_update g d) = log_exists d"
  "\<And>d g. opt_log_exists (db_logs_cursors_update g d) = opt_log_exists d"
  "\<And>d g. fk_ok f (db_logs_cursors_update g d) = fk_ok f d"
  "\<And>d g. log_exists (db_block_timestamps_update g d) = log_exists d"
  "\<And>d g. opt_log_exists (db_block_timestamps_update g d) = opt_log_exists d"
  "\<And>d g. fk_ok f (db_block_timestamps_update g d) = fk_ok f d"
  "\<And>d g. log_exists (db_messages_update g d) = log_exists d"
  "\<And>d g. opt_log_exists (db_messages_update g d) = opt_log_exists d"
  "\<And>d g. fk_ok f (db_messages_update g d) = fk_ok f d"
  "\<And>d g. log_exists (db_erc_to_native_messages_update g d) = log_exists d"
  "\<And>d g. opt_log_exists (db_erc_to_native_messages_update g d) = opt_log_exists d"
  "\<And>d g. fk_ok f (db_erc_to_native_messages_update g d) = fk_ok f d"
  "\<And>d g. log_exists (db_sent_messages_update g d) = log_exists d"
  "\<And>d g. opt_log_exists (db_sent_messages_update g d) = opt_log_exists d"
  "\<And>d g. fk_ok f (db_sent_messages_update g d) = fk_ok f d"
  "\<And>d g. log_exists (db_signed_messages_update g d) = log_exists d"
  "\<And>d g. opt_log_exists (db_signed_messages_update g d) = opt_log_exists d"
  "\<And>d g. fk_ok f (db_signed_messages_update g d) = fk_ok f d"
  "\<And>d g. log_exists (db_collected_messages_update g d) = log_exists d"
  "\<And>d g. opt_log_exists (db_collected_messages_update g d) = opt_log_exists d"
  "\<And>d g. fk_ok f (db_collected_messages_update g d) = fk_ok f d"
  "\<And>d g. log_exists (db_executed_messages_update g d) = log_exists d"
  "\<And>d g. opt_log_exists (db_executed_messages_update g d) = opt_log_exists d"
  "\<And>d g. fk_ok f (db_executed_messages_update g d) = fk_ok f d"
  "\<And>d g. log_exists (db_information_requests_update g d) = log_exists d"
  "\<And>d g. opt_log_exists (db_information_requests_update g d) = opt_log_exists d"
  "\<And>d g. fk_ok f (db_information_requests_update g d) = fk_ok f d"
  "\<And>d g. log_exists (db_sent_information_requests_update g d) = log_exists d"
  "\<And>d g. opt_log_exists (db_sent_information_requests_update g d) = opt_log_exists d"
  "\<And>d g. fk_ok f (db_sent_information_requests_update g d) = fk_ok f d"
  "\<And>d g. log_exists (db_signed_information_requests_update g d) = log_exists d"
  "\<And>d g. opt_log_exists (db_signed_information_requests_update g d) = opt_log_exists d"
  "\<And>d g. fk_ok f (db_signed_information_requests_update g d) = fk_ok f d"
  "\<And>d g. log_exists (db_executed_information_requests_update g d) = log_exists d"
  "\<And>d g. opt_log_exists (db_executed_information_requests_update g d) = opt_log_exists d"
  "\<And>d g. fk_ok f (db_executed_information_requests_update g d) = fk_ok f d"
  "\<And>d g. log_exists (db_bridge_validators_update g d) = log_exists d"
  "\<And>d g. opt_log_exists (db_bridge_validators_update g d) = opt_log_exists d"
  "\<And>d g. fk_ok f (db_bridge_validators_update g d) = fk_ok f d"
  by (simp_all add: log_exists_def opt_log_exists_def fk_ok_def fun_eq_iff split: option.split)

lemmas keep_tables = tbl_le_keep [OF keep_row_keyed_idem]

definition Messages_Ensure :: "env \<Rightarrow> Message \<Rightarrow> (world, unit) io" where
  "Messages_Ensure E msg = db_exec E (\<lambda>now d. ensure_stmt (\<lambda>rows. db_messages_update (\<lambda>_. rows))
     (ensure_row msg_key keep_row (\<lambda>m. byte_ok (msg_DataType m)) (\<lambda>m. True) (\<lambda>m. True)
        now msg (db_messages d)) d)"

definition SentMessages_Ensure :: "env \<Rightarrow> SentMessage \<Rightarrow> (world, unit) io" where
  "SentMessages_Ensure E msg = db_exec E (\<lambda>now d. ensure_stmt (\<lambda>rows. db_sent_messages_update (\<lambda>_. rows))
     (ensure_row sm_LogID keep_row (\<lambda>m. True) (\<lambda>m. log_exists d (sm_LogID m)) (\<lambda>m. True)
        now msg (db_sent_messages d)) d)"

definition SignedMessages_Ensure :: "env \<Rightarrow> SignedMessage \<Rightarrow> (world, unit) io" where
  "SignedMessages_Ensure E msg = db_exec E (\<lambda>now d. ensure_stmt (\<lambda>rows. db_signed_messages_update (\<lambda>_. rows))
     (ensure_row sgm_LogID keep_row (\<lambda>m. True) (\<lambda>m. log_exists d (sgm_LogID m) \<and> index_free signed_ix (db_signed_messages d) m) (\<lambda>m. True)
        now msg (db_signed_messages d)) d)"

definition CollectedMessages_Ensure :: "env \<Rightarrow> CollectedMessage \<Rightarrow> (world, unit) io" where
  "CollectedMessages_Ensure E msg = db_exec E (\<lambda>now d. ensure_stmt (\<lambda>rows. db_collected_messages_update (\<lambda>_. rows))
     (ensure_row cm_LogID keep_row (\<lambda>m. byte_ok (cm_NumSignatures m)) (\<lambda>m. log_exists d (cm_LogID m)) (\<lambda>m. True)
        now msg (db_collected_messages d)) d)"

definition ExecutedMessages_Ensure :: "env \<Rightarrow> ExecutedMessage \<Rightarrow> (world, unit) io" where
  "ExecutedMessages_Ensure E msg = db_exec E (\<lambda>now d. ensure_stmt (\<lambda>rows. db_executed_messages_update (\<lambda>_. rows))
     (ensure_row em_LogID keep_row (\<lambda>m. True) (\<lambda>m. log_exists d (em_LogID m)) (\<lambda>m. True)
        now msg (db_executed_messages d)) d)"

definition InformationRequests_Ensure :: "env \<Rightarrow> InformationRequest \<Rightarrow> (world, unit) io" where
  "InformationRequests_Ensure E msg = db_exec E (\<lambda>now d. ensure_stmt (\<lambda>rows. db_information_requests_update (\<lambda>_. rows))
     (ensure_row ir_key keep_row (\<lambda>m. True) (\<lambda>m. True) (\<lambda>m. True)
        now msg (db_information_requests d)) d)"

definition SentInformationRequests_Ensure :: "env \<Rightarrow> SentInformationRequest \<Rightarrow> (world, unit) io" where
  "SentInformationRequests_Ensure E msg = db_exec E (\<lambda>now d. ensure_stmt (\<lambda>rows. db_sent_information_requests_update (\<lambda>_. rows))
     (ensure_row sir_LogID keep_row (\<lambda>m. True) (\<lambda>m. log_exists d (sir_LogID m) \<and> index_free sir_ix (db_sent_information_requests d) m) (\<lambda>m. True)
        now msg (db_sent_information_requests d)) d)"

definition SignedInformationRequests_Ensure :: "env \<Rightarrow> SignedInformationRequest \<Rightarrow> (world, unit) io" where
  "SignedInformationRequests_Ensure E msg = db_exec E (\<lambda>now d. ensure_stmt (\<lambda>rows. db_signed_information_requests_update (\<lambda>_. rows))
     (ensure_row sgir_LogID keep_row (\<lambda>m. True) (\<lambda>m. log_exists d (sgir_LogID m)) (\<lambda>m. True)
        now msg (db_signed_information_requests d)) d)"

definition ExecutedInformationRequests_Ensure :: "env \<Rightarrow> ExecutedInformationRequest \<Rightarrow> (world, unit) io" where
  "ExecutedInformationRequests_Ensure E msg = db_exec E (\<lambda>now d. ensure_stmt (\<lambda>rows. db_executed_information_requests_update (\<lambda>_. rows))
     (ensure_row eir_LogID keep_row (\<lambda>m. True) (\<lambda>m. log_exists d (eir_LogID m) \<and> index_free eir_ix (db_executed_information_requests d) m) (\<lambda>m. True)
        now msg (db_executed_information_requests d)) d)"

definition ErcToNativeMessages_Ensure :: "env \<Rightarrow> ErcToNativeMessage \<Rightarrow> (world, unit) io" where
  "ErcToNativeMessages_Ensure E msg = db_exec E (\<lambda>now d. ensure_stmt
     (\<lambda>rows. db_erc_to_native_messages_update (\<lambda>_. rows))
     (ensure_row erc_key upd_erc (\<lambda>m. True) (\<lambda>m. True) (\<lambda>m. True)
        now msg (db_erc_to_native_messages d)) d)"

definition BridgeValidators_Ensure :: "env \<Rightarrow> BridgeValidator \<Rightarrow> (world, unit) io" where
  "BridgeValidators_Ensure E val = db_exec E (\<lambda>now d. ensure_stmt
     (\<lambda>rows. db_bridge_validators_update (\<lambda>_. rows))
     (ensure_row bv_LogID upd_validator (\<lambda>v. chain_id_ok (bv_ChainID v))
        (\<lambda>v. log_exists d (bv_LogID v) \<and> opt_log_exists d (bv_RemovedLogID v))
        (\<lambda>v. opt_log_exists d (bv_RemovedLogID v)) now val (db_bridge_validators d)) d)"

definition LogsCursors_Ensure :: "env \<Rightarrow> LogsCursor \<Rightarrow> (world, unit) io" where
  "LogsCursors_Ensure E cursor = db_exec E (\<lambda>now d. ensure_stmt
     (\<lambda>rows. db_logs_cursors_update (\<lambda>_. rows))
     (ensure_row cursor_key upd_cursor cursor_ok (\<lambda>c. True) (\<lambda>c. True)
        now cursor (db_logs_cursors d)) d)"

definition BlockTimestamps_Ensure :: "env \<Rightarrow> BlockTimestamp \<Rightarrow> (world, unit) io" where
  "BlockTimestamps_Ensure E ts = db_exec E (\<lambda>now d. ensure_stmt
     (\<lambda>rows. db_block_timestamps_update (\<lambda>_. rows))
     (ensure_row ts_key upd_ts (\<lambda>t. chain_id_ok (bt_ChainID t) \<and> int4_ok (bt_BlockNumber t))
        (\<lambda>t. True) (\<lambda>t. True) now ts (db_block_timestamps d)) d)"

subsection \<open>They keep the constraints and lose nothing\<close>

lemma ensure_grows_messages:
  assumes a: "ensure_row msg_key keep_row (\<lambda>m. byte_ok (msg_DataType m)) (\<lambda>m. True) (\<lambda>m. True)
      now msg (db_messages d) = Some rows"
  shows "db_le d (d\<lparr>db_messages := rows\<rparr>) \<and> (db_inv d \<longrightarrow> db_inv (d\<lparr>db_messages := rows\<rparr>))"
proof -
  from a have rows: "rows = upsert msg_key keep_row now msg (db_messages d)"
    by (simp add: ensure_row_Some)
  show ?thesis
     unfolding rows
    by (simp add: db_le_def keep_tables inv_defs messages_tbl.distinct_upsert)
qed

lemma ensure_grows_sent_messages:
  assumes a: "ensure_row sm_LogID keep_row (\<lambda>m. True) (\<lambda>m. log_exists d (sm_LogID m)) (\<lambda>m. True)
      now msg (db_sent_messages d) = Some rows"
  shows "db_le d (d\<lparr>db_sent_messages := rows\<rparr>) \<and> (db_inv d \<longrightarrow> db_inv (d\<lparr>db_sent_messages := rows\<rparr>))"
proof -
  from a have rows: "rows = upsert sm_LogID keep_row now msg (db_sent_messages d)"
    by (simp add: ensure_row_Some)
  from a have fk: "db_inv d \<Longrightarrow> fk_ok sm_LogID d (upsert sm_LogID keep_row now msg (db_sent_messages d))"
    by (intro fk_ok_upsert_keep keep_row_keyed_idem) (auto simp: ensure_row_Some db_inv_def refs_inv_def split: if_splits)
  show ?thesis
    using fk unfolding rows
    by (simp add: db_le_def keep_tables inv_defs sent_tbl.distinct_upsert)
qed

lemma ensure_grows_signed_messages:
  assumes a: "ensure_row sgm_LogID keep_row (\<lambda>m. True) (\<lambda>m. log_exists d (sgm_LogID m) \<and> index_free signed_ix (db_signed_messages d) m) (\<lambda>m. True)
      now msg (db_signed_messages d) = Some rows"
  shows "db_le d (d\<lparr>db_signed_messages := rows\<rparr>) \<and> (db_inv d \<longrightarrow> db_inv (d\<lparr>db_signed_messages := rows\<rparr>))"
proof -
  from a have rows: "rows = upsert sgm_LogID keep_row now msg (db_signed_messages d)"
    by (simp add: ensure_row_Some)
  from a have fk: "db_inv d \<Longrightarrow> fk_ok sgm_LogID d (upsert sgm_LogID keep_row now msg (db_signed_messages d))"
    by (intro fk_ok_upsert_keep keep_row_keyed_idem) (auto simp: ensure_row_Some db_inv_def refs_inv_def split: if_splits)
  from a have ix: "db_inv d \<Longrightarrow> distinct (map signed_ix (vals (upsert sgm_LogID keep_row now msg (db_signed_messages d))))"
    by (intro distinct_index_upsert keep_row_keyed_idem) (auto simp: ensure_row_Some db_inv_def keys_inv_def split: if_splits)
  show ?thesis
    using fk ix unfolding rows
    by (simp add: db_le_def keep_tables inv_defs signed_tbl.distinct_upsert)
qed

lemma ensure_grows_collected_messages:
  assumes a: "ensure_row cm_LogID keep_row (\<lambda>m. byte_ok (cm_NumSignatures m)) (\<lambda>m. log_exists d (cm_LogID m)) (\<lambda>m. True)
      now msg (db_collected_messages d) = Some rows"
  shows "db_le d (d\<lparr>db_collected_messages := rows\<rparr>) \<and> (db_inv d \<longrightarrow> db_inv (d\<lparr>db_collected_messages := rows\<rparr>))"
proof -
  from a have rows: "rows = upsert cm_LogID keep_row now msg (db_collected_messages d)"
    by (simp add: ensure_row_Some)
  from a have fk: "db_inv d \<Longrightarrow> fk_ok cm_LogID d (upsert cm_LogID keep_row now msg (db_collected_messages d))"
    by (intro fk_ok_upsert_keep keep_row_keyed_idem) (auto simp: ensure_row_Some db_inv_def refs_inv_def split: if_splits)
  show ?thesis
    using fk unfolding rows
    by (simp add: db_le_def keep_tables inv_defs collected_tbl.distinct_upsert)
qed

lemma ensure_grows_executed_messages:
  assumes a: "ensure_row em_LogID keep_row (\<lambda>m. True) (\<lambda>m. log_exists d (em_LogID m)) (\<lambda>m. True)
      now msg (db_executed_messages d) = Some rows"
  shows "db_le d (d\<lparr>db_executed_messages := rows\<rparr>) \<and> (db_inv d \<longrightarrow> db_inv (d\<lparr>db_executed_messages := rows\<rparr>))"
proof -
  from a have rows: "rows = upsert em_LogID keep_row now msg (db_executed_messages d)"
    by (simp add: ensure_row_Some)
  from a have fk: "db_inv d \<Longrightarrow> fk_ok em_LogID d (upsert em_LogID keep_row now msg (db_executed_messages d))"
    by (intro fk_ok_upsert_keep keep_row_keyed_idem) (auto simp: ensure_row_Some db_inv_def refs_inv_def split: if_splits)
  show ?thesis
    using fk unfolding rows
    by (simp add: db_le_def keep_tables inv_defs executed_tbl.distinct_upsert)
qed

lemma ensure_grows_information_requests:
  assumes a: "ensure_row ir_key keep_row (\<lambda>m. True) (\<lambda>m. True) (\<lambda>m. True)
      now msg (db_information_requests d) = Some rows"
  shows "db_le d (d\<lparr>db_information_requests := rows\<rparr>) \<and> (db_inv d \<longrightarrow> db_inv (d\<lparr>db_information_requests := rows\<rparr>))"
proof -
  from a have rows: "rows = upsert ir_key keep_row now msg (db_information_requests d)"
    by (simp add: ensure_row_Some)
  show ?thesis
     unfolding rows
    by (simp add: db_le_def keep_tables inv_defs requests_tbl.distinct_upsert)
qed

lemma ensure_grows_sent_information_requests:
  assumes a: "ensure_row sir_LogID keep_row (\<lambda>m. True) (\<lambda>m. log_exists d (sir_LogID m) \<and> index_free sir_ix (db_sent_information_requests d) m) (\<lambda>m. True)
      now msg (db_sent_information_requests d) = Some rows"
  shows "db_le d (d\<lparr>db_sent_information_requests := rows\<rparr>) \<and> (db_inv d \<longrightarrow> db_inv (d\<lparr>db_sent_information_requests := rows\<rparr>))"
proof -
  from a have rows: "rows = upsert sir_LogID keep_row now msg (db_sent_information_requests d)"
    by (simp add: ensure_row_Some)
  from a have fk: "db_inv d \<Longrightarrow> fk_ok sir_LogID d (upsert sir_LogID keep_row now msg (db_sent_information_requests d))"
    by (intro fk_ok_upsert_keep keep_row_keyed_idem) (auto simp: ensure_row_Some db_inv_def refs_inv_def split: if_splits)
  from a have ix: "db_inv d \<Longrightarrow> distinct (map sir_ix (vals (upsert sir_LogID keep_row now msg (db_sent_information_requests d))))"
    by (intro distinct_index_upsert keep_row_keyed_idem) (auto simp: ensure_row_Some db_inv_def keys_inv_def split: if_splits)
  show ?thesis
    using fk ix unfolding rows
    by (simp add: db_le_def keep_tables inv_defs sent_requests_tbl.distinct_upsert)
qed

lemma ensure_grows_signed_information_requests:
  assumes a: "ensure_row sgir_LogID keep_row (\<lambda>m. True) (\<lambda>m. log_exists d (sgir_LogID m)) (\<lambda>m. True)
      now msg (db_signed_information_requests d) = Some rows"
  shows "db_le d (d\<lparr>db_signed_information_requests := rows\<rparr>) \<and> (db_inv d \<longrightarrow> db_inv (d\<lparr>db_signed_information_requests := rows\<rparr>))"
proof -
  from a have rows: "rows = upsert sgir_LogID keep_row now msg (db_signed_information_requests d)"
    by (simp add: ensure_row_Some)
  from a have fk: "db_inv d \<Longrightarrow> fk_ok sgir_LogID d (upsert sgir_LogID keep_row now msg (db_signed_information_requests d))"
    by (intro fk_ok_upsert_keep keep_row_keyed_idem) (auto simp: ensure_row_Some db_inv_def refs_inv_def split: if_splits)
  show ?thesis
    using fk unfolding rows
    by (simp add: db_le_def keep_tables inv_defs signed_requests_tbl.distinct_upsert)
qed

lemma ensure_grows_executed_information_requests:
  assumes a: "ensure_row eir_LogID keep_row (\<lambda>m. True) (\<lambda>m. log_exists d (eir_LogID m) \<and> index_free eir_ix (db_executed_information_requests d) m) (\<lambda>m. True)
      now msg (db_executed_information_requests d) = Some rows"
  shows "db_le d (d\<lparr>db_executed_information_requests := rows\<rparr>) \<and> (db_inv d \<longrightarrow> db_inv (d\<lparr>db_executed_information_requests := rows\<rparr>))"
proof -
  from a have rows: "rows = upsert eir_LogID keep_row now msg (db_executed_information_requests d)"
    by (simp add: ensure_row_Some)
  from a have fk: "db_inv d \<Longrightarrow> fk_ok eir_LogID d (upsert eir_LogID keep_row now msg (db_executed_information_requests d))"
    by (intro fk_ok_upsert_keep keep_row_keyed_idem) (auto simp: ensure_row_Some db_inv_def refs_inv_def split: if_splits)
  from a have ix: "db_inv d \<Longrightarrow> distinct (map eir_ix (vals (upsert eir_LogID keep_row now msg (db_executed_information_requests d))))"
    by (intro distinct_index_upsert keep_row_keyed_idem) (auto simp: ensure_row_Some db_inv_def keys_inv_def split: if_splits)
  show ?thesis
    using fk ix unfolding rows
    by (simp add: db_le_def keep_tables inv_defs executed_requests_tbl.distinct_upsert)
qed

lemma Messages_Ensure_grows [intro, simp]: "keepsE grows (Messages_Ensure E msg)"
  unfolding Messages_Ensure_def
  by (intro keepsE_db_exec stmt_grows_ensure ensure_grows_messages)

lemma SentMessages_Ensure_grows [intro, simp]: "keepsE grows (SentMessages_Ensure E msg)"
  unfolding SentMessages_Ensure_def
  by (intro keepsE_db_exec stmt_grows_ensure ensure_grows_sent_messages)

lemma SignedMessages_Ensure_grows [intro, simp]: "keepsE grows (SignedMessages_Ensure E msg)"
  unfolding SignedMessages_Ensure_def
  by (intro keepsE_db_exec stmt_grows_ensure ensure_grows_signed_messages)

lemma CollectedMessages_Ensure_grows [intro, simp]: "keepsE grows (CollectedMessages_Ensure E msg)"
  unfolding CollectedMessages_Ensure_def
  by (intro keepsE_db_exec stmt_grows_ensure ensure_grows_collected_messages)

lemma ExecutedMessages_Ensure_grows [intro, simp]: "keepsE grows (ExecutedMessages_Ensure E msg)"
  unfolding ExecutedMessages_Ensure_def
  by (intro keepsE_db_exec stmt_grows_ensure ensure_grows_executed_messages)

lemma InformationRequests_Ensure_grows [intro, simp]: "keepsE grows (InformationRequests_Ensure E msg)"
  unfolding InformationRequests_Ensure_def
  by (intro keepsE_db_exec stmt_grows_ensure ensure_grows_information_requests)

lemma SentInformationRequests_Ensure_grows [intro, simp]: "keepsE grows (SentInformationRequests_Ensure E msg)"
  unfolding SentInformationRequests_Ensure_def
  by (intro keepsE_db_exec stmt_grows_ensure ensure_grows_sent_information_requests)

lemma SignedInformationRequests_Ensure_grows [intro, simp]: "keepsE grows (SignedInformationRequests_Ensure E msg)"
  unfolding SignedInformationRequests_Ensure_def
  by (intro keepsE_db_exec stmt_grows_ensure ensure_grows_signed_information_requests)

lemma ExecutedInformationRequests_Ensure_grows [intro, simp]: "keepsE grows (ExecutedInformationRequests_Ensure E msg)"
  unfolding ExecutedInformationRequests_Ensure_def
  by (intro keepsE_db_exec stmt_grows_ensure ensure_grows_executed_information_requests)

lemma ensure_grows_erc:
  "db_le d (d\<lparr>db_erc_to_native_messages := upsert erc_key upd_erc now msg (db_erc_to_native_messages d)\<rparr>)
   \<and> (db_inv d \<longrightarrow>
      db_inv (d\<lparr>db_erc_to_native_messages := upsert erc_key upd_erc now msg (db_erc_to_native_messages d)\<rparr>))"
proof -
  have "tbl_le erc_core (db_erc_to_native_messages d)
      (upsert erc_key upd_erc now msg (db_erc_to_native_messages d))"
    by (rule erc_tbl.tbl_le_upsert) (simp add: upd_erc_def erc_core_def)
  then show ?thesis
    by (simp add: db_le_def inv_defs erc_tbl.distinct_upsert)
qed

lemma ErcToNativeMessages_Ensure_grows [intro, simp]: "keepsE grows (ErcToNativeMessages_Ensure E msg)"
  unfolding ErcToNativeMessages_Ensure_def
  by (intro keepsE_db_exec stmt_grows_ensure) (auto simp: ensure_row_Some ensure_grows_erc)

lemma ensure_grows_validators:
  assumes "ensure_row bv_LogID upd_validator (\<lambda>v. chain_id_ok (bv_ChainID v))
        (\<lambda>v. log_exists d (bv_LogID v) \<and> opt_log_exists d (bv_RemovedLogID v))
        (\<lambda>v. opt_log_exists d (bv_RemovedLogID v)) now val (db_bridge_validators d) = Some rows"
  shows "db_le d (d\<lparr>db_bridge_validators := rows\<rparr>) \<and>
    (db_inv d \<longrightarrow> db_inv (d\<lparr>db_bridge_validators := rows\<rparr>))"
proof -
  have rows: "rows = upsert bv_LogID upd_validator now val (db_bridge_validators d)"
    and removed: "opt_log_exists d (bv_RemovedLogID val)"
    and ins: "bv_LogID val \<notin> bv_LogID ` set (vals (db_bridge_validators d)) \<Longrightarrow> log_exists d (bv_LogID val)"
    using assms by (auto simp: ensure_row_Some split: if_splits)
  have le: "tbl_le validator_core (db_bridge_validators d) rows"
    unfolding rows by (rule validators_tbl.tbl_le_upsert) (simp add: upd_validator_def validator_core_def)
  have refs: "fk_ok bv_LogID d rows \<and> (\<forall>v \<in> set (vals rows). opt_log_exists d (bv_RemovedLogID v))"
    if "refs_inv d"
  proof -
    have "fk_ok bv_LogID d (db_bridge_validators d)"
      and "\<forall>v \<in> set (vals (db_bridge_validators d)). opt_log_exists d (bv_RemovedLogID v)"
      using that by (simp_all add: refs_inv_def)
    then show ?thesis
      using removed ins unfolding rows fk_ok_def
      by (auto simp: validators_tbl.vals_upsert upd_validator_def)
  qed
  have "distinct (map bv_LogID (vals (db_bridge_validators d))) \<Longrightarrow> distinct (map bv_LogID (vals rows))"
    unfolding rows by (rule validators_tbl.distinct_upsert)
  moreover have "refs_inv d \<Longrightarrow> refs_inv (d\<lparr>db_bridge_validators := rows\<rparr>)"
    using refs by (simp add: refs_inv_def)
  ultimately show ?thesis
    using le by (simp add: db_le_def db_inv_def logs_inv_def keys_inv_def)
qed

lemma BridgeValidators_Ensure_grows [intro, simp]: "keepsE grows (BridgeValidators_Ensure E val)"
  unfolding BridgeValidators_Ensure_def
  by (intro keepsE_db_exec stmt_grows_ensure ensure_grows_validators)

lemma ensure_grows_cursors:
  assumes "ensure_row cursor_key upd_cursor cursor_ok (\<lambda>c. True) (\<lambda>c. True)
        now cursor (db_logs_cursors d) = Some rows"
  shows "db_le d (d\<lparr>db_logs_cursors := rows\<rparr>) \<and> (db_inv d \<longrightarrow> db_inv (d\<lparr>db_logs_cursors := rows\<rparr>))"
proof -
  have rows: "rows = upsert cursor_key upd_cursor now cursor (db_logs_cursors d)" and ok: "cursor_ok cursor"
    using assms by (simp_all add: ensure_row_Some)
  have le: "tbl_le cursor_key (db_logs_cursors d) rows"
    unfolding rows by (rule cursors_tbl.tbl_le_upsert) (simp add: upd_cursor_def cursor_key_def)
  have all: "cursor_ok c" if "db_inv d" and "c \<in> set (vals rows)" for c
    using that ok unfolding rows
    by (auto simp: cursors_tbl.vals_upsert upd_cursor_def cursor_ok_def db_inv_def cursor_key_def split: if_splits)
  have "distinct (map cursor_key (vals (db_logs_cursors d))) \<Longrightarrow> distinct (map cursor_key (vals rows))"
    unfolding rows by (rule cursors_tbl.distinct_upsert)
  then show ?thesis
    using le all by (simp add: db_le_def inv_defs)
qed

lemma LogsCursors_Ensure_grows [intro, simp]: "keepsE grows (LogsCursors_Ensure E cursor)"
  unfolding LogsCursors_Ensure_def
  by (intro keepsE_db_exec stmt_grows_ensure ensure_grows_cursors)

lemma ensure_grows_timestamps:
  "db_le d (d\<lparr>db_block_timestamps := upsert ts_key upd_ts now ts (db_block_timestamps d)\<rparr>)
   \<and> (db_inv d \<longrightarrow> db_inv (d\<lparr>db_block_timestamps := upsert ts_key upd_ts now ts (db_block_timestamps d)\<rparr>))"
proof -
  have "tbl_le ts_key (db_block_timestamps d) (upsert ts_key upd_ts now ts (db_block_timestamps d))"
    by (rule timestamps_tbl.tbl_le_upsert) (simp add: upd_ts_def ts_key_def)
  then show ?thesis
    by (simp add: db_le_def inv_defs timestamps_tbl.distinct_upsert)
qed

lemma BlockTimestamps_Ensure_grows [intro, simp]: "keepsE grows (BlockTimestamps_Ensure E ts)"
  unfolding BlockTimestamps_Ensure_def
  by (intro keepsE_db_exec stmt_grows_ensure) (auto simp: ensure_row_Some ensure_grows_timestamps)

section \<open>The logs repository\<close>

text \<open>
  One statement inserts many rows: each row takes the next value of the sequence of ids, whether
  or not its key is there already; a row whose own key occurs earlier in the same statement is
  an error, and an error takes back everything but the sequence. The ids of the rows come back
  in order.
\<close>

definition log_columns_ok :: "Log \<Rightarrow> bool" where
  "log_columns_ok l \<longleftrightarrow> chain_id_ok (log_ChainID l) \<and> int4_ok (log_BlockNumber l) \<and> int4_ok (log_LogIndex l)"

definition put_log :: "time \<Rightarrow> Log \<Rightarrow> nat \<Rightarrow> database \<Rightarrow> database" where
  "put_log now l i d = d\<lparr>db_logs := upsert log_key keep_row now (l\<lparr>log_ID := of_nat i\<rparr>) (db_logs d),
     db_logs_seq := i\<rparr>"

fun logs_stmt :: "time \<Rightarrow> (string \<times> uint \<times> uint) list \<Rightarrow> Log list \<Rightarrow> database \<Rightarrow>
    uint list res \<times> database" where
  "logs_stmt now seen [] d = (Inr [], d)"
| "logs_stmt now seen (l # ls) d =
     (let i = Suc (db_logs_seq d) in
      if i > int4_max then (Inl (Err ErrConstraint), d)
      else if \<not> log_columns_ok l \<or> log_key l \<in> set seen
        then (Inl (Err ErrConstraint), d\<lparr>db_logs_seq := i\<rparr>)
      else let d1 = put_log now l i d in
        case logs_stmt now (log_key l # seen) ls d1 of
          (Inl e, d2) \<Rightarrow> (Inl e, d2)
        | (Inr ids, d2) \<Rightarrow>
            (Inr ((case lookup log_key (db_logs d1) (log_key l) of Some r \<Rightarrow> log_ID r | None \<Rightarrow> 0) # ids), d2))"

definition Logs_Ensure :: "env \<Rightarrow> Log list \<Rightarrow> (world, Log list) io" where
  "Logs_Ensure E logs =
     (if logs = [] then failE (Err ErrDB) else
      bindE (db_exec E (\<lambda>now d. case logs_stmt now [] logs d of
          (Inl e, d') \<Rightarrow> (Inl e, d\<lparr>db_logs_seq := db_logs_seq d'\<rparr>)
        | (Inr ids, d') \<Rightarrow> (Inr ids, d'))) (\<lambda>ids.
      if length ids \<noteq> length logs then failE (Err ErrInvalidPostgresResult)
      else returnE (map2 (\<lambda>l i. l\<lparr>log_ID := i\<rparr>) logs ids)))"

lemma log_key_id [simp]: "log_key (l\<lparr>log_ID := i\<rparr>) = log_key l"
  by (simp add: log_key_def)

lemma put_log_fields [simp]:
  "db_logs (put_log now l i d) = upsert log_key keep_row now (l\<lparr>log_ID := of_nat i\<rparr>) (db_logs d)"
  "db_logs_seq (put_log now l i d) = i"
  by (simp_all add: put_log_def)

lemma put_log_inv:
  assumes inv: "logs_inv d" and i: "i = Suc (db_logs_seq d)" "i \<le> int4_max"
  shows "logs_inv (put_log now l i d)"
proof -
  have i31: "i \<le> 2147483647" using i(2) by (simp add: int4_max_def)
  then have un: "unat (of_nat i :: uint) = i" by (simp add: unat_of_nat)
  have old: "0 < unat j \<and> unat j \<le> db_logs_seq d" if "j \<in> set (log_ids d)" for j
    using inv that by (simp add: logs_inv_def)
  then have fresh: "(of_nat i :: uint) \<notin> set (log_ids d)"
    using un i(1) by fastforce
  have ids: "log_ids (put_log now l i d) = (if log_key l \<in> log_key ` set (vals (db_logs d))
      then log_ids d else log_ids d @ [of_nat i])"
    by (simp add: log_ids_def logs_tbl.vals_upsert keep_row_def cong: if_cong map_cong)
  have "distinct (map log_key (vals (upsert log_key keep_row now (l\<lparr>log_ID := of_nat i\<rparr>) (db_logs d))))"
    using inv by (intro logs_tbl.distinct_upsert) (simp add: logs_inv_def)
  moreover have "db_logs_seq d \<le> i" using i(1) by simp
  moreover have "distinct (log_ids d)" using inv by (simp add: logs_inv_def)
  moreover have "0 < i" using i(1) by simp
  ultimately show ?thesis
    unfolding logs_inv_def ids put_log_fields
    using old fresh un i(2) by (auto dest!: old intro: order_trans)
qed

lemma log_ids_seq [simp]: "log_ids (db_logs_seq_update f d) = log_ids d"
  by (simp add: log_ids_def)

text \<open>What a run over the rows changes: logs are added, the sequence moves on.\<close>

definition logs_grow :: "database \<Rightarrow> database \<Rightarrow> bool" where
  "logs_grow d d' \<longleftrightarrow> d' = d\<lparr>db_logs := db_logs d', db_logs_seq := db_logs_seq d'\<rparr>
     \<and> tbl_le id (db_logs d) (db_logs d') \<and> db_logs_seq d \<le> db_logs_seq d'
     \<and> (logs_inv d \<longrightarrow> logs_inv d')"

lemma logs_grow_refl [simp]: "logs_grow d d"
  by (simp add: logs_grow_def)

lemma logs_grow_trans: "logs_grow a b \<Longrightarrow> logs_grow b c \<Longrightarrow> logs_grow a c"
  unfolding logs_grow_def by (cases a; cases b; cases c) (auto intro: tbl_le_trans)

lemma logs_grow_put:
  "i = Suc (db_logs_seq d) \<Longrightarrow> i \<le> int4_max \<Longrightarrow> logs_grow d (put_log now l i d)"
  by (simp add: logs_grow_def keep_tables put_log_inv) (simp add: put_log_def)

lemma logs_inv_seq:
  "logs_inv d \<Longrightarrow> db_logs_seq d \<le> s \<Longrightarrow> s \<le> int4_max \<Longrightarrow> logs_inv (d\<lparr>db_logs_seq := s\<rparr>)"
  by (force simp: logs_inv_def log_ids_def)

lemma logs_stmt_grow: "logs_grow d (snd (logs_stmt now seen ls d))"
proof (induction now seen ls d rule: logs_stmt.induct)
  case (2 now seen l ls d)
  let ?i = "Suc (db_logs_seq d)"
  consider "?i > int4_max" | "?i \<le> int4_max" "\<not> log_columns_ok l \<or> log_key l \<in> set seen"
    | (ok) "?i \<le> int4_max" "log_columns_ok l" "log_key l \<notin> set seen" by fastforce
  then show ?case
  proof cases
    case 1
    then show ?thesis by simp
  next
    case 2
    then show ?thesis
      by (auto simp: logs_grow_def Let_def intro: logs_inv_seq)
  next
    case ok
    obtain r d2 where run: "logs_stmt now (log_key l # seen) ls (put_log now l ?i d) = (r, d2)"
      by (cases "logs_stmt now (log_key l # seen) ls (put_log now l ?i d)")
    have "\<not> ?i > int4_max" "\<not> (\<not> log_columns_ok l \<or> log_key l \<in> set seen)" using ok by simp_all
    from "2.IH" [OF refl this refl] have "logs_grow (put_log now l ?i d) d2"
      by (simp only: run snd_conv)
    with logs_grow_put [OF refl ok(1)] have "logs_grow d d2" by (rule logs_grow_trans)
    then show ?thesis
      using ok run by (cases r) (simp_all add: Let_def del: put_log_fields)
  qed
qed simp

lemma fk_ok_mono: "fk_ok f d rows \<Longrightarrow> set (log_ids d) \<subseteq> set (log_ids d') \<Longrightarrow> fk_ok f d' rows"
  by (auto simp: fk_ok_def log_exists_def)

lemma opt_log_exists_mono:
  "opt_log_exists d i \<Longrightarrow> set (log_ids d) \<subseteq> set (log_ids d') \<Longrightarrow> opt_log_exists d' i"
  by (auto simp: opt_log_exists_def log_exists_def split: option.splits)

lemma logs_grow_db:
  assumes "logs_grow d d'"
  shows "db_le d d' \<and> (db_inv d \<longrightarrow> db_inv d')"
proof -
  obtain rows s where d': "d' = d\<lparr>db_logs := rows, db_logs_seq := s\<rparr>" and le: "tbl_le id (db_logs d) rows"
    and li: "logs_inv d \<longrightarrow> logs_inv d'"
    using assms by (metis logs_grow_def)
  have sub: "set (log_ids d) \<subseteq> set (log_ids d')"
    using le by (auto simp: d' log_ids_def tbl_le_def)
  note fk = fk_ok_mono [OF _ sub] and opt = opt_log_exists_mono [OF _ sub]
  have "refs_inv d'" if refs: "refs_inv d"
  proof -
    have tables: "db_sent_messages d' = db_sent_messages d" "db_signed_messages d' = db_signed_messages d"
      "db_collected_messages d' = db_collected_messages d" "db_executed_messages d' = db_executed_messages d"
      "db_sent_information_requests d' = db_sent_information_requests d"
      "db_signed_information_requests d' = db_signed_information_requests d"
      "db_executed_information_requests d' = db_executed_information_requests d"
      "db_bridge_validators d' = db_bridge_validators d"
      by (simp_all add: d')
    show ?thesis
      using refs unfolding refs_inv_def tables by (blast intro: fk opt)
  qed
  then show ?thesis
    using le li by (simp add: d' db_le_def db_inv_def keys_inv_def)
qed

lemma Logs_Ensure_grows [intro, simp]: "keepsE grows (Logs_Ensure E logs)"
proof -
  have "stmt_grows (\<lambda>now d. case logs_stmt now [] logs d of
          (Inl e, d') \<Rightarrow> (Inl e, d\<lparr>db_logs_seq := db_logs_seq d'\<rparr>)
        | (Inr ids, d') \<Rightarrow> (Inr ids, d'))"
    unfolding stmt_grows_def
  proof (intro allI)
    fix now d
    obtain r d' where run: "logs_stmt now [] logs d = (r, d')" by (cases "logs_stmt now [] logs d")
    then have grow: "logs_grow d d'" using logs_stmt_grow [of d now "[]" logs] by simp
    have "logs_grow d (d\<lparr>db_logs_seq := db_logs_seq d'\<rparr>)"
      using grow by (auto simp: logs_grow_def logs_inv_def intro!: logs_inv_seq)
    with grow run show "db_le d (snd (case logs_stmt now [] logs d of
          (Inl e, d') \<Rightarrow> (Inl e, d\<lparr>db_logs_seq := db_logs_seq d'\<rparr>) | (Inr ids, d') \<Rightarrow> (Inr ids, d'))) \<and>
        (db_inv d \<longrightarrow> db_inv (snd (case logs_stmt now [] logs d of
          (Inl e, d') \<Rightarrow> (Inl e, d\<lparr>db_logs_seq := db_logs_seq d'\<rparr>) | (Inr ids, d') \<Rightarrow> (Inr ids, d'))))"
      using logs_grow_db by (cases r) simp_all
  qed
  then show ?thesis
    unfolding Logs_Ensure_def by (auto intro!: keepsE_grows_bindE keepsE_db_exec)
qed

text \<open>
  A statement that succeeds: every row is in the table under its key, with the id that came back;
  the keys are different.
\<close>

definition stored :: "database \<Rightarrow> Log \<Rightarrow> uint \<Rightarrow> bool" where
  "stored d l i \<longleftrightarrow> (\<exists>r \<in> set (vals (db_logs d)). log_key r = log_key l \<and> log_ID r = i)"

lemma stored_grow: "stored d l i \<Longrightarrow> tbl_le id (db_logs d) (db_logs d') \<Longrightarrow> stored d' l i"
  by (auto simp: stored_def dest: tbl_le_idD)

lemma logs_stmt_stored:
  assumes "logs_stmt now seen ls d = (Inr ids, d')"
  shows "list_all2 (stored d') ls ids \<and> distinct (map log_key ls)
    \<and> set (map log_key ls) \<inter> set seen = {} \<and> list_all log_columns_ok ls"
  using assms
proof (induction now seen ls d arbitrary: ids d' rule: logs_stmt.induct)
  case (2 now seen l ls d)
  let ?i = "Suc (db_logs_seq d)"
  let ?d1 = "put_log now l ?i d"
  from "2.prems" have ok: "\<not> ?i > int4_max" "log_columns_ok l" "log_key l \<notin> set seen"
    by (auto simp: Let_def split: if_splits)
  with "2.prems" obtain ids' where run: "logs_stmt now (log_key l # seen) ls ?d1 = (Inr ids', d')"
    and ids: "ids = (case lookup log_key (db_logs ?d1) (log_key l) of Some r \<Rightarrow> log_ID r | None \<Rightarrow> 0) # ids'"
    by (auto simp: Let_def split: prod.splits sum.splits)
  from "2.IH" [OF refl ok(1) _ refl run] ok have IH:
    "list_all2 (stored d') ls ids' \<and> distinct (map log_key ls)
     \<and> set (map log_key ls) \<inter> set (log_key l # seen) = {} \<and> list_all log_columns_ok ls"
    by simp
  obtain r where r: "lookup log_key (db_logs ?d1) (log_key l) = Some r"
    by (auto simp: logs_tbl.lookup_upsert split: option.splits)
  then have "stored ?d1 l (log_ID r)"
    by (auto simp: stored_def simp del: put_log_fields dest!: lookup_in)
  moreover have "logs_grow ?d1 d'"
    using logs_stmt_grow [of ?d1 now "log_key l # seen" ls] run by simp
  ultimately have "stored d' l (log_ID r)"
    by (auto simp: logs_grow_def intro: stored_grow)
  with IH ids r ok show ?case by auto
qed simp

lemma Logs_Ensure_stored:
  assumes "Logs_Ensure E logs w = (Inr logs', w')"
  shows "list_all2 (\<lambda>l l'. l' = l\<lparr>log_ID := log_ID l'\<rparr> \<and> stored (w_db w') l (log_ID l')) logs logs'"
    and "distinct (map log_key logs)" and "list_all log_columns_ok logs"
proof -
  from assms obtain ids where ids: "logs_stmt (env_clock E (w_tick w)) [] logs (w_db w) = (Inr ids, w_db w')"
    and logs': "logs' = map2 (\<lambda>l i. l\<lparr>log_ID := i\<rparr>) logs ids"
    by (auto simp: Logs_Ensure_def bindE_Inr_iff db_exec_Inr split: if_splits prod.splits sum.splits)
  from logs_stmt_stored [OF ids]
  have st: "list_all2 (stored (w_db w')) logs ids" and dist: "distinct (map log_key logs)"
    and cols: "list_all log_columns_ok logs" by auto
  show "distinct (map log_key logs)" "list_all log_columns_ok logs" by (rule dist, rule cols)
  show "list_all2 (\<lambda>l l'. l' = l\<lparr>log_ID := log_ID l'\<rparr> \<and> stored (w_db w') l (log_ID l')) logs logs'"
    using st unfolding logs' by (induction logs ids rule: list_all2_induct) auto
qed

text \<open>The database returns as many ids as rows, so the check on their number never fails.\<close>

lemma Logs_Ensure_no_invalid_result:
  "fst (Logs_Ensure E logs w) \<noteq> Inl (Err ErrInvalidPostgresResult)"
proof -
  have err: "logs_stmt now seen ls d = (Inl e, d') \<Longrightarrow> e = Err ErrConstraint" for now seen ls d e d'
    by (induction now seen ls d arbitrary: e d' rule: logs_stmt.induct)
      (auto simp: Let_def split: if_splits prod.splits sum.splits)
  obtain r d' where run: "logs_stmt (env_clock E (w_tick w)) [] logs (w_db w) = (r, d')"
    by (cases "logs_stmt (env_clock E (w_tick w)) [] logs (w_db w)")
  show ?thesis
  proof (cases r)
    case (Inl e)
    with run have "e = Err ErrConstraint" using err by blast
    with run Inl show ?thesis
      by (auto simp: Logs_Ensure_def bindE_apply db_exec_def Let_def split: db_fault.split)
  next
    case (Inr ids)
    with run have "length ids = length logs"
      by (metis logs_stmt_stored list_all2_lengthD)
    with Inr run show ?thesis
      by (simp add: Logs_Ensure_def bindE_apply db_exec_def Let_def split: db_fault.split)
  qed
qed

definition Logs_GetByID :: "env \<Rightarrow> uint \<Rightarrow> (world, Log) io" where
  "Logs_GetByID E i = db_query E (\<lambda>d. first_row (filter (\<lambda>l. log_ID l = i) (vals (db_logs d))))"

text \<open>A condition on a nullable column: NULL equals nothing.\<close>

definition topic_in :: "hash option \<Rightarrow> hash list \<Rightarrow> bool" where
  "topic_in t ts = (case t of None \<Rightarrow> False | Some h \<Rightarrow> h \<in> set ts)"

definition matches :: "LogsFilter \<Rightarrow> Log \<Rightarrow> bool" where
  "matches f l \<longleftrightarrow>
     (case lf_ChainID f of None \<Rightarrow> True | Some c \<Rightarrow> log_ChainID l = c)
     \<and> (length (lf_Addresses f) > 0 \<longrightarrow> log_Address l \<in> set (lf_Addresses f))
     \<and> (case lf_FromBlock f of None \<Rightarrow> True | Some b \<Rightarrow> b \<le> log_BlockNumber l)
     \<and> (case lf_ToBlock f of None \<Rightarrow> True | Some b \<Rightarrow> log_BlockNumber l \<le> b)
     \<and> (case lf_TxHash f of None \<Rightarrow> True | Some h \<Rightarrow> log_TransactionHash l = h)
     \<and> (length (lf_Topic0 f) > 0 \<longrightarrow> topic_in (log_Topic0 l) (lf_Topic0 f))
     \<and> (length (lf_Topic1 f) > 0 \<longrightarrow> topic_in (log_Topic1 l) (lf_Topic1 f))
     \<and> (length (lf_Topic2 f) > 0 \<longrightarrow> topic_in (log_Topic2 l) (lf_Topic2 f))
     \<and> (length (lf_Topic3 f) > 0 \<longrightarrow> topic_in (log_Topic3 l) (lf_Topic3 f))
     \<and> (case lf_DataLength f of None \<Rightarrow> True | Some n \<Rightarrow> length (log_Data l) = unat n)"

text \<open>\<open>ORDER BY chain_id, block_number, log_index\<close>; chain ids are compared as numbers.\<close>

definition order_logs :: "Log list \<Rightarrow> Log list" where
  "order_logs ls = sort_key (\<lambda>l. digits_value 0 (log_ChainID l)) (sort_key log_pos_of ls)"

definition opt_int4_ok :: "uint option \<Rightarrow> bool" where
  "opt_int4_ok n = (case n of None \<Rightarrow> True | Some b \<Rightarrow> int4_ok b)"

definition Logs_Find :: "env \<Rightarrow> LogsFilter \<Rightarrow> (world, Log list) io" where
  "Logs_Find E f = db_query E (\<lambda>d.
     if \<not> (opt_int4_ok (lf_FromBlock f) \<and> opt_int4_ok (lf_ToBlock f) \<and> opt_int4_ok (lf_DataLength f))
     then Inl (Err ErrDB)
     else Inr (order_logs (filter (matches f) (vals (db_logs d)))))"

definition Logs_FindByIDs :: "env \<Rightarrow> uint list \<Rightarrow> (world, Log list) io" where
  "Logs_FindByIDs E ids =
     db_query E (\<lambda>d. Inr (order_logs (filter (\<lambda>l. log_ID l \<in> set ids) (vals (db_logs d)))))"

lemma set_order_logs [simp]: "set (order_logs ls) = set ls"
  by (simp add: order_logs_def)

lemma mset_order_logs: "mset (order_logs ls) = mset ls"
  by (simp add: order_logs_def)

lemma order_logs_one_chain:
  assumes "\<And>l. l \<in> set ls \<Longrightarrow> log_ChainID l = c"
  shows "sorted (map log_pos_of (order_logs ls))"
proof -
  let ?xs = "sort_key log_pos_of ls"
  have "map (\<lambda>l. digits_value 0 (log_ChainID l)) ?xs = replicate (length ?xs) (digits_value 0 c)"
    using assms by (intro replicate_eqI) auto
  then have "sorted (map (\<lambda>l. digits_value 0 (log_ChainID l)) ?xs)" by (simp only: sorted_replicate)
  then have "order_logs ls = ?xs"
    by (simp add: order_logs_def sorted_sort_id sort_key_id_if_sorted)
  then show ?thesis by simp
qed

lemma Logs_Find_Inr:
  assumes "Logs_Find E f w = (Inr ls, w')"
  shows "set ls = {l \<in> set (vals (db_logs (w_db w))). matches f l} \<and> w_db w' = w_db w"
  using assms by (auto simp: Logs_Find_def db_query_Inr split: if_splits)

section \<open>Queries on the other tables\<close>

definition LogsCursors_GetByChainIDAndAddress :: "env \<Rightarrow> string \<Rightarrow> address \<Rightarrow> (world, LogsCursor) io" where
  "LogsCursors_GetByChainIDAndAddress E chainID addr = db_query E (\<lambda>d.
     first_row (filter (\<lambda>c. lc_ChainID c = chainID \<and> lc_Address c = addr) (vals (db_logs_cursors d))))"

definition BlockTimestamps_GetByBlockNumber :: "env \<Rightarrow> string \<Rightarrow> uint \<Rightarrow> (world, BlockTimestamp) io" where
  "BlockTimestamps_GetByBlockNumber E chainID blockNumber = db_query E (\<lambda>d.
     if \<not> int4_ok blockNumber then Inl (Err ErrDB) else
     first_row (filter (\<lambda>t. bt_ChainID t = chainID \<and> bt_BlockNumber t = blockNumber)
       (vals (db_block_timestamps d))))"

definition Messages_GetByMsgHash :: "env \<Rightarrow> string \<Rightarrow> hash \<Rightarrow> (world, Message) io" where
  "Messages_GetByMsgHash E bridgeID msgHash = db_query E (\<lambda>d.
     first_row (filter (\<lambda>m. msg_BridgeID m = bridgeID \<and> msg_MsgHash m = msgHash) (vals (db_messages d))))"

definition Messages_GetByMessageID :: "env \<Rightarrow> string \<Rightarrow> hash \<Rightarrow> (world, Message) io" where
  "Messages_GetByMessageID E bridgeID messageID = db_query E (\<lambda>d.
     first_row (filter (\<lambda>m. msg_BridgeID m = bridgeID \<and> msg_MessageID m = messageID) (vals (db_messages d))))"

text \<open>
  The left join with \<open>executed_messages\<close> where the joined row is absent: no execution of the
  message is recorded.
\<close>

definition executed :: "database \<Rightarrow> string \<Rightarrow> hash \<Rightarrow> bool" where
  "executed d bridgeID messageID =
     list_ex (\<lambda>e. em_MessageID e = messageID \<and> em_BridgeID e = bridgeID) (vals (db_executed_messages d))"

definition Messages_FindPendingMessages :: "env \<Rightarrow> string \<Rightarrow> (world, Message list) io" where
  "Messages_FindPendingMessages E bridgeID = db_query E (\<lambda>d.
     Inr (map r_val (sort_key r_created (filter (\<lambda>r. msg_BridgeID (r_val r) = bridgeID
       \<and> \<not> executed d (msg_BridgeID (r_val r)) (msg_MessageID (r_val r))) (db_messages d)))))"

definition ErcToNativeMessages_GetByMsgHash :: "env \<Rightarrow> string \<Rightarrow> hash \<Rightarrow> (world, ErcToNativeMessage) io" where
  "ErcToNativeMessages_GetByMsgHash E bridgeID msgHash = db_query E (\<lambda>d.
     first_row (filter (\<lambda>m. erc_BridgeID m = bridgeID \<and> erc_MsgHash m = msgHash)
       (vals (db_erc_to_native_messages d))))"

definition ErcToNativeMessages_FindPendingMessages :: "env \<Rightarrow> string \<Rightarrow> (world, ErcToNativeMessage list) io" where
  "ErcToNativeMessages_FindPendingMessages E bridgeID = db_query E (\<lambda>d.
     Inr (map r_val (sort_key r_created (filter (\<lambda>r. erc_BridgeID (r_val r) = bridgeID
       \<and> \<not> executed d (erc_BridgeID (r_val r)) (erc_MsgHash (r_val r))) (db_erc_to_native_messages d)))))"

definition SentMessages_GetByLogID :: "env \<Rightarrow> uint \<Rightarrow> (world, SentMessage) io" where
  "SentMessages_GetByLogID E logID = db_query E (\<lambda>d.
     first_row (filter (\<lambda>m. sm_LogID m = logID) (vals (db_sent_messages d))))"

definition SentMessages_GetByMsgHash :: "env \<Rightarrow> string \<Rightarrow> hash \<Rightarrow> (world, SentMessage) io" where
  "SentMessages_GetByMsgHash E bridgeID msgHash = db_query E (\<lambda>d.
     first_row (filter (\<lambda>m. sm_BridgeID m = bridgeID \<and> sm_MsgHash m = msgHash) (vals (db_sent_messages d))))"

definition SentMessages_FindByMsgHashes :: "env \<Rightarrow> string \<Rightarrow> hash list \<Rightarrow> (world, SentMessage list) io" where
  "SentMessages_FindByMsgHashes E bridgeID msgHashes = db_query E (\<lambda>d.
     Inr (filter (\<lambda>m. sm_BridgeID m = bridgeID \<and> sm_MsgHash m \<in> set msgHashes) (vals (db_sent_messages d))))"

definition SignedMessages_GetByLogID :: "env \<Rightarrow> uint \<Rightarrow> (world, SignedMessage) io" where
  "SignedMessages_GetByLogID E logID = db_query E (\<lambda>d.
     first_row (filter (\<lambda>m. sgm_LogID m = logID) (vals (db_signed_messages d))))"

definition SignedMessages_FindByMsgHashes :: "env \<Rightarrow> string \<Rightarrow> hash list \<Rightarrow> (world, SignedMessage list) io" where
  "SignedMessages_FindByMsgHashes E bridgeID msgHashes = db_query E (\<lambda>d.
     Inr (sort_key sgm_Signer
       (filter (\<lambda>m. sgm_BridgeID m = bridgeID \<and> sgm_MsgHash m \<in> set msgHashes) (vals (db_signed_messages d)))))"

text \<open>The join with the logs, the greatest block first.\<close>

definition SignedMessages_GetLatest :: "env \<Rightarrow> string \<Rightarrow> string \<Rightarrow> address \<Rightarrow> (world, SignedMessage) io" where
  "SignedMessages_GetLatest E bridgeID chainID signer = db_query E (\<lambda>d.
     first_row (map fst (rev (sort_key (\<lambda>p. log_BlockNumber (snd p))
       (filter (\<lambda>(m, l). sgm_BridgeID m = bridgeID \<and> sgm_Signer m = signer \<and> log_ChainID l = chainID)
         (concat (map (\<lambda>m. map (Pair m) (filter (\<lambda>l. log_ID l = sgm_LogID m) (vals (db_logs d))))
           (vals (db_signed_messages d)))))))))"

definition CollectedMessages_GetByMsgHash :: "env \<Rightarrow> string \<Rightarrow> hash \<Rightarrow> (world, CollectedMessage) io" where
  "CollectedMessages_GetByMsgHash E bridgeID msgHash = db_query E (\<lambda>d.
     first_row (filter (\<lambda>m. cm_BridgeID m = bridgeID \<and> cm_MsgHash m = msgHash) (vals (db_collected_messages d))))"

definition ExecutedMessages_GetByLogID :: "env \<Rightarrow> uint \<Rightarrow> (world, ExecutedMessage) io" where
  "ExecutedMessages_GetByLogID E logID = db_query E (\<lambda>d.
     first_row (filter (\<lambda>m. em_LogID m = logID) (vals (db_executed_messages d))))"

definition ExecutedMessages_GetByMessageID :: "env \<Rightarrow> string \<Rightarrow> hash \<Rightarrow> (world, ExecutedMessage) io" where
  "ExecutedMessages_GetByMessageID E bridgeID messageID = db_query E (\<lambda>d.
     first_row (filter (\<lambda>m. em_BridgeID m = bridgeID \<and> em_MessageID m = messageID) (vals (db_executed_messages d))))"

definition InformationRequests_GetByMessageID :: "env \<Rightarrow> string \<Rightarrow> hash \<Rightarrow> (world, InformationRequest) io" where
  "InformationRequests_GetByMessageID E bridgeID messageID = db_query E (\<lambda>d.
     first_row (filter (\<lambda>r. ir_BridgeID r = bridgeID \<and> ir_MessageID r = messageID) (vals (db_information_requests d))))"

definition SentInformationRequests_GetByLogID :: "env \<Rightarrow> uint \<Rightarrow> (world, SentInformationRequest) io" where
  "SentInformationRequests_GetByLogID E logID = db_query E (\<lambda>d.
     first_row (filter (\<lambda>r. sir_LogID r = logID) (vals (db_sent_information_requests d))))"

definition SentInformationRequests_GetByMessageID ::
  "env \<Rightarrow> string \<Rightarrow> hash \<Rightarrow> (world, SentInformationRequest) io" where
  "SentInformationRequests_GetByMessageID E bridgeID messageID = db_query E (\<lambda>d.
     first_row (filter (\<lambda>r. sir_BridgeID r = bridgeID \<and> sir_MessageID r = messageID)
       (vals (db_sent_information_requests d))))"

definition SignedInformationRequests_GetByLogID :: "env \<Rightarrow> uint \<Rightarrow> (world, SignedInformationRequest) io" where
  "SignedInformationRequests_GetByLogID E logID = db_query E (\<lambda>d.
     first_row (filter (\<lambda>r. sgir_LogID r = logID) (vals (db_signed_information_requests d))))"

definition SignedInformationRequests_FindByMessageID ::
  "env \<Rightarrow> string \<Rightarrow> hash \<Rightarrow> (world, SignedInformationRequest list) io" where
  "SignedInformationRequests_FindByMessageID E bridgeID messageID = db_query E (\<lambda>d.
     Inr (sort_key sgir_Signer (filter (\<lambda>r. sgir_BridgeID r = bridgeID \<and> sgir_MessageID r = messageID)
       (vals (db_signed_information_requests d)))))"

definition ExecutedInformationRequests_GetByLogID :: "env \<Rightarrow> uint \<Rightarrow> (world, ExecutedInformationRequest) io" where
  "ExecutedInformationRequests_GetByLogID E logID = db_query E (\<lambda>d.
     first_row (filter (\<lambda>r. eir_LogID r = logID) (vals (db_executed_information_requests d))))"

definition ExecutedInformationRequests_GetByMessageID ::
  "env \<Rightarrow> string \<Rightarrow> hash \<Rightarrow> (world, ExecutedInformationRequest) io" where
  "ExecutedInformationRequests_GetByMessageID E bridgeID messageID = db_query E (\<lambda>d.
     first_row (filter (\<lambda>r. eir_BridgeID r = bridgeID \<and> eir_MessageID r = messageID)
       (vals (db_executed_information_requests d))))"

definition active_validator :: "string \<Rightarrow> string \<Rightarrow> BridgeValidator \<Rightarrow> bool" where
  "active_validator bridgeID chainID v \<longleftrightarrow>
     bv_BridgeID v = bridgeID \<and> bv_ChainID v = chainID \<and> bv_RemovedLogID v = None"

definition BridgeValidators_GetActiveValidator ::
  "env \<Rightarrow> string \<Rightarrow> string \<Rightarrow> address \<Rightarrow> (world, BridgeValidator) io" where
  "BridgeValidators_GetActiveValidator E bridgeID chainID addr = db_query E (\<lambda>d.
     first_row (filter (\<lambda>v. active_validator bridgeID chainID v \<and> bv_Address v = addr)
       (vals (db_bridge_validators d))))"

definition BridgeValidators_FindActiveValidators ::
  "env \<Rightarrow> string \<Rightarrow> string \<Rightarrow> (world, BridgeValidator list) io" where
  "BridgeValidators_FindActiveValidators E bridgeID chainID = db_query E (\<lambda>d.
     Inr (filter (active_validator bridgeID chainID) (vals (db_bridge_validators d))))"

text \<open>\<open>FindPendingMessages\<close> of \<open>repository/repos.go\<close>.\<close>

definition Repo_FindPendingMessages :: "env \<Rightarrow> string \<Rightarrow> BridgeMode \<Rightarrow> (world, BridgeMessage list) io" where
  "Repo_FindPendingMessages E bridgeID bridgeMode =
     (if bridgeMode = BridgeModeErcToNative then
        bindE (ErcToNativeMessages_FindPendingMessages E bridgeID) (\<lambda>msgs.
        returnE (ToBridgeMessages (ErcMessagesV msgs)))
      else bindE (Messages_FindPendingMessages E bridgeID) (\<lambda>msgs.
        returnE (ToBridgeMessages (MessagesV msgs))))"

lemmas query_defs = Logs_GetByID_def Logs_Find_def Logs_FindByIDs_def
  LogsCursors_GetByChainIDAndAddress_def BlockTimestamps_GetByBlockNumber_def Messages_GetByMsgHash_def
  Messages_GetByMessageID_def Messages_FindPendingMessages_def ErcToNativeMessages_GetByMsgHash_def
  ErcToNativeMessages_FindPendingMessages_def SentMessages_GetByLogID_def SentMessages_GetByMsgHash_def
  SentMessages_FindByMsgHashes_def SignedMessages_GetByLogID_def SignedMessages_FindByMsgHashes_def
  SignedMessages_GetLatest_def CollectedMessages_GetByMsgHash_def ExecutedMessages_GetByLogID_def
  ExecutedMessages_GetByMessageID_def InformationRequests_GetByMessageID_def
  SentInformationRequests_GetByLogID_def SentInformationRequests_GetByMessageID_def
  SignedInformationRequests_GetByLogID_def SignedInformationRequests_FindByMessageID_def
  ExecutedInformationRequests_GetByLogID_def ExecutedInformationRequests_GetByMessageID_def
  BridgeValidators_GetActiveValidator_def BridgeValidators_FindActiveValidators_def

text \<open>No query changes the database.\<close>

lemma queries_grow [intro, simp]:
  "keepsE grows (Logs_GetByID E i)" "keepsE grows (Logs_Find E f)" "keepsE grows (Logs_FindByIDs E ids)"
  "keepsE grows (LogsCursors_GetByChainIDAndAddress E c a)"
  "keepsE grows (BlockTimestamps_GetByBlockNumber E c n)"
  "keepsE grows (ErcToNativeMessages_GetByMsgHash E b h)" "keepsE grows (SentMessages_GetByMsgHash E b h)"
  "keepsE grows (Messages_GetByMsgHash E b h)" "keepsE grows (BridgeValidators_GetActiveValidator E b c a)"
  unfolding query_defs by (rule keepsE_db_query)+

section \<open>What a successful statement leaves\<close>

definition has_key :: "('r \<Rightarrow> 'k) \<Rightarrow> 'k \<Rightarrow> 'r table \<Rightarrow> bool" where
  "has_key key k rows \<longleftrightarrow> list_ex (\<lambda>v. key v = k) (vals rows)"

lemma has_key_iff: "has_key key k rows \<longleftrightarrow> k \<in> key ` set (vals rows)"
  by (auto simp: has_key_def list_ex_iff)

lemma Messages_Ensure_Inr:
  assumes "Messages_Ensure E new w = (Inr u, w')"
  shows "w_db w' = (w_db w)\<lparr>db_messages := db_messages (w_db w')\<rparr>"
    and "lookup msg_key (db_messages (w_db w')) = (lookup msg_key (db_messages (w_db w)))(msg_key new \<mapsto>
      (case lookup msg_key (db_messages (w_db w)) (msg_key new) of None \<Rightarrow> new | Some old \<Rightarrow> keep_row old new))"
    and "has_key msg_key (msg_key new) (db_messages (w_db w'))"
  using assms unfolding Messages_Ensure_def
  by (auto simp: db_exec_Inr ensure_stmt_Inr has_key_iff messages_tbl.lookup_upsert messages_tbl.upsert_has_key
      dest!: ensure_row_SomeD)

lemma ErcToNativeMessages_Ensure_Inr:
  assumes "ErcToNativeMessages_Ensure E new w = (Inr u, w')"
  shows "w_db w' = (w_db w)\<lparr>db_erc_to_native_messages := db_erc_to_native_messages (w_db w')\<rparr>"
    and "lookup erc_key (db_erc_to_native_messages (w_db w')) = (lookup erc_key (db_erc_to_native_messages (w_db w)))(erc_key new \<mapsto>
      (case lookup erc_key (db_erc_to_native_messages (w_db w)) (erc_key new) of None \<Rightarrow> new | Some old \<Rightarrow> upd_erc old new))"
    and "has_key erc_key (erc_key new) (db_erc_to_native_messages (w_db w'))"
  using assms unfolding ErcToNativeMessages_Ensure_def
  by (auto simp: db_exec_Inr ensure_stmt_Inr has_key_iff erc_tbl.lookup_upsert erc_tbl.upsert_has_key
      dest!: ensure_row_SomeD)

lemma SentMessages_Ensure_Inr:
  assumes "SentMessages_Ensure E new w = (Inr u, w')"
  shows "w_db w' = (w_db w)\<lparr>db_sent_messages := db_sent_messages (w_db w')\<rparr>"
    and "lookup sm_LogID (db_sent_messages (w_db w')) = (lookup sm_LogID (db_sent_messages (w_db w)))(sm_LogID new \<mapsto>
      (case lookup sm_LogID (db_sent_messages (w_db w)) (sm_LogID new) of None \<Rightarrow> new | Some old \<Rightarrow> keep_row old new))"
    and "has_key sm_LogID (sm_LogID new) (db_sent_messages (w_db w'))"
  using assms unfolding SentMessages_Ensure_def
  by (auto simp: db_exec_Inr ensure_stmt_Inr has_key_iff sent_tbl.lookup_upsert sent_tbl.upsert_has_key
      dest!: ensure_row_SomeD)

lemma SignedMessages_Ensure_Inr:
  assumes "SignedMessages_Ensure E new w = (Inr u, w')"
  shows "w_db w' = (w_db w)\<lparr>db_signed_messages := db_signed_messages (w_db w')\<rparr>"
    and "lookup sgm_LogID (db_signed_messages (w_db w')) = (lookup sgm_LogID (db_signed_messages (w_db w)))(sgm_LogID new \<mapsto>
      (case lookup sgm_LogID (db_signed_messages (w_db w)) (sgm_LogID new) of None \<Rightarrow> new | Some old \<Rightarrow> keep_row old new))"
    and "has_key sgm_LogID (sgm_LogID new) (db_signed_messages (w_db w'))"
  using assms unfolding SignedMessages_Ensure_def
  by (auto simp: db_exec_Inr ensure_stmt_Inr has_key_iff signed_tbl.lookup_upsert signed_tbl.upsert_has_key
      dest!: ensure_row_SomeD)

lemma CollectedMessages_Ensure_Inr:
  assumes "CollectedMessages_Ensure E new w = (Inr u, w')"
  shows "w_db w' = (w_db w)\<lparr>db_collected_messages := db_collected_messages (w_db w')\<rparr>"
    and "lookup cm_LogID (db_collected_messages (w_db w')) = (lookup cm_LogID (db_collected_messages (w_db w)))(cm_LogID new \<mapsto>
      (case lookup cm_LogID (db_collected_messages (w_db w)) (cm_LogID new) of None \<Rightarrow> new | Some old \<Rightarrow> keep_row old new))"
    and "has_key cm_LogID (cm_LogID new) (db_collected_messages (w_db w'))"
  using assms unfolding CollectedMessages_Ensure_def
  by (auto simp: db_exec_Inr ensure_stmt_Inr has_key_iff collected_tbl.lookup_upsert collected_tbl.upsert_has_key
      dest!: ensure_row_SomeD)

lemma ExecutedMessages_Ensure_Inr:
  assumes "ExecutedMessages_Ensure E new w = (Inr u, w')"
  shows "w_db w' = (w_db w)\<lparr>db_executed_messages := db_executed_messages (w_db w')\<rparr>"
    and "lookup em_LogID (db_executed_messages (w_db w')) = (lookup em_LogID (db_executed_messages (w_db w)))(em_LogID new \<mapsto>
      (case lookup em_LogID (db_executed_messages (w_db w)) (em_LogID new) of None \<Rightarrow> new | Some old \<Rightarrow> keep_row old new))"
    and "has_key em_LogID (em_LogID new) (db_executed_messages (w_db w'))"
  using assms unfolding ExecutedMessages_Ensure_def
  by (auto simp: db_exec_Inr ensure_stmt_Inr has_key_iff executed_tbl.lookup_upsert executed_tbl.upsert_has_key
      dest!: ensure_row_SomeD)

lemma InformationRequests_Ensure_Inr:
  assumes "InformationRequests_Ensure E new w = (Inr u, w')"
  shows "w_db w' = (w_db w)\<lparr>db_information_requests := db_information_requests (w_db w')\<rparr>"
    and "lookup ir_key (db_information_requests (w_db w')) = (lookup ir_key (db_information_requests (w_db w)))(ir_key new \<mapsto>
      (case lookup ir_key (db_information_requests (w_db w)) (ir_key new) of None \<Rightarrow> new | Some old \<Rightarrow> keep_row old new))"
    and "has_key ir_key (ir_key new) (db_information_requests (w_db w'))"
  using assms unfolding InformationRequests_Ensure_def
  by (auto simp: db_exec_Inr ensure_stmt_Inr has_key_iff requests_tbl.lookup_upsert requests_tbl.upsert_has_key
      dest!: ensure_row_SomeD)

lemma SentInformationRequests_Ensure_Inr:
  assumes "SentInformationRequests_Ensure E new w = (Inr u, w')"
  shows "w_db w' = (w_db w)\<lparr>db_sent_information_requests := db_sent_information_requests (w_db w')\<rparr>"
    and "lookup sir_LogID (db_sent_information_requests (w_db w')) = (lookup sir_LogID (db_sent_information_requests (w_db w)))(sir_LogID new \<mapsto>
      (case lookup sir_LogID (db_sent_information_requests (w_db w)) (sir_LogID new) of None \<Rightarrow> new | Some old \<Rightarrow> keep_row old new))"
    and "has_key sir_LogID (sir_LogID new) (db_sent_information_requests (w_db w'))"
  using assms unfolding SentInformationRequests_Ensure_def
  by (auto simp: db_exec_Inr ensure_stmt_Inr has_key_iff sent_requests_tbl.lookup_upsert sent_requests_tbl.upsert_has_key
      dest!: ensure_row_SomeD)

lemma SignedInformationRequests_Ensure_Inr:
  assumes "SignedInformationRequests_Ensure E new w = (Inr u, w')"
  shows "w_db w' = (w_db w)\<lparr>db_signed_information_requests := db_signed_information_requests (w_db w')\<rparr>"
    and "lookup sgir_LogID (db_signed_information_requests (w_db w')) = (lookup sgir_LogID (db_signed_information_requests (w_db w)))(sgir_LogID new \<mapsto>
      (case lookup sgir_LogID (db_signed_information_requests (w_db w)) (sgir_LogID new) of None \<Rightarrow> new | Some old \<Rightarrow> keep_row old new))"
    and "has_key sgir_LogID (sgir_LogID new) (db_signed_information_requests (w_db w'))"
  using assms unfolding SignedInformationRequests_Ensure_def
  by (auto simp: db_exec_Inr ensure_stmt_Inr has_key_iff signed_requests_tbl.lookup_upsert signed_requests_tbl.upsert_has_key
      dest!: ensure_row_SomeD)

lemma ExecutedInformationRequests_Ensure_Inr:
  assumes "ExecutedInformationRequests_Ensure E new w = (Inr u, w')"
  shows "w_db w' = (w_db w)\<lparr>db_executed_information_requests := db_executed_information_requests (w_db w')\<rparr>"
    and "lookup eir_LogID (db_executed_information_requests (w_db w')) = (lookup eir_LogID (db_executed_information_requests (w_db w)))(eir_LogID new \<mapsto>
      (case lookup eir_LogID (db_executed_information_requests (w_db w)) (eir_LogID new) of None \<Rightarrow> new | Some old \<Rightarrow> keep_row old new))"
    and "has_key eir_LogID (eir_LogID new) (db_executed_information_requests (w_db w'))"
  using assms unfolding ExecutedInformationRequests_Ensure_def
  by (auto simp: db_exec_Inr ensure_stmt_Inr has_key_iff executed_requests_tbl.lookup_upsert executed_requests_tbl.upsert_has_key
      dest!: ensure_row_SomeD)

lemma BridgeValidators_Ensure_Inr:
  assumes "BridgeValidators_Ensure E new w = (Inr u, w')"
  shows "w_db w' = (w_db w)\<lparr>db_bridge_validators := db_bridge_validators (w_db w')\<rparr>"
    and "lookup bv_LogID (db_bridge_validators (w_db w')) = (lookup bv_LogID (db_bridge_validators (w_db w)))(bv_LogID new \<mapsto>
      (case lookup bv_LogID (db_bridge_validators (w_db w)) (bv_LogID new) of None \<Rightarrow> new | Some old \<Rightarrow> upd_validator old new))"
    and "has_key bv_LogID (bv_LogID new) (db_bridge_validators (w_db w'))"
  using assms unfolding BridgeValidators_Ensure_def
  by (auto simp: db_exec_Inr ensure_stmt_Inr has_key_iff validators_tbl.lookup_upsert validators_tbl.upsert_has_key
      dest!: ensure_row_SomeD)

lemma LogsCursors_Ensure_Inr:
  assumes "LogsCursors_Ensure E new w = (Inr u, w')"
  shows "w_db w' = (w_db w)\<lparr>db_logs_cursors := db_logs_cursors (w_db w')\<rparr>"
    and "lookup cursor_key (db_logs_cursors (w_db w')) = (lookup cursor_key (db_logs_cursors (w_db w)))(cursor_key new \<mapsto>
      (case lookup cursor_key (db_logs_cursors (w_db w)) (cursor_key new) of None \<Rightarrow> new | Some old \<Rightarrow> upd_cursor old new))"
    and "has_key cursor_key (cursor_key new) (db_logs_cursors (w_db w'))"
  using assms unfolding LogsCursors_Ensure_def
  by (auto simp: db_exec_Inr ensure_stmt_Inr has_key_iff cursors_tbl.lookup_upsert cursors_tbl.upsert_has_key
      dest!: ensure_row_SomeD)

lemma BlockTimestamps_Ensure_Inr:
  assumes "BlockTimestamps_Ensure E new w = (Inr u, w')"
  shows "w_db w' = (w_db w)\<lparr>db_block_timestamps := db_block_timestamps (w_db w')\<rparr>"
    and "lookup ts_key (db_block_timestamps (w_db w')) = (lookup ts_key (db_block_timestamps (w_db w)))(ts_key new \<mapsto>
      (case lookup ts_key (db_block_timestamps (w_db w)) (ts_key new) of None \<Rightarrow> new | Some old \<Rightarrow> upd_ts old new))"
    and "has_key ts_key (ts_key new) (db_block_timestamps (w_db w'))"
  using assms unfolding BlockTimestamps_Ensure_def
  by (auto simp: db_exec_Inr ensure_stmt_Inr has_key_iff timestamps_tbl.lookup_upsert timestamps_tbl.upsert_has_key
      dest!: ensure_row_SomeD)

lemma tbl_le_key:
  assumes "tbl_le core a b" and "\<And>v w. core v = core w \<Longrightarrow> key v = key w" and "has_key key k a"
  shows "has_key key k b"
proof -
  from assms(3) obtain v where v: "v \<in> set (vals a)" "k = key v" by (auto simp: has_key_iff)
  from tbl_leD [OF assms(1) v(1)] obtain v' where "v' \<in> set (vals b)" "core v' = core v" by auto
  with assms(2) v(2) show ?thesis unfolding has_key_iff by (metis image_eqI)
qed

lemma set_pending:
  "set (map r_val (sort_key f (filter (\<lambda>r. P (r_val r)) rows))) = {v \<in> set (vals rows). P v}"
  by (auto simp: vals_def)

lemma executed_iff:
  "executed d bridgeID i \<longleftrightarrow> (\<exists>e \<in> set (vals (db_executed_messages d)).
     em_BridgeID e = bridgeID \<and> em_MessageID e = i)"
  by (auto simp: executed_def list_ex_iff)

lemma pending_iff:
  assumes "Messages_FindPendingMessages E bridgeID w = (Inr ms, w')"
  shows "set ms = {m \<in> set (vals (db_messages (w_db w))). msg_BridgeID m = bridgeID
    \<and> \<not> executed (w_db w) bridgeID (msg_MessageID m)}"
proof -
  from assms have "ms = map r_val (sort_key r_created (filter (\<lambda>r. msg_BridgeID (r_val r) = bridgeID
      \<and> \<not> executed (w_db w) (msg_BridgeID (r_val r)) (msg_MessageID (r_val r))) (db_messages (w_db w))))"
    by (simp add: Messages_FindPendingMessages_def db_query_Inr)
  then show ?thesis
    using set_pending [of r_created "\<lambda>m. msg_BridgeID m = bridgeID
      \<and> \<not> executed (w_db w) (msg_BridgeID m) (msg_MessageID m)" "db_messages (w_db w)"] by auto
qed

lemma erc_pending_iff:
  assumes "ErcToNativeMessages_FindPendingMessages E bridgeID w = (Inr ms, w')"
  shows "set ms = {m \<in> set (vals (db_erc_to_native_messages (w_db w))). erc_BridgeID m = bridgeID
    \<and> \<not> executed (w_db w) bridgeID (erc_MsgHash m)}"
proof -
  from assms have "ms = map r_val (sort_key r_created (filter (\<lambda>r. erc_BridgeID (r_val r) = bridgeID
      \<and> \<not> executed (w_db w) (erc_BridgeID (r_val r)) (erc_MsgHash (r_val r)))
        (db_erc_to_native_messages (w_db w))))"
    by (simp add: ErcToNativeMessages_FindPendingMessages_def db_query_Inr)
  then show ?thesis
    using set_pending [of r_created "\<lambda>m. erc_BridgeID m = bridgeID
      \<and> \<not> executed (w_db w) (erc_BridgeID m) (erc_MsgHash m)" "db_erc_to_native_messages (w_db w)"] by auto
qed

end
