(* ===== verification/Abi.thy ===== *)
theory Abi
  imports Repository Decoders
begin

text \<open>
  \<open>contract/abi/abi.go\<close> and the tables of \<open>contract/bridgeabi/bridge_abi.go\<close>: finding the
  event of a log and decoding its arguments. An ABI is the list of its events in the order in which
  Go iterates over the map \<open>abi.Events\<close>; the order is not fixed, so the lemmas say when the
  result does not depend on it. Unpacking data and topics is the work of go-ethereum, the record
  \<open>abilib\<close>: a parameter, with \<open>abi_documented\<close> for the types it promises.

  The event lists below are those of the two ABI files embedded in the program; the identifier of
  an event is the hash of its signature, which the library computes.
\<close>

section \<open>Events and values\<close>

record Argument =
  arg_Name :: string
  arg_Type :: string
  arg_Indexed :: bool

record Event =
  ev_ID :: hash
  ev_Name :: string
  ev_Inputs :: "Argument list"

type_synonym abi = "Event list"

text \<open>
  The dynamic types the library decodes to: \<open>[]byte\<close>, \<open>[32]byte\<close>,
  \<open>common.Address\<close>, \<open>*big.Int\<close>, \<open>bool\<close>; any other type fails every type
  assertion of the program.
\<close>

datatype abi_value = VBytes "byte list" | VBytes32 hash | VAddress address | VBigInt int | VBool bool | VOther

type_synonym event_data = "(string \<times> abi_value) list"

text \<open>\<open>gethabi.Event.String()\<close>.\<close>

definition arg_String :: "Argument \<Rightarrow> string" where
  "arg_String a = arg_Type a @ (if arg_Indexed a then '' indexed'' else []) @ '' '' @ arg_Name a"

fun join :: "string \<Rightarrow> string list \<Rightarrow> string" where
  "join sep [] = []"
| "join sep [s] = s"
| "join sep (s # ss) = s @ sep @ join sep ss"

definition ev_String :: "Event \<Rightarrow> string" where
  "ev_String e = ''event '' @ ev_Name e @ ''('' @ join '', '' (map arg_String (ev_Inputs e)) @ '')''"

text \<open>The library: \<open>UnpackIntoMap\<close> and \<open>ParseTopicsIntoMap\<close>.\<close>

record abilib =
  UnpackIntoMap :: "Argument list \<Rightarrow> byte list \<Rightarrow> event_data res"
  ParseTopicsIntoMap :: "Argument list \<Rightarrow> hash list \<Rightarrow> event_data res"

section \<open>\<open>contract/abi/abi.go\<close>\<close>

definition Indexed :: "Argument list \<Rightarrow> Argument list" where
  "Indexed args = filter arg_Indexed args"

definition AllEvents :: "abi \<Rightarrow> string list" where
  "AllEvents evs = map ev_String evs"

fun FindMatchingEventABI :: "abi \<Rightarrow> hash list \<Rightarrow> Event option res" where
  "FindMatchingEventABI [] topics = Inr None"
| "FindMatchingEventABI (e # es) topics =
     res_bind (index_at topics 0) (\<lambda>t0.
     if ev_ID e = t0 \<and> length (Indexed (ev_Inputs e)) = length topics - 1 then Inr (Some e)
     else FindMatchingEventABI es topics)"

text \<open>A later write to the map of values hides an earlier one: the topics come first in the list.\<close>

definition DecodeLogData :: "abilib \<Rightarrow> Event \<Rightarrow> hash list \<Rightarrow> byte list \<Rightarrow> event_data res" where
  "DecodeLogData L event topics data =
     (let indexed = Indexed (ev_Inputs event) in
      res_bind (if length indexed < length (ev_Inputs event) then UnpackIntoMap L (ev_Inputs event) data
        else Inr []) (\<lambda>values.
      res_bind (slice_from topics 1) (\<lambda>rest.
      res_bind (ParseTopicsIntoMap L indexed rest) (\<lambda>parsed.
      Inr (parsed @ values)))))"

text \<open>The name of the event is empty when the ABI has no matching event.\<close>

definition ParseLog :: "abilib \<Rightarrow> abi \<Rightarrow> Log \<Rightarrow> (string \<times> event_data) res" where
  "ParseLog L evs log =
     (let topics = Topics log in
      if length topics = 0 then Inl (Err ErrInvalidEvent)
      else res_bind (FindMatchingEventABI evs topics) (\<lambda>r. case r of
        None \<Rightarrow> Inr ([], [])
      | Some event \<Rightarrow> res_bind (DecodeLogData L event topics (log_Data log)) (\<lambda>values.
          Inr (ev_String event, values))))"

section \<open>What decoding gives\<close>

definition matching :: "hash list \<Rightarrow> Event \<Rightarrow> bool" where
  "matching topics e \<longleftrightarrow> topics \<noteq> [] \<and> ev_ID e = hd topics
     \<and> length (Indexed (ev_Inputs e)) = length topics - 1"

lemma FindMatchingEventABI_find:
  "topics \<noteq> [] \<Longrightarrow> FindMatchingEventABI evs topics = Inr (find (matching topics) evs)"
  by (induction evs) (auto simp: index_at_def matching_def hd_conv_nth)

lemma FindMatchingEventABI_panic:
  "evs \<noteq> [] \<Longrightarrow> FindMatchingEventABI evs [] = Inl Panic"
  by (cases evs) (auto simp: index_at_def)

text \<open>
  Two different events of an ABI that share the identifier and the number of indexed arguments would make the
  result depend on the order of iteration; equal ones do not.
\<close>

definition abi_unambiguous :: "abi \<Rightarrow> bool" where
  "abi_unambiguous evs \<longleftrightarrow> inj_on (\<lambda>e. (ev_ID e, length (Indexed (ev_Inputs e)))) (set evs)"

lemma matching_unique:
  assumes "abi_unambiguous evs" and "e \<in> set evs" "matching topics e" and "e' \<in> set evs" "matching topics e'"
  shows "e' = e"
  using assms by (auto simp: abi_unambiguous_def matching_def inj_on_def)

lemma find_matching_perm:
  assumes "abi_unambiguous evs" and "set evs' = set evs"
  shows "find (matching topics) evs' = find (matching topics) evs"
proof (cases "find (matching topics) evs")
  case None
  then have "find (matching topics) evs' = None" using assms(2) by (simp add: find_None_iff)
  with None show ?thesis by simp
next
  case (Some e)
  then have "e \<in> set evs \<and> matching topics e" by (rule find_Some_in)
  then show ?thesis
    using Some assms matching_unique [OF assms(1)] by (auto intro!: find_unique)
qed

lemma ParseLog_order:
  assumes "abi_unambiguous evs" and "set evs' = set evs"
  shows "ParseLog L evs' log = ParseLog L evs log"
  using find_matching_perm [OF assms]
  by (simp add: ParseLog_def FindMatchingEventABI_find Let_def)

text \<open>What the library promises about types.\<close>

definition has_type :: "string \<Rightarrow> abi_value \<Rightarrow> bool" where
  "has_type ty v \<longleftrightarrow>
     (ty = ''bytes'' \<longrightarrow> (\<exists>b. v = VBytes b)) \<and> (ty = ''bytes32'' \<longrightarrow> (\<exists>h. v = VBytes32 h))
     \<and> (ty = ''address'' \<longrightarrow> (\<exists>a. v = VAddress a)) \<and> (ty = ''bool'' \<longrightarrow> (\<exists>b. v = VBool b))
     \<and> (ty = ''uint256'' \<longrightarrow> (\<exists>i. v = VBigInt i \<and> 0 \<le> i \<and> i < 2 ^ 256))"

definition typed :: "Argument list \<Rightarrow> event_data \<Rightarrow> bool" where
  "typed args values \<longleftrightarrow> map fst values = map arg_Name args
     \<and> list_all2 (\<lambda>a kv. has_type (arg_Type a) (snd kv)) args values"

definition static_type :: "string \<Rightarrow> bool" where
  "static_type ty \<longleftrightarrow> ty \<in> {''bytes32'', ''address'', ''bool'', ''uint256''}"

text \<open>
  Values come for the non-indexed arguments out of the data, and for the indexed ones, when their
  types are not dynamic, out of the topics.
\<close>

definition abi_documented :: "abilib \<Rightarrow> bool" where
  "abi_documented L \<longleftrightarrow>
     (\<forall>args data values. UnpackIntoMap L args data = Inr values \<longrightarrow>
        typed (filter (\<lambda>a. \<not> arg_Indexed a) args) values) \<and>
     (\<forall>args topics values. ParseTopicsIntoMap L args topics = Inr values \<longrightarrow>
        list_all (\<lambda>a. static_type (arg_Type a)) args \<longrightarrow> typed args values) \<and>
     (\<forall>args data f. UnpackIntoMap L args data = Inl f \<longrightarrow> f = Err ErrABI) \<and>
     (\<forall>args topics f. ParseTopicsIntoMap L args topics = Inl f \<longrightarrow> f = Err ErrABI)"

definition event_wf :: "Event \<Rightarrow> bool" where
  "event_wf e \<longleftrightarrow> distinct (map arg_Name (ev_Inputs e))
     \<and> list_all (\<lambda>a. static_type (arg_Type a)) (Indexed (ev_Inputs e))"

definition typed_map :: "Argument list \<Rightarrow> event_data \<Rightarrow> bool" where
  "typed_map args values \<longleftrightarrow>
     list_all (\<lambda>a. \<exists>v. map_of values (arg_Name a) = Some v \<and> has_type (arg_Type a) v) args"

lemma typed_lookup:
  assumes "typed args values" and "distinct (map arg_Name args)" and "a \<in> set args"
  shows "\<exists>v. map_of values (arg_Name a) = Some v \<and> has_type (arg_Type a) v"
proof -
  from assms(3) obtain i where i: "i < length args" "a = args ! i" by (auto simp: in_set_conv_nth)
  have names: "map fst values = map arg_Name args"
    and types: "list_all2 (\<lambda>a kv. has_type (arg_Type a) (snd kv)) args values"
    using assms(1) by (simp_all add: typed_def)
  have len: "length values = length args" using types by (simp add: list_all2_lengthD)
  have "fst (values ! i) = arg_Name a" using names i len by (metis nth_map)
  moreover have "has_type (arg_Type a) (snd (values ! i))"
    using types i by (simp add: list_all2_conv_all_nth)
  moreover have "map_of values (fst (values ! i)) = Some (snd (values ! i))"
    using i len names assms(2) by (intro map_of_is_SomeI) (simp_all add: names)
  ultimately show ?thesis by auto
qed

lemma DecodeLogData_typed:
  assumes L: "abi_documented L" and wf: "event_wf e" and dec: "DecodeLogData L e topics data = Inr values"
  shows "typed_map (ev_Inputs e) values"
proof -
  let ?ind = "Indexed (ev_Inputs e)"
  let ?non = "filter (\<lambda>a. \<not> arg_Indexed a) (ev_Inputs e)"
  from dec obtain vs ps rest where
    vs: "(if length ?ind < length (ev_Inputs e) then UnpackIntoMap L (ev_Inputs e) data else Inr []) = Inr vs"
    and ps: "ParseTopicsIntoMap L ?ind rest = Inr ps" and all_vals: "values = ps @ vs"
    by (auto simp: DecodeLogData_def Let_def res_bind_Inr_iff)
  have tp: "typed ?ind ps"
    using L ps wf by (auto simp: abi_documented_def event_wf_def)
  have tv: "typed ?non vs"
  proof (cases "length ?ind < length (ev_Inputs e)")
    case True
    with vs L show ?thesis by (auto simp: abi_documented_def)
  next
    case False
    then have "length (filter arg_Indexed (ev_Inputs e)) = length (ev_Inputs e)"
      using length_filter_le [of arg_Indexed "ev_Inputs e"] by (simp add: Indexed_def)
    then have "?non = []" by (metis (full_types) filter_False filter_id_conv length_filter_less nless_le)
    with False vs show ?thesis by (simp add: typed_def)
  qed
  have dist: "distinct (map arg_Name (ev_Inputs e))" using wf by (simp add: event_wf_def)
  have dind: "distinct (map arg_Name ?ind)" "distinct (map arg_Name ?non)"
    using dist by (simp_all add: Indexed_def distinct_map_filter)
  have "\<exists>v. map_of values (arg_Name a) = Some v \<and> has_type (arg_Type a) v" if a: "a \<in> set (ev_Inputs e)" for a
  proof (cases "arg_Indexed a")
    case True
    then have "a \<in> set ?ind" using a by (simp add: Indexed_def)
    from typed_lookup [OF tp dind(1) this] show ?thesis by (auto simp: all_vals map_add_Some_iff)
  next
    case False
    then have mem: "a \<in> set ?non" using a by simp
    have "arg_Name a \<notin> fst ` set ps"
    proof
      assume "arg_Name a \<in> fst ` set ps"
      then have "arg_Name a \<in> arg_Name ` set ?ind"
        using tp by (metis list.set_map typed_def)
      then obtain b where b: "b \<in> set (ev_Inputs e)" "arg_Indexed b" "arg_Name b = arg_Name a"
        by (auto simp: Indexed_def)
      with dist a have "a = b" by (auto simp: distinct_map inj_on_def)
      with b False show False by simp
    qed
    then have "map_of ps (arg_Name a) = None" by (simp add: map_of_eq_None_iff)
    with typed_lookup [OF tv dind(2) mem] show ?thesis by (auto simp: all_vals map_add_Some_iff)
  qed
  then show ?thesis by (simp add: typed_map_def list_all_iff)
qed

lemma ParseLog_typed:
  assumes "abi_documented L" and "list_all event_wf evs" and "ParseLog L evs log = Inr (name, values)"
    and "name \<noteq> []"
  shows "\<exists>e \<in> set evs. name = ev_String e \<and> matching (Topics log) e \<and> typed_map (ev_Inputs e) values"
proof -
  have t: "Topics log \<noteq> []" using assms(3) by (auto simp: ParseLog_def Let_def)
  with assms(3,4) obtain e where e: "find (matching (Topics log)) evs = Some e"
    and dec: "DecodeLogData L e (Topics log) (log_Data log) = Inr values" and name: "name = ev_String e"
    by (auto simp: ParseLog_def Let_def FindMatchingEventABI_find res_bind_Inr_iff split: option.splits)
  from find_Some_in [OF e] have "e \<in> set evs" "matching (Topics log) e" by simp_all
  moreover have "typed_map (ev_Inputs e) values"
    using assms(1,2) dec \<open>e \<in> set evs\<close> by (intro DecodeLogData_typed) (auto simp: list_all_iff)
  ultimately show ?thesis using name by blast
qed

section \<open>\<open>contract/bridgeabi/bridge_abi.go\<close>\<close>

definition UserRequestForSignature :: string where
  "UserRequestForSignature = ''event UserRequestForSignature(bytes32 indexed messageId, bytes encodedData)''"
definition LegacyUserRequestForSignature :: string where
  "LegacyUserRequestForSignature = ''event UserRequestForSignature(bytes encodedData)''"
definition UserRequestForAffirmation :: string where
  "UserRequestForAffirmation = ''event UserRequestForAffirmation(bytes32 indexed messageId, bytes encodedData)''"
definition LegacyUserRequestForAffirmation :: string where
  "LegacyUserRequestForAffirmation = ''event UserRequestForAffirmation(bytes encodedData)''"
definition UserRequestForInformation :: string where
  "UserRequestForInformation = ''event UserRequestForInformation(bytes32 indexed messageId, bytes32 indexed requestSelector, address indexed sender, bytes data)''"
definition SignedForUserRequest :: string where
  "SignedForUserRequest = ''event SignedForUserRequest(address indexed signer, bytes32 messageHash)''"
definition SignedForAffirmation :: string where
  "SignedForAffirmation = ''event SignedForAffirmation(address indexed signer, bytes32 messageHash)''"
definition SignedForInformation :: string where
  "SignedForInformation = ''event SignedForInformation(address indexed signer, bytes32 indexed messageId)''"
definition CollectedSignatures :: string where
  "CollectedSignatures = ''event CollectedSignatures(address authorityResponsibleForRelay, bytes32 messageHash, uint256 NumberOfCollectedSignatures)''"
definition AffirmationCompleted :: string where
  "AffirmationCompleted = ''event AffirmationCompleted(address indexed sender, address indexed executor, bytes32 indexed messageId, bool status)''"
definition LegacyAffirmationCompleted :: string where
  "LegacyAffirmationCompleted = ''event AffirmationCompleted(address sender, address executor, bytes32 messageId, bool status)''"
definition RelayedMessage :: string where
  "RelayedMessage = ''event RelayedMessage(address indexed sender, address indexed executor, bytes32 indexed messageId, bool status)''"
definition LegacyRelayedMessage :: string where
  "LegacyRelayedMessage = ''event RelayedMessage(address sender, address executor, bytes32 messageId, bool status)''"
definition InformationRetrieved :: string where
  "InformationRetrieved = ''event InformationRetrieved(bytes32 indexed messageId, bool status, bool callbackStatus)''"
definition ErcToNativeUserRequestForSignature :: string where
  "ErcToNativeUserRequestForSignature = ''event UserRequestForSignature(address recipient, uint256 value)''"
definition ErcToNativeTransfer :: string where
  "ErcToNativeTransfer = ''event Transfer(address indexed from, address indexed to, uint256 value)''"
definition ErcToNativeRelayedMessage :: string where
  "ErcToNativeRelayedMessage = ''event RelayedMessage(address recipient, uint256 value, bytes32 transactionHash)''"
definition ErcToNativeUserRequestForAffirmation :: string where
  "ErcToNativeUserRequestForAffirmation = ''event UserRequestForAffirmation(address recipient, uint256 value)''"
definition ErcToNativeAffirmationCompleted :: string where
  "ErcToNativeAffirmationCompleted = ''event AffirmationCompleted(address recipient, uint256 value, bytes32 transactionHash)''"
definition ErcToNativeSignedForAffirmation :: string where
  "ErcToNativeSignedForAffirmation = ''event SignedForAffirmation(address indexed signer, bytes32 transactionHash)''"
definition ValidatorAdded :: string where
  "ValidatorAdded = ''event ValidatorAdded(address indexed validator)''"
definition ValidatorRemoved :: string where
  "ValidatorRemoved = ''event ValidatorRemoved(address indexed validator)''"

lemmas event_names = UserRequestForSignature_def LegacyUserRequestForSignature_def
  UserRequestForAffirmation_def LegacyUserRequestForAffirmation_def UserRequestForInformation_def
  SignedForUserRequest_def SignedForAffirmation_def SignedForInformation_def CollectedSignatures_def
  AffirmationCompleted_def LegacyAffirmationCompleted_def RelayedMessage_def LegacyRelayedMessage_def
  InformationRetrieved_def ErcToNativeUserRequestForSignature_def ErcToNativeTransfer_def
  ErcToNativeRelayedMessage_def ErcToNativeUserRequestForAffirmation_def
  ErcToNativeAffirmationCompleted_def ErcToNativeSignedForAffirmation_def ValidatorAdded_def
  ValidatorRemoved_def

text \<open>The signature whose hash identifies an event, as the library forms it.\<close>

definition ev_signature :: "string \<Rightarrow> Argument list \<Rightarrow> string" where
  "ev_signature name args = name @ ''('' @ join '','' (map arg_Type args) @ '')''"

definition string_bytes :: "string \<Rightarrow> byte list" where
  "string_bytes s = map of_char s"

definition mk_event :: "geth \<Rightarrow> string \<Rightarrow> (string \<times> bool \<times> string) list \<Rightarrow> Event" where
  "mk_event G name args =
     (let inputs = map (\<lambda>(ty, ix, n). \<lparr>arg_Name = n, arg_Type = ty, arg_Indexed = ix\<rparr>) args in
      \<lparr>ev_ID = Keccak256Hash G (string_bytes (ev_signature name inputs)), ev_Name = name, ev_Inputs = inputs\<rparr>)"

text \<open>\<open>amb.json\<close>; the two equal declarations of \<open>OwnershipTransferred\<close> are kept apart by the library.\<close>

definition ArbitraryMessageABI :: "geth \<Rightarrow> abi" where
  "ArbitraryMessageABI G = [
     mk_event G ''UserRequestForSignature'' [(''bytes32'', True, ''messageId''), (''bytes'', False, ''encodedData'')],
     mk_event G ''UserRequestForSignature'' [(''bytes'', False, ''encodedData'')],
     mk_event G ''AffirmationCompleted'' [(''address'', True, ''sender''), (''address'', True, ''executor''),
       (''bytes32'', True, ''messageId''), (''bool'', False, ''status'')],
     mk_event G ''AffirmationCompleted'' [(''address'', False, ''sender''), (''address'', False, ''executor''),
       (''bytes32'', False, ''messageId''), (''bool'', False, ''status'')],
     mk_event G ''UserRequestForInformation'' [(''bytes32'', True, ''messageId''),
       (''bytes32'', True, ''requestSelector''), (''address'', True, ''sender''), (''bytes'', False, ''data'')],
     mk_event G ''SignedForInformation'' [(''address'', True, ''signer''), (''bytes32'', True, ''messageId'')],
     mk_event G ''InformationRetrieved'' [(''bytes32'', True, ''messageId''), (''bool'', False, ''status''),
       (''bool'', False, ''callbackStatus'')],
     mk_event G ''EnabledAsyncRequestSelector'' [(''bytes32'', True, ''requestSelector''), (''bool'', False, ''enable'')],
     mk_event G ''SignedForUserRequest'' [(''address'', True, ''signer''), (''bytes32'', False, ''messageHash'')],
     mk_event G ''SignedForAffirmation'' [(''address'', True, ''signer''), (''bytes32'', False, ''messageHash'')],
     mk_event G ''CollectedSignatures'' [(''address'', False, ''authorityResponsibleForRelay''),
       (''bytes32'', False, ''messageHash''), (''uint256'', False, ''NumberOfCollectedSignatures'')],
     mk_event G ''GasPriceChanged'' [(''uint256'', False, ''gasPrice'')],
     mk_event G ''RequiredBlockConfirmationChanged'' [(''uint256'', False, ''requiredBlockConfirmations'')],
     mk_event G ''OwnershipTransferred'' [(''address'', False, ''previousOwner''), (''address'', False, ''newOwner'')],
     mk_event G ''UserRequestForAffirmation'' [(''bytes32'', True, ''messageId''), (''bytes'', False, ''encodedData'')],
     mk_event G ''UserRequestForAffirmation'' [(''bytes'', False, ''encodedData'')],
     mk_event G ''RelayedMessage'' [(''address'', True, ''sender''), (''address'', True, ''executor''),
       (''bytes32'', True, ''messageId''), (''bool'', False, ''status'')],
     mk_event G ''RelayedMessage'' [(''address'', False, ''sender''), (''address'', False, ''executor''),
       (''bytes32'', False, ''messageId''), (''bool'', False, ''status'')],
     mk_event G ''ValidatorAdded'' [(''address'', True, ''validator'')],
     mk_event G ''ValidatorRemoved'' [(''address'', True, ''validator'')],
     mk_event G ''RequiredSignaturesChanged'' [(''uint256'', False, ''requiredSignatures'')],
     mk_event G ''OwnershipTransferred'' [(''address'', False, ''previousOwner''), (''address'', False, ''newOwner'')]]"

text \<open>\<open>erc_to_native.json\<close>\<close>

definition ErcToNativeABI :: "geth \<Rightarrow> abi" where
  "ErcToNativeABI G = [
     mk_event G ''RelayedMessage'' [(''address'', False, ''recipient''), (''uint256'', False, ''value''),
       (''bytes32'', False, ''transactionHash'')],
     mk_event G ''Transfer'' [(''address'', True, ''from''), (''address'', True, ''to''), (''uint256'', False, ''value'')],
     mk_event G ''UserRequestForSignature'' [(''address'', False, ''recipient''), (''uint256'', False, ''value'')],
     mk_event G ''AffirmationCompleted'' [(''address'', False, ''recipient''), (''uint256'', False, ''value''),
       (''bytes32'', False, ''transactionHash'')],
     mk_event G ''SignedForUserRequest'' [(''address'', True, ''signer''), (''bytes32'', False, ''messageHash'')],
     mk_event G ''SignedForAffirmation'' [(''address'', True, ''signer''), (''bytes32'', False, ''transactionHash'')],
     mk_event G ''CollectedSignatures'' [(''address'', False, ''authorityResponsibleForRelay''),
       (''bytes32'', False, ''messageHash''), (''uint256'', False, ''NumberOfCollectedSignatures'')],
     mk_event G ''UserRequestForAffirmation'' [(''address'', False, ''recipient''), (''uint256'', False, ''value'')],
     mk_event G ''ValidatorAdded'' [(''address'', True, ''validator'')],
     mk_event G ''ValidatorRemoved'' [(''address'', True, ''validator'')]]"

definition ErcToNativeTransferEventSignature :: "geth \<Rightarrow> hash" where
  "ErcToNativeTransferEventSignature G = ev_ID (mk_event G ''Transfer''
     [(''address'', True, ''from''), (''address'', True, ''to''), (''uint256'', False, ''value'')])"

definition ErcToNativeUserRequestForAffirmationEventSignature :: "geth \<Rightarrow> hash" where
  "ErcToNativeUserRequestForAffirmationEventSignature G = ev_ID (mk_event G ''UserRequestForAffirmation''
     [(''address'', False, ''recipient''), (''uint256'', False, ''value'')])"

definition getBridgeABI :: "geth \<Rightarrow> BridgeMode \<Rightarrow> abi" where
  "getBridgeABI G mode = (if mode = BridgeModeErcToNative then ErcToNativeABI G else ArbitraryMessageABI G)"

text \<open>
  The events of the two files by their signatures. Events of one signature have different numbers of indexed arguments, or are
  equal; so an ABI is unambiguous when the hash, which is a parameter, keeps its few signatures apart.
\<close>

definition event_signatures :: "abi \<Rightarrow> string list" where
  "event_signatures evs = remdups (map (\<lambda>e. ev_signature (ev_Name e) (ev_Inputs e)) evs)"

definition signatures_hash_apart :: "geth \<Rightarrow> abi \<Rightarrow> bool" where
  "signatures_hash_apart G evs \<longleftrightarrow> distinct (map (\<lambda>s. Keccak256Hash G (string_bytes s)) (event_signatures evs))"

definition declared :: "Event \<Rightarrow> string \<times> Argument list" where
  "declared e = (ev_Name e, ev_Inputs e)"

lemma bridge_event_ids: "e \<in> set (getBridgeABI G mode) \<Longrightarrow> ev_ID e = Keccak256Hash G (string_bytes (ev_signature (ev_Name e) (ev_Inputs e)))"
  by (auto simp: getBridgeABI_def ErcToNativeABI_def ArbitraryMessageABI_def mk_event_def Let_def split: if_splits)

lemma bridge_declarations: "map declared (getBridgeABI G mode) = map declared (getBridgeABI sample_geth mode)"
  by (simp add: getBridgeABI_def ErcToNativeABI_def ArbitraryMessageABI_def mk_event_def declared_def Let_def)

definition apart :: "(string \<times> Argument list) list \<Rightarrow> bool" where
  "apart ds \<longleftrightarrow> distinct (map (\<lambda>(n, args). (ev_signature n args, length (Indexed args))) (remdups ds))"

lemma bridge_declarations_apart: "apart (map declared (getBridgeABI sample_geth mode))"
proof -
  have "apart (map declared (ErcToNativeABI sample_geth))" "apart (map declared (ArbitraryMessageABI sample_geth))"
    by code_simp+
  then show ?thesis by (simp add: getBridgeABI_def)
qed

lemma bridge_abi_unambiguous:
  assumes "signatures_hash_apart G (getBridgeABI G mode)"
  shows "abi_unambiguous (getBridgeABI G mode)"
  unfolding abi_unambiguous_def
proof (rule inj_onI)
  let ?evs = "getBridgeABI G mode"
  let ?key = "\<lambda>(n, args). (ev_signature n args, length (Indexed args))"
  fix e e' assume e: "e \<in> set ?evs" "e' \<in> set ?evs"
    and same: "(ev_ID e, length (Indexed (ev_Inputs e))) = (ev_ID e', length (Indexed (ev_Inputs e')))"
  have "inj_on (\<lambda>s. Keccak256Hash G (string_bytes s)) (set (event_signatures ?evs))"
    using assms by (simp add: signatures_hash_apart_def distinct_map)
  with e same have "ev_signature (ev_Name e) (ev_Inputs e) = ev_signature (ev_Name e') (ev_Inputs e')"
    by (auto simp: bridge_event_ids event_signatures_def dest: inj_onD)
  with same have "?key (declared e) = ?key (declared e')" by (simp add: declared_def)
  moreover have "inj_on ?key (set (map declared ?evs))"
    using bridge_declarations_apart [of mode] unfolding bridge_declarations [of G mode] by (simp add: apart_def distinct_map)
  ultimately have "declared e = declared e'" using e by (auto dest: inj_onD)
  with same show "e = e'" by (cases e; cases e') (simp add: declared_def)
qed

text \<open>Every event of the two files has distinct argument names and no dynamic indexed argument.\<close>

lemma bridge_events_wf: "list_all event_wf (getBridgeABI G mode)"
  by (simp add: getBridgeABI_def ErcToNativeABI_def ArbitraryMessageABI_def mk_event_def event_wf_def
      Indexed_def static_type_def Let_def)

section \<open>Properties\<close>

text \<open>A library for concrete runs: the value of every argument is zero, or empty.\<close>

definition zero_value :: "string \<Rightarrow> abi_value" where
  "zero_value ty = (if ty = ''bytes'' then VBytes [] else if ty = ''bytes32'' then VBytes32 0
     else if ty = ''address'' then VAddress 0 else if ty = ''bool'' then VBool False
     else if ty = ''uint256'' then VBigInt 0 else VOther)"

definition zero_values :: "Argument list \<Rightarrow> event_data" where
  "zero_values args = map (\<lambda>a. (arg_Name a, zero_value (arg_Type a))) args"

definition sample_abilib :: abilib where
  "sample_abilib = \<lparr>UnpackIntoMap = (\<lambda>args data. Inr (zero_values (filter (\<lambda>a. \<not> arg_Indexed a) args))),
     ParseTopicsIntoMap = (\<lambda>args topics. Inr (zero_values args))\<rparr>"

lemma zero_values_typed: "typed args (zero_values args)"
  by (induction args) (auto simp: typed_def zero_values_def zero_value_def has_type_def)

lemma sample_abilib_documented: "abi_documented sample_abilib"
  by (simp add: abi_documented_def sample_abilib_def zero_values_typed)

text \<open>A log of the event \<open>ValidatorAdded\<close>.\<close>

definition sample_validator_log :: Log where
  "sample_validator_log = sentinelLog\<lparr>log_ID := 1, log_ChainID := ''100'', log_Address := 10, log_BlockNumber := 120,
     log_Topic0 := Some (ev_ID (mk_event sample_geth ''ValidatorAdded'' [(''address'', True, ''validator'')])),
     log_Topic1 := Some 5\<rparr>"

text \<open>Property C31. A log that is decoded is decoded by an event of the bridge's ABI that has its first
  topic and its number of topics, under the full name of that event, and every argument the event declares
  has a value of the declared type.\<close>

theorem parse_log_typed:
  assumes "abi_documented L" and "ParseLog L (getBridgeABI G mode) log = Inr (name, values)" and "name \<noteq> []"
  shows "\<exists>e \<in> set (getBridgeABI G mode). name = ev_String e \<and> matching (Topics log) e
    \<and> typed_map (ev_Inputs e) values"
  by (rule ParseLog_typed [OF assms(1) bridge_events_wf assms(2,3)])

lemma parse_log_typed_witness:
  "\<exists>e \<in> set (getBridgeABI sample_geth BridgeModeErcToNative). ValidatorAdded = ev_String e
    \<and> matching (Topics sample_validator_log) e \<and> typed_map (ev_Inputs e) [(''validator'', VAddress 0)]"
proof -
  have "ParseLog sample_abilib (getBridgeABI sample_geth BridgeModeErcToNative) sample_validator_log =
      Inr (ValidatorAdded, [(''validator'', VAddress 0)])"
    by code_simp
  from parse_log_typed [OF sample_abilib_documented this] show ?thesis
    by (simp add: ValidatorAdded_def)
qed

text \<open>Property C32. Go iterates over the events of an ABI in any order, and decoding a log of a bridge gives the same
  result in every order, although the file of AMB bridges declares five names twice, one of them with equal events; provided
  that the hash gives different identifiers to the different signatures.\<close>

theorem parse_log_any_order:
  assumes "signatures_hash_apart G (getBridgeABI G mode)" and "set evs' = set (getBridgeABI G mode)"
  shows "ParseLog L evs' log = ParseLog L (getBridgeABI G mode) log"
  by (rule ParseLog_order [OF bridge_abi_unambiguous [OF assms(1)] assms(2)])

text \<open>A hash that numbers the signatures of the file.\<close>

definition place :: "string list \<Rightarrow> byte list \<Rightarrow> nat" where
  "place sigs bs = length (takeWhile (\<lambda>s. string_bytes s \<noteq> bs) sigs)"

definition numbering_geth :: "BridgeMode \<Rightarrow> geth" where
  "numbering_geth mode = sample_geth\<lparr>Keccak256Hash := (\<lambda>bs. of_nat (place (event_signatures (getBridgeABI sample_geth mode)) bs))\<rparr>"

lemma place_found:
  assumes "s \<in> set sigs"
  shows "place sigs (string_bytes s) < length sigs \<and> string_bytes (sigs ! place sigs (string_bytes s)) = string_bytes s"
proof -
  have "place sigs (string_bytes s) < length sigs" unfolding place_def using assms by (induction sigs) auto
  with nth_length_takeWhile [of "\<lambda>x. string_bytes x \<noteq> string_bytes s" sigs] show ?thesis by (auto simp: place_def)
qed

lemma string_bytes_inject: "string_bytes s = string_bytes t \<Longrightarrow> s = t"
proof -
  have "(of_char c :: byte) = of_nat (of_char c)" for c by (simp add: of_nat_of_char)
  moreover have "unat (of_nat (of_char c) :: byte) = of_char c" for c by (simp add: unat_of_nat)
  ultimately have "inj (of_char :: char \<Rightarrow> byte)"
    by (intro injI) (metis of_char_eq_iff)
  then show "string_bytes s = string_bytes t \<Longrightarrow> s = t" by (simp add: string_bytes_def map_injective)
qed

lemma place_inj:
  assumes "length sigs \<le> 22"
  shows "inj_on (\<lambda>s. of_nat (place sigs (string_bytes s)) :: hash) (set sigs)"
proof (rule inj_onI)
  fix s t assume "s \<in> set sigs" "t \<in> set sigs"
  note s = place_found [OF this(1)] and t = place_found [OF this(2)]
  have small: "unat (of_nat n :: hash) = n" if "n < 22" for n using that by (simp add: unat_of_nat)
  assume "(of_nat (place sigs (string_bytes s)) :: hash) = of_nat (place sigs (string_bytes t))"
  then have "unat (of_nat (place sigs (string_bytes s)) :: hash) = unat (of_nat (place sigs (string_bytes t)) :: hash)"
    by (rule arg_cong)
  moreover have "place sigs (string_bytes s) < 22" "place sigs (string_bytes t) < 22" using s t assms by linarith+
  ultimately have "place sigs (string_bytes s) = place sigs (string_bytes t)" by (simp only: small)
  with s t show "s = t" by (metis string_bytes_inject)
qed

lemma numbering_apart: "signatures_hash_apart (numbering_geth mode) (getBridgeABI (numbering_geth mode) mode)"
proof -
  let ?sigs = "event_signatures (getBridgeABI sample_geth mode)"
  have sigs: "event_signatures (getBridgeABI (numbering_geth mode) mode) = ?sigs"
  proof -
    have "map (\<lambda>(n, args). ev_signature n args) (map declared (getBridgeABI (numbering_geth mode) mode)) =
        map (\<lambda>(n, args). ev_signature n args) (map declared (getBridgeABI sample_geth mode))"
      by (simp only: bridge_declarations [of "numbering_geth mode"])
    then show ?thesis by (simp add: event_signatures_def declared_def comp_def)
  qed
  have "length ?sigs \<le> length (getBridgeABI sample_geth mode)"
    unfolding event_signatures_def by (rule order_trans [OF length_remdups_leq]) simp
  also have "\<dots> \<le> 22" by (simp add: getBridgeABI_def ErcToNativeABI_def ArbitraryMessageABI_def)
  finally have len: "length ?sigs \<le> 22" .
  have "inj_on (\<lambda>s. of_nat (place ?sigs (string_bytes s)) :: hash) (set ?sigs)"
    by (rule place_inj [OF len])
  moreover have "distinct ?sigs" by (simp add: event_signatures_def)
  moreover have hash: "Keccak256Hash (numbering_geth mode) = (\<lambda>bs. of_nat (place ?sigs bs))" by (simp add: numbering_geth_def)
  ultimately show ?thesis unfolding signatures_hash_apart_def sigs distinct_map hash by blast
qed

lemma parse_log_any_order_witness:
  "ParseLog sample_abilib (rev (getBridgeABI (numbering_geth BridgeModeArbitraryMessage) BridgeModeArbitraryMessage)) sample_validator_log =
   ParseLog sample_abilib (getBridgeABI (numbering_geth BridgeModeArbitraryMessage) BridgeModeArbitraryMessage) sample_validator_log"
  by (rule parse_log_any_order [OF numbering_apart]) simp

end
