(* ===== verification/EthClient.thy ===== *)
theory EthClient
  imports Repository Decoders
begin

text \<open>
  \<open>ethclient/ethclient.go\<close>: the RPC client of one chain. What a node answers at each moment is
  a parameter, the record \<open>node\<close>, whose fields are the calls of go-ethereum's clients; an answer
  is a value or an error, and a time-out is one of the errors. What the calls count is the subject of theory
  \<open>Metrics\<close>.

  The lemmas show that \<open>FilterLogsSafe\<close> never gives logs of a node that is behind the range it
  was asked for, which queries it refuses without asking, and that calls leave the database alone.
\<close>

text \<open>\<open>int64\<close> of a \<open>uint\<close>, and \<open>Int64\<close>, \<open>Uint64\<close>, \<open>SetBytes\<close> of \<open>big.Int\<close>.\<close>

definition int64_of :: "uint \<Rightarrow> int" where
  "int64_of n = sint n"

definition big_Int64 :: "int \<Rightarrow> int" where
  "big_Int64 v = sint (word_of_int v :: uint)"

definition big_Uint64 :: "int \<Rightarrow> uint" where
  "big_Uint64 v = word_of_int \<bar>v\<bar>"

definition big_SetBytes :: "byte list \<Rightarrow> int" where
  "big_SetBytes bs = foldl (\<lambda>acc b. 256 * acc + uint b) 0 bs"

record Transaction =
  tx_Value :: int
  tx_Data :: "byte list"

record FilterQuery =
  fq_BlockHash :: "hash option"
  fq_FromBlock :: "int option"
  fq_ToBlock :: "int option"
  fq_Addresses :: "address list"
  fq_Topics :: "hash list list"

text \<open>The argument of \<open>eth_getLogs\<close>; the block numbers are sent in hexadecimal.\<close>

record FilterArg =
  fa_Addresses :: "address list"
  fa_Topics :: "hash list list"
  fa_FromBlock :: int
  fa_ToBlock :: int

text \<open>
  The node: every field takes the moment of the call. A batch call fails as a whole, or gives one
  answer per element: the logs and the block number.
\<close>

record node =
  node_Dial :: "nat \<Rightarrow> unit res"
  node_ChainID :: "nat \<Rightarrow> int res"
  node_BlockNumber :: "nat \<Rightarrow> uint res"
  node_HeaderTime :: "nat \<Rightarrow> int \<Rightarrow> uint res"
  node_FilterLogs :: "nat \<Rightarrow> FilterQuery \<Rightarrow> RpcLog list res"
  node_BatchLogsAndBlock :: "nat \<Rightarrow> FilterArg \<Rightarrow> (RpcLog list res \<times> uint res) res"
  node_TransactionByHash :: "nat \<Rightarrow> hash \<Rightarrow> Transaction res"
  node_CallContract :: "nat \<Rightarrow> address \<Rightarrow> byte list \<Rightarrow> byte list res"
  node_Sender :: "Transaction \<Rightarrow> address res"

definition rpc :: "(nat \<Rightarrow> 'a res) \<Rightarrow> (world, 'a) io" where
  "rpc f w = (f (w_tick w), w\<lparr>w_tick := Suc (w_tick w)\<rparr>)"

lemma rpc_grows [intro, simp]: "keepsE grows (rpc f)"
  by (simp add: keepsE_def rpc_def grows_def)

lemma rpc_db [world_simps]: "w_db (snd (rpc f w)) = w_db w"
  by (simp add: rpc_def)

text \<open>Calls that leave the database as it is.\<close>

definition quiet :: "world \<Rightarrow> world \<Rightarrow> bool" where
  "quiet w w' \<longleftrightarrow> w_db w' = w_db w \<and> w_tick w \<le> w_tick w'"

lemma quiet_refl [simp]: "quiet w w"
  by (simp add: quiet_def)

lemma quiet_trans: "quiet a b \<Longrightarrow> quiet b c \<Longrightarrow> quiet a c"
  by (auto simp: quiet_def)

lemma keepsE_quiet_bindE: "keepsE quiet m \<Longrightarrow> (\<And>a. keepsE quiet (f a)) \<Longrightarrow> keepsE quiet (bindE m f)"
  by (rule keepsE_bindE) (auto intro: quiet_trans)

lemma keepsE_quiet_pure [simp]: "keepsE quiet (returnE a)" "keepsE quiet (failE e)" "keepsE quiet (liftE r)"
  "keepsE quiet (Pair (Inr a))"
  by (simp_all add: keepsE_def)

lemma rpc_quiet [simp]: "keepsE quiet (rpc f)"
  by (simp add: keepsE_def rpc_def quiet_def)

lemma db_query_quiet [simp]: "keepsE quiet (db_query E q)"
  by (auto simp: keepsE_def quiet_def db_query_def db_exec_def Let_def split: db_fault.split)

section \<open>Operations\<close>

text \<open>A client is made when the node can be dialled and has the chain id of the configuration.\<close>

definition NewClient :: "node \<Rightarrow> string \<Rightarrow> (world, node) io" where
  "NewClient N chainID =
     bindE (rpc (node_Dial N)) (\<lambda>_.
     bindE (rpc (node_ChainID N)) (\<lambda>rpcChainID.
     if big_string rpcChainID \<noteq> chainID then failE (Err ErrIncompatibleChainID)
     else returnE N))"

text \<open>
  The client of a chain, as its callers make it: \<open>dial\<close> is the node behind the RPC section of a chain.
  The pointers to the chain and to its section are dereferenced.
\<close>

definition chainNode :: "(RPCConfig \<Rightarrow> node) \<Rightarrow> ChainConfig \<Rightarrow> (world, node) io" where
  "chainNode dial chain = (case ch_RPC chain of
     None \<Rightarrow> failE Panic | Some cfg \<Rightarrow> NewClient (dial cfg) (ch_ChainID chain))"

definition sideClient :: "(RPCConfig \<Rightarrow> node) \<Rightarrow> BridgeSideConfig \<Rightarrow> (world, node) io" where
  "sideClient dial cfg = (case bs_Chain cfg of None \<Rightarrow> failE Panic | Some chain \<Rightarrow> chainNode dial chain)"

definition BlockNumber :: "node \<Rightarrow> (world, uint) io" where
  "BlockNumber N = rpc (node_BlockNumber N)"

definition HeaderByNumber :: "node \<Rightarrow> uint \<Rightarrow> (world, uint) io" where
  "HeaderByNumber N n = rpc (\<lambda>t. node_HeaderTime N t (int64_of n))"

definition FilterLogs :: "node \<Rightarrow> FilterQuery \<Rightarrow> (world, RpcLog list) io" where
  "FilterLogs N q = rpc (\<lambda>t. node_FilterLogs N t q)"

definition toFilterArg :: "FilterQuery \<Rightarrow> FilterArg res" where
  "toFilterArg q =
     (if fq_BlockHash q \<noteq> None then Inl (Err ErrInvalidLogsQuery) else
      let fromBlock = (case fq_FromBlock q of None \<Rightarrow> 0 | Some b \<Rightarrow> b) in
      case fq_ToBlock q of
        None \<Rightarrow> Inl (Err ErrInvalidLogsQuery)
      | Some toBlock \<Rightarrow>
          if big_Int64 toBlock \<le> 0 then Inl (Err ErrInvalidLogsQuery)
          else Inr \<lparr>fa_Addresses = fq_Addresses q, fa_Topics = fq_Topics q,
            fa_FromBlock = fromBlock, fa_ToBlock = toBlock\<rparr>)"

definition FilterLogsSafe :: "node \<Rightarrow> FilterQuery \<Rightarrow> (world, RpcLog list) io" where
  "FilterLogsSafe N q =
     bindE (liftE (toFilterArg q)) (\<lambda>arg.
     bindE (rpc (\<lambda>t. node_BatchLogsAndBlock N t arg)) (\<lambda>(logsElem, blockElem).
     bindE (liftE logsElem) (\<lambda>logs.
     bindE (liftE blockElem) (\<lambda>blockNumber.
     case fq_ToBlock q of None \<Rightarrow> failE Panic | Some toBlock \<Rightarrow>
     if blockNumber < big_Uint64 toBlock then failE (Err ErrNodeIsNotSynced)
     else returnE logs))))"

definition TransactionByHash :: "node \<Rightarrow> hash \<Rightarrow> (world, Transaction) io" where
  "TransactionByHash N h = rpc (\<lambda>t. node_TransactionByHash N t h)"

text \<open>The receipt of a transaction; nothing calls it, and the type of receipts is the library's.\<close>

definition TransactionReceiptByHash :: "(nat \<Rightarrow> hash \<Rightarrow> 'receipt res) \<Rightarrow> hash \<Rightarrow> (world, 'receipt) io" where
  "TransactionReceiptByHash receipts h = rpc (\<lambda>t. receipts t h)"

definition CallContract :: "node \<Rightarrow> address \<Rightarrow> byte list \<Rightarrow> (world, byte list) io" where
  "CallContract N to data = rpc (\<lambda>t. node_CallContract N t to data)"

text \<open>\<open>Call\<close> of \<open>contract/contract.go\<close>; packing the calldata of a method is the library's.\<close>

definition Contract_Call :: "node \<Rightarrow> address \<Rightarrow> byte list res \<Rightarrow> (world, byte list) io" where
  "Contract_Call N address calldata = bindE (liftE calldata) (\<lambda>data. CallContract N address data)"

definition TransactionSender :: "node \<Rightarrow> Transaction \<Rightarrow> address res" where
  "TransactionSender N tx = node_Sender N tx"

section \<open>Lemmas\<close>

lemma client_grows [intro, simp]:
  "keepsE grows (BlockNumber N)" "keepsE grows (HeaderByNumber N n)" "keepsE grows (FilterLogs N q)"
  "keepsE grows (TransactionByHash N h)" "keepsE grows (CallContract N a d)"
  by (simp_all add: BlockNumber_def HeaderByNumber_def FilterLogs_def TransactionByHash_def CallContract_def)

lemma NewClient_grows [intro, simp]: "keepsE grows (NewClient N c)"
  unfolding NewClient_def by (auto intro!: keepsE_grows_bindE)

lemma sideClient_Inr:
  assumes "sideClient dial cfg w = (Inr N, w')"
  obtains c r where "bs_Chain cfg = Some c" "ch_RPC c = Some r" "N = dial r" "w_db w' = w_db w" "w_tick w \<le> w_tick w'"
  using assms
  by (auto simp: sideClient_def chainNode_def NewClient_def bindE_Inr_iff rpc_def failE_def returnE_def
      split: option.splits if_splits)

lemma FilterLogsSafe_grows [intro, simp]: "keepsE grows (FilterLogsSafe N q)"
  unfolding FilterLogsSafe_def
  by (intro keepsE_grows_bindE) (auto split: prod.split option.split intro!: keepsE_grows_bindE)

lemma FilterLogs_db: "FilterLogs N q w = (r, w') \<Longrightarrow> w_db w' = w_db w"
  by (auto simp: FilterLogs_def rpc_def)

lemma FilterLogsSafe_db: "FilterLogsSafe N q w = (r, w') \<Longrightarrow> w_db w' = w_db w"
  by (auto simp: FilterLogsSafe_def bindE_apply bindE_liftE_apply rpc_def split: sum.splits prod.splits option.splits if_splits)

text \<open>
  Logs come from a batch whose own block number has reached the last block of the query, and only for
  queries with a positive last block.
\<close>

lemma FilterLogsSafe_Inr:
  assumes "FilterLogsSafe N q w = (Inr logs, w')"
  shows "\<exists>arg blockNumber toBlock. toFilterArg q = Inr arg \<and> fq_ToBlock q = Some toBlock
    \<and> node_BatchLogsAndBlock N (w_tick w) arg = Inr (Inr logs, Inr blockNumber)
    \<and> big_Uint64 toBlock \<le> blockNumber \<and> 0 < big_Int64 toBlock"
  using assms
  by (auto simp: FilterLogsSafe_def bindE_apply bindE_liftE_apply rpc_def toFilterArg_def Let_def
      split: sum.splits prod.splits option.splits if_splits)

text \<open>A query it refuses is refused before anything is sent.\<close>

lemma FilterLogsSafe_refused:
  "toFilterArg q = Inl f \<Longrightarrow> FilterLogsSafe N q w = (Inl f, w) \<and> f = Err ErrInvalidLogsQuery"
  by (auto simp: FilterLogsSafe_def bindE_liftE_apply toFilterArg_def Let_def
      split: option.splits if_splits)

text \<open>\<open>uint\<close> block numbers below \<open>2^63\<close> survive the conversions.\<close>

lemma int64_of_small:
  assumes "unat n < 2 ^ 63"
  shows "int64_of n = int (unat n)"
proof -
  have u: "uint n < 2 ^ 63" using assms by (metis of_nat_less_iff of_nat_numeral of_nat_power uint_nat)
  have "- (2 ^ 63 :: int) \<le> 0" by simp
  then have lo: "- (2 ^ 63) \<le> uint n" using uint_ge_0 [of n] by (rule order_trans)
  have "sint n = signed_take_bit (LENGTH(64) - Suc 0) (uint n)" by (rule sint_uint)
  also have "\<dots> = signed_take_bit 63 (uint n)" by simp
  also have "\<dots> = uint n" by (rule signed_take_bit_int_eq_self [OF lo u])
  finally have "sint n = uint n" .
  then show ?thesis unfolding int64_of_def by (simp only: uint_nat)
qed

lemma big_Uint64_int64: "unat n < 2 ^ 63 \<Longrightarrow> big_Uint64 (int64_of n) = n"
  by (simp add: big_Uint64_def int64_of_small)

lemma big_Int64_int64: "big_Int64 (int64_of n) = int64_of n"
  by (simp add: big_Int64_def int64_of_def)

section \<open>Properties\<close>

text \<open>A node for concrete runs: its head stands still, it has one transaction, and it answers every
  query for logs with the same ones.\<close>

definition sample_node :: "uint \<Rightarrow> RpcLog list \<Rightarrow> node" where
  "sample_node head logs = \<lparr>node_Dial = (\<lambda>t. Inr ()), node_ChainID = (\<lambda>t. Inr 100), node_BlockNumber = (\<lambda>t. Inr head),
     node_HeaderTime = (\<lambda>t n. Inr 1600000000), node_FilterLogs = (\<lambda>t q. Inr logs),
     node_BatchLogsAndBlock = (\<lambda>t arg. Inr (Inr logs, Inr head)),
     node_TransactionByHash = (\<lambda>t h. Inr \<lparr>tx_Value = 0, tx_Data = []\<rparr>),
     node_CallContract = (\<lambda>t a d. Inr []), node_Sender = (\<lambda>tx. Inr 9)\<rparr>"

definition sample_query :: "int \<Rightarrow> int \<Rightarrow> FilterQuery" where
  "sample_query f t = \<lparr>fq_BlockHash = None, fq_FromBlock = Some f, fq_ToBlock = Some t, fq_Addresses = [], fq_Topics = []\<rparr>"

text \<open>\<open>FilterLogsSafe\<close> gives only the logs of an answer whose own block number has reached
  the last block of the query: a node that lags behind is an error, never an incomplete list.\<close>

theorem filter_logs_safe_synced:
  assumes "FilterLogsSafe N q w = (Inr logs, w')"
  shows "\<exists>arg blockNumber toBlock. toFilterArg q = Inr arg \<and> fq_ToBlock q = Some toBlock
    \<and> node_BatchLogsAndBlock N (w_tick w) arg = Inr (Inr logs, Inr blockNumber)
    \<and> big_Uint64 toBlock \<le> blockNumber \<and> 0 < big_Int64 toBlock"
  by (rule FilterLogsSafe_Inr [OF assms])

lemma filter_logs_safe_synced_witness:
  "\<exists>arg blockNumber toBlock. toFilterArg (sample_query 5 50) = Inr arg \<and> fq_ToBlock (sample_query 5 50) = Some toBlock
    \<and> node_BatchLogsAndBlock (sample_node 60 []) 0 arg = Inr (Inr [], Inr blockNumber)
    \<and> big_Uint64 toBlock \<le> blockNumber \<and> 0 < big_Int64 toBlock"
proof -
  have "FilterLogsSafe (sample_node 60 []) (sample_query 5 50) \<lparr>w_db = emptyDatabase, w_tick = 0\<rparr> =
      (Inr [], \<lparr>w_db = emptyDatabase, w_tick = 1\<rparr>)"
    by (simp add: FilterLogsSafe_def bindE_apply bindE_liftE_apply rpc_def toFilterArg_def sample_query_def
        sample_node_def big_Int64_def big_Uint64_def)
  from filter_logs_safe_synced [OF this] show ?thesis by simp
qed

text \<open>A query with a block hash, without a last block, or whose last block is not a positive
  \<open>int64\<close>, is refused by \<open>FilterLogsSafe\<close> before anything is sent to the node.\<close>

theorem filter_logs_safe_refuses:
  assumes "fq_BlockHash q \<noteq> None \<or> fq_ToBlock q = None \<or> big_Int64 (the (fq_ToBlock q)) \<le> 0"
  shows "FilterLogsSafe N q w = (Inl (Err ErrInvalidLogsQuery), w)"
proof -
  have "toFilterArg q = Inl (Err ErrInvalidLogsQuery)"
    using assms by (auto simp: toFilterArg_def Let_def split: option.split)
  from FilterLogsSafe_refused [OF this] show ?thesis by blast
qed

lemma filter_logs_safe_refuses_witness:
  "FilterLogsSafe (sample_node 60 []) (sample_query 0 0) \<lparr>w_db = emptyDatabase, w_tick = 0\<rparr> =
     (Inl (Err ErrInvalidLogsQuery), \<lparr>w_db = emptyDatabase, w_tick = 0\<rparr>)"
  by (rule filter_logs_safe_refuses) (simp add: sample_query_def big_Int64_def)

end
