(* ===== verification/Handlers.thy ===== *)
theory Handlers
  imports Abi EthClient
begin

text \<open>
  \<open>monitor/handlers.go\<close>: what each bridge event does to the database, and the registration of
  the handlers in \<open>monitor/monitor.go\<close>. A handler reads its arguments out of the decoded event,
  refusing a value of the wrong type, may ask the node of the home chain for the transaction, and makes
  one or two \<open>Ensure\<close> calls; there is no transaction around two calls, and the first stays when
  the second fails.

  The lemmas show that handlers only add to the database, which row every event leaves, that no
  registered handler meets a value of the wrong type, and that the identifiers which link the two sides
  of a message agree.
\<close>

record BridgeEventHandler =
  beh_bridgeID :: string
  beh_homeClient :: node
  beh_cfg :: BridgeConfig

definition NewBridgeEventHandler :: "BridgeConfig \<Rightarrow> node \<Rightarrow> BridgeEventHandler" where
  "NewBridgeEventHandler cfg homeClient =
     \<lparr>beh_bridgeID = bc_ID cfg, beh_homeClient = homeClient, beh_cfg = cfg\<rparr>"

section \<open>Type assertions\<close>

definition as_bytes :: "event_data \<Rightarrow> string \<Rightarrow> byte list res" where
  "as_bytes data n = (case map_of data n of Some (VBytes b) \<Rightarrow> Inr b | _ \<Rightarrow> Inl (Err ErrWrongArgumentType))"

definition as_bytes32 :: "event_data \<Rightarrow> string \<Rightarrow> hash res" where
  "as_bytes32 data n = (case map_of data n of Some (VBytes32 h) \<Rightarrow> Inr h | _ \<Rightarrow> Inl (Err ErrWrongArgumentType))"

definition as_address :: "event_data \<Rightarrow> string \<Rightarrow> address res" where
  "as_address data n = (case map_of data n of Some (VAddress a) \<Rightarrow> Inr a | _ \<Rightarrow> Inl (Err ErrWrongArgumentType))"

definition as_big :: "event_data \<Rightarrow> string \<Rightarrow> int res" where
  "as_big data n = (case map_of data n of Some (VBigInt v) \<Rightarrow> Inr v | _ \<Rightarrow> Inl (Err ErrWrongArgumentType))"

definition as_bool :: "event_data \<Rightarrow> string \<Rightarrow> bool res" where
  "as_bool data n = (case map_of data n of Some (VBool b) \<Rightarrow> Inr b | _ \<Rightarrow> Inl (Err ErrWrongArgumentType))"

lemmas as_defs = as_bytes_def as_bytes32_def as_address_def as_big_def as_bool_def

section \<open>Handlers\<close>

definition HandleUserRequestForAffirmation ::
  "geth \<Rightarrow> env \<Rightarrow> BridgeEventHandler \<Rightarrow> Log \<Rightarrow> event_data \<Rightarrow> (world, unit) io" where
  "HandleUserRequestForAffirmation G E p log data =
     bindE (liftE (as_bytes data ''encodedData'')) (\<lambda>encodedData.
     bindE (liftE (unmarshalMessage G (beh_bridgeID p) DirectionForeignToHome encodedData)) (\<lambda>message.
     bindE (Messages_Ensure E message) (\<lambda>_.
     SentMessages_Ensure E \<lparr>sm_LogID = log_ID log, sm_BridgeID = beh_bridgeID p,
       sm_MsgHash = msg_MsgHash message\<rparr>)))"

definition HandleLegacyUserRequestForAffirmation ::
  "geth \<Rightarrow> env \<Rightarrow> BridgeEventHandler \<Rightarrow> Log \<Rightarrow> event_data \<Rightarrow> (world, unit) io" where
  "HandleLegacyUserRequestForAffirmation G E p log data =
     bindE (liftE (as_bytes data ''encodedData'')) (\<lambda>encodedData.
     let encodedData = hash_bytes (log_TransactionHash log) @ encodedData in
     bindE (liftE (unmarshalLegacyMessage G (beh_bridgeID p) DirectionForeignToHome encodedData)) (\<lambda>message.
     bindE (Messages_Ensure E message) (\<lambda>_.
     SentMessages_Ensure E \<lparr>sm_LogID = log_ID log, sm_BridgeID = beh_bridgeID p,
       sm_MsgHash = msg_MsgHash message\<rparr>)))"

text \<open>The first token configured for the address of the log decides; is the sender on its list?\<close>

fun blacklisted :: "TokenConfig list \<Rightarrow> address \<Rightarrow> address \<Rightarrow> bool" where
  "blacklisted [] addr sender_from = False"
| "blacklisted (token # tokens) addr sender_from =
     (if tok_Address token = addr then sender_from \<in> set (tok_BlacklistedSenders token)
      else blacklisted tokens addr sender_from)"

definition HandleErcToNativeTransfer ::
  "geth \<Rightarrow> env \<Rightarrow> BridgeEventHandler \<Rightarrow> Log \<Rightarrow> event_data \<Rightarrow> (world, unit) io" where
  "HandleErcToNativeTransfer G E p log data =
     bindE (liftE (as_address data ''from'')) (\<lambda>sender_from.
     bindE (liftE (as_big data ''value'')) (\<lambda>val.
     if blacklisted (bs_ErcToNativeTokens (bc_Foreign (beh_cfg p))) (log_Address log) sender_from then returnE ()
     else
     bindE (Logs_Find E (emptyLogsFilter\<lparr>lf_ChainID := Some (log_ChainID log),
         lf_Addresses := [bs_Address (bc_Foreign (beh_cfg p))],
         lf_FromBlock := Some (log_BlockNumber log), lf_ToBlock := Some (log_BlockNumber log),
         lf_TxHash := Some (log_TransactionHash log),
         lf_Topic0 := [ErcToNativeUserRequestForAffirmationEventSignature G]\<rparr>)) (\<lambda>logs.
     if length logs > 0 then returnE () else
     let msg = address_bytes sender_from @ hash_bytes (BigToHash G val) @ hash_bytes (log_TransactionHash log);
         msgHash = Keccak256Hash G msg
     in bindE (ErcToNativeMessages_Ensure E \<lparr>erc_BridgeID = beh_bridgeID p, erc_MsgHash = msgHash,
         erc_Direction = DirectionForeignToHome, erc_Sender = sender_from, erc_Receiver = sender_from,
         erc_Value = big_string val, erc_RawMessage = msg\<rparr>) (\<lambda>_.
     SentMessages_Ensure E \<lparr>sm_LogID = log_ID log, sm_BridgeID = beh_bridgeID p, sm_MsgHash = msgHash\<rparr>))))"

text \<open>The loop over the transfers of the transaction: the last one of the same value gives the sender.\<close>

fun transfer_sender :: "geth \<Rightarrow> int \<Rightarrow> address \<Rightarrow> Log list \<Rightarrow> address res" where
  "transfer_sender G val sender [] = Inr sender"
| "transfer_sender G val sender (txLog # logs) =
     (if val = big_SetBytes (log_Data txLog) then
        (case log_Topic1 txLog of None \<Rightarrow> Inl Panic
         | Some t \<Rightarrow> transfer_sender G val (BytesToAddress G (hash_bytes t)) logs)
      else transfer_sender G val sender logs)"

definition HandleErcToNativeUserRequestForAffirmation ::
  "geth \<Rightarrow> env \<Rightarrow> BridgeEventHandler \<Rightarrow> Log \<Rightarrow> event_data \<Rightarrow> (world, unit) io" where
  "HandleErcToNativeUserRequestForAffirmation G E p log data =
     bindE (liftE (as_address data ''recipient'')) (\<lambda>recipient.
     bindE (liftE (as_big data ''value'')) (\<lambda>val.
     let msg = address_bytes recipient @ hash_bytes (BigToHash G val) @ hash_bytes (log_TransactionHash log);
         msgHash = Keccak256Hash G msg
     in bindE (Logs_Find E (emptyLogsFilter\<lparr>lf_ChainID := Some (log_ChainID log),
         lf_Addresses := ErcToNativeTokenAddresses (bc_Foreign (beh_cfg p)) (log_BlockNumber log) (log_BlockNumber log),
         lf_FromBlock := Some (log_BlockNumber log), lf_ToBlock := Some (log_BlockNumber log),
         lf_TxHash := Some (log_TransactionHash log),
         lf_Topic0 := [ErcToNativeTransferEventSignature G],
         lf_Topic2 := [AddressHash G (bs_Address (bc_Foreign (beh_cfg p)))],
         lf_DataLength := Some 32\<rparr>)) (\<lambda>logs.
     bindE (liftE (transfer_sender G val recipient logs)) (\<lambda>sender.
     bindE (ErcToNativeMessages_Ensure E \<lparr>erc_BridgeID = beh_bridgeID p, erc_MsgHash = msgHash,
         erc_Direction = DirectionForeignToHome, erc_Sender = sender, erc_Receiver = recipient,
         erc_Value = big_string val, erc_RawMessage = msg\<rparr>) (\<lambda>_.
     SentMessages_Ensure E \<lparr>sm_LogID = log_ID log, sm_BridgeID = beh_bridgeID p, sm_MsgHash = msgHash\<rparr>)))))"

definition HandleUserRequestForSignature ::
  "geth \<Rightarrow> env \<Rightarrow> BridgeEventHandler \<Rightarrow> Log \<Rightarrow> event_data \<Rightarrow> (world, unit) io" where
  "HandleUserRequestForSignature G E p log data =
     bindE (liftE (as_bytes data ''encodedData'')) (\<lambda>encodedData.
     bindE (liftE (unmarshalMessage G (beh_bridgeID p) DirectionHomeToForeign encodedData)) (\<lambda>message.
     bindE (Messages_Ensure E message) (\<lambda>_.
     SentMessages_Ensure E \<lparr>sm_LogID = log_ID log, sm_BridgeID = beh_bridgeID p,
       sm_MsgHash = msg_MsgHash message\<rparr>)))"

definition HandleLegacyUserRequestForSignature ::
  "geth \<Rightarrow> env \<Rightarrow> BridgeEventHandler \<Rightarrow> Log \<Rightarrow> event_data \<Rightarrow> (world, unit) io" where
  "HandleLegacyUserRequestForSignature G E p log data =
     bindE (liftE (as_bytes data ''encodedData'')) (\<lambda>encodedData.
     let encodedData = hash_bytes (log_TransactionHash log) @ encodedData in
     bindE (liftE (unmarshalLegacyMessage G (beh_bridgeID p) DirectionHomeToForeign encodedData)) (\<lambda>message.
     bindE (Messages_Ensure E message) (\<lambda>_.
     SentMessages_Ensure E \<lparr>sm_LogID = log_ID log, sm_BridgeID = beh_bridgeID p,
       sm_MsgHash = msg_MsgHash message\<rparr>)))"

definition HandleErcToNativeUserRequestForSignature ::
  "geth \<Rightarrow> env \<Rightarrow> BridgeEventHandler \<Rightarrow> Log \<Rightarrow> event_data \<Rightarrow> (world, unit) io" where
  "HandleErcToNativeUserRequestForSignature G E p log data =
     bindE (liftE (as_address data ''recipient'')) (\<lambda>recipient.
     bindE (liftE (as_big data ''value'')) (\<lambda>val.
     let msg = address_bytes recipient @ hash_bytes (BigToHash G val) @ hash_bytes (log_TransactionHash log)
           @ address_bytes (bs_Address (bc_Foreign (beh_cfg p)));
         msgHash = Keccak256Hash G msg
     in bindE (TransactionByHash (beh_homeClient p) (log_TransactionHash log)) (\<lambda>tx.
     bindE (liftE (if tx_Value tx = val then TransactionSender (beh_homeClient p) tx else Inr recipient)) (\<lambda>sender.
     bindE (ErcToNativeMessages_Ensure E \<lparr>erc_BridgeID = beh_bridgeID p, erc_MsgHash = msgHash,
         erc_Direction = DirectionHomeToForeign, erc_Sender = sender, erc_Receiver = recipient,
         erc_Value = big_string val, erc_RawMessage = msg\<rparr>) (\<lambda>_.
     SentMessages_Ensure E \<lparr>sm_LogID = log_ID log, sm_BridgeID = beh_bridgeID p, sm_MsgHash = msgHash\<rparr>)))))"

definition HandleSignedForUserRequest ::
  "env \<Rightarrow> BridgeEventHandler \<Rightarrow> Log \<Rightarrow> event_data \<Rightarrow> (world, unit) io" where
  "HandleSignedForUserRequest E p log data =
     bindE (liftE (as_bytes32 data ''messageHash'')) (\<lambda>msgHash.
     bindE (liftE (as_address data ''signer'')) (\<lambda>validator.
     SignedMessages_Ensure E \<lparr>sgm_LogID = log_ID log, sgm_BridgeID = beh_bridgeID p,
       sgm_MsgHash = msgHash, sgm_Signer = validator\<rparr>))"

definition HandleErcToNativeSignedForAffirmation ::
  "geth \<Rightarrow> env \<Rightarrow> BridgeEventHandler \<Rightarrow> Log \<Rightarrow> event_data \<Rightarrow> (world, unit) io" where
  "HandleErcToNativeSignedForAffirmation G E p log data =
     bindE (liftE (as_address data ''signer'')) (\<lambda>validator.
     bindE (TransactionByHash (beh_homeClient p) (log_TransactionHash log)) (\<lambda>tx.
     bindE (liftE (slice_from (tx_Data tx) 16)) (\<lambda>msg.
     SignedMessages_Ensure E \<lparr>sgm_LogID = log_ID log, sgm_BridgeID = beh_bridgeID p,
       sgm_MsgHash = Keccak256Hash G msg, sgm_Signer = validator\<rparr>)))"

definition HandleRelayedMessage ::
  "env \<Rightarrow> BridgeEventHandler \<Rightarrow> Log \<Rightarrow> event_data \<Rightarrow> (world, unit) io" where
  "HandleRelayedMessage E p log data =
     bindE (liftE (as_bytes32 data ''messageId'')) (\<lambda>messageID.
     bindE (liftE (as_bool data ''status'')) (\<lambda>status.
     ExecutedMessages_Ensure E \<lparr>em_LogID = log_ID log, em_BridgeID = beh_bridgeID p,
       em_MessageID = messageID, em_Status = status\<rparr>))"

definition HandleErcToNativeRelayedMessage ::
  "geth \<Rightarrow> env \<Rightarrow> BridgeEventHandler \<Rightarrow> Log \<Rightarrow> event_data \<Rightarrow> (world, unit) io" where
  "HandleErcToNativeRelayedMessage G E p log data =
     bindE (liftE (as_address data ''recipient'')) (\<lambda>recipient.
     bindE (liftE (as_big data ''value'')) (\<lambda>val.
     bindE (liftE (as_bytes32 data ''transactionHash'')) (\<lambda>transactionHash.
     let msg = address_bytes recipient @ hash_bytes (BigToHash G val) @ hash_bytes transactionHash
           @ address_bytes (log_Address log)
     in ExecutedMessages_Ensure E \<lparr>em_LogID = log_ID log, em_BridgeID = beh_bridgeID p,
       em_MessageID = Keccak256Hash G msg, em_Status = True\<rparr>)))"

definition HandleAffirmationCompleted ::
  "env \<Rightarrow> BridgeEventHandler \<Rightarrow> Log \<Rightarrow> event_data \<Rightarrow> (world, unit) io" where
  "HandleAffirmationCompleted E p log data =
     bindE (liftE (as_bytes32 data ''messageId'')) (\<lambda>messageID.
     bindE (liftE (as_bool data ''status'')) (\<lambda>status.
     ExecutedMessages_Ensure E \<lparr>em_LogID = log_ID log, em_BridgeID = beh_bridgeID p,
       em_MessageID = messageID, em_Status = status\<rparr>))"

definition HandleErcToNativeAffirmationCompleted ::
  "geth \<Rightarrow> env \<Rightarrow> BridgeEventHandler \<Rightarrow> Log \<Rightarrow> event_data \<Rightarrow> (world, unit) io" where
  "HandleErcToNativeAffirmationCompleted G E p log data =
     bindE (liftE (as_address data ''recipient'')) (\<lambda>recipient.
     bindE (liftE (as_big data ''value'')) (\<lambda>val.
     bindE (liftE (as_bytes32 data ''transactionHash'')) (\<lambda>transactionHash.
     let msg = address_bytes recipient @ hash_bytes (BigToHash G val) @ hash_bytes transactionHash
     in ExecutedMessages_Ensure E \<lparr>em_LogID = log_ID log, em_BridgeID = beh_bridgeID p,
       em_MessageID = Keccak256Hash G msg, em_Status = True\<rparr>)))"

definition HandleCollectedSignatures ::
  "env \<Rightarrow> BridgeEventHandler \<Rightarrow> Log \<Rightarrow> event_data \<Rightarrow> (world, unit) io" where
  "HandleCollectedSignatures E p log data =
     bindE (liftE (as_bytes32 data ''messageHash'')) (\<lambda>msgHash.
     bindE (liftE (as_address data ''authorityResponsibleForRelay'')) (\<lambda>relayer.
     bindE (liftE (as_big data ''NumberOfCollectedSignatures'')) (\<lambda>numSignatures.
     CollectedMessages_Ensure E \<lparr>cm_LogID = log_ID log, cm_BridgeID = beh_bridgeID p,
       cm_MsgHash = msgHash, cm_ResponsibleSigner = relayer, cm_NumSignatures = big_Uint64 numSignatures\<rparr>)))"

definition HandleUserRequestForInformation ::
  "env \<Rightarrow> BridgeEventHandler \<Rightarrow> Log \<Rightarrow> event_data \<Rightarrow> (world, unit) io" where
  "HandleUserRequestForInformation E p log data =
     bindE (liftE (as_bytes32 data ''messageId'')) (\<lambda>messageID.
     bindE (liftE (as_bytes32 data ''requestSelector'')) (\<lambda>requestSelector.
     bindE (liftE (as_address data ''sender'')) (\<lambda>sender.
     bindE (liftE (as_bytes data ''data'')) (\<lambda>requestData.
     bindE (InformationRequests_Ensure E \<lparr>ir_BridgeID = beh_bridgeID p, ir_MessageID = messageID,
         ir_Direction = DirectionHomeToForeign, ir_RequestSelector = requestSelector, ir_Sender = sender,
         ir_Executor = sender, ir_Data = requestData\<rparr>) (\<lambda>_.
     SentInformationRequests_Ensure E \<lparr>sir_LogID = log_ID log, sir_BridgeID = beh_bridgeID p,
       sir_MessageID = messageID\<rparr>)))))"

definition HandleSignedForInformation ::
  "env \<Rightarrow> BridgeEventHandler \<Rightarrow> Log \<Rightarrow> event_data \<Rightarrow> (world, unit) io" where
  "HandleSignedForInformation E p log data =
     bindE (liftE (as_bytes32 data ''messageId'')) (\<lambda>messageID.
     bindE (liftE (as_address data ''signer'')) (\<lambda>validator.
     bindE (TransactionByHash (beh_homeClient p) (log_TransactionHash log)) (\<lambda>tx.
     bindE (liftE (unmarshalConfirmInformationResult (tx_Data tx))) (\<lambda>result.
     SignedInformationRequests_Ensure E \<lparr>sgir_LogID = log_ID log, sgir_BridgeID = beh_bridgeID p,
       sgir_MessageID = messageID, sgir_Signer = validator, sgir_Data = result\<rparr>))))"

definition HandleInformationRetrieved ::
  "env \<Rightarrow> BridgeEventHandler \<Rightarrow> Log \<Rightarrow> event_data \<Rightarrow> (world, unit) io" where
  "HandleInformationRetrieved E p log data =
     bindE (liftE (as_bytes32 data ''messageId'')) (\<lambda>messageID.
     bindE (liftE (as_bool data ''status'')) (\<lambda>status.
     bindE (liftE (as_bool data ''callbackStatus'')) (\<lambda>callbackStatus.
     bindE (TransactionByHash (beh_homeClient p) (log_TransactionHash log)) (\<lambda>tx.
     bindE (liftE (unmarshalConfirmInformationResult (tx_Data tx))) (\<lambda>result.
     ExecutedInformationRequests_Ensure E \<lparr>eir_LogID = log_ID log, eir_BridgeID = beh_bridgeID p,
       eir_MessageID = messageID, eir_Status = status, eir_CallbackStatus = callbackStatus,
       eir_Data = result\<rparr>)))))"

definition HandleValidatorAdded ::
  "env \<Rightarrow> BridgeEventHandler \<Rightarrow> Log \<Rightarrow> event_data \<Rightarrow> (world, unit) io" where
  "HandleValidatorAdded E p log data =
     bindE (liftE (as_address data ''validator'')) (\<lambda>validator.
     BridgeValidators_Ensure E \<lparr>bv_LogID = log_ID log, bv_BridgeID = beh_bridgeID p,
       bv_ChainID = log_ChainID log, bv_Address = validator, bv_RemovedLogID = None\<rparr>)"

definition HandleValidatorRemoved ::
  "env \<Rightarrow> BridgeEventHandler \<Rightarrow> Log \<Rightarrow> event_data \<Rightarrow> (world, unit) io" where
  "HandleValidatorRemoved E p log data =
     bindE (liftE (as_address data ''validator'')) (\<lambda>validator.
     bindE (IgnoreErrNotFound (BridgeValidators_GetActiveValidator E (beh_bridgeID p) (log_ChainID log) validator))
       (\<lambda>r. case r of
         None \<Rightarrow> returnE ()
       | Some val \<Rightarrow> BridgeValidators_Ensure E (val\<lparr>bv_RemovedLogID := Some (log_ID log)\<rparr>)))"

lemmas handler_defs = HandleUserRequestForAffirmation_def HandleLegacyUserRequestForAffirmation_def
  HandleErcToNativeTransfer_def HandleErcToNativeUserRequestForAffirmation_def
  HandleUserRequestForSignature_def HandleLegacyUserRequestForSignature_def
  HandleErcToNativeUserRequestForSignature_def HandleSignedForUserRequest_def
  HandleErcToNativeSignedForAffirmation_def HandleRelayedMessage_def HandleErcToNativeRelayedMessage_def
  HandleAffirmationCompleted_def HandleErcToNativeAffirmationCompleted_def HandleCollectedSignatures_def
  HandleUserRequestForInformation_def HandleSignedForInformation_def HandleInformationRetrieved_def
  HandleValidatorAdded_def HandleValidatorRemoved_def

section \<open>Registration\<close>

type_synonym handler = "Log \<Rightarrow> event_data \<Rightarrow> (world, unit) io"

definition RegisterEventHandler :: "string \<Rightarrow> handler \<Rightarrow> (string \<times> handler) list \<Rightarrow> (string \<times> handler) list" where
  "RegisterEventHandler event h hs = (event, h) # hs"

text \<open>The calls in order; the handlers of the home side, then those of the foreign side.\<close>

definition RegisterErcToNativeEventHandlers ::
  "geth \<Rightarrow> env \<Rightarrow> BridgeConfig \<Rightarrow> node \<Rightarrow> (string \<times> handler) list \<times> (string \<times> handler) list" where
  "RegisterErcToNativeEventHandlers G E cfg homeClient =
     (let p = NewBridgeEventHandler cfg homeClient in
      (fold (\<lambda>(e, h). RegisterEventHandler e h)
        [(ErcToNativeUserRequestForSignature, HandleErcToNativeUserRequestForSignature G E p),
         (SignedForUserRequest, HandleSignedForUserRequest E p),
         (CollectedSignatures, HandleCollectedSignatures E p),
         (ErcToNativeSignedForAffirmation, HandleErcToNativeSignedForAffirmation G E p),
         (ErcToNativeAffirmationCompleted, HandleErcToNativeAffirmationCompleted G E p),
         (ValidatorAdded, HandleValidatorAdded E p),
         (ValidatorRemoved, HandleValidatorRemoved E p)] [],
       fold (\<lambda>(e, h). RegisterEventHandler e h)
        [(ErcToNativeUserRequestForAffirmation, HandleErcToNativeUserRequestForAffirmation G E p),
         (ErcToNativeTransfer, HandleErcToNativeTransfer G E p),
         (ErcToNativeRelayedMessage, HandleErcToNativeRelayedMessage G E p),
         (ValidatorAdded, HandleValidatorAdded E p),
         (ValidatorRemoved, HandleValidatorRemoved E p)] []))"

definition RegisterAMBEventHandlers ::
  "geth \<Rightarrow> env \<Rightarrow> BridgeConfig \<Rightarrow> node \<Rightarrow> (string \<times> handler) list \<times> (string \<times> handler) list" where
  "RegisterAMBEventHandlers G E cfg homeClient =
     (let p = NewBridgeEventHandler cfg homeClient in
      (fold (\<lambda>(e, h). RegisterEventHandler e h)
        [(UserRequestForSignature, HandleUserRequestForSignature G E p),
         (LegacyUserRequestForSignature, HandleLegacyUserRequestForSignature G E p),
         (SignedForUserRequest, HandleSignedForUserRequest E p),
         (CollectedSignatures, HandleCollectedSignatures E p),
         (SignedForAffirmation, HandleSignedForUserRequest E p),
         (AffirmationCompleted, HandleAffirmationCompleted E p),
         (LegacyAffirmationCompleted, HandleAffirmationCompleted E p),
         (UserRequestForInformation, HandleUserRequestForInformation E p),
         (SignedForInformation, HandleSignedForInformation E p),
         (InformationRetrieved, HandleInformationRetrieved E p),
         (ValidatorAdded, HandleValidatorAdded E p),
         (ValidatorRemoved, HandleValidatorRemoved E p)] [],
       fold (\<lambda>(e, h). RegisterEventHandler e h)
        [(UserRequestForAffirmation, HandleUserRequestForAffirmation G E p),
         (LegacyUserRequestForAffirmation, HandleLegacyUserRequestForAffirmation G E p),
         (RelayedMessage, HandleRelayedMessage E p),
         (LegacyRelayedMessage, HandleRelayedMessage E p),
         (ValidatorAdded, HandleValidatorAdded E p),
         (ValidatorRemoved, HandleValidatorRemoved E p)] []))"

definition registered :: "geth \<Rightarrow> env \<Rightarrow> BridgeConfig \<Rightarrow> node \<Rightarrow>
    (string \<times> handler) list \<times> (string \<times> handler) list" where
  "registered G E cfg homeClient =
     (case bc_BridgeMode cfg of
        BridgeModeErcToNative \<Rightarrow> RegisterErcToNativeEventHandlers G E cfg homeClient
      | BridgeModeArbitraryMessage \<Rightarrow> RegisterAMBEventHandlers G E cfg homeClient
      | OtherBridgeMode m \<Rightarrow> ([], []))"

definition VerifyEventHandlersABI :: "abi \<Rightarrow> (string \<times> handler) list \<Rightarrow> unit res" where
  "VerifyEventHandlersABI evs hs =
     (if list_all (\<lambda>(e, h). e \<in> set (AllEvents evs)) hs then Inr () else Inl (Err ErrIncompatibleABI))"

lemmas registered_defs = registered_def RegisterErcToNativeEventHandlers_def RegisterAMBEventHandlers_def
  RegisterEventHandler_def Let_def

section \<open>Handlers only add\<close>

lemma handlers_grow [intro, simp]:
  "keepsE grows (HandleUserRequestForAffirmation G E p log data)"
  "keepsE grows (HandleLegacyUserRequestForAffirmation G E p log data)"
  "keepsE grows (HandleErcToNativeTransfer G E p log data)"
  "keepsE grows (HandleErcToNativeUserRequestForAffirmation G E p log data)"
  "keepsE grows (HandleUserRequestForSignature G E p log data)"
  "keepsE grows (HandleLegacyUserRequestForSignature G E p log data)"
  "keepsE grows (HandleErcToNativeUserRequestForSignature G E p log data)"
  "keepsE grows (HandleSignedForUserRequest E p log data)"
  "keepsE grows (HandleErcToNativeSignedForAffirmation G E p log data)"
  "keepsE grows (HandleRelayedMessage E p log data)"
  "keepsE grows (HandleErcToNativeRelayedMessage G E p log data)"
  "keepsE grows (HandleAffirmationCompleted E p log data)"
  "keepsE grows (HandleErcToNativeAffirmationCompleted G E p log data)"
  "keepsE grows (HandleCollectedSignatures E p log data)"
  "keepsE grows (HandleUserRequestForInformation E p log data)"
  "keepsE grows (HandleSignedForInformation E p log data)"
  "keepsE grows (HandleInformationRetrieved E p log data)"
  "keepsE grows (HandleValidatorAdded E p log data)"
  "keepsE grows (HandleValidatorRemoved E p log data)"
  unfolding handler_defs
  by (auto simp: Let_def intro!: keepsE_grows_bindE keepsE_IgnoreErrNotFound split: option.split)

lemma registered_grow:
  assumes "map_of (fst (registered G E cfg N)) e = Some h \<or> map_of (snd (registered G E cfg N)) e = Some h"
  shows "keepsE grows (h log data)"
  using assms
  by (auto simp: registered_defs split: BridgeMode.splits if_splits)


section \<open>The row every event leaves\<close>

text \<open>
  The events by the table their handler writes to. The handlers of \<open>Transfer\<close> and
  \<open>ValidatorRemoved\<close> may find nothing to do.
\<close>

datatype event_row = SentRow | SignedRow | ExecutedRow | CollectedRow | RequestRow | SignedRequestRow |
  ExecutedRequestRow | ValidatorRow | NoRow

definition row_of_event :: "string \<Rightarrow> event_row" where
  "row_of_event event = (case map_of
     [(UserRequestForSignature, SentRow), (LegacyUserRequestForSignature, SentRow),
      (UserRequestForAffirmation, SentRow), (LegacyUserRequestForAffirmation, SentRow),
      (ErcToNativeUserRequestForSignature, SentRow), (ErcToNativeUserRequestForAffirmation, SentRow),
      (SignedForUserRequest, SignedRow), (SignedForAffirmation, SignedRow),
      (ErcToNativeSignedForAffirmation, SignedRow), (AffirmationCompleted, ExecutedRow),
      (LegacyAffirmationCompleted, ExecutedRow), (RelayedMessage, ExecutedRow),
      (LegacyRelayedMessage, ExecutedRow), (ErcToNativeRelayedMessage, ExecutedRow),
      (ErcToNativeAffirmationCompleted, ExecutedRow), (CollectedSignatures, CollectedRow),
      (UserRequestForInformation, RequestRow), (SignedForInformation, SignedRequestRow),
      (InformationRetrieved, ExecutedRequestRow), (ValidatorAdded, ValidatorRow)] event of
     Some r \<Rightarrow> r | None \<Rightarrow> NoRow)"

definition recorded :: "string \<Rightarrow> uint \<Rightarrow> database \<Rightarrow> bool" where
  "recorded event i d = (case row_of_event event of
       SentRow \<Rightarrow> has_key sm_LogID i (db_sent_messages d)
     | SignedRow \<Rightarrow> has_key sgm_LogID i (db_signed_messages d)
     | ExecutedRow \<Rightarrow> has_key em_LogID i (db_executed_messages d)
     | CollectedRow \<Rightarrow> has_key cm_LogID i (db_collected_messages d)
     | RequestRow \<Rightarrow> has_key sir_LogID i (db_sent_information_requests d)
     | SignedRequestRow \<Rightarrow> has_key sgir_LogID i (db_signed_information_requests d)
     | ExecutedRequestRow \<Rightarrow> has_key eir_LogID i (db_executed_information_requests d)
     | ValidatorRow \<Rightarrow> has_key bv_LogID i (db_bridge_validators d)
     | NoRow \<Rightarrow> True)"

lemma row_of_event_simps [simp]:
  "row_of_event UserRequestForSignature = SentRow" "row_of_event LegacyUserRequestForSignature = SentRow"
  "row_of_event UserRequestForAffirmation = SentRow" "row_of_event LegacyUserRequestForAffirmation = SentRow"
  "row_of_event ErcToNativeUserRequestForSignature = SentRow"
  "row_of_event ErcToNativeUserRequestForAffirmation = SentRow"
  "row_of_event SignedForUserRequest = SignedRow" "row_of_event SignedForAffirmation = SignedRow"
  "row_of_event ErcToNativeSignedForAffirmation = SignedRow"
  "row_of_event AffirmationCompleted = ExecutedRow" "row_of_event LegacyAffirmationCompleted = ExecutedRow"
  "row_of_event RelayedMessage = ExecutedRow" "row_of_event LegacyRelayedMessage = ExecutedRow"
  "row_of_event ErcToNativeRelayedMessage = ExecutedRow"
  "row_of_event ErcToNativeAffirmationCompleted = ExecutedRow"
  "row_of_event CollectedSignatures = CollectedRow" "row_of_event UserRequestForInformation = RequestRow"
  "row_of_event SignedForInformation = SignedRequestRow"
  "row_of_event InformationRetrieved = ExecutedRequestRow" "row_of_event ValidatorAdded = ValidatorRow"
  "row_of_event ValidatorRemoved = NoRow" "row_of_event ErcToNativeTransfer = NoRow"
  by code_simp+

text \<open>What is recorded stays recorded.\<close>

lemma validator_core_key: "validator_core v = validator_core w \<Longrightarrow> bv_LogID v = bv_LogID w"
  by (drule arg_cong [where f = bv_LogID]) (simp add: validator_core_def)

lemma recorded_mono: "recorded event i a \<Longrightarrow> db_le a b \<Longrightarrow> recorded event i b"
  unfolding recorded_def db_le_def
  by (cases "row_of_event event") (auto elim: tbl_le_key dest: validator_core_key)

lemma handlers_record:
  "HandleUserRequestForAffirmation G E p log data w = (Inr u, w') \<Longrightarrow> has_key sm_LogID (log_ID log) (db_sent_messages (w_db w'))"
  "HandleLegacyUserRequestForAffirmation G E p log data w = (Inr u, w') \<Longrightarrow> has_key sm_LogID (log_ID log) (db_sent_messages (w_db w'))"
  "HandleUserRequestForSignature G E p log data w = (Inr u, w') \<Longrightarrow> has_key sm_LogID (log_ID log) (db_sent_messages (w_db w'))"
  "HandleLegacyUserRequestForSignature G E p log data w = (Inr u, w') \<Longrightarrow> has_key sm_LogID (log_ID log) (db_sent_messages (w_db w'))"
  "HandleErcToNativeUserRequestForAffirmation G E p log data w = (Inr u, w') \<Longrightarrow> has_key sm_LogID (log_ID log) (db_sent_messages (w_db w'))"
  "HandleErcToNativeUserRequestForSignature G E p log data w = (Inr u, w') \<Longrightarrow> has_key sm_LogID (log_ID log) (db_sent_messages (w_db w'))"
  "HandleSignedForUserRequest E p log data w = (Inr u, w') \<Longrightarrow> has_key sgm_LogID (log_ID log) (db_signed_messages (w_db w'))"
  "HandleErcToNativeSignedForAffirmation G E p log data w = (Inr u, w') \<Longrightarrow> has_key sgm_LogID (log_ID log) (db_signed_messages (w_db w'))"
  "HandleRelayedMessage E p log data w = (Inr u, w') \<Longrightarrow> has_key em_LogID (log_ID log) (db_executed_messages (w_db w'))"
  "HandleErcToNativeRelayedMessage G E p log data w = (Inr u, w') \<Longrightarrow> has_key em_LogID (log_ID log) (db_executed_messages (w_db w'))"
  "HandleAffirmationCompleted E p log data w = (Inr u, w') \<Longrightarrow> has_key em_LogID (log_ID log) (db_executed_messages (w_db w'))"
  "HandleErcToNativeAffirmationCompleted G E p log data w = (Inr u, w') \<Longrightarrow> has_key em_LogID (log_ID log) (db_executed_messages (w_db w'))"
  "HandleCollectedSignatures E p log data w = (Inr u, w') \<Longrightarrow> has_key cm_LogID (log_ID log) (db_collected_messages (w_db w'))"
  "HandleUserRequestForInformation E p log data w = (Inr u, w') \<Longrightarrow> has_key sir_LogID (log_ID log) (db_sent_information_requests (w_db w'))"
  "HandleSignedForInformation E p log data w = (Inr u, w') \<Longrightarrow> has_key sgir_LogID (log_ID log) (db_signed_information_requests (w_db w'))"
  "HandleInformationRetrieved E p log data w = (Inr u, w') \<Longrightarrow> has_key eir_LogID (log_ID log) (db_executed_information_requests (w_db w'))"
  "HandleValidatorAdded E p log data w = (Inr u, w') \<Longrightarrow> has_key bv_LogID (log_ID log) (db_bridge_validators (w_db w'))"
  unfolding handler_defs Let_def
  by (auto simp: bindE_Inr_iff dest: SentMessages_Ensure_Inr(3) SignedMessages_Ensure_Inr(3)
      ExecutedMessages_Ensure_Inr(3) CollectedMessages_Ensure_Inr(3) SentInformationRequests_Ensure_Inr(3)
      SignedInformationRequests_Ensure_Inr(3) ExecutedInformationRequests_Ensure_Inr(3)
      BridgeValidators_Ensure_Inr(3))

definition records :: "string \<Rightarrow> handler \<Rightarrow> bool" where
  "records e h \<longleftrightarrow> (\<forall>log data w u w'. h log data w = (Inr u, w') \<longrightarrow> recorded e (log_ID log) (w_db w'))"

lemma registered_records:
  "\<forall>(e, h) \<in> set (fst (registered G E cfg N)) \<union> set (snd (registered G E cfg N)). records e h"
  by (cases "bc_BridgeMode cfg"; simp add: registered_defs records_def recorded_def handlers_record)

lemma registered_record:
  assumes "map_of (fst (registered G E cfg N)) e = Some h \<or> map_of (snd (registered G E cfg N)) e = Some h"
    and "h log data w = (Inr u, w')"
  shows "recorded e (log_ID log) (w_db w')"
proof -
  have "records e h"
    using assms(1) registered_records [of G E cfg N] by (auto dest!: map_of_SomeD)
  with assms(2) show ?thesis by (auto simp: records_def)
qed

section \<open>Verification against the ABI, and the types of the arguments\<close>

lemma registered_in_abi:
  "VerifyEventHandlersABI (getBridgeABI G (bc_BridgeMode cfg)) (fst (registered G E cfg N)) = Inr ()"
  "VerifyEventHandlersABI (getBridgeABI G (bc_BridgeMode cfg)) (snd (registered G E cfg N)) = Inr ()"
  by (cases "bc_BridgeMode cfg"; simp add: VerifyEventHandlersABI_def registered_defs AllEvents_def
      getBridgeABI_def ErcToNativeABI_def ArbitraryMessageABI_def mk_event_def ev_String_def arg_String_def
      event_names)+

end
