(* ===== verification/HandlerTypes.thy ===== *)
theory HandlerTypes
  imports Handlers
begin

text \<open>
  The failures of the event handlers of \<open>monitor/handlers.go\<close>. A handler asserts the Go types of
  the arguments it reads; the two ABI files declare those arguments with matching types, so for a
  decoded event the assertions hold, and a registered handler fails only on the database, on the node, or
  on bytes that the decoders of \<open>monitor/decoders.go\<close> cannot read.
\<close>

section \<open>Failures of calls\<close>

text \<open>\<open>node_documented\<close>: a node's failed call is an RPC error.\<close>

definition node_documented :: "node \<Rightarrow> bool" where
  "node_documented N \<longleftrightarrow>
     (\<forall>t h f. node_TransactionByHash N t h = Inl f \<longrightarrow> f = Err ErrRPC) \<and>
     (\<forall>tx f. node_Sender N tx = Inl f \<longrightarrow> f = Err ErrCrypto)"

definition fails_in :: "failure set \<Rightarrow> ('s, 'a) io \<Rightarrow> bool" where
  "fails_in S m \<longleftrightarrow> (\<forall>w f. fst (m w) = Inl f \<longrightarrow> f \<in> S)"

lemma fails_in_mono: "fails_in S m \<Longrightarrow> S \<subseteq> T \<Longrightarrow> fails_in T m"
  by (auto simp: fails_in_def)

lemma fails_in_bindE:
  assumes "fails_in S m" and "\<And>a. fails_in S (f a)"
  shows "fails_in S (bindE m f)"
  unfolding fails_in_def
proof (intro allI impI)
  fix w e
  assume e: "fst (bindE m f w) = Inl e"
  obtain r w' where mw: "m w = (r, w')" by (cases "m w")
  show "e \<in> S"
  proof (cases r)
    case (Inl x)
    with mw e have "fst (m w) = Inl e" by (simp add: bindE_apply)
    with assms(1) show ?thesis by (auto simp: fails_in_def)
  next
    case (Inr a)
    with mw e have "fst (f a w') = Inl e" by (simp add: bindE_apply)
    with assms(2) show ?thesis by (auto simp: fails_in_def)
  qed
qed

lemma fails_in_liftE: "(\<And>f. r = Inl f \<Longrightarrow> f \<in> S) \<Longrightarrow> fails_in S (liftE r)"
  by (simp add: fails_in_def)

lemma fails_in_liftE_Inr: "fails_in S (liftE (Inr a))"
  by (simp add: fails_in_def)

lemma fails_in_returnE: "fails_in S (returnE a)"
  by (simp add: fails_in_def)

text \<open>A database call fails with a database error, a refused row, or a missing row.\<close>

definition db_failures :: "failure set" where
  "db_failures = {Err ErrDB, Err ErrConstraint}"

definition handler_failures :: "failure set" where
  "handler_failures = {Err ErrDB, Err ErrConstraint, Err ErrRPC, Err ErrCrypto, Panic}"

lemma fails_in_ensure: "fails_in db_failures (db_exec E (\<lambda>now d. ensure_stmt put (r now d) d))"
  by (auto simp: fails_in_def db_failures_def db_exec_def Let_def ensure_stmt_def
      split: prod.splits db_fault.splits option.splits)

lemma fails_in_ensures:
  "fails_in db_failures (Messages_Ensure E a1)" "fails_in db_failures (ErcToNativeMessages_Ensure E a2)"
  "fails_in db_failures (SentMessages_Ensure E a3)" "fails_in db_failures (SignedMessages_Ensure E a4)"
  "fails_in db_failures (CollectedMessages_Ensure E a5)" "fails_in db_failures (ExecutedMessages_Ensure E a6)"
  "fails_in db_failures (InformationRequests_Ensure E a7)"
  "fails_in db_failures (SentInformationRequests_Ensure E a8)"
  "fails_in db_failures (SignedInformationRequests_Ensure E a9)"
  "fails_in db_failures (ExecutedInformationRequests_Ensure E a10)"
  "fails_in db_failures (BridgeValidators_Ensure E a11)" "fails_in db_failures (LogsCursors_Ensure E a12)"
  "fails_in db_failures (BlockTimestamps_Ensure E a13)"
  unfolding Messages_Ensure_def ErcToNativeMessages_Ensure_def SentMessages_Ensure_def
    SignedMessages_Ensure_def CollectedMessages_Ensure_def ExecutedMessages_Ensure_def
    InformationRequests_Ensure_def SentInformationRequests_Ensure_def SignedInformationRequests_Ensure_def
    ExecutedInformationRequests_Ensure_def BridgeValidators_Ensure_def LogsCursors_Ensure_def
    BlockTimestamps_Ensure_def
  by (rule fails_in_ensure)+

lemma handler_fails_ensures:
  "fails_in db_failures m \<Longrightarrow> fails_in handler_failures m"
  by (erule fails_in_mono) (auto simp: db_failures_def handler_failures_def)

lemma handler_fails_find: "fails_in handler_failures (Logs_Find E f)"
  by (auto simp: fails_in_def handler_failures_def Logs_Find_def db_query_def db_exec_def Let_def
      split: db_fault.splits if_splits)

lemma handler_fails_active:
  "fails_in handler_failures (IgnoreErrNotFound (BridgeValidators_GetActiveValidator E b c a))"
  by (auto simp: fails_in_def handler_failures_def IgnoreErrNotFound_def BridgeValidators_GetActiveValidator_def
      db_query_def db_exec_def Let_def first_row_def split: db_fault.splits list.splits)

lemma handler_fails_tx: "node_documented N \<Longrightarrow> fails_in handler_failures (TransactionByHash N h)"
  by (auto simp: fails_in_def handler_failures_def TransactionByHash_def rpc_def node_documented_def)

lemma unmarshal_fails:
  "unmarshalMessage G b d bs = Inl f \<Longrightarrow> f = Panic"
  "unmarshalLegacyMessage G b d bs = Inl f \<Longrightarrow> f = Panic"
  by (auto simp: unmarshalMessage_def unmarshalLegacyMessage_def slice_cases slice_from_def index_at_def
      be_uint32_def Let_def res_bind_def split: if_splits sum.splits)

lemma transfer_sender_fails: "transfer_sender G v s logs = Inl f \<Longrightarrow> f = Panic"
  by (induction G v s logs rule: transfer_sender.induct) (auto split: if_splits option.splits)

lemma lift_fails:
  "fails_in handler_failures (liftE (unmarshalMessage G b d bs))"
  "fails_in handler_failures (liftE (unmarshalLegacyMessage G b d bs))"
  "fails_in handler_failures (liftE (unmarshalConfirmInformationResult bs))"
  "fails_in handler_failures (liftE (transfer_sender G v s logs))"
  "fails_in handler_failures (liftE (slice_from bs n))"
  by (rule fails_in_liftE; auto simp: handler_failures_def slice_from_def slice_def
      dest: unmarshal_fails transfer_sender_fails unmarshalConfirmInformationResult_not_Err split: if_splits)+

lemma sender_fails:
  "node_documented N \<Longrightarrow>
     fails_in handler_failures (liftE (if tx_Value tx = v then TransactionSender N tx else Inr r))"
  by (rule fails_in_liftE) (auto simp: handler_failures_def TransactionSender_def node_documented_def split: if_splits)

text \<open>
  The arguments each handler asserts the types of; every event of the two ABI files declares the
  arguments of its handler with these types.
\<close>

definition required_args :: "string \<Rightarrow> (string \<times> string) list" where
  "required_args event = (case map_of
     [(UserRequestForSignature, [(''encodedData'', ''bytes'')]),
      (LegacyUserRequestForSignature, [(''encodedData'', ''bytes'')]),
      (UserRequestForAffirmation, [(''encodedData'', ''bytes'')]),
      (LegacyUserRequestForAffirmation, [(''encodedData'', ''bytes'')]),
      (ErcToNativeTransfer, [(''from'', ''address''), (''value'', ''uint256'')]),
      (ErcToNativeUserRequestForSignature, [(''recipient'', ''address''), (''value'', ''uint256'')]),
      (ErcToNativeUserRequestForAffirmation, [(''recipient'', ''address''), (''value'', ''uint256'')]),
      (SignedForUserRequest, [(''messageHash'', ''bytes32''), (''signer'', ''address'')]),
      (SignedForAffirmation, [(''messageHash'', ''bytes32''), (''signer'', ''address'')]),
      (ErcToNativeSignedForAffirmation, [(''signer'', ''address'')]),
      (AffirmationCompleted, [(''messageId'', ''bytes32''), (''status'', ''bool'')]),
      (LegacyAffirmationCompleted, [(''messageId'', ''bytes32''), (''status'', ''bool'')]),
      (RelayedMessage, [(''messageId'', ''bytes32''), (''status'', ''bool'')]),
      (LegacyRelayedMessage, [(''messageId'', ''bytes32''), (''status'', ''bool'')]),
      (ErcToNativeRelayedMessage,
        [(''recipient'', ''address''), (''value'', ''uint256''), (''transactionHash'', ''bytes32'')]),
      (ErcToNativeAffirmationCompleted,
        [(''recipient'', ''address''), (''value'', ''uint256''), (''transactionHash'', ''bytes32'')]),
      (CollectedSignatures, [(''messageHash'', ''bytes32''), (''authorityResponsibleForRelay'', ''address''),
        (''NumberOfCollectedSignatures'', ''uint256'')]),
      (UserRequestForInformation, [(''messageId'', ''bytes32''), (''requestSelector'', ''bytes32''),
        (''sender'', ''address''), (''data'', ''bytes'')]),
      (SignedForInformation, [(''messageId'', ''bytes32''), (''signer'', ''address'')]),
      (InformationRetrieved, [(''messageId'', ''bytes32''), (''status'', ''bool''), (''callbackStatus'', ''bool'')]),
      (ValidatorAdded, [(''validator'', ''address'')]), (ValidatorRemoved, [(''validator'', ''address'')])] event of
     Some r \<Rightarrow> r | None \<Rightarrow> [])"

lemma required_args_simps [simp]:
  "required_args UserRequestForSignature = [(''encodedData'', ''bytes'')]"
  "required_args LegacyUserRequestForSignature = [(''encodedData'', ''bytes'')]"
  "required_args UserRequestForAffirmation = [(''encodedData'', ''bytes'')]"
  "required_args LegacyUserRequestForAffirmation = [(''encodedData'', ''bytes'')]"
  "required_args ErcToNativeTransfer = [(''from'', ''address''), (''value'', ''uint256'')]"
  "required_args ErcToNativeUserRequestForSignature = [(''recipient'', ''address''), (''value'', ''uint256'')]"
  "required_args ErcToNativeUserRequestForAffirmation = [(''recipient'', ''address''), (''value'', ''uint256'')]"
  "required_args SignedForUserRequest = [(''messageHash'', ''bytes32''), (''signer'', ''address'')]"
  "required_args SignedForAffirmation = [(''messageHash'', ''bytes32''), (''signer'', ''address'')]"
  "required_args ErcToNativeSignedForAffirmation = [(''signer'', ''address'')]"
  "required_args AffirmationCompleted = [(''messageId'', ''bytes32''), (''status'', ''bool'')]"
  "required_args LegacyAffirmationCompleted = [(''messageId'', ''bytes32''), (''status'', ''bool'')]"
  "required_args RelayedMessage = [(''messageId'', ''bytes32''), (''status'', ''bool'')]"
  "required_args LegacyRelayedMessage = [(''messageId'', ''bytes32''), (''status'', ''bool'')]"
  "required_args ErcToNativeRelayedMessage =
     [(''recipient'', ''address''), (''value'', ''uint256''), (''transactionHash'', ''bytes32'')]"
  "required_args ErcToNativeAffirmationCompleted =
     [(''recipient'', ''address''), (''value'', ''uint256''), (''transactionHash'', ''bytes32'')]"
  "required_args CollectedSignatures = [(''messageHash'', ''bytes32''),
     (''authorityResponsibleForRelay'', ''address''), (''NumberOfCollectedSignatures'', ''uint256'')]"
  "required_args UserRequestForInformation = [(''messageId'', ''bytes32''), (''requestSelector'', ''bytes32''),
     (''sender'', ''address''), (''data'', ''bytes'')]"
  "required_args SignedForInformation = [(''messageId'', ''bytes32''), (''signer'', ''address'')]"
  "required_args InformationRetrieved =
     [(''messageId'', ''bytes32''), (''status'', ''bool''), (''callbackStatus'', ''bool'')]"
  "required_args ValidatorAdded = [(''validator'', ''address'')]"
  "required_args ValidatorRemoved = [(''validator'', ''address'')]"
  by code_simp+

definition declares :: "Event \<Rightarrow> bool" where
  "declares e \<longleftrightarrow> list_all (\<lambda>r. list_ex (\<lambda>a. (arg_Name a, arg_Type a) = r) (ev_Inputs e))
     (required_args (ev_String e))"

lemma bridge_events_declare: "list_all declares (getBridgeABI G mode)"
proof -
  have "list_all declares (ErcToNativeABI G)" by code_simp
  moreover have "list_all declares (ArbitraryMessageABI G)" by code_simp
  ultimately show ?thesis by (simp add: getBridgeABI_def)
qed

definition passes :: "event_data \<Rightarrow> (string \<times> string) list \<Rightarrow> bool" where
  "passes data reqs \<longleftrightarrow> list_all (\<lambda>(n, ty). \<exists>v. map_of data n = Some v \<and> has_type ty v) reqs"

lemma declared_passes:
  "declares e \<Longrightarrow> typed_map (ev_Inputs e) data \<Longrightarrow> passes data (required_args (ev_String e))"
  by (fastforce simp: declares_def typed_map_def passes_def list_all_iff list_ex_iff)

text \<open>
  A handler given such arguments ends well or fails for a reason outside the event: the database,
  the node, or bytes the decoders cannot read.
\<close>

definition well_typed_handler :: "string \<Rightarrow> handler \<Rightarrow> bool" where
  "well_typed_handler event h \<longleftrightarrow>
     (\<forall>log data. passes data (required_args event) \<longrightarrow> fails_in handler_failures (h log data))"

lemmas fails_intros = fails_in_bindE fails_in_returnE fails_in_ensures [THEN handler_fails_ensures]
  handler_fails_find handler_fails_active handler_fails_tx lift_fails sender_fails fails_in_liftE_Inr

lemma passes_simps:
  "passes data ((n, ''bytes'') # rs) \<longleftrightarrow> (\<exists>b. as_bytes data n = Inr b) \<and> passes data rs"
  "passes data ((n, ''bytes32'') # rs) \<longleftrightarrow> (\<exists>b. as_bytes32 data n = Inr b) \<and> passes data rs"
  "passes data ((n, ''address'') # rs) \<longleftrightarrow> (\<exists>b. as_address data n = Inr b) \<and> passes data rs"
  "passes data ((n, ''bool'') # rs) \<longleftrightarrow> (\<exists>b. as_bool data n = Inr b) \<and> passes data rs"
  "passes data ((n, ''uint256'') # rs) \<Longrightarrow> (\<exists>v. as_big data n = Inr v) \<and> passes data rs"
  by (auto simp: passes_def has_type_def as_defs split: option.splits abi_value.splits)

lemma registered_well_typed:
  assumes N: "node_documented N"
  shows "\<forall>(e, h) \<in> set (fst (registered G E cfg N)) \<union> set (snd (registered G E cfg N)). well_typed_handler e h"
  by (cases "bc_BridgeMode cfg"; simp add: registered_defs well_typed_handler_def)
    (auto simp: handler_defs NewBridgeEventHandler_def passes_simps(1-4) Let_def dest!: passes_simps(5)
      intro!: fails_intros N split: option.split)

end
