(* ===== verification/Ledger.thy ===== *)
theory Ledger
  imports Handlers
begin

text \<open>
  What the database is for: an abstract ledger of one AMB bridge, the messages that were sent and the
  identifiers that were executed, and the multiset of its active validators on a chain. The handlers of
  \<open>monitor/handlers.go\<close> refine the operations on the ledger, and the query for pending messages
  of \<open>repository/postgres/messages.go\<close> computes the abstract set. The same for the ERC to native
  mode: the identifiers computed on the two sides of the bridge agree.
\<close>

section \<open>Messages\<close>

record ledger =
  lg_sent :: "hash \<Rightarrow> Message option"
  lg_executed :: "hash set"

definition ledger_of :: "string \<Rightarrow> database \<Rightarrow> ledger" where
  "ledger_of b d = \<lparr>lg_sent = (\<lambda>h. lookup msg_key (db_messages d) (b, h)),
     lg_executed = em_MessageID ` {e \<in> set (vals (db_executed_messages d)). em_BridgeID e = b}\<rparr>"

lemma ledger_of_executed: "ledger_of b d = \<lparr>lg_sent = (\<lambda>h. lookup msg_key (db_messages d) (b, h)),
     lg_executed = {i. executed d b i}\<rparr>"
  by (auto simp: ledger_of_def executed_iff)

text \<open>A message is kept as it was first seen.\<close>

definition ledger_send :: "Message \<Rightarrow> ledger \<Rightarrow> ledger" where
  "ledger_send m L = (case lg_sent L (msg_MsgHash m) of
     None \<Rightarrow> L\<lparr>lg_sent := (lg_sent L)(msg_MsgHash m \<mapsto> m)\<rparr> | Some _ \<Rightarrow> L)"

definition ledger_execute :: "hash \<Rightarrow> ledger \<Rightarrow> ledger" where
  "ledger_execute i L = L\<lparr>lg_executed := insert i (lg_executed L)\<rparr>"

definition ledger_pending :: "ledger \<Rightarrow> Message set" where
  "ledger_pending L = {m \<in> ran (lg_sent L). msg_MessageID m \<notin> lg_executed L}"

lemma unmarshalMessage_BridgeID: "unmarshalMessage G b dir bs = Inr m \<Longrightarrow> msg_BridgeID m = b"
  by (auto simp: unmarshalMessage_def Let_def res_bind_Inr_iff split: if_splits)

lemma unmarshalLegacyMessage_BridgeID: "unmarshalLegacyMessage G b dir bs = Inr m \<Longrightarrow> msg_BridgeID m = b"
  by (auto simp: unmarshalLegacyMessage_def res_bind_Inr_iff split: if_splits)

lemma ledger_ensure:
  assumes "Messages_Ensure E m w = (Inr u, w1)" and "msg_BridgeID m = b"
  shows "ledger_of b (w_db w1) = ledger_send m (ledger_of b (w_db w))"
proof -
  note eff = Messages_Ensure_Inr [OF assms(1)]
  have "executed (w_db w1) = executed (w_db w)"
    by (subst eff(1)) (simp add: executed_def fun_eq_iff)
  moreover have "(\<lambda>h. lookup msg_key (db_messages (w_db w1)) (b, h)) =
      lg_sent (ledger_send m (ledger_of b (w_db w)))"
    using assms(2)
    by (auto simp: eff(2) ledger_send_def ledger_of_executed msg_key_def keep_row_def fun_eq_iff split: option.split)
  ultimately show ?thesis
    by (auto simp: ledger_of_executed ledger_send_def split: option.split)
qed

lemma ledger_other:
  "w_db w1 = (w_db w)\<lparr>db_sent_messages := x\<rparr> \<Longrightarrow> ledger_of b (w_db w1) = ledger_of b (w_db w)"
  by (simp add: ledger_of_executed executed_def)

text \<open>The four handlers of requests that carry a message do the same to the ledger.\<close>

lemma send_steps:
  assumes "bindE (Messages_Ensure E m) (\<lambda>_. SentMessages_Ensure E s) w = (Inr u, w2)" and "msg_BridgeID m = b"
  shows "ledger_of b (w_db w2) = ledger_send m (ledger_of b (w_db w))"
proof -
  from assms(1) obtain v w1 where 1: "Messages_Ensure E m w = (Inr v, w1)"
    and 2: "SentMessages_Ensure E s w1 = (Inr u, w2)"
    by (rule bindE_InrE)
  from SentMessages_Ensure_Inr(1) [OF 2] have "ledger_of b (w_db w2) = ledger_of b (w_db w1)"
    by (rule ledger_other)
  with ledger_ensure [OF 1 assms(2)] show ?thesis by simp
qed

lemma ledger_send_handlers:
  "HandleUserRequestForSignature G E p log data w = (Inr u, w') \<Longrightarrow>
     \<exists>enc m. as_bytes data ''encodedData'' = Inr enc
       \<and> unmarshalMessage G (beh_bridgeID p) DirectionHomeToForeign enc = Inr m
       \<and> ledger_of (beh_bridgeID p) (w_db w') = ledger_send m (ledger_of (beh_bridgeID p) (w_db w))"
  "HandleUserRequestForAffirmation G E p log data w = (Inr u, w') \<Longrightarrow>
     \<exists>enc m. as_bytes data ''encodedData'' = Inr enc
       \<and> unmarshalMessage G (beh_bridgeID p) DirectionForeignToHome enc = Inr m
       \<and> ledger_of (beh_bridgeID p) (w_db w') = ledger_send m (ledger_of (beh_bridgeID p) (w_db w))"
  "HandleLegacyUserRequestForSignature G E p log data w = (Inr u, w') \<Longrightarrow>
     \<exists>enc m. as_bytes data ''encodedData'' = Inr enc
       \<and> unmarshalLegacyMessage G (beh_bridgeID p) DirectionHomeToForeign
           (hash_bytes (log_TransactionHash log) @ enc) = Inr m
       \<and> ledger_of (beh_bridgeID p) (w_db w') = ledger_send m (ledger_of (beh_bridgeID p) (w_db w))"
  "HandleLegacyUserRequestForAffirmation G E p log data w = (Inr u, w') \<Longrightarrow>
     \<exists>enc m. as_bytes data ''encodedData'' = Inr enc
       \<and> unmarshalLegacyMessage G (beh_bridgeID p) DirectionForeignToHome
           (hash_bytes (log_TransactionHash log) @ enc) = Inr m
       \<and> ledger_of (beh_bridgeID p) (w_db w') = ledger_send m (ledger_of (beh_bridgeID p) (w_db w))"
  unfolding handler_defs Let_def
  by (auto simp: bindE_liftE_Inr dest: send_steps unmarshalMessage_BridgeID unmarshalLegacyMessage_BridgeID)

text \<open>An execution whose log has no row yet.\<close>

lemma executed_upsert:
  assumes "ExecutedMessages_Ensure E m w = (Inr u, w')"
    and "\<not> has_key em_LogID (em_LogID m) (db_executed_messages (w_db w))"
  shows "executed (w_db w') b i \<longleftrightarrow> executed (w_db w) b i \<or> (em_BridgeID m = b \<and> em_MessageID m = i)"
proof -
  from assms(1) obtain rows where "ensure_row em_LogID keep_row (\<lambda>m. True) (\<lambda>m. log_exists (w_db w) (em_LogID m))
      (\<lambda>m. True) (env_clock E (w_tick w)) m (db_executed_messages (w_db w)) = Some rows"
    and w': "w_db w' = (w_db w)\<lparr>db_executed_messages := rows\<rparr>"
    by (auto simp: ExecutedMessages_Ensure_def db_exec_Inr ensure_stmt_Inr)
  then have "vals rows = vals (db_executed_messages (w_db w)) @ [m]"
    using assms(2) by (auto simp: ensure_row_Some executed_tbl.vals_upsert has_key_iff)
  with w' show ?thesis
    by (auto simp: executed_def)
qed

lemma ledger_execute_ensure:
  assumes "ExecutedMessages_Ensure E m w = (Inr u, w')"
    and "\<not> has_key em_LogID (em_LogID m) (db_executed_messages (w_db w))" and "em_BridgeID m = b"
  shows "ledger_of b (w_db w') = ledger_execute (em_MessageID m) (ledger_of b (w_db w))"
proof -
  have "db_messages (w_db w') = db_messages (w_db w)"
    by (subst ExecutedMessages_Ensure_Inr(1) [OF assms(1)]) simp
  with executed_upsert [OF assms(1,2)] assms(3) show ?thesis
    by (auto simp: ledger_of_executed ledger_execute_def)
qed

lemma ledger_execute_handlers:
  assumes "\<not> has_key em_LogID (log_ID log) (db_executed_messages (w_db w))"
  shows "HandleRelayedMessage E p log data w = (Inr u, w') \<Longrightarrow>
     \<exists>i. as_bytes32 data ''messageId'' = Inr i
       \<and> ledger_of (beh_bridgeID p) (w_db w') = ledger_execute i (ledger_of (beh_bridgeID p) (w_db w))"
    and "HandleAffirmationCompleted E p log data w = (Inr u, w') \<Longrightarrow>
     \<exists>i. as_bytes32 data ''messageId'' = Inr i
       \<and> ledger_of (beh_bridgeID p) (w_db w') = ledger_execute i (ledger_of (beh_bridgeID p) (w_db w))"
  using assms unfolding handler_defs
  by (auto simp: bindE_liftE_Inr dest: ledger_execute_ensure)

text \<open>The query computes the abstract set of pending messages.\<close>

lemma ran_lookup:
  assumes "distinct (map msg_key (vals rows))"
  shows "ran (\<lambda>h. lookup msg_key rows (b, h)) = {m \<in> set (vals rows). msg_BridgeID m = b}"
proof (intro set_eqI iffI)
  fix m assume "m \<in> ran (\<lambda>h. lookup msg_key rows (b, h))"
  then obtain h where "lookup msg_key rows (b, h) = Some m" by (auto simp: ran_def)
  from lookup_in [OF this] show "m \<in> {m \<in> set (vals rows). msg_BridgeID m = b}"
    by (simp add: msg_key_def)
next
  fix m assume "m \<in> {m \<in> set (vals rows). msg_BridgeID m = b}"
  then have "lookup msg_key rows (b, msg_MsgHash m) = Some m"
    using lookup_unique [OF assms, of m] by (simp add: msg_key_def)
  then show "m \<in> ran (\<lambda>h. lookup msg_key rows (b, h))" by (auto simp: ran_def)
qed

lemma ledger_pending_query:
  assumes "db_inv (w_db w)" and "Messages_FindPendingMessages E b w = (Inr ms, w')"
  shows "set ms = ledger_pending (ledger_of b (w_db w))"
  using assms pending_iff [OF assms(2)] ran_lookup [of "db_messages (w_db w)" b]
  by (auto simp: ledger_pending_def ledger_of_executed db_inv_def keys_inv_def)

lemma pending_query_distinct:
  assumes "db_inv (w_db w)" and "Messages_FindPendingMessages E b w = (Inr ms, w')"
  shows "distinct ms"
proof -
  let ?rows = "filter (\<lambda>r. msg_BridgeID (r_val r) = b \<and> \<not> executed (w_db w) (msg_BridgeID (r_val r)) (msg_MessageID (r_val r)))
    (db_messages (w_db w))"
  have ms: "ms = map r_val (sort_key r_created ?rows)"
    using assms(2) by (simp add: Messages_FindPendingMessages_def db_query_Inr)
  have "distinct (map msg_key (map r_val (db_messages (w_db w))))"
    using assms(1) by (simp add: db_inv_def keys_inv_def vals_def)
  then have "distinct (map r_val (db_messages (w_db w)))" by (rule conjunct1 [OF iffD1 [OF distinct_map]])
  then have "distinct (map r_val ?rows)" by (rule distinct_map_filter)
  moreover have "mset ms = mset (map r_val ?rows)" unfolding ms by simp
  ultimately show ?thesis using mset_eq_imp_distinct_iff [of ms "map r_val ?rows"] by blast
qed

text \<open>Executing again, from a log that has its row.\<close>

lemma ledger_execute_again:
  assumes "ExecutedMessages_Ensure E m w = (Inr u, w')"
    and "has_key em_LogID (em_LogID m) (db_executed_messages (w_db w))"
  shows "ledger_of b (w_db w') = ledger_of b (w_db w)"
proof -
  from assms(1) obtain rows where rows: "ensure_row em_LogID keep_row (\<lambda>m. True) (\<lambda>m. log_exists (w_db w) (em_LogID m))
      (\<lambda>m. True) (env_clock E (w_tick w)) m (db_executed_messages (w_db w)) = Some rows"
    and w': "w_db w' = (w_db w)\<lparr>db_executed_messages := rows\<rparr>"
    by (auto simp: ExecutedMessages_Ensure_def db_exec_Inr ensure_stmt_Inr)
  have "vals rows = vals (db_executed_messages (w_db w))"
    using rows assms(2) by (auto simp: ensure_row_Some executed_tbl.vals_upsert has_key_iff keep_row_def map_idI)
  with w' show ?thesis by (simp add: ledger_of_def)
qed

lemma ledger_again_handlers:
  assumes "has_key em_LogID (log_ID log) (db_executed_messages (w_db w))"
  shows "HandleRelayedMessage E p log data w = (Inr u, w') \<Longrightarrow> ledger_of b (w_db w') = ledger_of b (w_db w)"
    and "HandleAffirmationCompleted E p log data w = (Inr u, w') \<Longrightarrow> ledger_of b (w_db w') = ledger_of b (w_db w)"
  using assms unfolding handler_defs
  by (auto simp: bindE_liftE_Inr dest: ledger_execute_again)

text \<open>A message that was executed does not come back.\<close>

lemma executed_mono: "executed a b i \<Longrightarrow> db_le a c \<Longrightarrow> executed c b i"
  by (auto simp: executed_iff db_le_def dest: tbl_le_idD)

section \<open>Identifiers of ERC to native messages\<close>

text \<open>
  The bytes whose hash identifies a transfer: recipient, value, hash of the requesting transaction, and,
  from the home chain, the address of the foreign bridge.
\<close>

definition erc_msg :: "geth \<Rightarrow> address \<Rightarrow> int \<Rightarrow> hash \<Rightarrow> byte list" where
  "erc_msg G recipient val txHash = address_bytes recipient @ hash_bytes (BigToHash G val) @ hash_bytes txHash"

lemma erc_msg_inject:
  assumes "geth_documented G" and "0 \<le> v" "v < 2 ^ 256" "0 \<le> v'" "v' < 2 ^ 256"
  shows "erc_msg G r v t @ rest = erc_msg G r' v' t' @ rest' \<longleftrightarrow> r = r' \<and> v = v' \<and> t = t' \<and> rest = rest'"
proof -
  have "(word_of_int v :: hash) = word_of_int v' \<longleftrightarrow> v = v'"
  proof
    assume "(word_of_int v :: hash) = word_of_int v'"
    then have "take_bit 256 v = take_bit 256 v'" by (simp add: word_of_int_eq_iff)
    then show "v = v'" using assms(2-5) by (simp add: take_bit_eq_mod)
  qed simp
  then show ?thesis
    using assms by (auto simp: erc_msg_def geth_documentedD)
qed

definition erc_foreign_id :: "geth \<Rightarrow> address \<Rightarrow> int \<Rightarrow> hash \<Rightarrow> hash" where
  "erc_foreign_id G r v t = Keccak256Hash G (erc_msg G r v t)"

definition erc_home_id :: "geth \<Rightarrow> address \<Rightarrow> address \<Rightarrow> int \<Rightarrow> hash \<Rightarrow> hash" where
  "erc_home_id G bridge r v t = Keccak256Hash G (erc_msg G r v t @ address_bytes bridge)"

lemma erc_send_steps:
  assumes "bindE (ErcToNativeMessages_Ensure E m) (\<lambda>_. SentMessages_Ensure E s) w = (Inr u, w2)"
  shows "has_key erc_key (erc_key m) (db_erc_to_native_messages (w_db w2))"
proof -
  from assms obtain v w1 where 1: "ErcToNativeMessages_Ensure E m w = (Inr v, w1)"
    and 2: "SentMessages_Ensure E s w1 = (Inr u, w2)"
    by (rule bindE_InrE)
  have "db_erc_to_native_messages (w_db w2) = db_erc_to_native_messages (w_db w1)"
    by (subst SentMessages_Ensure_Inr(1) [OF 2]) simp
  with ErcToNativeMessages_Ensure_Inr(3) [OF 1] show ?thesis by simp
qed

lemma erc_request_stored:
  "HandleErcToNativeUserRequestForSignature G E p log data w = (Inr u, w') \<Longrightarrow>
     as_address data ''recipient'' = Inr r \<Longrightarrow> as_big data ''value'' = Inr v \<Longrightarrow>
     has_key erc_key (beh_bridgeID p,
       erc_home_id G (bs_Address (bc_Foreign (beh_cfg p))) r v (log_TransactionHash log))
       (db_erc_to_native_messages (w_db w'))"
  "HandleErcToNativeUserRequestForAffirmation G E p log data w = (Inr u, w') \<Longrightarrow>
     as_address data ''recipient'' = Inr r \<Longrightarrow> as_big data ''value'' = Inr v \<Longrightarrow>
     has_key erc_key (beh_bridgeID p, erc_foreign_id G r v (log_TransactionHash log))
       (db_erc_to_native_messages (w_db w'))"
proof -
  assume h: "HandleErcToNativeUserRequestForSignature G E p log data w = (Inr u, w')"
    and args: "as_address data ''recipient'' = Inr r" "as_big data ''value'' = Inr v"
  let ?msg = "erc_msg G r v (log_TransactionHash log) @ address_bytes (bs_Address (bc_Foreign (beh_cfg p)))"
  from h args obtain sender w1 where
    "bindE (ErcToNativeMessages_Ensure E \<lparr>erc_BridgeID = beh_bridgeID p, erc_MsgHash = Keccak256Hash G ?msg,
         erc_Direction = DirectionHomeToForeign, erc_Sender = sender, erc_Receiver = r,
         erc_Value = big_string v, erc_RawMessage = ?msg\<rparr>) (\<lambda>_.
     SentMessages_Ensure E \<lparr>sm_LogID = log_ID log, sm_BridgeID = beh_bridgeID p,
       sm_MsgHash = Keccak256Hash G ?msg\<rparr>) w1 = (Inr u, w')"
    unfolding HandleErcToNativeUserRequestForSignature_def Let_def erc_msg_def
    by (auto simp: bindE_liftE_Inr elim!: bindE_InrE [of "TransactionByHash _ _"])
  from erc_send_steps [OF this] show "has_key erc_key (beh_bridgeID p,
       erc_home_id G (bs_Address (bc_Foreign (beh_cfg p))) r v (log_TransactionHash log))
       (db_erc_to_native_messages (w_db w'))"
    by (simp add: erc_key_def erc_home_id_def)
next
  assume h: "HandleErcToNativeUserRequestForAffirmation G E p log data w = (Inr u, w')"
    and args: "as_address data ''recipient'' = Inr r" "as_big data ''value'' = Inr v"
  let ?msg = "erc_msg G r v (log_TransactionHash log)"
  from h args obtain sender w1 where
    "bindE (ErcToNativeMessages_Ensure E \<lparr>erc_BridgeID = beh_bridgeID p, erc_MsgHash = Keccak256Hash G ?msg,
         erc_Direction = DirectionForeignToHome, erc_Sender = sender, erc_Receiver = r,
         erc_Value = big_string v, erc_RawMessage = ?msg\<rparr>) (\<lambda>_.
     SentMessages_Ensure E \<lparr>sm_LogID = log_ID log, sm_BridgeID = beh_bridgeID p,
       sm_MsgHash = Keccak256Hash G ?msg\<rparr>) w1 = (Inr u, w')"
    unfolding HandleErcToNativeUserRequestForAffirmation_def Let_def erc_msg_def
    by (auto simp: bindE_liftE_Inr elim!: bindE_InrE [of "Logs_Find _ _"])
  from erc_send_steps [OF this] show "has_key erc_key (beh_bridgeID p,
      erc_foreign_id G r v (log_TransactionHash log)) (db_erc_to_native_messages (w_db w'))"
    by (simp add: erc_key_def erc_foreign_id_def)
qed

text \<open>The events that complete a transfer name the same identifier.\<close>

lemma erc_completion_executes:
  assumes args: "as_address data ''recipient'' = Inr r" "as_big data ''value'' = Inr v"
      "as_bytes32 data ''transactionHash'' = Inr t"
    and new_row: "\<not> has_key em_LogID (log_ID log) (db_executed_messages (w_db w))"
  shows "HandleErcToNativeRelayedMessage G E p log data w = (Inr u, w') \<Longrightarrow>
      executed (w_db w') (beh_bridgeID p) (erc_home_id G (log_Address log) r v t)"
    and "HandleErcToNativeAffirmationCompleted G E p log data w = (Inr u, w') \<Longrightarrow>
      executed (w_db w') (beh_bridgeID p) (erc_foreign_id G r v t)"
  using args new_row unfolding handler_defs Let_def
  by (auto simp: executed_upsert erc_home_id_def erc_foreign_id_def erc_msg_def)

text \<open>
  A validator's signature of a foreign transfer is read out of the calldata of
  \<open>executeAffirmation(address,uint256,bytes32)\<close>: a selector of 4 bytes, the recipient padded to 32
  bytes, the value, the transaction hash.
\<close>

lemma erc_signature_hash:
  assumes h: "HandleErcToNativeSignedForAffirmation G E p log data w = (Inr u, w')"
    and tx: "node_TransactionByHash (beh_homeClient p) (w_tick w) (log_TransactionHash log) =
      Inr \<lparr>tx_Value = x, tx_Data = selector @ replicate 12 0 @ erc_msg G r v t\<rparr>"
    and sel: "length selector = 4"
    and new_row: "\<not> has_key sgm_LogID (log_ID log) (db_signed_messages (w_db w))"
  shows "\<exists>a. as_address data ''signer'' = Inr a \<and> lookup sgm_LogID (db_signed_messages (w_db w')) (log_ID log) =
    Some \<lparr>sgm_LogID = log_ID log, sgm_BridgeID = beh_bridgeID p, sgm_MsgHash = erc_foreign_id G r v t,
      sgm_Signer = a\<rparr>"
proof -
  have "slice_from (selector @ replicate 12 0 @ erc_msg G r v t) 16 = Inr (erc_msg G r v t)"
    using sel by (simp add: slice_from_def slice_def)
  moreover have "TransactionByHash (beh_homeClient p) (log_TransactionHash log) w =
      (Inr \<lparr>tx_Value = x, tx_Data = selector @ replicate 12 0 @ erc_msg G r v t\<rparr>,
       w\<lparr>w_tick := Suc (w_tick w)\<rparr>)"
    using tx by (simp add: TransactionByHash_def rpc_def)
  ultimately obtain a where a: "as_address data ''signer'' = Inr a"
    and run: "SignedMessages_Ensure E \<lparr>sgm_LogID = log_ID log, sgm_BridgeID = beh_bridgeID p,
       sgm_MsgHash = Keccak256Hash G (erc_msg G r v t), sgm_Signer = a\<rparr> (w\<lparr>w_tick := Suc (w_tick w)\<rparr>) = (Inr u, w')"
    using h by (auto simp: HandleErcToNativeSignedForAffirmation_def bindE_liftE_Inr
        bindE_Inr_iff [of "TransactionByHash _ _"])
  have "lookup sgm_LogID (db_signed_messages (w_db w)) (log_ID log) = None"
    using new_row by (simp add: lookup_None has_key_iff)
  with SignedMessages_Ensure_Inr(2) [OF run] a show ?thesis
    by (simp add: erc_foreign_id_def)
qed

section \<open>Validators\<close>

definition validators_of :: "string \<Rightarrow> string \<Rightarrow> database \<Rightarrow> address multiset" where
  "validators_of b c d = image_mset bv_Address (filter_mset (active_validator b c) (mset (vals (db_bridge_validators d))))"

lemma validators_added:
  assumes "HandleValidatorAdded E p log data w = (Inr u, w')"
    and "\<not> has_key bv_LogID (log_ID log) (db_bridge_validators (w_db w))"
  shows "\<exists>a. as_address data ''validator'' = Inr a \<and>
    validators_of (beh_bridgeID p) (log_ChainID log) (w_db w') =
      add_mset a (validators_of (beh_bridgeID p) (log_ChainID log) (w_db w))"
proof -
  from assms(1) obtain a where a: "as_address data ''validator'' = Inr a"
    and run: "BridgeValidators_Ensure E \<lparr>bv_LogID = log_ID log, bv_BridgeID = beh_bridgeID p,
       bv_ChainID = log_ChainID log, bv_Address = a, bv_RemovedLogID = None\<rparr> w = (Inr u, w')"
    by (auto simp: HandleValidatorAdded_def bindE_liftE_Inr)
  have "vals (db_bridge_validators (w_db w')) = vals (db_bridge_validators (w_db w)) @
      [\<lparr>bv_LogID = log_ID log, bv_BridgeID = beh_bridgeID p,
       bv_ChainID = log_ChainID log, bv_Address = a, bv_RemovedLogID = None\<rparr>]"
    using run assms(2)
    by (auto simp: BridgeValidators_Ensure_def db_exec_Inr ensure_stmt_Inr ensure_row_Some
        validators_tbl.vals_upsert has_key_iff)
  then show ?thesis
    using a by (simp add: validators_of_def active_validator_def)
qed

text \<open>Updating one element of a list of rows with distinct keys.\<close>

lemma mset_update_one:
  assumes "v \<in> set xs" and "\<And>x. x \<in> set xs \<Longrightarrow> (P x \<longleftrightarrow> x = v)" and "distinct xs"
  shows "mset (map (\<lambda>x. if P x then f x else x) xs) = add_mset (f v) (mset xs - {#v#})"
  using assms
proof (induction xs)
  case (Cons x xs)
  show ?case
  proof (cases "x = v")
    case True
    then have "map (\<lambda>x. if P x then f x else x) xs = xs"
      using Cons.prems by (intro map_idI) auto
    with True Cons.prems show ?thesis by simp
  next
    case False
    with Cons have "mset (map (\<lambda>x. if P x then f x else x) xs) = add_mset (f v) (mset xs - {#v#})"
      by (intro Cons.IH) auto
    with False Cons.prems show ?thesis by auto
  qed
qed simp

lemma validators_removed:
  assumes inv: "db_inv (w_db w)" and h: "HandleValidatorRemoved E p log data w = (Inr u, w')"
  shows "\<exists>a. as_address data ''validator'' = Inr a \<and>
    validators_of (beh_bridgeID p) (log_ChainID log) (w_db w') =
      validators_of (beh_bridgeID p) (log_ChainID log) (w_db w) - {#a#}"
proof -
  let ?b = "beh_bridgeID p" and ?c = "log_ChainID log"
  let ?rows = "vals (db_bridge_validators (w_db w))"
  have dist: "distinct (map bv_LogID ?rows)"
    using inv by (simp add: db_inv_def keys_inv_def)
  from h obtain a where a: "as_address data ''validator'' = Inr a"
    by (auto simp: HandleValidatorRemoved_def bindE_liftE_Inr)
  from h a obtain r w1 where
    get: "IgnoreErrNotFound (BridgeValidators_GetActiveValidator E ?b ?c a) w = (Inr r, w1)"
    and rest: "(case r of None \<Rightarrow> returnE () | Some val \<Rightarrow>
      BridgeValidators_Ensure E (val\<lparr>bv_RemovedLogID := Some (log_ID log)\<rparr>)) w1 = (Inr u, w')"
    by (auto simp: HandleValidatorRemoved_def bindE_liftE_Inr elim!: bindE_InrE)
  have w1: "w_db w1 = w_db w"
    using get world_simps by (auto simp: IgnoreErrNotFound_def BridgeValidators_GetActiveValidator_def
        db_query_def db_exec_def Let_def split: db_fault.splits sum.splits if_splits)
  show ?thesis
  proof (cases r)
    case None
    with get have none: "\<And>v. v \<in> set ?rows \<Longrightarrow> \<not> (active_validator ?b ?c v \<and> bv_Address v = a)"
      by (auto simp: IgnoreErrNotFound_def BridgeValidators_GetActiveValidator_def db_query_def db_exec_def
          Let_def first_row_not_found split: db_fault.splits sum.splits if_splits)
    then have "a \<notin># validators_of ?b ?c (w_db w)" by (auto simp: validators_of_def)
    with None rest w1 a show ?thesis by (simp add: diff_single_trivial)
  next
    case (Some val)
    with get have "first_row (filter (\<lambda>v. active_validator ?b ?c v \<and> bv_Address v = a) ?rows) = Inr val"
      by (auto simp: IgnoreErrNotFound_def BridgeValidators_GetActiveValidator_def db_query_def db_exec_def
          Let_def split: db_fault.splits sum.splits if_splits)
    then have val: "val \<in> set ?rows" "active_validator ?b ?c val" "bv_Address val = a"
      by (auto dest: first_row_in)
    let ?new = "val\<lparr>bv_RemovedLogID := Some (log_ID log)\<rparr>"
    have "vals (db_bridge_validators (w_db w')) =
        map (\<lambda>v. if bv_LogID v = bv_LogID val then upd_validator v ?new else v) ?rows"
      using rest Some w1 val(1)
      by (auto simp: BridgeValidators_Ensure_def db_exec_Inr ensure_stmt_Inr ensure_row_Some
          validators_tbl.vals_upsert)
    moreover have "mset (map (\<lambda>v. if bv_LogID v = bv_LogID val then upd_validator v ?new else v) ?rows) =
        add_mset (upd_validator val ?new) (mset ?rows - {#val#})"
      using dist val(1) by (intro mset_update_one) (auto simp: distinct_map inj_on_def)
    moreover have "\<not> active_validator ?b ?c (upd_validator val ?new)"
      by (simp add: upd_validator_def active_validator_def)
    ultimately show ?thesis
      using a val by (simp add: validators_of_def image_mset_Diff filter_diff_mset)
  qed
qed

text \<open>
  Handling the log of an addition once more makes the validator active again, whatever happened since:
  the statement overwrites \<open>removed_log_id\<close>.
\<close>

lemma validator_added_again:
  assumes "HandleValidatorAdded E p log data w = (Inr u, w')"
    and "lookup bv_LogID (db_bridge_validators (w_db w)) (log_ID log) = Some v"
    and "bv_BridgeID v = b" "bv_ChainID v = c"
  shows "\<exists>v'. lookup bv_LogID (db_bridge_validators (w_db w')) (log_ID log) = Some v'
    \<and> active_validator b c v' \<and> bv_Address v' = bv_Address v"
  using assms
  by (auto simp: HandleValidatorAdded_def bindE_liftE_Inr upd_validator_def active_validator_def
      dest!: BridgeValidators_Ensure_Inr(2))

end
