(* ===== verification/ContractMonitor.thy ===== *)
theory ContractMonitor
  imports Handlers
begin

text \<open>
  \<open>monitor/contract_monitor.go\<close>, the functions: building the log queries of a block range,
  fetching and saving logs, cutting them into batches for the processor, handling a batch, recording
  progress. How the goroutines run them is the subject of theory \<open>Indexer\<close>.

  The record \<open>ContractMonitor\<close> holds the fields that stay as they are after start-up,
  \<open>progress\<close> the ones that change: the cursor, the last seen head and the flag
  \<open>isSynced\<close>. The gauges that they set are in theory \<open>Gauges\<close>; log messages are left out.
  The functions that record progress are whole here; theory \<open>Gauges\<close> has their accesses to shared memory one by one.
\<close>

record ContractMonitor =
  mon_bridgeCfg :: BridgeConfig
  mon_cfg :: BridgeSideConfig
  mon_client :: node
  mon_ABI :: abi
  mon_eventHandlers :: "(string \<times> handler) list"

record progress =
  pg_logsCursor :: LogsCursor
  pg_headBlock :: uint
  pg_isSynced :: bool

definition defaultSyncedThreshold :: uint where
  "defaultSyncedThreshold = 10"

definition defaultBlockRangesChanCap :: nat where
  "defaultBlockRangesChanCap = 10"

definition defaultLogsChanCap :: nat where
  "defaultLogsChanCap = 200"

section \<open>Start-up\<close>

text \<open>
  The address of the validator contract is asked of the bridge contract when the configuration has none;
  \<open>calldata\<close> is the packed call of \<open>validatorContract()\<close>. The cursor comes from the
  database, or starts before the first block.
\<close>

definition ValidatorContractAddress :: "geth \<Rightarrow> node \<Rightarrow> byte list res \<Rightarrow> address \<Rightarrow> (world, address) io" where
  "ValidatorContractAddress G N calldata bridge =
     bindE (Contract_Call N bridge calldata) (\<lambda>res. returnE (BytesToAddress G res))"

definition initialCursor :: "BridgeSideConfig \<Rightarrow> LogsCursor" where
  "initialCursor cfg = \<lparr>lc_ChainID = bs_ChainID cfg, lc_Address = bs_Address cfg,
     lc_LastFetchedBlock = bs_StartBlock cfg - 1, lc_LastProcessedBlock = bs_StartBlock cfg - 1\<rparr>"

definition readCursor :: "env \<Rightarrow> BridgeSideConfig \<Rightarrow> (world, LogsCursor) io" where
  "readCursor E cfg =
     bindE (liftE (sideChainID cfg)) (\<lambda>chainID.
     bindE (IgnoreErrNotFound (LogsCursors_GetByChainIDAndAddress E chainID (bs_Address cfg))) (\<lambda>r.
     returnE (case r of Some c \<Rightarrow> c | None \<Rightarrow> initialCursor cfg)))"

definition initialProgress :: "LogsCursor \<Rightarrow> progress" where
  "initialProgress c = \<lparr>pg_logsCursor = c, pg_headBlock = 0, pg_isSynced = False\<rparr>"

definition NewContractMonitor ::
  "geth \<Rightarrow> env \<Rightarrow> byte list res \<Rightarrow> BridgeConfig \<Rightarrow> BridgeSideConfig \<Rightarrow> node \<Rightarrow>
    (world, ContractMonitor \<times> progress) io" where
  "NewContractMonitor G E calldata bridgeCfg cfg client =
     bindE (if bs_ValidatorContractAddress cfg = 0
            then ValidatorContractAddress G client calldata (bs_Address cfg)
            else returnE (bs_ValidatorContractAddress cfg)) (\<lambda>validators.
     let cfg = cfg\<lparr>bs_ValidatorContractAddress := validators\<rparr> in
     bindE (readCursor E cfg) (\<lambda>cursor.
     returnE
       (\<lparr>mon_bridgeCfg = bridgeCfg, mon_cfg = cfg, mon_client = client,
         mon_ABI = getBridgeABI G (bc_BridgeMode bridgeCfg), mon_eventHandlers = []\<rparr>,
        initialProgress cursor)))"

text \<open>
  The two contract monitors of a bridge, with the handlers that \<open>NewMonitor\<close> of
  \<open>monitor/monitor.go\<close> registers; the handlers of both sides ask the node of the home chain.
\<close>

definition homeMonitor :: "geth \<Rightarrow> env \<Rightarrow> BridgeConfig \<Rightarrow> node \<Rightarrow> ContractMonitor" where
  "homeMonitor G E cfg homeClient =
     \<lparr>mon_bridgeCfg = cfg, mon_cfg = bc_Home cfg, mon_client = homeClient,
       mon_ABI = getBridgeABI G (bc_BridgeMode cfg), mon_eventHandlers = fst (registered G E cfg homeClient)\<rparr>"

definition foreignMonitor :: "geth \<Rightarrow> env \<Rightarrow> BridgeConfig \<Rightarrow> node \<Rightarrow> node \<Rightarrow> ContractMonitor" where
  "foreignMonitor G E cfg homeClient foreignClient =
     \<lparr>mon_bridgeCfg = cfg, mon_cfg = bc_Foreign cfg, mon_client = foreignClient,
       mon_ABI = getBridgeABI G (bc_BridgeMode cfg), mon_eventHandlers = snd (registered G E cfg homeClient)\<rparr>"

section \<open>Progress\<close>

definition recordIsSynced :: "progress \<Rightarrow> progress" where
  "recordIsSynced p = p\<lparr>pg_isSynced :=
     (lc_LastProcessedBlock (pg_logsCursor p) + defaultSyncedThreshold > pg_headBlock p)\<rparr>"

definition recordHeadBlockNumber :: "uint \<Rightarrow> progress \<Rightarrow> progress" where
  "recordHeadBlockNumber blockNumber p =
     (if blockNumber < pg_headBlock p then p
      else recordIsSynced (p\<lparr>pg_headBlock := blockNumber\<rparr>))"

text \<open>
  The guard and the assignment of the two functions that move the cursor; \<open>None\<close>: the block is
  behind the cursor, nothing is done. The call that saves the cursor follows.
\<close>

definition setFetched :: "uint \<Rightarrow> progress \<Rightarrow> progress option" where
  "setFetched blockNumber p =
     (if blockNumber < lc_LastFetchedBlock (pg_logsCursor p) then None
      else Some (p\<lparr>pg_logsCursor := (pg_logsCursor p)\<lparr>lc_LastFetchedBlock := blockNumber\<rparr>\<rparr>))"

definition setProcessed :: "uint \<Rightarrow> progress \<Rightarrow> progress option" where
  "setProcessed blockNumber p =
     (if blockNumber < lc_LastProcessedBlock (pg_logsCursor p) then None
      else Some (recordIsSynced (p\<lparr>pg_logsCursor := (pg_logsCursor p)\<lparr>lc_LastProcessedBlock := blockNumber\<rparr>\<rparr>)))"

definition saveCursor :: "env \<Rightarrow> (progress \<times> world, unit) io" where
  "saveCursor E = (\<lambda>(p, w). let (r, w') = LogsCursors_Ensure E (pg_logsCursor p) w in (r, (p, w')))"

definition recordFetchedBlockNumber :: "env \<Rightarrow> uint \<Rightarrow> (progress \<times> world, unit) io" where
  "recordFetchedBlockNumber E blockNumber = (\<lambda>(p, w). case setFetched blockNumber p of
     None \<Rightarrow> (Inr (), (p, w)) | Some p' \<Rightarrow> saveCursor E (p', w))"

definition recordProcessedBlockNumber :: "env \<Rightarrow> uint \<Rightarrow> (progress \<times> world, unit) io" where
  "recordProcessedBlockNumber E blockNumber = (\<lambda>(p, w). case setProcessed blockNumber p of
     None \<Rightarrow> (Inr (), (p, w)) | Some p' \<Rightarrow> saveCursor E (p', w))"

section \<open>Fetching\<close>

text \<open>The queries of a range: the bridge with its validator contract, then every token that is active in it.\<close>

definition tokenQuery :: "geth \<Rightarrow> BridgeSideConfig \<Rightarrow> BlocksRange \<Rightarrow> TokenConfig \<Rightarrow> FilterQuery" where
  "tokenQuery G cfg r token =
     \<lparr>fq_BlockHash = None,
       fq_FromBlock = Some (int64_of (if tok_StartBlock token > br_From r then tok_StartBlock token else br_From r)),
       fq_ToBlock = Some (int64_of (if tok_EndBlock token < br_To r then tok_EndBlock token else br_To r)),
       fq_Addresses = [tok_Address token],
       fq_Topics = [[], [], [AddressHash G (bs_Address cfg)]]\<rparr>"

fun tokenQueries :: "geth \<Rightarrow> BridgeSideConfig \<Rightarrow> BlocksRange \<Rightarrow> TokenConfig list \<Rightarrow> FilterQuery list" where
  "tokenQueries G cfg r [] = []"
| "tokenQueries G cfg r (token # tokens) =
     (if br_To r < tok_StartBlock token \<or> br_From r > tok_EndBlock token
      then tokenQueries G cfg r tokens
      else tokenQuery G cfg r token # tokenQueries G cfg r tokens)"

definition buildFilterQueries :: "geth \<Rightarrow> ContractMonitor \<Rightarrow> BlocksRange \<Rightarrow> FilterQuery list" where
  "buildFilterQueries G m r =
     \<lparr>fq_BlockHash = None, fq_FromBlock = Some (int64_of (br_From r)), fq_ToBlock = Some (int64_of (br_To r)),
       fq_Addresses = [bs_Address (mon_cfg m), bs_ValidatorContractAddress (mon_cfg m)], fq_Topics = []\<rparr> #
     (if bc_BridgeMode (mon_bridgeCfg m) = BridgeModeErcToNative
      then tokenQueries G (mon_cfg m) r (bs_ErcToNativeTokens (mon_cfg m)) else [])"

definition safeLogs :: "ContractMonitor \<Rightarrow> bool" where
  "safeLogs m = (case bs_Chain (mon_cfg m) of None \<Rightarrow> False | Some c \<Rightarrow> ch_SafeLogsRequest c)"

fun fetchQueries :: "ContractMonitor \<Rightarrow> FilterQuery list \<Rightarrow> (world, Log list) io" where
  "fetchQueries m [] = returnE []"
| "fetchQueries m (q # qs) =
     bindE (if safeLogs m then FilterLogsSafe (mon_client m) q else FilterLogs (mon_client m) q) (\<lambda>logsBatch.
     bindE (fetchQueries m qs) (\<lambda>logs.
     returnE (map (NewLog (bs_ChainID (mon_cfg m))) logsBatch @ logs)))"

text \<open>
  \<open>tryToFetchLogs\<close> up to the record of the fetched block: the logs sorted and saved. Sorting
  leaves the order of logs with the same position open; such a list is refused by the database.
\<close>

definition fetchAndSaveLogs :: "geth \<Rightarrow> env \<Rightarrow> ContractMonitor \<Rightarrow> BlocksRange \<Rightarrow> (world, Log list) io" where
  "fetchAndSaveLogs G E m r =
     bindE (fetchQueries m (buildFilterQueries G m r)) (\<lambda>logs.
     let logs = sort_key log_pos_of logs in
     if length logs > 0 then Logs_Ensure E logs else returnE logs)"

text \<open>The batches \<open>submitLogs\<close> sends to the processor, in order.\<close>

definition submitLogs :: "Log list \<Rightarrow> uint \<Rightarrow> LogsBatch list" where
  "submitLogs logs endBlock =
     (let logBatches = SplitLogsInBatches logs in
      if length logBatches = 0 \<or> lb_BlockNumber (logBatches ! (length logBatches - 1)) < endBlock
      then logBatches @ [\<lparr>lb_BlockNumber = endBlock, lb_Logs = []\<rparr>]
      else logBatches)"

definition tryToFetchLogs :: "geth \<Rightarrow> env \<Rightarrow> ContractMonitor \<Rightarrow> BlocksRange \<Rightarrow>
    (progress \<times> world, LogsBatch list) io" where
  "tryToFetchLogs G E m r =
     bindE (\<lambda>(p, w). let (res, w') = fetchAndSaveLogs G E m r w in (res, (p, w'))) (\<lambda>logs.
     bindE (recordFetchedBlockNumber E (br_To r)) (\<lambda>_.
     returnE (submitLogs logs (br_To r))))"

text \<open>The query of \<open>LoadUnprocessedLogs\<close>.\<close>

definition unprocessedFilter :: "BridgeSideConfig \<Rightarrow> uint \<Rightarrow> uint \<Rightarrow> LogsFilter" where
  "unprocessedFilter cfg fromBlock toBlock = emptyLogsFilter\<lparr>lf_ChainID := Some (bs_ChainID cfg),
     lf_Addresses := ContractAddresses cfg fromBlock toBlock,
     lf_FromBlock := Some fromBlock, lf_ToBlock := Some toBlock\<rparr>"

definition LoadUnprocessedLogs :: "env \<Rightarrow> ContractMonitor \<Rightarrow> uint \<Rightarrow> uint \<Rightarrow> (world, LogsBatch list) io" where
  "LoadUnprocessedLogs E m fromBlock toBlock =
     bindE (Logs_Find E (unprocessedFilter (mon_cfg m) fromBlock toBlock)) (\<lambda>logs.
     returnE (submitLogs logs toBlock))"

text \<open>
  One round of the block fetcher: the new head, the ranges to schedule, the next first block. The
  splitting may not return (\<open>None\<close>).
\<close>

definition scheduleRanges :: "BridgeSideConfig \<Rightarrow> uint \<Rightarrow> uint \<Rightarrow> (uint \<times> BlocksRange list \<times> uint) option" where
  "scheduleRanges cfg start n =
     (let head = n - bs_BlockConfirmations cfg in
      case SplitBlockRange start head (bs_MaxBlockRangeSize cfg) of
        None \<Rightarrow> None | Some batches \<Rightarrow> Some (head, batches, head + 1))"

section \<open>Processing\<close>

definition tryToGetBlockTimestamp :: "env \<Rightarrow> ContractMonitor \<Rightarrow> uint \<Rightarrow> (world, unit) io" where
  "tryToGetBlockTimestamp E m blockNumber =
     bindE (IgnoreErrNotFound (BlockTimestamps_GetByBlockNumber E (bs_ChainID (mon_cfg m)) blockNumber)) (\<lambda>r.
     case r of
       Some _ \<Rightarrow> returnE ()
     | None \<Rightarrow> bindE (HeaderByNumber (mon_client m) blockNumber) (\<lambda>headerTime.
         BlockTimestamps_Ensure E \<lparr>bt_ChainID = bs_ChainID (mon_cfg m), bt_BlockNumber = blockNumber,
           bt_Timestamp = int64_of headerTime\<rparr>))"

text \<open>The body of the loop over the logs of a batch.\<close>

definition processLog :: "abilib \<Rightarrow> ContractMonitor \<Rightarrow> Log \<Rightarrow> (world, unit) io" where
  "processLog L m log =
     bindE (liftE (ParseLog L (mon_ABI m) log)) (\<lambda>(event, data).
     case map_of (mon_eventHandlers m) event of
       None \<Rightarrow> if event = [] \<and> log_Topic0 log = None then failE Panic else returnE ()
     | Some handle \<Rightarrow> handle log data)"

fun processLogs :: "abilib \<Rightarrow> ContractMonitor \<Rightarrow> Log list \<Rightarrow> (world, unit) io" where
  "processLogs L m [] = returnE ()"
| "processLogs L m (log # logs) = bindE (processLog L m log) (\<lambda>_. processLogs L m logs)"

definition tryToProcessLogsBatch :: "abilib \<Rightarrow> ContractMonitor \<Rightarrow> LogsBatch \<Rightarrow> (world, unit) io" where
  "tryToProcessLogsBatch L m batch = processLogs L m (lb_Logs batch)"

section \<open>Batches of a submission\<close>

lemma submitLogs_props:
  assumes "batchable logs" and "list_all (\<lambda>l. log_BlockNumber l \<le> endBlock) logs"
  shows "concat (map lb_Logs (submitLogs logs endBlock)) = logs
    \<and> sorted_wrt (<) (map lb_BlockNumber (submitLogs logs endBlock))
    \<and> submitLogs logs endBlock \<noteq> [] \<and> lb_BlockNumber (last (submitLogs logs endBlock)) = endBlock
    \<and> list_all (\<lambda>b. list_all (\<lambda>l. log_BlockNumber l = lb_BlockNumber b) (lb_Logs b)) (submitLogs logs endBlock)"
proof -
  let ?bs = "SplitLogsInBatches logs"
  from SplitLogsInBatches_correct [OF assms(1)]
  have conc: "concat (map lb_Logs ?bs) = logs" and wf: "list_all batch_wf ?bs"
    and srt: "sorted_wrt (<) (map lb_BlockNumber ?bs)" by auto
  have le: "lb_BlockNumber b \<le> endBlock" if "b \<in> set ?bs" for b
  proof -
    from wf that have b: "batch_wf b" by (simp add: list_all_iff)
    then have "hd (lb_Logs b) \<in> set (lb_Logs b)" by (simp add: batch_wf_def)
    then obtain l where l: "l \<in> set (lb_Logs b)" by blast
    with b have "log_BlockNumber l = lb_BlockNumber b" by (simp add: batch_wf_def list_all_iff)
    moreover have "l \<in> set (concat (map lb_Logs ?bs))" using l that by auto
    then have "l \<in> set logs" by (simp only: conc)
    ultimately show ?thesis using assms(2) by (auto simp: list_all_iff)
  qed
  have blocks: "list_all (\<lambda>b. list_all (\<lambda>l. log_BlockNumber l = lb_BlockNumber b) (lb_Logs b)) ?bs"
    using wf by (auto simp: list_all_iff batch_wf_def)
  show ?thesis
  proof (cases "?bs = []")
    case True
    with conc show ?thesis by (simp add: submitLogs_def)
  next
    case False
    then have last: "?bs ! (length ?bs - 1) = last ?bs" by (simp add: last_conv_nth)
    have all_lt: "lb_BlockNumber b < endBlock" if "b \<in> set ?bs" "lb_BlockNumber (last ?bs) < endBlock" for b
    proof -
      have "sorted_wrt (<) (map lb_BlockNumber (butlast ?bs @ [last ?bs]))" using srt False by simp
      moreover have "b \<in> set (butlast ?bs @ [last ?bs])" using that(1) False by simp
      ultimately have "lb_BlockNumber b \<le> lb_BlockNumber (last ?bs)"
        unfolding map_append sorted_wrt_append by auto
      with that(2) show ?thesis by simp
    qed
    show ?thesis
    proof (cases "lb_BlockNumber (last ?bs) < endBlock")
      case True
      then have "submitLogs logs endBlock = ?bs @ [\<lparr>lb_BlockNumber = endBlock, lb_Logs = []\<rparr>]"
        using last False by (simp add: submitLogs_def Let_def)
      then show ?thesis
        using conc srt blocks all_lt [OF _ True] by (simp add: sorted_wrt_append)
    next
      case False
      then have "submitLogs logs endBlock = ?bs"
        using last \<open>?bs \<noteq> []\<close> by (simp add: submitLogs_def Let_def)
      moreover have "lb_BlockNumber (last ?bs) = endBlock"
        using False le [of "last ?bs"] \<open>?bs \<noteq> []\<close> by simp
      ultimately show ?thesis using conc srt blocks \<open>?bs \<noteq> []\<close> by simp
    qed
  qed
qed

section \<open>What the functions keep\<close>

lemma fetchQueries_db: "fetchQueries m qs w = (r, w') \<Longrightarrow> w_db w' = w_db w"
proof (induction qs arbitrary: r w w')
  case (Cons q qs)
  obtain a w1 where 1: "(if safeLogs m then FilterLogsSafe (mon_client m) q else FilterLogs (mon_client m) q) w = (a, w1)"
    by fastforce
  then have db1: "w_db w1 = w_db w" using FilterLogs_db FilterLogsSafe_db by (auto split: if_splits)
  show ?case
  proof (cases a)
    case (Inl e)
    with 1 Cons.prems db1 show ?thesis by (simp add: bindE_apply)
  next
    case (Inr x)
    obtain b w2 where 2: "fetchQueries m qs w1 = (b, w2)" by fastforce
    from Cons.IH [OF 2] db1 Inr 1 2 Cons.prems show ?thesis
      by (cases b) (simp_all add: bindE_apply)
  qed
qed simp

lemma fetchAndSaveLogs_grows [intro, simp]: "keepsE grows (fetchAndSaveLogs G E m r)"
proof -
  have "keepsE grows (fetchQueries m qs)" for qs
    by (induction qs) (auto simp only: fetchQueries.simps split: if_split
        intro!: keepsE_grows_bindE keepsE_grows_pure client_grows FilterLogsSafe_grows)
  then show ?thesis
    unfolding fetchAndSaveLogs_def Let_def by (auto intro!: keepsE_grows_bindE)
qed

lemma tryToGetBlockTimestamp_grows [intro, simp]: "keepsE grows (tryToGetBlockTimestamp E m n)"
  unfolding tryToGetBlockTimestamp_def
  by (auto intro!: keepsE_grows_bindE keepsE_IgnoreErrNotFound split: option.split)

text \<open>The saved flag tells the truth about the last numbers recorded.\<close>

lemma recordHead_synced:
  "pg_headBlock p \<le> n \<Longrightarrow> pg_isSynced (recordHeadBlockNumber n p) \<longleftrightarrow>
     lc_LastProcessedBlock (pg_logsCursor p) + defaultSyncedThreshold > n"
  by (auto simp: recordHeadBlockNumber_def recordIsSynced_def)

section \<open>Properties\<close>

text \<open>Property C33. The batches submitted for a range hold its logs, each once and in order, one block per
  batch, with increasing block numbers; the last batch is that of the end of the range, empty if need be, so
  that the end of the range is recorded as processed after all its logs.\<close>

theorem submitted_batches:
  assumes "batchable logs" and "list_all (\<lambda>l. log_BlockNumber l \<le> endBlock) logs"
  shows "concat (map lb_Logs (submitLogs logs endBlock)) = logs
    \<and> sorted_wrt (<) (map lb_BlockNumber (submitLogs logs endBlock))
    \<and> submitLogs logs endBlock \<noteq> [] \<and> lb_BlockNumber (last (submitLogs logs endBlock)) = endBlock
    \<and> list_all (\<lambda>b. list_all (\<lambda>l. log_BlockNumber l = lb_BlockNumber b) (lb_Logs b)) (submitLogs logs endBlock)"
  by (rule submitLogs_props [OF assms])

lemma submitted_batches_witness:
  "concat (map lb_Logs (submitLogs [sentinelLog\<lparr>log_BlockNumber := 7\<rparr>, sentinelLog\<lparr>log_BlockNumber := 9\<rparr>] 12)) =
     [sentinelLog\<lparr>log_BlockNumber := 7\<rparr>, sentinelLog\<lparr>log_BlockNumber := 9\<rparr>]
   \<and> lb_BlockNumber (last (submitLogs [sentinelLog\<lparr>log_BlockNumber := 7\<rparr>, sentinelLog\<lparr>log_BlockNumber := 9\<rparr>] 12)) = 12"
  using submitted_batches [of "[sentinelLog\<lparr>log_BlockNumber := 7\<rparr>, sentinelLog\<lparr>log_BlockNumber := 9\<rparr>]" 12]
  by (simp add: batchable_def MaxUint32_def)

text \<open>The flag \<open>isSynced\<close>, each time it is set: after a new head and after a recorded
  processed block it says whether the head is less than 10 blocks ahead of the processed block (in the
  arithmetic of \<open>uint\<close>). A head behind the last one changes nothing.\<close>

theorem synced_flag:
  "(pg_headBlock p \<le> n \<longrightarrow>
      pg_headBlock (recordHeadBlockNumber n p) = n \<and>
      (pg_isSynced (recordHeadBlockNumber n p) \<longleftrightarrow> n < lc_LastProcessedBlock (pg_logsCursor p) + 10)) \<and>
   (n < pg_headBlock p \<longrightarrow> recordHeadBlockNumber n p = p) \<and>
   (\<forall>p'. setProcessed n p = Some p' \<longrightarrow>
      lc_LastProcessedBlock (pg_logsCursor p') = n \<and> (pg_isSynced p' \<longleftrightarrow> pg_headBlock p < n + 10))"
  by (auto simp: recordHeadBlockNumber_def recordIsSynced_def setProcessed_def defaultSyncedThreshold_def
      split: if_splits)

lemma synced_flag_witness:
  "pg_isSynced (recordHeadBlockNumber 105 (initialProgress \<lparr>lc_ChainID = [], lc_Address = 0, lc_LastFetchedBlock = 100,
     lc_LastProcessedBlock = 100\<rparr>))"
  using synced_flag [of "initialProgress \<lparr>lc_ChainID = [], lc_Address = 0, lc_LastFetchedBlock = 100,
     lc_LastProcessedBlock = 100\<rparr>" 105] by (simp add: initialProgress_def)

text \<open>With start block 0 and no cursor in the database, the first cursor is at the greatest
  \<open>uint\<close>: the subtraction wraps. No fetched or processed block below it is ever recorded then, and the
  monitor asks for the logs from block 0 to that number.\<close>

theorem start_block_zero:
  assumes "bs_StartBlock cfg = 0"
  shows "unat (lc_LastFetchedBlock (initialCursor cfg)) = 2 ^ 64 - 1
    \<and> unat (lc_LastProcessedBlock (initialCursor cfg)) = 2 ^ 64 - 1
    \<and> (n \<noteq> -1 \<longrightarrow> setFetched n (initialProgress (initialCursor cfg)) = None
        \<and> setProcessed n (initialProgress (initialCursor cfg)) = None)"
proof -
  have "unat (- 1 :: uint) = 2 ^ 64 - 1" by (simp add: unsigned_minus_1_eq_mask mask_eq_exp_minus_1)
  then show ?thesis
    using assms word_order.not_eq_extremum [of n]
    by (simp add: initialCursor_def setFetched_def setProcessed_def initialProgress_def)
qed

lemma start_block_zero_witness:
  "setFetched 1000 (initialProgress (initialCursor (sample_side ''xdai'' 10 0 []))) = None"
  using start_block_zero [of "sample_side ''xdai'' 10 0 []" 1000] by (simp add: sample_side_def)

text \<open>A node whose block number is below the number of confirmations makes the head wrap around:
  the round that follows records a head above every block of the chain and schedules ranges up to it.\<close>

theorem head_wraps:
  assumes "n < bs_BlockConfirmations cfg" and "scheduleRanges cfg start n = Some (head, ranges, start')"
  shows "unat head = 2 ^ 64 + unat n - unat (bs_BlockConfirmations cfg) \<and> n < head"
proof -
  have head: "head = n - bs_BlockConfirmations cfg"
    using assms(2) by (auto simp: scheduleRanges_def Let_def split: option.splits)
  have lt: "unat n < unat (bs_BlockConfirmations cfg)" using assms(1) by (simp add: word_less_nat_alt)
  have c: "unat (bs_BlockConfirmations cfg) < 2 ^ 64" by simp
  have "unat head = 2 ^ 64 + unat n - unat (bs_BlockConfirmations cfg)"
    unfolding head using lt by (simp add: unat_sub_if')
  moreover from this have "unat n < unat head" using lt c by linarith
  ultimately show ?thesis by (simp only: word_less_nat_alt)
qed

lemma head_wraps_witness:
  "\<exists>head ranges start'. scheduleRanges (sample_side ''xdai'' 10 100 []) (-1) 0 = Some (head, ranges, start')
    \<and> unat head = 2 ^ 64 - 2 \<and> 0 < head"
proof -
  have "\<not> (-1 :: uint) \<le> -2" by code_simp
  then have "SplitBlockRange (-1) (-2) 0 = Some []"
    by (simp add: SplitBlockRange_def SplitBlockRange_loop.simps [of "-1" "-2" 0 "[]"])
  then have run: "scheduleRanges (sample_side ''xdai'' 10 100 []) (-1) 0 = Some (-2, [], -1)"
    by (simp add: scheduleRanges_def sample_side_def Let_def)
  have "(0 :: uint) < bs_BlockConfirmations (sample_side ''xdai'' 10 100 [])" by (simp add: sample_side_def)
  from head_wraps [OF this run] run show ?thesis by (simp add: sample_side_def)
qed

end
