(* ===== verification/Bookkeeping.thy ===== *)
theory Bookkeeping
  imports Ledger HandlerTypes ContractMonitor
begin

text \<open>
  The properties of the event handlers (\<open>monitor/handlers.go\<close>) and of the tables behind them
  (\<open>repository/postgres/\<close>): what handling an event does to the abstract ledger of theory
  \<open>Ledger\<close>, what every event leaves in the database, and how handling can fail. Each property
  that has hypotheses is applied to a concrete run, on the small database at the start of the theory.
\<close>

section \<open>A small database\<close>

definition sample_env :: env where
  "sample_env = \<lparr>env_db = (\<lambda>t. DbOk), env_clock = (\<lambda>t. int t)\<rparr>"

definition sample_log :: "uint \<Rightarrow> address \<Rightarrow> Log" where
  "sample_log i addr = sentinelLog\<lparr>log_ID := i, log_ChainID := ''100'', log_Address := addr, log_BlockNumber := 120 + i,
     log_TransactionHash := 9\<rparr>"

text \<open>Three logs, nothing handled.\<close>

definition sample_world :: world where
  "sample_world = \<lparr>w_db = emptyDatabase\<lparr>
     db_logs := map (\<lambda>l. \<lparr>r_val = l, r_created = 0, r_updated = 0\<rparr>) [sample_log 1 20, sample_log 2 10, sample_log 3 20],
     db_logs_seq := 3\<rparr>, w_tick = 0\<rparr>"

definition sample_handlers :: BridgeEventHandler where
  "sample_handlers = NewBridgeEventHandler (snd (hd (cfg_Bridges sample_config_init))) (sample_node 200 [])"

definition sample_transfer :: event_data where
  "sample_transfer = [(''recipient'', VAddress 5), (''value'', VBigInt 1000), (''transactionHash'', VBytes32 9)]"

definition after :: "(world, unit) io \<Rightarrow> world \<Rightarrow> world" where
  "after m w = snd (m w)"

definition runs :: "(world, unit) io \<Rightarrow> world \<Rightarrow> bool" where
  "runs m w \<longleftrightarrow> fst (m w) = Inr ()"

lemma after_ok: "runs m w \<Longrightarrow> m w = (Inr (), after m w)"
  by (simp add: runs_def after_def prod_eq_iff)

lemma sample_inv: "db_inv (w_db sample_world)"
  by (simp add: db_inv_def logs_inv_def keys_inv_def refs_inv_def fk_ok_def log_ids_def sample_world_def
      emptyDatabase_def vals_def log_key_def sample_log_def int4_max_def)

lemma sample_sel [simp]:
  "db_erc_to_native_messages (w_db sample_world) = []" "db_sent_messages (w_db sample_world) = []"
  "db_executed_messages (w_db sample_world) = []" "db_messages (w_db sample_world) = []"
  "db_signed_messages (w_db sample_world) = []" "db_bridge_validators (w_db sample_world) = []"
  "db_logs_cursors (w_db sample_world) = []"
  "log_ids (w_db sample_world) = [1, 2, 3]" "w_tick sample_world = 0"
  by (simp_all add: sample_world_def emptyDatabase_def log_ids_def vals_def sample_log_def)

lemma sample_find:
  "opt_int4_ok (lf_FromBlock f) \<Longrightarrow> opt_int4_ok (lf_ToBlock f) \<Longrightarrow> opt_int4_ok (lf_DataLength f) \<Longrightarrow>
     lf_Topic0 f \<noteq> [] \<Longrightarrow> Logs_Find sample_env f sample_world = (Inr [], sample_world\<lparr>w_tick := 1\<rparr>)"
  by (simp add: Logs_Find_def db_query_def db_exec_def Let_def sample_env_def sample_world_def emptyDatabase_def vals_def
      matches_def topic_in_def sample_log_def sentinelLog_def order_logs_def)

lemma first_rows:
  "db_erc_to_native_messages (w_db w) = [] \<Longrightarrow> ErcToNativeMessages_Ensure sample_env m1 w =
     (Inr (), \<lparr>w_db = (w_db w)\<lparr>db_erc_to_native_messages :=
       [\<lparr>r_val = m1, r_created = int (w_tick w), r_updated = int (w_tick w)\<rparr>]\<rparr>, w_tick = Suc (w_tick w)\<rparr>)"
  "db_sent_messages (w_db w) = [] \<Longrightarrow> log_exists (w_db w) (sm_LogID m2) \<Longrightarrow> SentMessages_Ensure sample_env m2 w =
     (Inr (), \<lparr>w_db = (w_db w)\<lparr>db_sent_messages :=
       [\<lparr>r_val = m2, r_created = int (w_tick w), r_updated = int (w_tick w)\<rparr>]\<rparr>, w_tick = Suc (w_tick w)\<rparr>)"
  "db_executed_messages (w_db w) = [] \<Longrightarrow> log_exists (w_db w) (em_LogID m3) \<Longrightarrow> ExecutedMessages_Ensure sample_env m3 w =
     (Inr (), \<lparr>w_db = (w_db w)\<lparr>db_executed_messages :=
       [\<lparr>r_val = m3, r_created = int (w_tick w), r_updated = int (w_tick w)\<rparr>]\<rparr>, w_tick = Suc (w_tick w)\<rparr>)"
  "db_signed_messages (w_db w) = [] \<Longrightarrow> log_exists (w_db w) (sgm_LogID m4) \<Longrightarrow> SignedMessages_Ensure sample_env m4 w =
     (Inr (), \<lparr>w_db = (w_db w)\<lparr>db_signed_messages :=
       [\<lparr>r_val = m4, r_created = int (w_tick w), r_updated = int (w_tick w)\<rparr>]\<rparr>, w_tick = Suc (w_tick w)\<rparr>)"
  by (simp_all add: ErcToNativeMessages_Ensure_def SentMessages_Ensure_def ExecutedMessages_Ensure_def
      SignedMessages_Ensure_def index_free_def db_exec_def ensure_stmt_def ensure_row_def sample_env_def
      upsert_def Let_def)

lemma sample_chain_id [simp]: "chain_id_ok ''100''"
  by code_simp

lemma sample_query: "db_query sample_env q w = (q (w_db w), w\<lparr>w_tick := Suc (w_tick w)\<rparr>)"
  by (cases w) (simp add: db_query_def db_exec_def Let_def sample_env_def)

lemma sample_exec: "db_exec sample_env stmt w =
   (let (r, d) = stmt (int (w_tick w)) (w_db w) in (r, \<lparr>w_db = d, w_tick = Suc (w_tick w)\<rparr>))"
  by (simp add: db_exec_def Let_def sample_env_def split: prod.split)

lemma log_ids_upd [simp]:
 "log_ids (d\<lparr>db_erc_to_native_messages := x\<rparr>) = log_ids d" "log_ids (d\<lparr>db_sent_messages := y\<rparr>) = log_ids d"
 "log_ids (d\<lparr>db_bridge_validators := z\<rparr>) = log_ids d"
  by (simp_all add: log_ids_def)
lemma sample_log_sel [simp]: "log_ID (sample_log i a) = i" "log_BlockNumber (sample_log i a) = 120 + i"
  "log_TransactionHash (sample_log i a) = 9" "log_Address (sample_log i a) = a" "log_ChainID (sample_log i a) = ''100''"
  by (simp_all add: sample_log_def)

lemmas transfer_simps = bindE_apply as_address_def as_big_def as_bytes32_def sample_transfer_def Let_def
  opt_int4_ok_def int4_ok_def int4_max_def emptyLogsFilter_def sample_find first_rows log_exists_def

lemma erc_key_stays:
  assumes "has_key erc_key k (db_erc_to_native_messages d)" and "db_le d d'"
  shows "has_key erc_key k (db_erc_to_native_messages d')"
proof -
  have core: "erc_key m = erc_key m'" if "erc_core m = erc_core m'" for m m'
    using arg_cong [OF that, of erc_key] by (simp add: erc_core_def erc_key_def)
  have "tbl_le erc_core (db_erc_to_native_messages d) (db_erc_to_native_messages d')"
    using assms(2) by (simp add: db_le_def)
  from tbl_le_key [OF this core assms(1)] show ?thesis .
qed

lemmas run_simps = Messages_Ensure_def SentMessages_Ensure_def db_exec_def ensure_stmt_def ensure_row_def
  sample_env_def byte_ok_def sample_world_def log_exists_def log_ids_def emptyDatabase_def vals_def sample_log_def

section \<open>Properties\<close>

text \<open>The handlers of the requests that carry a message, with the decoder of each.\<close>

definition request_handlers :: "geth \<Rightarrow> env \<Rightarrow> BridgeEventHandler \<Rightarrow>
    (handler \<times> (Log \<Rightarrow> byte list \<Rightarrow> Message res)) list" where
  "request_handlers G E p =
    [(HandleUserRequestForSignature G E p,
       \<lambda>log enc. unmarshalMessage G (beh_bridgeID p) DirectionHomeToForeign enc),
     (HandleUserRequestForAffirmation G E p,
       \<lambda>log enc. unmarshalMessage G (beh_bridgeID p) DirectionForeignToHome enc),
     (HandleLegacyUserRequestForSignature G E p,
       \<lambda>log enc. unmarshalLegacyMessage G (beh_bridgeID p) DirectionHomeToForeign
         (hash_bytes (log_TransactionHash log) @ enc)),
     (HandleLegacyUserRequestForAffirmation G E p,
       \<lambda>log enc. unmarshalLegacyMessage G (beh_bridgeID p) DirectionForeignToHome
         (hash_bytes (log_TransactionHash log) @ enc))]"

text \<open>Property C7. The four handlers of message requests refine one operation of the ledger: the message
  decoded from the event is sent, and a message that was sent before stays as it was.\<close>

theorem request_refines_send:
  assumes "(h, decode) \<in> set (request_handlers G E p)" and "h log data w = (Inr (), w')"
  shows "\<exists>enc m. as_bytes data ''encodedData'' = Inr enc \<and> decode log enc = Inr m
    \<and> ledger_of (beh_bridgeID p) (w_db w') = ledger_send m (ledger_of (beh_bridgeID p) (w_db w))"
  using assms ledger_send_handlers [of G E p log data w "()" w']
  by (auto simp: request_handlers_def)

definition sample_message :: event_data where
  "sample_message = [(''encodedData'', VBytes (encode_v5 sample_mid 10 20 100000 0 [1] [100] [1, 2, 3]))]"

lemma request_refines_send_witness:
  "\<exists>enc m. as_bytes sample_message ''encodedData'' = Inr enc
    \<and> unmarshalMessage sample_geth (beh_bridgeID sample_handlers) DirectionForeignToHome enc = Inr m
    \<and> ledger_of (beh_bridgeID sample_handlers) (w_db (after (HandleUserRequestForAffirmation sample_geth sample_env
        sample_handlers (sample_log 1 20) sample_message) sample_world)) =
      ledger_send m (ledger_of (beh_bridgeID sample_handlers) (w_db sample_world))"
proof -
  note m = unmarshalMessage_encode_v5 [OF sample_geth_documented sample_mid_prefix, of "[1]" "[100]"
      "beh_bridgeID sample_handlers" DirectionForeignToHome 10 20 100000 0 "[1, 2, 3]"]
  have "runs (HandleUserRequestForAffirmation sample_geth sample_env sample_handlers (sample_log 1 20)
      sample_message) sample_world"
    unfolding runs_def HandleUserRequestForAffirmation_def
    by (simp add: bindE_apply as_bytes_def sample_message_def m run_simps)
  from request_refines_send [of "HandleUserRequestForAffirmation sample_geth sample_env sample_handlers"
      "\<lambda>log enc. unmarshalMessage sample_geth (beh_bridgeID sample_handlers) DirectionForeignToHome enc"
      sample_geth sample_env sample_handlers, OF _ after_ok [OF this]] show ?thesis
    by (simp add: request_handlers_def)
qed


text \<open>Property C8. The handlers of the events that complete an AMB message refine the operation
  \<open>execute\<close> of the ledger, when the event's log was not handled before.\<close>

theorem completion_refines_execute:
  assumes "h \<in> {HandleRelayedMessage E p, HandleAffirmationCompleted E p}" and "h log data w = (Inr (), w')"
    and "\<not> has_key em_LogID (log_ID log) (db_executed_messages (w_db w))"
  shows "\<exists>i. as_bytes32 data ''messageId'' = Inr i
    \<and> ledger_of (beh_bridgeID p) (w_db w') = ledger_execute i (ledger_of (beh_bridgeID p) (w_db w))"
  using assms(1,2) ledger_execute_handlers [OF assms(3), of E p data "()" w'] by auto

definition sample_completion :: event_data where
  "sample_completion = [(''messageId'', VBytes32 8), (''status'', VBool True)]"

lemma completion_refines_execute_witness:
  "ledger_of (beh_bridgeID sample_handlers) (w_db (after (HandleAffirmationCompleted sample_env sample_handlers
      (sample_log 2 10) sample_completion) sample_world)) =
    ledger_execute 8 (ledger_of (beh_bridgeID sample_handlers) (w_db sample_world))"
proof -
  have "runs (HandleAffirmationCompleted sample_env sample_handlers (sample_log 2 10) sample_completion)
      sample_world" by code_simp
  from completion_refines_execute [of "HandleAffirmationCompleted sample_env sample_handlers" sample_env
      sample_handlers, OF _ after_ok [OF this]] show ?thesis
    by (auto simp: has_key_def sample_world_def emptyDatabase_def as_bytes32_def sample_completion_def)
qed

text \<open>
  The history of a bridge on a database: what its handlers have recorded, operation by operation, while other handlers, other
  bridges and other clients do what they do to the rest. It starts where nothing is recorded for the bridge.
\<close>

definition nothing_recorded :: "string \<Rightarrow> database \<Rightarrow> bool" where
  "nothing_recorded b d \<longleftrightarrow> list_all (\<lambda>m. msg_BridgeID m \<noteq> b) (vals (db_messages d)) \<and>
     list_all (\<lambda>e. em_BridgeID e \<noteq> b) (vals (db_executed_messages d))"

definition same_records :: "string \<Rightarrow> database \<Rightarrow> database \<Rightarrow> bool" where
  "same_records b d d' \<longleftrightarrow>
     filter (\<lambda>m. msg_BridgeID m = b) (vals (db_messages d')) = filter (\<lambda>m. msg_BridgeID m = b) (vals (db_messages d)) \<and>
     filter (\<lambda>e. em_BridgeID e = b) (vals (db_executed_messages d')) = filter (\<lambda>e. em_BridgeID e = b) (vals (db_executed_messages d))"

inductive history :: "geth \<Rightarrow> env \<Rightarrow> BridgeEventHandler \<Rightarrow> ledger \<Rightarrow> world \<Rightarrow> bool"
  for G :: geth and E :: env and p :: BridgeEventHandler where
  Begins: "db_inv (w_db w) \<Longrightarrow> nothing_recorded (beh_bridgeID p) (w_db w) \<Longrightarrow>
    history G E p \<lparr>lg_sent = (\<lambda>h. None), lg_executed = {}\<rparr> w"
| Request: "history G E p L w \<Longrightarrow> (h, decode) \<in> set (request_handlers G E p) \<Longrightarrow> h log data w = (Inr (), w') \<Longrightarrow>
    as_bytes data ''encodedData'' = Inr enc \<Longrightarrow> decode log enc = Inr m \<Longrightarrow> history G E p (ledger_send m L) w'"
| Completion: "history G E p L w \<Longrightarrow> h \<in> {HandleRelayedMessage E p, HandleAffirmationCompleted E p} \<Longrightarrow>
    h log data w = (Inr (), w') \<Longrightarrow> \<not> has_key em_LogID (log_ID log) (db_executed_messages (w_db w)) \<Longrightarrow>
    as_bytes32 data ''messageId'' = Inr i \<Longrightarrow> history G E p (ledger_execute i L) w'"
| CompletionAgain: "history G E p L w \<Longrightarrow> h \<in> {HandleRelayedMessage E p, HandleAffirmationCompleted E p} \<Longrightarrow>
    h log data w = (Inr (), w') \<Longrightarrow> has_key em_LogID (log_ID log) (db_executed_messages (w_db w)) \<Longrightarrow> history G E p L w'"
| Elsewhere: "history G E p L w \<Longrightarrow> db_inv (w_db w') \<Longrightarrow> same_records (beh_bridgeID p) (w_db w) (w_db w') \<Longrightarrow>
    history G E p L w'"












text \<open>Property C10. A transfer from the foreign to the home chain: when the request has been handled, and
  later the event of its completion (same recipient, same value, the hash of the requesting transaction), the
  message of the transfer is in the table and no later query reports it as pending.\<close>

theorem erc_affirmation_settled:
  assumes "HandleErcToNativeUserRequestForAffirmation G E p log data w0 = (Inr (), w1)"
    and "as_address data ''recipient'' = Inr r" "as_big data ''value'' = Inr v"
    and "db_le (w_db w1) (w_db w2)"
    and "\<not> has_key em_LogID (log_ID log') (db_executed_messages (w_db w2))"
    and "HandleErcToNativeAffirmationCompleted G E p log' data' w2 = (Inr (), w3)"
    and "as_address data' ''recipient'' = Inr r" "as_big data' ''value'' = Inr v"
    and "as_bytes32 data' ''transactionHash'' = Inr (log_TransactionHash log)"
    and "db_le (w_db w3) (w_db w4)" and "ErcToNativeMessages_FindPendingMessages E (beh_bridgeID p) w4 = (Inr ms, w5)"
  shows "has_key erc_key (beh_bridgeID p, erc_foreign_id G r v (log_TransactionHash log))
      (db_erc_to_native_messages (w_db w4))
    \<and> erc_foreign_id G r v (log_TransactionHash log) \<notin> set (map erc_MsgHash ms)"
proof -
  let ?h = "erc_foreign_id G r v (log_TransactionHash log)"
  have "executed (w_db w3) (beh_bridgeID p) ?h"
    by (rule erc_completion_executes(2) [OF assms(7,8,9,5,6)])
  then have "executed (w_db w4) (beh_bridgeID p) ?h" by (rule executed_mono [OF _ assms(10)])
  moreover have "db_le (w_db w2) (w_db w3)"
    using handlers_grow(13) assms(6) by (intro grows_le) (rule keepsE_apply)
  then have "db_le (w_db w1) (w_db w4)" using assms(4,10) by (meson db_le_trans)
  then have "has_key erc_key (beh_bridgeID p, ?h) (db_erc_to_native_messages (w_db w4))"
    by (rule erc_key_stays [OF erc_request_stored(2) [OF assms(1-3)]])
  ultimately show ?thesis using erc_pending_iff [OF assms(11)] by auto
qed


definition sample_requested :: world where
  "sample_requested = after (HandleErcToNativeUserRequestForAffirmation sample_geth sample_env sample_handlers
     (sample_log 1 20) sample_transfer) sample_world"

definition sample_completed :: world where
  "sample_completed = after (HandleErcToNativeAffirmationCompleted sample_geth sample_env sample_handlers
     (sample_log 2 10) sample_transfer) sample_requested"

lemma sample_requested_run:
  "HandleErcToNativeUserRequestForAffirmation sample_geth sample_env sample_handlers (sample_log 1 20)
     sample_transfer sample_world = (Inr (), sample_requested)"
proof -
  have "runs (HandleErcToNativeUserRequestForAffirmation sample_geth sample_env sample_handlers
      (sample_log 1 20) sample_transfer) sample_world"
    unfolding runs_def HandleErcToNativeUserRequestForAffirmation_def by (simp add: transfer_simps)
  from after_ok [OF this] show ?thesis unfolding sample_requested_def .
qed

lemma sample_completed_run:
  "HandleErcToNativeAffirmationCompleted sample_geth sample_env sample_handlers (sample_log 2 10)
     sample_transfer sample_requested = (Inr (), sample_completed)"
proof -
  have "runs (HandleErcToNativeAffirmationCompleted sample_geth sample_env sample_handlers
      (sample_log 2 10) sample_transfer) sample_requested"
    unfolding runs_def HandleErcToNativeUserRequestForAffirmation_def HandleErcToNativeAffirmationCompleted_def
      sample_requested_def after_def
    by (simp add: transfer_simps)
  from after_ok [OF this] show ?thesis unfolding sample_completed_def .
qed

lemma erc_affirmation_settled_witness:
  "has_key erc_key (beh_bridgeID sample_handlers, erc_foreign_id sample_geth 5 1000 9)
     (db_erc_to_native_messages (w_db sample_completed)) \<and>
   (\<exists>ms w. ErcToNativeMessages_FindPendingMessages sample_env (beh_bridgeID sample_handlers) sample_completed =
     (Inr ms, w) \<and> erc_foreign_id sample_geth 5 1000 9 \<notin> set (map erc_MsgHash ms))"
proof -
  have none: "\<not> has_key em_LogID 2 (db_executed_messages (w_db sample_requested))"
    unfolding sample_requested_def after_def HandleErcToNativeUserRequestForAffirmation_def
    by (simp add: transfer_simps has_key_def)
  obtain ms w where "ErcToNativeMessages_FindPendingMessages sample_env (beh_bridgeID sample_handlers)
      sample_completed = (Inr ms, w)"
    by (simp add: ErcToNativeMessages_FindPendingMessages_def sample_query)
  with erc_affirmation_settled [OF sample_requested_run _ _ db_le_refl _ sample_completed_run _ _ _ db_le_refl this]
    none show ?thesis
    by (simp add: as_address_def as_big_def as_bytes32_def sample_transfer_def)
qed


text \<open>A transfer from the home to the foreign chain, likewise; here the identifier also
  names the foreign bridge contract, which the completing event comes from.\<close>

theorem erc_signature_settled:
  assumes "HandleErcToNativeUserRequestForSignature G E p log data w0 = (Inr (), w1)"
    and "as_address data ''recipient'' = Inr r" "as_big data ''value'' = Inr v"
    and "db_le (w_db w1) (w_db w2)"
    and "\<not> has_key em_LogID (log_ID log') (db_executed_messages (w_db w2))"
    and "HandleErcToNativeRelayedMessage G E p log' data' w2 = (Inr (), w3)"
    and "as_address data' ''recipient'' = Inr r" "as_big data' ''value'' = Inr v"
    and "as_bytes32 data' ''transactionHash'' = Inr (log_TransactionHash log)"
    and "log_Address log' = bs_Address (bc_Foreign (beh_cfg p))"
    and "db_le (w_db w3) (w_db w4)" and "ErcToNativeMessages_FindPendingMessages E (beh_bridgeID p) w4 = (Inr ms, w5)"
  shows "has_key erc_key (beh_bridgeID p, erc_home_id G (log_Address log') r v (log_TransactionHash log))
      (db_erc_to_native_messages (w_db w4))
    \<and> erc_home_id G (log_Address log') r v (log_TransactionHash log) \<notin> set (map erc_MsgHash ms)"
proof -
  let ?h = "erc_home_id G (log_Address log') r v (log_TransactionHash log)"
  have "executed (w_db w3) (beh_bridgeID p) ?h"
    by (rule erc_completion_executes(1) [OF assms(7,8,9,5,6)])
  then have "executed (w_db w4) (beh_bridgeID p) ?h" by (rule executed_mono [OF _ assms(11)])
  moreover have "db_le (w_db w2) (w_db w3)"
    using handlers_grow(11) assms(6) by (intro grows_le) (rule keepsE_apply)
  then have "db_le (w_db w1) (w_db w4)" using assms(4,11) by (meson db_le_trans)
  then have "has_key erc_key (beh_bridgeID p, ?h) (db_erc_to_native_messages (w_db w4))"
    unfolding assms(10) by (rule erc_key_stays [OF erc_request_stored(1) [OF assms(1-3)]])
  ultimately show ?thesis using erc_pending_iff [OF assms(12)] by auto
qed

lemma sample_tx:
  "TransactionByHash (beh_homeClient sample_handlers) h w =
     (Inr \<lparr>tx_Value = 0, tx_Data = []\<rparr>, w\<lparr>w_tick := Suc (w_tick w)\<rparr>)"
  by (simp add: TransactionByHash_def rpc_def sample_handlers_def NewBridgeEventHandler_def sample_node_def)

definition sample_home_requested :: world where
  "sample_home_requested = after (HandleErcToNativeUserRequestForSignature sample_geth sample_env sample_handlers
     (sample_log 2 10) sample_transfer) sample_world"

definition sample_home_completed :: world where
  "sample_home_completed = after (HandleErcToNativeRelayedMessage sample_geth sample_env sample_handlers
     (sample_log 1 20) sample_transfer) sample_home_requested"

lemma sample_home_requested_run:
  "HandleErcToNativeUserRequestForSignature sample_geth sample_env sample_handlers (sample_log 2 10)
     sample_transfer sample_world = (Inr (), sample_home_requested)"
proof -
  have "runs (HandleErcToNativeUserRequestForSignature sample_geth sample_env sample_handlers
      (sample_log 2 10) sample_transfer) sample_world"
    unfolding runs_def HandleErcToNativeUserRequestForSignature_def by (simp add: transfer_simps sample_tx)
  from after_ok [OF this] show ?thesis unfolding sample_home_requested_def .
qed

lemma sample_home_completed_run:
  "HandleErcToNativeRelayedMessage sample_geth sample_env sample_handlers (sample_log 1 20)
     sample_transfer sample_home_requested = (Inr (), sample_home_completed)"
proof -
  have "runs (HandleErcToNativeRelayedMessage sample_geth sample_env sample_handlers
      (sample_log 1 20) sample_transfer) sample_home_requested"
    unfolding runs_def HandleErcToNativeUserRequestForSignature_def HandleErcToNativeRelayedMessage_def
      sample_home_requested_def after_def
    by (simp add: transfer_simps sample_tx)
  from after_ok [OF this] show ?thesis unfolding sample_home_completed_def .
qed

lemma sample_foreign_address: "bs_Address (bc_Foreign (beh_cfg sample_handlers)) = 20"
  by (simp add: sample_handlers_def NewBridgeEventHandler_def sample_config_init_def sample_config_def Config_init_def
      BridgeConfig_init_def BridgeSideConfig_init_def sample_bridge_def sample_side_def Let_def)

lemma erc_signature_settled_witness:
  "has_key erc_key (beh_bridgeID sample_handlers, erc_home_id sample_geth 20 5 1000 9)
     (db_erc_to_native_messages (w_db sample_home_completed)) \<and>
   (\<exists>ms w. ErcToNativeMessages_FindPendingMessages sample_env (beh_bridgeID sample_handlers) sample_home_completed =
     (Inr ms, w) \<and> erc_home_id sample_geth 20 5 1000 9 \<notin> set (map erc_MsgHash ms))"
proof -
  have none: "\<not> has_key em_LogID 1 (db_executed_messages (w_db sample_home_requested))"
    unfolding sample_home_requested_def after_def HandleErcToNativeUserRequestForSignature_def
    by (simp add: transfer_simps sample_tx has_key_def)
  obtain ms w where "ErcToNativeMessages_FindPendingMessages sample_env (beh_bridgeID sample_handlers)
      sample_home_completed = (Inr ms, w)"
    by (simp add: ErcToNativeMessages_FindPendingMessages_def sample_query)
  with erc_signature_settled [OF sample_home_requested_run _ _ db_le_refl _ sample_home_completed_run _ _ _ _ db_le_refl this]
    none show ?thesis
    by (simp add: as_address_def as_big_def as_bytes32_def sample_transfer_def sample_foreign_address)
qed

text \<open>The bytes that identify a transfer determine it: recipient, value, transaction hash and,
  from the home chain, the bridge; so two transfers share an identifier only if their bytes collide under
  the hash.\<close>

theorem erc_bytes_determine:
  assumes "geth_documented G" and "0 \<le> v" "v < 2 ^ 256" "0 \<le> v'" "v' < 2 ^ 256"
  shows "(erc_msg G r v t = erc_msg G r' v' t' \<longleftrightarrow> r = r' \<and> v = v' \<and> t = t')
    \<and> (erc_msg G r v t @ address_bytes b = erc_msg G r' v' t' @ address_bytes b' \<longleftrightarrow>
        r = r' \<and> v = v' \<and> t = t' \<and> b = b')"
  using erc_msg_inject [OF assms, of r t "[]" r' t' "[]"]
    erc_msg_inject [OF assms, of r t "address_bytes b" r' t' "address_bytes b'"] by simp

lemma erc_bytes_determine_witness:
  "erc_msg sample_geth 5 1000 9 \<noteq> erc_msg sample_geth 5 1001 9
   \<and> erc_msg sample_geth 5 1000 9 @ address_bytes 1 \<noteq> erc_msg sample_geth 5 1000 9 @ address_bytes 2"
  using erc_bytes_determine [OF sample_geth_documented, of 1000 1001 5 9 5 9 1 1]
    erc_bytes_determine [OF sample_geth_documented, of 1000 1000 5 9 5 9 1 2] by simp


text \<open>The row of a validator's signature of a foreign transfer, read out of the calldata of the
  signing transaction, names the identifier under which the request of that transfer is stored.\<close>

theorem erc_signature_names_request:
  assumes "HandleErcToNativeSignedForAffirmation G E p log data w = (Inr (), w')"
    and "node_TransactionByHash (beh_homeClient p) (w_tick w) (log_TransactionHash log) =
      Inr \<lparr>tx_Value = x, tx_Data = selector @ replicate 12 0 @ erc_msg G r v t\<rparr>"
    and "length selector = 4" and "\<not> has_key sgm_LogID (log_ID log) (db_signed_messages (w_db w))"
  shows "\<exists>a. as_address data ''signer'' = Inr a \<and> lookup sgm_LogID (db_signed_messages (w_db w')) (log_ID log) =
    Some \<lparr>sgm_LogID = log_ID log, sgm_BridgeID = beh_bridgeID p, sgm_MsgHash = erc_foreign_id G r v t,
      sgm_Signer = a\<rparr>"
  by (rule erc_signature_hash [OF assms])

definition sample_calldata :: "byte list" where
  "sample_calldata = [1, 2, 3, 4] @ replicate 12 0 @ erc_msg sample_geth 5 1000 9"

definition sample_signing_node :: node where
  "sample_signing_node = (sample_node 200 [])\<lparr>node_TransactionByHash :=
     (\<lambda>t h. Inr \<lparr>tx_Value = 0, tx_Data = sample_calldata\<rparr>)\<rparr>"

lemma sample_calldata_slice: "slice_from sample_calldata 16 = Inr (erc_msg sample_geth 5 1000 9)"
  using slice_from_append [of "[1, 2, 3, 4] @ replicate 12 0" 16 "erc_msg sample_geth 5 1000 9"]
  by (simp add: sample_calldata_def)

lemma erc_signature_names_request_witness:
  "lookup sgm_LogID (db_signed_messages (w_db (after (HandleErcToNativeSignedForAffirmation sample_geth sample_env
      (sample_handlers\<lparr>beh_homeClient := sample_signing_node\<rparr>) (sample_log 2 10) [(''signer'', VAddress 6)])
      sample_world))) 2 =
    Some \<lparr>sgm_LogID = 2, sgm_BridgeID = beh_bridgeID sample_handlers, sgm_MsgHash = erc_foreign_id sample_geth 5 1000 9,
      sgm_Signer = 6\<rparr>"
proof -
  let ?p = "sample_handlers\<lparr>beh_homeClient := sample_signing_node\<rparr>"
  let ?h = "HandleErcToNativeSignedForAffirmation sample_geth sample_env ?p (sample_log 2 10) [(''signer'', VAddress 6)]"
  have tx: "node_TransactionByHash (beh_homeClient ?p) (w_tick sample_world) (log_TransactionHash (sample_log 2 10)) =
      Inr \<lparr>tx_Value = 0, tx_Data = [1, 2, 3, 4] @ replicate 12 0 @ erc_msg sample_geth 5 1000 9\<rparr>"
    by (simp add: sample_signing_node_def sample_calldata_def)
  have none: "\<not> has_key sgm_LogID (log_ID (sample_log 2 10)) (db_signed_messages (w_db sample_world))"
    by (simp add: has_key_def)
  have "runs ?h sample_world"
    unfolding runs_def HandleErcToNativeSignedForAffirmation_def
    by (simp add: transfer_simps TransactionByHash_def rpc_def sample_signing_node_def sample_calldata_slice)
  from erc_signature_names_request [OF after_ok [OF this] tx _ none] show ?thesis
    by (simp add: as_address_def)
qed

text \<open>A validator's addition, handled once, adds its address to the active validators of that
  bridge and chain.\<close>

theorem validator_added_counts:
  assumes "HandleValidatorAdded E p log data w = (Inr (), w')"
    and "\<not> has_key bv_LogID (log_ID log) (db_bridge_validators (w_db w))"
  shows "\<exists>a. as_address data ''validator'' = Inr a \<and>
    validators_of (beh_bridgeID p) (log_ChainID log) (w_db w') =
      add_mset a (validators_of (beh_bridgeID p) (log_ChainID log) (w_db w))"
  by (rule validators_added [OF assms])

definition sample_validator :: event_data where
  "sample_validator = [(''validator'', VAddress 6)]"

definition sample_added :: world where
  "sample_added = after (HandleValidatorAdded sample_env sample_handlers (sample_log 2 10) sample_validator) sample_world"

lemma sample_added_run:
  "HandleValidatorAdded sample_env sample_handlers (sample_log 2 10) sample_validator sample_world = (Inr (), sample_added)"
proof -
  have "runs (HandleValidatorAdded sample_env sample_handlers (sample_log 2 10) sample_validator) sample_world"
    unfolding runs_def HandleValidatorAdded_def
    by (simp add: transfer_simps sample_validator_def BridgeValidators_Ensure_def sample_exec
        ensure_stmt_def ensure_row_def opt_log_exists_def)
  from after_ok [OF this] show ?thesis unfolding sample_added_def .
qed

lemma sample_validators_none: "validators_of b c (w_db sample_world) = {#}"
  by (simp add: validators_of_def)

lemma validator_added_counts_witness:
  "validators_of (beh_bridgeID sample_handlers) ''100'' (w_db sample_added) = {#6#}"
  using validator_added_counts [OF sample_added_run]
  by (simp add: has_key_def as_address_def sample_validator_def sample_validators_none)

text \<open>Property C11. On a database that satisfies its constraints, a validator's removal takes one entry of its
  address from the active validators, and nothing when there is none.\<close>

theorem validator_removed_counts:
  assumes "db_inv (w_db w)" and "HandleValidatorRemoved E p log data w = (Inr (), w')"
  shows "\<exists>a. as_address data ''validator'' = Inr a \<and>
    validators_of (beh_bridgeID p) (log_ChainID log) (w_db w') =
      validators_of (beh_bridgeID p) (log_ChainID log) (w_db w) - {#a#}"
  by (rule validators_removed [OF assms])

lemma sample_added_inv: "db_inv (w_db sample_added)"
  using keepsE_apply [OF handlers_grow(18) sample_added_run] sample_inv by (simp add: grows_def)

lemma sample_added_rows:
  "vals (db_bridge_validators (w_db sample_added)) = [\<lparr>bv_LogID = 2, bv_BridgeID = beh_bridgeID sample_handlers,
     bv_ChainID = ''100'', bv_Address = 6, bv_RemovedLogID = None\<rparr>]" "log_ids (w_db sample_added) = [1, 2, 3]"
  unfolding sample_added_def after_def HandleValidatorAdded_def
  by (simp_all add: transfer_simps sample_validator_def BridgeValidators_Ensure_def sample_exec
      ensure_stmt_def ensure_row_def opt_log_exists_def upsert_def vals_def log_ids_def)
    (simp_all add: sample_world_def sample_log_def emptyDatabase_def)

definition sample_removed :: world where
  "sample_removed = after (HandleValidatorRemoved sample_env sample_handlers (sample_log 3 20) sample_validator) sample_added"

lemma sample_removed_run:
  "HandleValidatorRemoved sample_env sample_handlers (sample_log 3 20) sample_validator sample_added = (Inr (), sample_removed)"
proof -
  have row: "list_ex (\<lambda>r. bv_LogID (r_val r) = 2) (db_bridge_validators (w_db sample_added))"
    using sample_added_rows(1) by (simp add: list_ex_key)
  have "runs (HandleValidatorRemoved sample_env sample_handlers (sample_log 3 20) sample_validator) sample_added"
    unfolding runs_def HandleValidatorRemoved_def
    by (simp add: transfer_simps sample_validator_def BridgeValidators_GetActiveValidator_def sample_query
        IgnoreErrNotFound_def sample_added_rows active_validator_def first_row_def BridgeValidators_Ensure_def
        ensure_stmt_def ensure_row_def opt_log_exists_def row sample_exec)
  from after_ok [OF this] show ?thesis unfolding sample_removed_def .
qed

lemma validator_removed_counts_witness:
  "validators_of (beh_bridgeID sample_handlers) ''100'' (w_db sample_removed) =
     validators_of (beh_bridgeID sample_handlers) ''100'' (w_db sample_added) - {#6#}"
  using validator_removed_counts [OF sample_added_inv sample_removed_run]
  by (simp add: as_address_def sample_validator_def)

text \<open>Handling the log of an addition again makes the validator active again, also when it was
  removed since: the update clause overwrites the reference to the removal. (A handler that runs twice on
  one log is not harmless here, unlike the others.)\<close>

theorem validator_added_again_active:
  assumes "HandleValidatorAdded E p log data w = (Inr (), w')"
    and "lookup bv_LogID (db_bridge_validators (w_db w)) (log_ID log) = Some v"
  shows "\<exists>v'. lookup bv_LogID (db_bridge_validators (w_db w')) (log_ID log) = Some v'
    \<and> active_validator (bv_BridgeID v) (bv_ChainID v) v' \<and> bv_Address v' = bv_Address v"
  by (rule validator_added_again [OF assms refl refl])

lemma validator_added_again_active_witness:
  "\<exists>w' v'. HandleValidatorAdded sample_env sample_handlers (sample_log 2 10) sample_validator sample_removed = (Inr (), w')
    \<and> lookup bv_LogID (db_bridge_validators (w_db w')) 2 = Some v' \<and> bv_Address v' = 6
    \<and> active_validator (beh_bridgeID sample_handlers) ''100'' v'"
proof -
  have row: "list_ex (\<lambda>r. bv_LogID (r_val r) = 2) (db_bridge_validators (w_db sample_added))"
    using sample_added_rows(1) by (simp add: list_ex_key)
  have rows: "vals (db_bridge_validators (w_db sample_removed)) = [\<lparr>bv_LogID = 2, bv_BridgeID = beh_bridgeID sample_handlers,
      bv_ChainID = ''100'', bv_Address = 6, bv_RemovedLogID = Some 3\<rparr>]" "log_ids (w_db sample_removed) = [1, 2, 3]"
    unfolding sample_removed_def after_def HandleValidatorRemoved_def
    by (simp_all add: transfer_simps sample_validator_def BridgeValidators_GetActiveValidator_def sample_query
        IgnoreErrNotFound_def sample_added_rows active_validator_def first_row_def BridgeValidators_Ensure_def
        ensure_stmt_def ensure_row_def opt_log_exists_def row sample_exec validators_tbl.vals_upsert
        upd_validator_def)
  have present: "list_ex (\<lambda>r. bv_LogID (r_val r) = 2) (db_bridge_validators (w_db sample_removed))"
    using rows(1) by (simp add: list_ex_key)
  have "runs (HandleValidatorAdded sample_env sample_handlers (sample_log 2 10) sample_validator) sample_removed"
    unfolding runs_def HandleValidatorAdded_def
    by (simp add: transfer_simps sample_validator_def BridgeValidators_Ensure_def sample_exec
        ensure_stmt_def ensure_row_def opt_log_exists_def present rows)
  from validator_added_again_active [OF after_ok [OF this]] after_ok [OF this] show ?thesis
    using rows(1) by (auto simp: lookup_def)
qed


text \<open>Saving logs: on success every log comes back with the id of a row of its position in the
  database, the order is kept, no position occurs twice and every column is in its domain.\<close>

theorem saved_logs_have_rows:
  assumes "Logs_Ensure E logs w = (Inr logs', w')"
  shows "list_all2 (\<lambda>l l'. l' = l\<lparr>log_ID := log_ID l'\<rparr> \<and> stored (w_db w') l (log_ID l')) logs logs'
    \<and> distinct (map log_key logs) \<and> list_all log_columns_ok logs"
  using Logs_Ensure_stored [OF assms] by blast

lemma saved_logs_have_rows_witness:
  "\<exists>logs'. length logs' = 2 \<and> list_all2 (\<lambda>l l'. l' = l\<lparr>log_ID := log_ID l'\<rparr> \<and>
     stored (w_db (snd (Logs_Ensure sample_env [sample_log 1 20, sample_log 7 20] sample_world))) l (log_ID l'))
     [sample_log 1 20, sample_log 7 20] logs'"
proof -
  obtain logs' w' where run: "Logs_Ensure sample_env [sample_log 1 20, sample_log 7 20] sample_world = (Inr logs', w')"
  proof -
    have seq: "db_logs_seq (w_db sample_world) = 3" by (simp add: sample_world_def)
    show thesis
      by (rule that) (simp add: Logs_Ensure_def bindE_apply sample_exec seq log_columns_ok_def int4_ok_def int4_max_def
          log_key_def Let_def, simp add: sample_log_def sentinelLog_def)
  qed
  from saved_logs_have_rows [OF run] have l2: "list_all2 (\<lambda>l l'. l' = l\<lparr>log_ID := log_ID l'\<rparr> \<and> stored (w_db w') l (log_ID l'))
      [sample_log 1 20, sample_log 7 20] logs'" by blast
  moreover have "length logs' = 2" using list_all2_lengthD [OF l2] by simp
  ultimately show ?thesis unfolding run snd_conv by blast
qed

text \<open>A cursor that was saved is read back as it was saved.\<close>

theorem cursor_roundtrip:
  assumes "db_inv (w_db w)" and "LogsCursors_Ensure E c w = (Inr (), w1)"
    and "LogsCursors_GetByChainIDAndAddress E (lc_ChainID c) (lc_Address c) w1 = (Inr c', w2)"
  shows "c' = c"
proof -
  let ?rows = "db_logs_cursors (w_db w)"
  have "vals (db_logs_cursors (w_db w1)) = (if cursor_key c \<in> cursor_key ` set (vals ?rows)
      then map (\<lambda>v. if cursor_key v = cursor_key c then upd_cursor v c else v) (vals ?rows) else vals ?rows @ [c])"
    using assms(2) unfolding LogsCursors_Ensure_def
    by (auto simp: db_exec_Inr ensure_stmt_Inr cursors_tbl.vals_upsert dest!: ensure_row_SomeD)
  moreover have "upd_cursor v c = c" if "cursor_key v = cursor_key c" for v
    using that by (cases v; cases c) (simp add: upd_cursor_def cursor_key_def)
  moreover have "c' \<in> set (vals (db_logs_cursors (w_db w1))) \<and> cursor_key c' = cursor_key c"
    using assms(3) unfolding LogsCursors_GetByChainIDAndAddress_def db_query_Inr
    by (auto simp: cursor_key_def dest!: first_row_in)
  ultimately show ?thesis by (auto simp: image_iff split: if_splits)
qed

definition sample_cursor :: LogsCursor where
  "sample_cursor = \<lparr>lc_ChainID = ''100'', lc_Address = 10, lc_LastFetchedBlock = 150, lc_LastProcessedBlock = 130\<rparr>"

lemma cursor_roundtrip_witness:
  "\<exists>w1 c' w2. LogsCursors_Ensure sample_env sample_cursor sample_world = (Inr (), w1) \<and>
     LogsCursors_GetByChainIDAndAddress sample_env ''100'' 10 w1 = (Inr c', w2) \<and> c' = sample_cursor"
proof -
  have "LogsCursors_Ensure sample_env sample_cursor sample_world = (Inr (), after (LogsCursors_Ensure sample_env
      sample_cursor) sample_world)" (is "_ = (_, ?w1)")
    by (rule after_ok) (simp add: runs_def LogsCursors_Ensure_def sample_exec ensure_stmt_def ensure_row_def
        cursor_ok_def sample_cursor_def int4_ok_def int4_max_def)
  moreover have "\<exists>c' w2. LogsCursors_GetByChainIDAndAddress sample_env (lc_ChainID sample_cursor)
      (lc_Address sample_cursor) ?w1 = (Inr c', w2)"
    by (simp add: LogsCursors_GetByChainIDAndAddress_def sample_query after_def LogsCursors_Ensure_def sample_exec
        ensure_stmt_def ensure_row_def cursor_ok_def sample_cursor_def int4_ok_def int4_max_def upsert_def vals_def
        first_row_def)
  ultimately show ?thesis
    using cursor_roundtrip [OF sample_inv] by (fastforce simp: sample_cursor_def)
qed

text \<open>The check of the event handlers against the ABI of the bridge, made at start-up, passes in
  both modes: every event a handler is registered for is an event of the ABI.\<close>

theorem startup_check_passes:
  "VerifyEventHandlersABI (getBridgeABI G (bc_BridgeMode cfg)) (fst (registered G E cfg N)) = Inr () \<and>
   VerifyEventHandlersABI (getBridgeABI G (bc_BridgeMode cfg)) (snd (registered G E cfg N)) = Inr ()"
  by (simp add: registered_in_abi)

text \<open>The ways in which the handling of one log may fail.\<close>

definition log_failures :: "failure set" where
  "log_failures = {Err ErrDB, Err ErrConstraint, Err ErrRPC, Err ErrCrypto, Err ErrABI, Err ErrInvalidEvent, Panic}"

lemma ParseLog_fails:
  assumes "abi_documented L" and "ParseLog L evs log = Inl f"
  shows "f \<in> log_failures"
proof (cases "Topics log = []")
  case True
  with assms(2) show ?thesis by (simp add: ParseLog_def log_failures_def)
next
  case False
  then obtain e where "DecodeLogData L e (Topics log) (log_Data log) = Inl f"
    using assms(2) by (auto simp: ParseLog_def Let_def FindMatchingEventABI_find res_bind_Inl_iff split: option.splits)
  with assms(1) show ?thesis
    unfolding DecodeLogData_def Let_def
    by (auto simp: res_bind_Inl_iff abi_documented_def log_failures_def slice_from_def slice_def split: if_splits)
qed

lemma registered_names: "map_of (fst (registered G E cfg N)) [] = None" "map_of (snd (registered G E cfg N)) [] = None"
  by (cases "bc_BridgeMode cfg"; simp add: registered_defs event_names)+

text \<open>Property C29. Handling one log never fails on the type of an argument, nor on a missing row: it fails only
  on the database, on a refused row, on the node, on a log the ABI library cannot read or that has no topic,
  or by a panic in a decoder.\<close>

theorem log_failures_only:
  assumes "abi_documented L" and "node_documented N"
    and "m \<in> {homeMonitor G E cfg N, foreignMonitor G E cfg N N'}"
    and "processLog L m log w = (Inl f, w')"
  shows "f \<in> log_failures"
proof -
  let ?hs = "mon_eventHandlers m"
  have abi: "mon_ABI m = getBridgeABI G (bc_BridgeMode cfg)"
    using assms(3) by (auto simp: homeMonitor_def foreignMonitor_def)
  have typed: "well_typed_handler e h" if "map_of ?hs e = Some h" for e h
    using that assms(3) registered_well_typed [OF assms(2), of G E cfg]
    by (fastforce simp: homeMonitor_def foreignMonitor_def dest: map_of_SomeD)
  have named: "map_of ?hs [] = None"
    using assms(3) by (auto simp: homeMonitor_def foreignMonitor_def registered_names)
  show ?thesis
  proof (cases "ParseLog L (mon_ABI m) log")
    case (Inl g)
    with assms(4) have "f = g" by (simp add: processLog_def bindE_liftE_apply)
    with Inl assms(1) show ?thesis by (auto intro: ParseLog_fails)
  next
    case (Inr x)
    obtain event data where x: "x = (event, data)" by (cases x)
    show ?thesis
    proof (cases "map_of ?hs event")
      case None
      with Inr x assms(4) show ?thesis
        by (auto simp: processLog_def bindE_liftE_apply log_failures_def split: if_splits)
    next
      case (Some h)
      with named have "event \<noteq> []" by auto
      then obtain e where e: "e \<in> set (mon_ABI m)" "event = ev_String e" "typed_map (ev_Inputs e) data"
        using ParseLog_typed [OF assms(1) _ Inr [unfolded x]] bridge_events_wf [of G] unfolding abi by blast
      have "declares e" using e(1) bridge_events_declare [of G] unfolding abi by (auto simp: list_all_iff)
      with e have "passes data (required_args event)" by (auto intro: declared_passes)
      with typed [OF Some] have "fails_in handler_failures (h log data)" by (simp add: well_typed_handler_def)
      moreover have "fst (h log data w) = Inl f"
        using assms(4) Inr x Some by (simp add: processLog_def bindE_liftE_apply)
      ultimately have "f \<in> handler_failures" by (auto simp: fails_in_def)
      then show ?thesis by (auto simp: handler_failures_def log_failures_def)
    qed
  qed
qed


lemma sample_node_documented: "node_documented (sample_node n logs)"
  by (simp add: node_documented_def sample_node_def)

lemma log_failures_only_witness:
  "processLog sample_abilib (homeMonitor sample_geth sample_env (snd (hd (cfg_Bridges sample_config_init)))
      (sample_node 200 [])) sentinelLog sample_world = (Inl (Err ErrInvalidEvent), sample_world)
   \<and> Err ErrInvalidEvent \<in> log_failures"
proof -
  let ?m = "homeMonitor sample_geth sample_env (snd (hd (cfg_Bridges sample_config_init))) (sample_node 200 [])"
  have run: "processLog sample_abilib ?m sentinelLog sample_world = (Inl (Err ErrInvalidEvent), sample_world)"
    by (simp add: processLog_def bindE_liftE_apply ParseLog_def Topics_def sentinelLog_def)
  with log_failures_only [OF sample_abilib_documented sample_node_documented _ run] show ?thesis by blast
qed

text \<open>Property C30. Handling a batch, however it ends and wherever it fails, keeps the constraints of the
  database and loses no row.\<close>

theorem batch_keeps_database:
  assumes "m \<in> {homeMonitor G E cfg N, foreignMonitor G E cfg N N'}"
    and "tryToProcessLogsBatch L m batch w = (res, w')"
  shows "db_le (w_db w) (w_db w') \<and> (db_inv (w_db w) \<longrightarrow> db_inv (w_db w'))"
proof -
  have "keepsE grows (h log data)" if "map_of (mon_eventHandlers m) e = Some h" for e h log data
    by (rule registered_grow [of G E cfg N e]) (use that assms(1) in \<open>auto simp: homeMonitor_def foreignMonitor_def\<close>)
  then have "keepsE grows (processLog L m log)" for log
    unfolding processLog_def by (intro keepsE_grows_bindE) (auto split: option.split)
  then have "keepsE grows (processLogs L m logs)" for logs
    by (induction logs) (auto intro!: keepsE_grows_bindE)
  with assms(2) have "grows w w'" unfolding tryToProcessLogsBatch_def by (auto dest: keepsE_apply)
  then show ?thesis by (simp add: grows_def)
qed

lemma batch_keeps_database_witness:
  "\<exists>res w'. tryToProcessLogsBatch sample_abilib (homeMonitor sample_geth sample_env
       (snd (hd (cfg_Bridges sample_config_init))) (sample_node 200 [])) \<lparr>lb_BlockNumber = 121, lb_Logs = [sample_log 1 20]\<rparr>
       sample_world = (res, w') \<and> db_inv (w_db w')"
proof -
  let ?m = "homeMonitor sample_geth sample_env (snd (hd (cfg_Bridges sample_config_init))) (sample_node 200 [])"
  obtain res w' where "tryToProcessLogsBatch sample_abilib ?m \<lparr>lb_BlockNumber = 121, lb_Logs = [sample_log 1 20]\<rparr>
      sample_world = (res, w')" by fastforce
  with batch_keeps_database [OF _ this] sample_inv show ?thesis by blast
qed

end
