(* ===== verification/Indexer.thy ===== *)
theory Indexer
  imports ContractMonitor
begin

text \<open>
  The goroutines of a contract monitor (\<open>Start\<close> and the loops of
  \<open>monitor/contract_monitor.go\<close>) as a step relation. The block fetcher polls the head and
  schedules ranges on a channel of capacity 10; the logs fetcher first loads what was fetched but not
  processed before the last stop, then takes ranges, fetches and saves their logs, records the cursor and
  sends batches on a channel of capacity 200; the logs processor handles one batch at a time, with the
  block timestamp fetched beside it, and records the cursor.

  A step is one action of one goroutine: a call of the node, one or more calls of the database that touch
  no shared memory, the handling of one log, an assignment to the shared cursor, the reading of the cursor
  for a statement, the statement itself, a channel operation. The flag \<open>isSynced\<close> is computed in the step that
  records a block, though two goroutines compute it without a lock (theory \<open>Gauges\<close> tells what that can do to it): the
  goroutines never read it, and only alert jobs do. The process may stop at any point, and a panic
  stops it; a restart reads the cursor back. Other activity on the database may happen between any two
  steps.
\<close>

datatype block_fetcher = BfPoll uint | BfSend "BlocksRange list" uint

datatype logs_fetcher =
    LfLoad uint uint
  | LfSend "LogsBatch list"
  | LfIdle
  | LfFetch BlocksRange
  | LfRecord BlocksRange "Log list"
  | LfPrepare BlocksRange "Log list"
  | LfSave LogsCursor BlocksRange "Log list"

datatype logs_processor =
    LpIdle
  | LpRun LogsBatch bool "Log list"
  | LpRecord LogsBatch
  | LpPrepare LogsBatch
  | LpSave LogsCursor LogsBatch

record indexer =
  ix_up :: bool
  ix_w :: world
  ix_p :: progress
  ix_ranges :: "BlocksRange list"
  ix_logs :: "LogsBatch list"
  ix_bf :: block_fetcher
  ix_lf :: logs_fetcher
  ix_lp :: logs_processor

text \<open>\<open>Start\<close>: the goroutines at their first instructions.\<close>

definition Start :: "world \<Rightarrow> LogsCursor \<Rightarrow> indexer" where
  "Start w c = \<lparr>ix_up = True, ix_w = w, ix_p = initialProgress c, ix_ranges = [], ix_logs = [],
     ix_bf = BfPoll (lc_LastFetchedBlock c + 1),
     ix_lf = LfLoad (lc_LastProcessedBlock c + 1) (lc_LastFetchedBlock c), ix_lp = LpIdle\<rparr>"

definition mem_cursor :: "indexer \<Rightarrow> LogsCursor" where
  "mem_cursor s = pg_logsCursor (ix_p s)"

section \<open>Steps of the goroutines\<close>

text \<open>\<open>StartBlockFetcher\<close>\<close>

inductive bf_step :: "ContractMonitor \<Rightarrow> indexer \<Rightarrow> indexer \<Rightarrow> bool"
  for m :: ContractMonitor where
  Poll: "ix_bf s = BfPoll start \<Longrightarrow> BlockNumber (mon_client m) (ix_w s) = (Inr n, w') \<Longrightarrow>
    scheduleRanges (mon_cfg m) start n = Some (head, batches, start') \<Longrightarrow>
    bf_step m s (s\<lparr>ix_w := w', ix_p := recordHeadBlockNumber head (ix_p s),
      ix_bf := BfSend batches start'\<rparr>)"
| PollFails: "ix_bf s = BfPoll start \<Longrightarrow> BlockNumber (mon_client m) (ix_w s) = (Inl e, w') \<Longrightarrow>
    bf_step m s (s\<lparr>ix_w := w'\<rparr>)"
| SendRange: "ix_bf s = BfSend (r # rs) start \<Longrightarrow> length (ix_ranges s) < defaultBlockRangesChanCap \<Longrightarrow>
    bf_step m s (s\<lparr>ix_ranges := ix_ranges s @ [r], ix_bf := BfSend rs start\<rparr>)"
| Scheduled: "ix_bf s = BfSend [] start \<Longrightarrow> bf_step m s (s\<lparr>ix_bf := BfPoll start\<rparr>)"

text \<open>\<open>LoadUnprocessedLogs\<close>, then \<open>StartLogsFetcher\<close> with \<open>tryToFetchLogs\<close>\<close>

inductive lf_step :: "geth \<Rightarrow> env \<Rightarrow> ContractMonitor \<Rightarrow> indexer \<Rightarrow> indexer \<Rightarrow> bool"
  for G :: geth and E :: env and m :: ContractMonitor where
  Load: "ix_lf s = LfLoad f t \<Longrightarrow> LoadUnprocessedLogs E m f t (ix_w s) = (Inr bs, w') \<Longrightarrow>
    lf_step G E m s (s\<lparr>ix_w := w', ix_lf := LfSend bs\<rparr>)"
| LoadFails: "ix_lf s = LfLoad f t \<Longrightarrow> LoadUnprocessedLogs E m f t (ix_w s) = (Inl e, w') \<Longrightarrow>
    lf_step G E m s (s\<lparr>ix_w := w'\<rparr>)"
| SendBatch: "ix_lf s = LfSend (b # bs) \<Longrightarrow> length (ix_logs s) < defaultLogsChanCap \<Longrightarrow>
    lf_step G E m s (s\<lparr>ix_logs := ix_logs s @ [b], ix_lf := LfSend bs\<rparr>)"
| Submitted: "ix_lf s = LfSend [] \<Longrightarrow> lf_step G E m s (s\<lparr>ix_lf := LfIdle\<rparr>)"
| TakeRange: "ix_lf s = LfIdle \<Longrightarrow> ix_ranges s = r # rs \<Longrightarrow>
    lf_step G E m s (s\<lparr>ix_ranges := rs, ix_lf := LfFetch r\<rparr>)"
| Fetch: "ix_lf s = LfFetch r \<Longrightarrow> fetchAndSaveLogs G E m r (ix_w s) = (Inr logs, w') \<Longrightarrow>
    lf_step G E m s (s\<lparr>ix_w := w', ix_lf := LfRecord r logs\<rparr>)"
| FetchFails: "ix_lf s = LfFetch r \<Longrightarrow> fetchAndSaveLogs G E m r (ix_w s) = (Inl e, w') \<Longrightarrow>
    lf_step G E m s (s\<lparr>ix_w := w'\<rparr>)"
| FetchedBehind: "ix_lf s = LfRecord r logs \<Longrightarrow> setFetched (br_To r) (ix_p s) = None \<Longrightarrow>
    lf_step G E m s (s\<lparr>ix_lf := LfSend (submitLogs logs (br_To r))\<rparr>)"
| SetFetched: "ix_lf s = LfRecord r logs \<Longrightarrow> setFetched (br_To r) (ix_p s) = Some p' \<Longrightarrow>
    lf_step G E m s (s\<lparr>ix_p := p', ix_lf := LfPrepare r logs\<rparr>)"
| PrepareFetched: "ix_lf s = LfPrepare r logs \<Longrightarrow>
    lf_step G E m s (s\<lparr>ix_lf := LfSave (mem_cursor s) r logs\<rparr>)"
| SaveFetched: "ix_lf s = LfSave c r logs \<Longrightarrow> LogsCursors_Ensure E c (ix_w s) = (Inr u, w') \<Longrightarrow>
    lf_step G E m s (s\<lparr>ix_w := w', ix_lf := LfSend (submitLogs logs (br_To r))\<rparr>)"
| SaveFetchedFails: "ix_lf s = LfSave c r logs \<Longrightarrow> LogsCursors_Ensure E c (ix_w s) = (Inl e, w') \<Longrightarrow>
    lf_step G E m s (s\<lparr>ix_w := w', ix_lf := LfFetch r\<rparr>)"

text \<open>\<open>StartLogsProcessor\<close> with \<open>processLogsBatch\<close>\<close>

inductive lp_step :: "env \<Rightarrow> ContractMonitor \<Rightarrow> (Log \<Rightarrow> (world, unit) io) \<Rightarrow> indexer \<Rightarrow> indexer \<Rightarrow> bool"
  for E :: env and m :: ContractMonitor and handle :: "Log \<Rightarrow> (world, unit) io" where
  TakeBatch: "ix_lp s = LpIdle \<Longrightarrow> ix_logs s = b # bs \<Longrightarrow>
    lp_step E m handle s (s\<lparr>ix_logs := bs, ix_lp := LpRun b False (lb_Logs b)\<rparr>)"
| Timestamp: "ix_lp s = LpRun b False rest \<Longrightarrow>
    tryToGetBlockTimestamp E m (lb_BlockNumber b) (ix_w s) = (r, w') \<Longrightarrow>
    lp_step E m handle s (s\<lparr>ix_w := w', ix_lp := LpRun b (r = Inr ()) rest\<rparr>)"
| HandleLog: "ix_lp s = LpRun b ts (l # rest) \<Longrightarrow> handle l (ix_w s) = (Inr u, w') \<Longrightarrow>
    lp_step E m handle s (s\<lparr>ix_w := w', ix_lp := LpRun b ts rest\<rparr>)"
| HandleLogFails: "ix_lp s = LpRun b ts (l # rest) \<Longrightarrow> handle l (ix_w s) = (Inl (Err e), w') \<Longrightarrow>
    lp_step E m handle s (s\<lparr>ix_w := w', ix_lp := LpRun b ts (lb_Logs b)\<rparr>)"
| HandleLogPanics: "ix_lp s = LpRun b ts (l # rest) \<Longrightarrow> handle l (ix_w s) = (Inl Panic, w') \<Longrightarrow>
    lp_step E m handle s (s\<lparr>ix_w := w', ix_up := False\<rparr>)"
| Handled: "ix_lp s = LpRun b True [] \<Longrightarrow> lp_step E m handle s (s\<lparr>ix_lp := LpRecord b\<rparr>)"
| ProcessedBehind: "ix_lp s = LpRecord b \<Longrightarrow> setProcessed (lb_BlockNumber b) (ix_p s) = None \<Longrightarrow>
    lp_step E m handle s (s\<lparr>ix_lp := LpIdle\<rparr>)"
| SetProcessed: "ix_lp s = LpRecord b \<Longrightarrow> setProcessed (lb_BlockNumber b) (ix_p s) = Some p' \<Longrightarrow>
    lp_step E m handle s (s\<lparr>ix_p := p', ix_lp := LpPrepare b\<rparr>)"
| PrepareProcessed: "ix_lp s = LpPrepare b \<Longrightarrow>
    lp_step E m handle s (s\<lparr>ix_lp := LpSave (mem_cursor s) b\<rparr>)"
| SaveProcessed: "ix_lp s = LpSave c b \<Longrightarrow> LogsCursors_Ensure E c (ix_w s) = (Inr u, w') \<Longrightarrow>
    lp_step E m handle s (s\<lparr>ix_w := w', ix_lp := LpIdle\<rparr>)"
| SaveProcessedFails: "ix_lp s = LpSave c b \<Longrightarrow> LogsCursors_Ensure E c (ix_w s) = (Inl e, w') \<Longrightarrow>
    lp_step E m handle s (s\<lparr>ix_w := w', ix_lp := LpRecord b\<rparr>)"

definition run_step :: "geth \<Rightarrow> env \<Rightarrow> ContractMonitor \<Rightarrow> (Log \<Rightarrow> (world, unit) io) \<Rightarrow>
    indexer \<Rightarrow> indexer \<Rightarrow> bool" where
  "run_step G E m handle s s' \<longleftrightarrow> bf_step m s s' \<or> lf_step G E m s s' \<or> lp_step E m handle s s'"

section \<open>Stops, restarts, other activity\<close>

definition own_cursor :: "BridgeSideConfig \<Rightarrow> LogsCursor \<Rightarrow> bool" where
  "own_cursor cfg c \<longleftrightarrow> cursor_key c = (bs_ChainID cfg, bs_Address cfg)"

text \<open>
  The logs of the chain are the parameter \<open>chain\<close>, in their final form. A database is honest
  about it when every log saved for the chain is one of them.
\<close>

definition saved_as :: "string \<Rightarrow> Log \<Rightarrow> RpcLog \<Rightarrow> bool" where
  "saved_as c r rl \<longleftrightarrow> r\<lparr>log_ID := 0\<rparr> = NewLog c rl"

definition honest :: "string \<Rightarrow> RpcLog list \<Rightarrow> database \<Rightarrow> bool" where
  "honest c chain d \<longleftrightarrow>
     (\<forall>r \<in> set (vals (db_logs d)). log_ChainID r = c \<longrightarrow> (\<exists>rl \<in> set chain. saved_as c r rl))"

text \<open>What the other goroutines and processes may do: add rows, and not to this monitor's cursor.\<close>

definition other_activity :: "BridgeSideConfig \<Rightarrow> RpcLog list \<Rightarrow> database \<Rightarrow> database \<Rightarrow> bool" where
  "other_activity cfg chain d d' \<longleftrightarrow> db_le d d' \<and> (honest (bs_ChainID cfg) chain d \<longrightarrow> honest (bs_ChainID cfg) chain d')
     \<and> filter (own_cursor cfg) (vals (db_logs_cursors d')) = filter (own_cursor cfg) (vals (db_logs_cursors d))"

inductive step :: "geth \<Rightarrow> env \<Rightarrow> ContractMonitor \<Rightarrow> (Log \<Rightarrow> (world, unit) io) \<Rightarrow> RpcLog list \<Rightarrow>
    indexer \<Rightarrow> indexer \<Rightarrow> bool"
  for G :: geth and E :: env and m :: ContractMonitor and handle :: "Log \<Rightarrow> (world, unit) io"
    and chain :: "RpcLog list" where
  Run: "ix_up s \<Longrightarrow> run_step G E m handle s s' \<Longrightarrow> step G E m handle chain s s'"
| Stop: "step G E m handle chain s (s\<lparr>ix_up := False\<rparr>)"
| Restart: "\<not> ix_up s \<Longrightarrow> readCursor E (mon_cfg m) (ix_w s) = (Inr c, w') \<Longrightarrow>
    step G E m handle chain s (Start w' c)"
| RestartFails: "\<not> ix_up s \<Longrightarrow> readCursor E (mon_cfg m) (ix_w s) = (Inl e, w') \<Longrightarrow>
    step G E m handle chain s (s\<lparr>ix_w := w'\<rparr>)"
| Other: "other_activity (mon_cfg m) chain (w_db (ix_w s)) d' \<Longrightarrow> w_tick (ix_w s) \<le> t' \<Longrightarrow>
    step G E m handle chain s (s\<lparr>ix_w := \<lparr>w_db = d', w_tick = t'\<rparr>\<rparr>)"

text \<open>The states that can be reached from an installation: no rows for this contract, nothing running.\<close>

definition installed :: "BridgeSideConfig \<Rightarrow> RpcLog list \<Rightarrow> indexer \<Rightarrow> bool" where
  "installed cfg chain s \<longleftrightarrow> \<not> ix_up s \<and> honest (bs_ChainID cfg) chain (w_db (ix_w s))
     \<and> filter (own_cursor cfg) (vals (db_logs_cursors (w_db (ix_w s)))) = []"

inductive reachable :: "geth \<Rightarrow> env \<Rightarrow> ContractMonitor \<Rightarrow> (Log \<Rightarrow> (world, unit) io) \<Rightarrow> RpcLog list \<Rightarrow>
    indexer \<Rightarrow> bool"
  for G :: geth and E :: env and m :: ContractMonitor and handle :: "Log \<Rightarrow> (world, unit) io"
    and chain :: "RpcLog list" where
  Installed: "installed (mon_cfg m) chain s \<Longrightarrow> reachable G E m handle chain s"
| Next: "reachable G E m handle chain s \<Longrightarrow> step G E m handle chain s s' \<Longrightarrow> reachable G E m handle chain s'"

section \<open>The chain and its node\<close>

text \<open>
  What \<open>eth_getLogs\<close> is documented to select: by block, by address, and by topics in their
  positions, where an empty list of topics allows any.
\<close>

definition q_matches :: "int \<Rightarrow> int \<Rightarrow> address list \<Rightarrow> hash list list \<Rightarrow> RpcLog \<Rightarrow> bool" where
  "q_matches fromBlock toBlock addrs topics rl \<longleftrightarrow>
     fromBlock \<le> uint (rl_BlockNumber rl) \<and> uint (rl_BlockNumber rl) \<le> toBlock
     \<and> (addrs \<noteq> [] \<longrightarrow> rl_Address rl \<in> set addrs)
     \<and> (\<forall>i < length topics. topics ! i \<noteq> [] \<longrightarrow>
          i < length (rl_Topics rl) \<and> rl_Topics rl ! i \<in> set (topics ! i))"

definition query_matches :: "FilterQuery \<Rightarrow> RpcLog \<Rightarrow> bool" where
  "query_matches q rl = q_matches (case fq_FromBlock q of None \<Rightarrow> 0 | Some b \<Rightarrow> b)
     (case fq_ToBlock q of None \<Rightarrow> 2 ^ 256 | Some b \<Rightarrow> b) (fq_Addresses q) (fq_Topics q) rl"

text \<open>
  A node answers with the logs of the chain that match. In the safe mode this is asked only of an answer
  that comes with a block number which has reached the end of the range; without it, of every answer.
  \<open>heads_ok\<close> bounds the block numbers it reports, less the confirmations.
\<close>

definition node_honest :: "RpcLog list \<Rightarrow> ContractMonitor \<Rightarrow> bool" where
  "node_honest chain m \<longleftrightarrow>
     (\<not> safeLogs m \<longrightarrow> (\<forall>t q logs. node_FilterLogs (mon_client m) t q = Inr logs \<longrightarrow>
        set logs = {rl \<in> set chain. query_matches q rl})) \<and>
     (\<forall>t arg logs n. node_BatchLogsAndBlock (mon_client m) t arg = Inr (Inr logs, Inr n) \<longrightarrow>
        fa_ToBlock arg \<le> uint n \<longrightarrow>
        set logs = {rl \<in> set chain.
          q_matches (fa_FromBlock arg) (fa_ToBlock arg) (fa_Addresses arg) (fa_Topics arg) rl})"

definition heads_ok :: "ContractMonitor \<Rightarrow> bool" where
  "heads_ok m \<longleftrightarrow> (\<forall>t n. node_BlockNumber (mon_client m) t = Inr n \<longrightarrow>
     unat (n - bs_BlockConfirmations (mon_cfg m)) + unat (bs_MaxBlockRangeSize (mon_cfg m)) < 2 ^ 63)"

definition chain_wf :: "RpcLog list \<Rightarrow> bool" where
  "chain_wf chain \<longleftrightarrow> inj_on (\<lambda>rl. (rl_BlockNumber rl, rl_Index rl)) (set chain)"

text \<open>The logs the monitor is there for: those of the bridge, and the transfers of its tokens to it.\<close>

definition token_wants :: "geth \<Rightarrow> BridgeSideConfig \<Rightarrow> TokenConfig \<Rightarrow> RpcLog \<Rightarrow> bool" where
  "token_wants G cfg tok rl \<longleftrightarrow> rl_Address rl = tok_Address tok
     \<and> tok_StartBlock tok \<le> rl_BlockNumber rl \<and> rl_BlockNumber rl \<le> tok_EndBlock tok
     \<and> length (rl_Topics rl) > 2 \<and> rl_Topics rl ! 2 = AddressHash G (bs_Address cfg)"

definition wanted :: "geth \<Rightarrow> ContractMonitor \<Rightarrow> RpcLog \<Rightarrow> bool" where
  "wanted G m rl \<longleftrightarrow> bs_StartBlock (mon_cfg m) \<le> rl_BlockNumber rl \<and>
     (rl_Address rl = bs_Address (mon_cfg m) \<or> rl_Address rl = bs_ValidatorContractAddress (mon_cfg m)
      \<or> bc_BridgeMode (mon_bridgeCfg m) = BridgeModeErcToNative
        \<and> list_ex (\<lambda>tok. token_wants G (mon_cfg m) tok rl) (bs_ErcToNativeTokens (mon_cfg m)))"

definition setting_ok :: "geth \<Rightarrow> ContractMonitor \<Rightarrow> RpcLog list \<Rightarrow> bool" where
  "setting_ok G m chain \<longleftrightarrow> chain_wf chain \<and> node_honest chain m \<and> heads_ok m
     \<and> 0 < bs_StartBlock (mon_cfg m) \<and> 0 < bs_MaxBlockRangeSize (mon_cfg m)"

section \<open>The queries of a range cover what is wanted in it\<close>

lemma tokenQueries_set:
  "set (tokenQueries G cfg r toks) =
     tokenQuery G cfg r ` {tok \<in> set toks. tok_StartBlock tok \<le> br_To r \<and> br_From r \<le> tok_EndBlock tok}"
  by (induction toks) (auto simp: not_less)

lemma int64_mono:
  assumes "unat b < 2 ^ 63" and "a \<le> b"
  shows "int64_of a = uint a" "int64_of b = uint b"
proof -
  have "unat a < 2 ^ 63" using assms by (simp add: word_le_nat_alt)
  then show "int64_of a = uint a" using int64_of_small [of a] by (simp only: uint_nat)
  show "int64_of b = uint b" using int64_of_small [OF assms(1)] by (simp only: uint_nat)
qed

lemma buildFilterQueries_cover:
  assumes small: "unat (br_To r) < 2 ^ 63" and "br_From r \<le> br_To r"
    and block: "br_From r \<le> rl_BlockNumber rl" "rl_BlockNumber rl \<le> br_To r" and "wanted G m rl"
  shows "\<exists>q \<in> set (buildFilterQueries G m r). query_matches q rl"
proof -
  have ints: "int64_of (br_From r) = uint (br_From r)" "int64_of (br_To r) = uint (br_To r)"
    using int64_mono [OF small assms(2)] by auto
  have b: "uint (br_From r) \<le> uint (rl_BlockNumber rl)" "uint (rl_BlockNumber rl) \<le> uint (br_To r)"
    using block by (simp_all add: word_le_def)
  show ?thesis
  proof (cases "rl_Address rl = bs_Address (mon_cfg m) \<or> rl_Address rl = bs_ValidatorContractAddress (mon_cfg m)")
    case True
    then have "query_matches (hd (buildFilterQueries G m r)) rl"
      using ints b by (auto simp: buildFilterQueries_def query_matches_def q_matches_def)
    moreover have "hd (buildFilterQueries G m r) \<in> set (buildFilterQueries G m r)"
      by (simp add: buildFilterQueries_def)
    ultimately show ?thesis by blast
  next
    case False
    with assms(5) obtain tok where mode: "bc_BridgeMode (mon_bridgeCfg m) = BridgeModeErcToNative"
      and tok: "tok \<in> set (bs_ErcToNativeTokens (mon_cfg m))" and wants: "token_wants G (mon_cfg m) tok rl"
      by (auto simp: wanted_def list_ex_iff)
    let ?f = "if tok_StartBlock tok > br_From r then tok_StartBlock tok else br_From r"
    let ?t = "if tok_EndBlock tok < br_To r then tok_EndBlock tok else br_To r"
    let ?q = "tokenQuery G (mon_cfg m) r tok"
    have act: "tok_StartBlock tok \<le> br_To r" "br_From r \<le> tok_EndBlock tok"
      using wants block by (auto simp: token_wants_def)
    then have "?q \<in> set (buildFilterQueries G m r)"
      using mode tok by (simp add: buildFilterQueries_def tokenQueries_set)
    moreover have "query_matches ?q rl"
    proof -
      have f: "?f \<le> rl_BlockNumber rl" "rl_BlockNumber rl \<le> ?t" "?t \<le> br_To r" "?f \<le> br_To r"
        using wants block act assms(2) by (auto simp: token_wants_def)
      have "int64_of ?f = uint ?f" using int64_mono [OF small f(4)] by simp
      moreover have "int64_of ?t = uint ?t" using int64_mono [OF small f(3)] by simp
      ultimately have "int64_of ?f \<le> uint (rl_BlockNumber rl)" "uint (rl_BlockNumber rl) \<le> int64_of ?t"
        using f(1,2) by (simp_all only: word_le_def)
      then show ?thesis
        using wants unfolding query_matches_def q_matches_def tokenQuery_def
        by (auto simp: token_wants_def less_Suc_eq numeral_eq_Suc)
    qed
    ultimately show ?thesis by blast
  qed
qed

text \<open>And nothing outside the range.\<close>

lemma buildFilterQueries_range:
  assumes "unat (br_To r) < 2 ^ 63" "br_From r \<le> br_To r" and "q \<in> set (buildFilterQueries G m r)"
    and "query_matches q rl"
  shows "br_From r \<le> rl_BlockNumber rl \<and> rl_BlockNumber rl \<le> br_To r"
proof -
  obtain f t where q: "fq_FromBlock q = Some (int64_of f)" "fq_ToBlock q = Some (int64_of t)"
    and ft: "br_From r \<le> f" "f \<le> br_To r" "t \<le> br_To r"
  proof (cases "q = hd (buildFilterQueries G m r)")
    case True
    with that [of "br_From r" "br_To r"] assms(2) show ?thesis by (simp add: buildFilterQueries_def)
  next
    case False
    with assms(3) obtain tok where "q = tokenQuery G (mon_cfg m) r tok"
      and "tok_StartBlock tok \<le> br_To r" "br_From r \<le> tok_EndBlock tok"
      by (auto simp: buildFilterQueries_def tokenQueries_set split: if_splits)
    with assms(2) show ?thesis
      by (intro that [of "if tok_StartBlock tok > br_From r then tok_StartBlock tok else br_From r"
            "if tok_EndBlock tok < br_To r then tok_EndBlock tok else br_To r"])
        (auto simp: tokenQuery_def)
  qed
  have "int64_of f = uint f" "int64_of t = uint t"
    using int64_mono [OF assms(1) ft(2)] int64_mono [OF assms(1) ft(3)] by auto
  then have "f \<le> rl_BlockNumber rl" "rl_BlockNumber rl \<le> t"
    using assms(4) q by (auto simp: query_matches_def q_matches_def word_le_def)
  with ft show ?thesis by (auto intro: order_trans)
qed

text \<open>Nor anything that is not wanted, from the start block of the side on.\<close>

lemma token_query_bounds:
  assumes small: "unat (br_To r) < 2 ^ 63" and "br_From r \<le> br_To r"
    and tok: "tok_StartBlock tok \<le> br_To r" "br_From r \<le> tok_EndBlock tok" and q: "query_matches (tokenQuery G cfg r tok) rl"
  shows "token_wants G cfg tok rl"
proof -
  let ?f = "if tok_StartBlock tok > br_From r then tok_StartBlock tok else br_From r"
  let ?t = "if tok_EndBlock tok < br_To r then tok_EndBlock tok else br_To r"
  have "?f \<le> br_To r" "?t \<le> br_To r" using assms(2) tok by auto
  then have "int64_of ?f = uint ?f" "int64_of ?t = uint ?t"
    using int64_mono [OF small, of ?f] int64_mono [OF small, of ?t] by simp_all
  then have "?f \<le> rl_BlockNumber rl" "rl_BlockNumber rl \<le> ?t"
    using q by (auto simp: query_matches_def q_matches_def tokenQuery_def word_le_def)
  moreover have "rl_Address rl = tok_Address tok" "2 < length (rl_Topics rl)" "rl_Topics rl ! 2 = AddressHash G (bs_Address cfg)"
    using q by (auto simp: query_matches_def q_matches_def tokenQuery_def dest: spec [of _ 2])
  ultimately show ?thesis by (auto simp: token_wants_def split: if_splits)
qed

lemma buildFilterQueries_wanted:
  assumes "unat (br_To r) < 2 ^ 63" "br_From r \<le> br_To r" and "q \<in> set (buildFilterQueries G m r)"
    and "query_matches q rl" and "bs_StartBlock (mon_cfg m) \<le> rl_BlockNumber rl"
  shows "wanted G m rl"
proof (cases "q = hd (buildFilterQueries G m r)")
  case True
  with assms(4,5) show ?thesis
    by (auto simp: buildFilterQueries_def query_matches_def q_matches_def wanted_def)
next
  case False
  with assms(3) obtain tok where "bc_BridgeMode (mon_bridgeCfg m) = BridgeModeErcToNative"
    and tok: "tok \<in> set (bs_ErcToNativeTokens (mon_cfg m))" "q = tokenQuery G (mon_cfg m) r tok"
      "tok_StartBlock tok \<le> br_To r" "br_From r \<le> tok_EndBlock tok"
    by (auto simp: buildFilterQueries_def tokenQueries_set split: if_splits)
  with token_query_bounds [OF assms(1,2) tok(3,4)] assms(4,5) show ?thesis
    by (auto simp: wanted_def list_ex_iff)
qed

section \<open>Properties\<close>

text \<open>The log queries built for a block range find every wanted log in it: those of the bridge and of
  its validator contract, and the transfers to the bridge of the tokens active then; and they find nothing
  outside the range.\<close>

theorem queries_cover_range:
  assumes "unat (br_To r) < 2 ^ 63" and "br_From r \<le> br_To r"
  shows "(wanted G m rl \<and> br_From r \<le> rl_BlockNumber rl \<and> rl_BlockNumber rl \<le> br_To r \<longrightarrow>
      list_ex (\<lambda>q. query_matches q rl) (buildFilterQueries G m r))
    \<and> list_all (\<lambda>q. query_matches q rl \<longrightarrow> br_From r \<le> rl_BlockNumber rl \<and> rl_BlockNumber rl \<le> br_To r)
      (buildFilterQueries G m r)"
  using buildFilterQueries_cover [OF assms] buildFilterQueries_range [OF assms, of _ G m rl]
  by (auto simp: list_ex_iff list_all_iff)

lemma queries_cover_range_witness:
  "list_ex (\<lambda>q. query_matches q \<lparr>rl_Address = 30, rl_Topics = [1, 2, AddressHash sample_geth 20], rl_Data = [],
      rl_BlockNumber = 250, rl_TxHash = 9, rl_Index = 0\<rparr>)
    (buildFilterQueries sample_geth (foreignMonitor sample_geth \<lparr>env_db = (\<lambda>t. DbOk), env_clock = int\<rparr>
       (snd (hd (cfg_Bridges sample_config_init))) (sample_node 300 []) (sample_node 300 [])) \<lparr>br_From = 201, br_To = 298\<rparr>)"
proof -
  let ?m = "foreignMonitor sample_geth \<lparr>env_db = (\<lambda>t. DbOk), env_clock = int\<rparr>
       (snd (hd (cfg_Bridges sample_config_init))) (sample_node 300 []) (sample_node 300 [])"
  let ?rl = "\<lparr>rl_Address = 30, rl_Topics = [1, 2, AddressHash sample_geth 20], rl_Data = [],
      rl_BlockNumber = 250, rl_TxHash = 9, rl_Index = 0\<rparr>"
  have "wanted sample_geth ?m ?rl"
    by (simp add: wanted_def token_wants_def foreignMonitor_def sample_config_init_def sample_config_def Config_init_def
        BridgeConfig_init_def BridgeSideConfig_init_def sample_bridge_def sample_side_def TokenConfig_init_def
        MaxUint32_def Let_def)
  with queries_cover_range [of "\<lparr>br_From = 201, br_To = 298\<rparr>" sample_geth ?m ?rl] show ?thesis by simp
qed

end
