(* ===== verification/IndexerSafety.thy ===== *)
theory IndexerSafety
  imports Indexer
begin

text \<open>
  Nothing is lost: the invariant of the indexer's step relation. A log of the chain is saved when the
  database has its row, and done when that row has been handled. The invariant says that everything up to
  the fetched block of a cursor is saved and everything up to its processed block is done, for the cursor in
  memory, for the one in the database, and for every copy of it on its way there; and that between the
  processed block and the ranges not fetched yet no log is missing from the queue of batches.

  The locale \<open>log_handler\<close> is what the invariant needs of the handling of one log. It is
  interpreted on the handlers of the program at the end.
\<close>

section \<open>Saved and done\<close>

definition saved :: "string \<Rightarrow> database \<Rightarrow> RpcLog \<Rightarrow> bool" where
  "saved c d rl \<longleftrightarrow> (\<exists>r \<in> set (vals (db_logs d)). saved_as c r rl)"

definition done_log :: "(Log \<Rightarrow> database \<Rightarrow> bool) \<Rightarrow> string \<Rightarrow> database \<Rightarrow> RpcLog \<Rightarrow> bool" where
  "done_log handled c d rl \<longleftrightarrow> (\<exists>r \<in> set (vals (db_logs d)). saved_as c r rl \<and> handled r d)"

text \<open>A block number is at most \<open>n\<close>, as a number.\<close>

definition upto :: "nat \<Rightarrow> RpcLog \<Rightarrow> bool" where
  "upto n rl \<longleftrightarrow> unat (rl_BlockNumber rl) \<le> n"

definition queued :: "string \<Rightarrow> LogsBatch list \<Rightarrow> RpcLog \<Rightarrow> bool" where
  "queued c Q rl \<longleftrightarrow> (\<exists>b \<in> set Q. \<exists>r \<in> set (lb_Logs b). saved_as c r rl)"

record goal_setting =
  gs_chain_id :: string
  gs_wanted :: "RpcLog set"
  gs_handled :: "Log \<Rightarrow> database \<Rightarrow> bool"

definition saved_upto :: "goal_setting \<Rightarrow> database \<Rightarrow> nat \<Rightarrow> bool" where
  "saved_upto g d n \<longleftrightarrow> (\<forall>rl \<in> gs_wanted g. upto n rl \<longrightarrow> saved (gs_chain_id g) d rl)"

definition done_upto :: "goal_setting \<Rightarrow> database \<Rightarrow> nat \<Rightarrow> bool" where
  "done_upto g d n \<longleftrightarrow> (\<forall>rl \<in> gs_wanted g. upto n rl \<longrightarrow> done_log (gs_handled g) (gs_chain_id g) d rl)"

definition cover_upto :: "goal_setting \<Rightarrow> database \<Rightarrow> LogsBatch list \<Rightarrow> nat \<Rightarrow> bool" where
  "cover_upto g d Q n \<longleftrightarrow> (\<forall>rl \<in> gs_wanted g. upto n rl \<longrightarrow>
     done_log (gs_handled g) (gs_chain_id g) d rl \<or> queued (gs_chain_id g) Q rl)"

text \<open>Every initial part of the queue covers the blocks up to that of its last batch.\<close>

definition prefix_cover :: "goal_setting \<Rightarrow> database \<Rightarrow> LogsBatch list \<Rightarrow> bool" where
  "prefix_cover g d Q \<longleftrightarrow> (\<forall>pre b post. Q = pre @ b # post \<longrightarrow>
     cover_upto g d (pre @ [b]) (unat (lb_BlockNumber b)))"

text \<open>The rows of the batches are rows of the database.\<close>

definition rows_in :: "database \<Rightarrow> LogsBatch list \<Rightarrow> bool" where
  "rows_in d Q \<longleftrightarrow> (\<forall>b \<in> set Q. set (lb_Logs b) \<subseteq> set (vals (db_logs d)))"

definition claim :: "goal_setting \<Rightarrow> database \<Rightarrow> LogsCursor \<Rightarrow> bool" where
  "claim g d c \<longleftrightarrow> saved_upto g d (unat (lc_LastFetchedBlock c)) \<and> done_upto g d (unat (lc_LastProcessedBlock c))"

text \<open>What a finished fetch of a range holds.\<close>

definition fetched :: "goal_setting \<Rightarrow> database \<Rightarrow> BlocksRange \<Rightarrow> Log list \<Rightarrow> bool" where
  "fetched g d r logs \<longleftrightarrow> batchable logs \<and> list_all (\<lambda>l. log_BlockNumber l \<le> br_To r) logs
     \<and> set logs \<subseteq> set (vals (db_logs d))
     \<and> (\<forall>rl \<in> gs_wanted g. br_From r \<le> rl_BlockNumber rl \<longrightarrow> rl_BlockNumber rl \<le> br_To r \<longrightarrow>
          (\<exists>l \<in> set logs. saved_as (gs_chain_id g) l rl))"

lemma saved_as_fields:
  assumes "saved_as c r rl"
  shows "log_BlockNumber r = rl_BlockNumber rl" "log_LogIndex r = rl_Index rl" "log_ChainID r = c"
    "log_Address r = rl_Address rl"
proof -
  from assms have eq: "r\<lparr>log_ID := 0\<rparr> = NewLog c rl" by (simp add: saved_as_def)
  show "log_BlockNumber r = rl_BlockNumber rl" using arg_cong [OF eq, of log_BlockNumber] by simp
  show "log_LogIndex r = rl_Index rl" using arg_cong [OF eq, of log_LogIndex] by simp
  show "log_ChainID r = c" using arg_cong [OF eq, of log_ChainID] by simp
  show "log_Address r = rl_Address rl" using arg_cong [OF eq, of log_Address] by simp
qed

lemma done_saved: "done_upto g d n \<Longrightarrow> saved_upto g d n"
  by (fastforce simp: done_upto_def saved_upto_def done_log_def saved_def)

lemma upto_mono: "upto n rl \<Longrightarrow> n \<le> k \<Longrightarrow> upto k rl"
  by (simp add: upto_def)

lemma saved_upto_mono: "saved_upto g d n \<Longrightarrow> k \<le> n \<Longrightarrow> saved_upto g d k"
  by (auto simp: saved_upto_def dest: upto_mono)

lemma done_upto_mono: "done_upto g d n \<Longrightarrow> k \<le> n \<Longrightarrow> done_upto g d k"
  by (auto simp: done_upto_def dest: upto_mono)

lemma cover_upto_mono: "cover_upto g d Q n \<Longrightarrow> k \<le> n \<Longrightarrow> set Q \<subseteq> set Q' \<Longrightarrow> cover_upto g d Q' k"
  unfolding cover_upto_def queued_def by (meson subsetD upto_mono)

lemma cover_saved:
  assumes "cover_upto g d Q n" and "rows_in d Q"
  shows "saved_upto g d n"
  unfolding saved_upto_def
proof (intro ballI impI)
  fix rl assume "rl \<in> gs_wanted g" "upto n rl"
  with assms(1) have "done_log (gs_handled g) (gs_chain_id g) d rl \<or> queued (gs_chain_id g) Q rl"
    by (auto simp: cover_upto_def)
  then show "saved (gs_chain_id g) d rl"
    using assms(2) by (auto simp: done_log_def queued_def saved_def rows_in_def)
qed

lemma prefix_cover_Nil [simp]: "prefix_cover g d []"
  by (simp add: prefix_cover_def)

lemma prefix_cover_head:
  "prefix_cover g d (b # Q) \<Longrightarrow> cover_upto g d [b] (unat (lb_BlockNumber b))"
  unfolding prefix_cover_def by (drule spec [of _ "[]"]) simp

text \<open>The first batch has been handled: everything up to its block is done, and it can go.\<close>

lemma cover_done:
  assumes "cover_upto g d (b # Q) n" and "\<forall>r \<in> set (lb_Logs b). gs_handled g r d"
    and "set (lb_Logs b) \<subseteq> set (vals (db_logs d))"
  shows "cover_upto g d Q n"
  using assms by (fastforce simp: cover_upto_def queued_def done_log_def)

lemma head_done:
  assumes "prefix_cover g d (b # Q)" and "\<forall>r \<in> set (lb_Logs b). gs_handled g r d"
    and "set (lb_Logs b) \<subseteq> set (vals (db_logs d))"
  shows "done_upto g d (unat (lb_BlockNumber b))" "prefix_cover g d Q"
proof -
  have "cover_upto g d [] (unat (lb_BlockNumber b))"
    using cover_done [OF prefix_cover_head [OF assms(1)] assms(2,3)] .
  then show "done_upto g d (unat (lb_BlockNumber b))"
    by (simp add: cover_upto_def queued_def done_upto_def)
  show "prefix_cover g d Q"
    unfolding prefix_cover_def
  proof (intro allI impI)
    fix pre c post assume "Q = pre @ c # post"
    then have "b # Q = (b # pre) @ c # post" by simp
    with assms(1) have "cover_upto g d ((b # pre) @ [c]) (unat (lb_BlockNumber c))"
      unfolding prefix_cover_def by blast
    then have "cover_upto g d (b # (pre @ [c])) (unat (lb_BlockNumber c))" by simp
    then show "cover_upto g d (pre @ [c]) (unat (lb_BlockNumber c))"
      by (rule cover_done [OF _ assms(2,3)])
  qed
qed

text \<open>
  A submission at the end of the queue: when the queue and the new logs together hold everything up to
  the end block, the longer queue covers it, and each of its parts does.
\<close>

lemma submit_cover:
  assumes pc: "prefix_cover g d Q" and cov: "cover_upto g d Q U"
    and fresh: "\<forall>rl \<in> gs_wanted g. upto (unat e) rl \<longrightarrow> \<not> upto U rl \<longrightarrow> (\<exists>l \<in> set logs. saved_as (gs_chain_id g) l rl)"
    and logs: "batchable logs" "list_all (\<lambda>l. log_BlockNumber l \<le> e) logs"
  shows "prefix_cover g d (Q @ submitLogs logs e)"
    and "cover_upto g d (Q @ submitLogs logs e) (max U (unat e))"
proof -
  let ?B = "submitLogs logs e"
  from submitLogs_props [OF logs]
  have conc: "concat (map lb_Logs ?B) = logs" and srt: "sorted_wrt (<) (map lb_BlockNumber ?B)"
    and ne: "?B \<noteq> []" and lst: "lb_BlockNumber (last ?B) = e"
    and same: "list_all (\<lambda>b. list_all (\<lambda>l. log_BlockNumber l = lb_BlockNumber b) (lb_Logs b)) ?B"
    by auto
  have part: "cover_upto g d (Q @ pre @ [b]) (unat (lb_BlockNumber b))" if B: "?B = pre @ b # post" for pre b post
    unfolding cover_upto_def
  proof (intro ballI impI)
    fix rl assume rl: "rl \<in> gs_wanted g" "upto (unat (lb_BlockNumber b)) rl"
    have "lb_BlockNumber b \<le> e"
    proof (cases post rule: rev_cases)
      case Nil
      with B lst show ?thesis by simp
    next
      case (snoc post' z)
      with B lst srt show ?thesis by (simp add: sorted_wrt_append less_imp_le)
    qed
    then have e: "unat (lb_BlockNumber b) \<le> unat e" by (simp add: word_le_nat_alt)
    show "done_log (gs_handled g) (gs_chain_id g) d rl \<or> queued (gs_chain_id g) (Q @ pre @ [b]) rl"
    proof (cases "upto U rl")
      case True
      with cov rl(1) have "done_log (gs_handled g) (gs_chain_id g) d rl \<or> queued (gs_chain_id g) Q rl"
        by (auto simp: cover_upto_def)
      then show ?thesis by (auto simp: queued_def)
    next
      case False
      with fresh rl e obtain l where l: "l \<in> set logs" "saved_as (gs_chain_id g) l rl"
        by (meson upto_mono)
      have "l \<in> set (concat (map lb_Logs ?B))" unfolding conc by (rule l(1))
      then obtain b' where b': "b' \<in> set ?B" "l \<in> set (lb_Logs b')" by auto
      then have blk: "log_BlockNumber l = lb_BlockNumber b'" using same by (auto simp: list_all_iff)
      have "log_BlockNumber l = rl_BlockNumber rl"
        using l(2) by (rule saved_as_fields)
      with blk rl(2) have "lb_BlockNumber b' \<le> lb_BlockNumber b" by (simp add: upto_def word_le_nat_alt)
      then have "b' \<in> set (pre @ [b])"
        using b'(1) srt B by (auto simp: sorted_wrt_append)
      with b'(2) l(2) show ?thesis by (auto simp: queued_def)
    qed
  qed
  show "prefix_cover g d (Q @ ?B)"
    unfolding prefix_cover_def
  proof (intro allI impI)
    fix pre b post assume eq: "Q @ ?B = pre @ b # post"
    then consider us where "pre = Q @ us" "?B = us @ b # post"
      | us where "Q = pre @ b # us"
      by (auto simp: append_eq_append_conv2 append_eq_Cons_conv Cons_eq_append_conv)
    then show "cover_upto g d (pre @ [b]) (unat (lb_BlockNumber b))"
    proof cases
      case 1
      with part [OF 1(2)] show ?thesis by simp
    next
      case 2
      with pc show ?thesis unfolding prefix_cover_def by blast
    qed
  qed
  have "cover_upto g d (Q @ ?B) (unat e)"
    using part [of "butlast ?B" "last ?B" "[]"] ne lst by simp
  with cov show "cover_upto g d (Q @ ?B) (max U (unat e))"
    by (auto simp: cover_upto_def queued_def max_def)
qed


section \<open>What the calls do to the rows\<close>

lemma logs_stmt_rows:
  assumes "logs_stmt now seen ls d = (res, d')" and "r \<in> set (vals (db_logs d'))"
  shows "r \<in> set (vals (db_logs d)) \<or> (\<exists>l \<in> set ls. \<exists>i. r = l\<lparr>log_ID := i\<rparr>)"
  using assms
proof (induction now seen ls d arbitrary: res d' rule: logs_stmt.induct)
  case (2 now seen l ls d)
  let ?i = "Suc (db_logs_seq d)"
  let ?d1 = "put_log now l ?i d"
  show ?case
  proof (cases "?i > int4_max \<or> \<not> log_columns_ok l \<or> log_key l \<in> set seen")
    case True
    with "2.prems" show ?thesis by (auto simp: Let_def split: if_splits)
  next
    case False
    then have g: "\<not> ?i > int4_max" "\<not> (\<not> log_columns_ok l \<or> log_key l \<in> set seen)" by auto
    obtain r1 d2 where run: "logs_stmt now (log_key l # seen) ls ?d1 = (r1, d2)"
      by (cases "logs_stmt now (log_key l # seen) ls ?d1")
    have "d' = d2" using "2.prems"(1) g run by (auto simp: Let_def split: sum.splits)
    with "2.prems"(2) have "r \<in> set (vals (db_logs d2))" by simp
    with "2.IH" [OF refl g refl run] have
      "r \<in> set (vals (db_logs ?d1)) \<or> (\<exists>l \<in> set ls. \<exists>i. r = l\<lparr>log_ID := i\<rparr>)" by blast
    then show ?thesis
      by (auto simp: keep_row_def dest!: logs_tbl.upsert_cases)
  qed
qed auto

lemma Logs_Ensure_effect:
  assumes "Logs_Ensure E logs w = (res, w')"
  shows "db_logs_cursors (w_db w') = db_logs_cursors (w_db w)"
    and "r \<in> set (vals (db_logs (w_db w'))) \<Longrightarrow>
      r \<in> set (vals (db_logs (w_db w))) \<or> (\<exists>l \<in> set logs. \<exists>i. r = l\<lparr>log_ID := i\<rparr>)"
proof -
  obtain r1 d1 where run: "logs_stmt (env_clock E (w_tick w)) [] logs (w_db w) = (r1, d1)"
    by (cases "logs_stmt (env_clock E (w_tick w)) [] logs (w_db w)")
  have d1: "db_logs_cursors d1 = db_logs_cursors (w_db w)"
    using logs_stmt_grow [of "w_db w" "env_clock E (w_tick w)" "[]" logs] run
    unfolding logs_grow_def by (metis database.ext_inject database.surjective database.update_convs(2,3) snd_conv)
  have db: "w_db w' = w_db w \<or> w_db w' = (w_db w)\<lparr>db_logs_seq := db_logs_seq d1\<rparr> \<or> w_db w' = d1"
    using assms run
    by (cases r1) (auto simp: Logs_Ensure_def bindE_apply db_exec_def Let_def split: if_splits db_fault.splits)
  with d1 show "db_logs_cursors (w_db w') = db_logs_cursors (w_db w)" by auto
  show "r \<in> set (vals (db_logs (w_db w'))) \<Longrightarrow>
      r \<in> set (vals (db_logs (w_db w))) \<or> (\<exists>l \<in> set logs. \<exists>i. r = l\<lparr>log_ID := i\<rparr>)"
    using db logs_stmt_rows [OF run, of r] by auto
qed

lemma saved_as_id [simp]: "saved_as c (r\<lparr>log_ID := i\<rparr>) rl = saved_as c r rl"
  by (simp add: saved_as_def)

lemma saved_as_NewLog [simp]: "saved_as c (NewLog c rl) rl"
proof -
  have "(NewLog c rl)\<lparr>log_ID := 0\<rparr> = NewLog c rl" by (simp add: NewLog_def Let_def)
  then show ?thesis by (simp add: saved_as_def)
qed

lemma same_but_id: "l = x\<lparr>log_ID := i\<rparr> \<Longrightarrow> saved_as c x rl \<Longrightarrow> saved_as c l rl"
  by (metis saved_as_id)

text \<open>Two rows for the same position of the chain hold the same log.\<close>

lemma saved_as_unique:
  assumes "chain_wf chain" and "rl \<in> set chain" "rl' \<in> set chain"
    and "saved_as c r rl" "saved_as c r' rl'" and "log_key r = log_key r'"
  shows "rl = rl'"
proof -
  have "(rl_BlockNumber rl, rl_Index rl) = (rl_BlockNumber rl', rl_Index rl')"
    using assms(6) saved_as_fields [OF assms(4)] saved_as_fields [OF assms(5)] by (simp add: log_key_def)
  with assms(1-3) show ?thesis by (auto simp: chain_wf_def inj_on_def)
qed

lemma same_row:
  "saved_as c r rl \<Longrightarrow> saved_as c r' rl \<Longrightarrow> log_ID r = log_ID r' \<Longrightarrow> r = r'"
  unfolding saved_as_def by (metis Log.surjective Log.update_convs(1) Log.ext_inject)

section \<open>Fetching a range\<close>

definition bounded_query :: "FilterQuery \<Rightarrow> bool" where
  "bounded_query q \<longleftrightarrow> (\<exists>f t. fq_FromBlock q = Some f \<and> fq_ToBlock q = Some (int64_of t) \<and> unat t < 2 ^ 63)"

lemma built_bounded:
  assumes "unat (br_To r) < 2 ^ 63"
  shows "\<forall>q \<in> set (buildFilterQueries G m r). bounded_query q"
proof
  fix q assume "q \<in> set (buildFilterQueries G m r)"
  then have "q = hd (buildFilterQueries G m r) \<or> (\<exists>tok. q = tokenQuery G (mon_cfg m) r tok)"
    by (auto simp: buildFilterQueries_def tokenQueries_set split: if_splits)
  then show "bounded_query q"
  proof
    assume "q = hd (buildFilterQueries G m r)"
    with assms show ?thesis by (auto simp: buildFilterQueries_def bounded_query_def)
  next
    assume "\<exists>tok. q = tokenQuery G (mon_cfg m) r tok"
    then obtain tok where q: "q = tokenQuery G (mon_cfg m) r tok" by blast
    let ?t = "if tok_EndBlock tok < br_To r then tok_EndBlock tok else br_To r"
    have "?t \<le> br_To r" by auto
    then have "unat ?t < 2 ^ 63" using assms unfolding word_le_nat_alt by (rule le_less_trans)
    then show ?thesis unfolding q bounded_query_def tokenQuery_def by auto
  qed
qed

lemma node_answer:
  assumes N: "node_honest chain m" and q: "bounded_query q"
    and run: "(if safeLogs m then FilterLogsSafe (mon_client m) q else FilterLogs (mon_client m) q) w = (Inr logs, w')"
  shows "set logs = {rl \<in> set chain. query_matches q rl}"
proof (cases "safeLogs m")
  case False
  with run have "node_FilterLogs (mon_client m) (w_tick w) q = Inr logs"
    by (simp add: FilterLogs_def rpc_def)
  with N False show ?thesis unfolding node_honest_def by blast
next
  case True
  with run have "FilterLogsSafe (mon_client m) q w = (Inr logs, w')" by simp
  from FilterLogsSafe_Inr [OF this] obtain arg n toBlock where arg: "toFilterArg q = Inr arg"
    and tb: "fq_ToBlock q = Some toBlock"
    and answer: "node_BatchLogsAndBlock (mon_client m) (w_tick w) arg = Inr (Inr logs, Inr n)"
    and reached: "big_Uint64 toBlock \<le> n" by blast
  from q tb obtain f t where f: "fq_FromBlock q = Some f" and t: "toBlock = int64_of t" "unat t < 2 ^ 63"
    by (auto simp: bounded_query_def)
  have fields: "fa_FromBlock arg = f" "fa_ToBlock arg = toBlock" "fa_Addresses arg = fq_Addresses q"
    "fa_Topics arg = fq_Topics q"
    using arg f tb by (auto simp: toFilterArg_def Let_def split: if_splits)
  have "t \<le> n" using reached t by (simp add: big_Uint64_int64)
  moreover have "int64_of t = uint t" using int64_mono(2) [OF t(2) order_refl] .
  ultimately have "fa_ToBlock arg \<le> uint n" using fields t(1) by (simp add: word_le_def)
  with N answer have "set logs = {rl \<in> set chain.
      q_matches (fa_FromBlock arg) (fa_ToBlock arg) (fa_Addresses arg) (fa_Topics arg) rl}"
    unfolding node_honest_def by blast
  then show ?thesis by (simp add: fields query_matches_def f tb)
qed

lemma fetchQueries_answers:
  assumes N: "node_honest chain m" and qs: "\<forall>q \<in> set qs. bounded_query q"
    and run: "fetchQueries m qs w = (Inr logs, w')"
  shows "set logs = NewLog (bs_ChainID (mon_cfg m)) ` {rl \<in> set chain. \<exists>q \<in> set qs. query_matches q rl}"
  using qs run
proof (induction qs arbitrary: w logs w')
  case (Cons q qs)
  from Cons.prems(2) obtain batch w1 rest w2 where
    1: "(if safeLogs m then FilterLogsSafe (mon_client m) q else FilterLogs (mon_client m) q) w = (Inr batch, w1)"
    and 2: "fetchQueries m qs w1 = (Inr rest, w2)"
    and logs: "logs = map (NewLog (bs_ChainID (mon_cfg m))) batch @ rest"
    by (auto simp only: fetchQueries.simps bindE_Inr_iff io_apply prod.inject sum.inject)
  have "set batch = {rl \<in> set chain. query_matches q rl}"
    using Cons.prems(1) by (intro node_answer [OF N _ 1]) simp
  moreover have "set rest = NewLog (bs_ChainID (mon_cfg m)) ` {rl \<in> set chain. \<exists>q \<in> set qs. query_matches q rl}"
    using Cons.IH [OF _ 2] Cons.prems(1) by simp
  ultimately show ?case unfolding logs by auto
qed simp

text \<open>The goals of one monitor.\<close>

definition goals :: "geth \<Rightarrow> ContractMonitor \<Rightarrow> RpcLog list \<Rightarrow> (Log \<Rightarrow> database \<Rightarrow> bool) \<Rightarrow> goal_setting" where
  "goals G m chain handled = \<lparr>gs_chain_id = bs_ChainID (mon_cfg m),
     gs_wanted = {rl \<in> set chain. wanted G m rl}, gs_handled = handled\<rparr>"

lemma goals_sel [simp]:
  "gs_chain_id (goals G m chain handled) = bs_ChainID (mon_cfg m)"
  "gs_wanted (goals G m chain handled) = {rl \<in> set chain. wanted G m rl}"
  "gs_handled (goals G m chain handled) = handled"
  by (simp_all add: goals_def)

lemma fetchAndSave_run:
  assumes "fetchAndSaveLogs G E m r w = (res, w')"
  shows "(\<exists>e. fetchQueries m (buildFilterQueries G m r) w = (Inl e, w') \<and> res = Inl e)
    \<or> (\<exists>logs w1. fetchQueries m (buildFilterQueries G m r) w = (Inr logs, w1) \<and> w_db w1 = w_db w \<and>
        (logs = [] \<and> res = Inr [] \<and> w' = w1
         \<or> logs \<noteq> [] \<and> Logs_Ensure E (sort_key log_pos_of logs) w1 = (res, w')))"
proof -
  obtain a w1 where run: "fetchQueries m (buildFilterQueries G m r) w = (a, w1)" by fastforce
  have len: "(sort_key log_pos_of ls = []) = (ls = [])" for ls :: "Log list"
    using length_sort [of log_pos_of ls] by (metis length_0_conv)
  show ?thesis
  proof (cases a)
    case (Inl e)
    with run assms show ?thesis by (auto simp: fetchAndSaveLogs_def bindE_apply)
  next
    case (Inr logs)
    with run assms fetchQueries_db [OF run] show ?thesis
      by (auto simp: fetchAndSaveLogs_def bindE_apply Let_def len split: if_splits)
  qed
qed

lemma fetchAndSave_frame:
  assumes ok: "setting_ok G m chain" and "honest (bs_ChainID (mon_cfg m)) chain (w_db w)"
    and small: "unat (br_To r) < 2 ^ 63"
    and run: "fetchAndSaveLogs G E m r w = (res, w')"
  shows "db_logs_cursors (w_db w') = db_logs_cursors (w_db w)"
    and "honest (bs_ChainID (mon_cfg m)) chain (w_db w')"
proof -
  let ?c = "bs_ChainID (mon_cfg m)"
  have N: "node_honest chain m" using ok by (simp add: setting_ok_def)
  note qs = fetchQueries_answers [OF N built_bounded [OF small]]
  from fetchAndSave_run [OF run] consider
      (failed) e where "fetchQueries m (buildFilterQueries G m r) w = (Inl e, w')"
    | (none) w1 where "w' = w1" "w_db w1 = w_db w"
    | (some) logs w1 where "fetchQueries m (buildFilterQueries G m r) w = (Inr logs, w1)" "w_db w1 = w_db w"
        "Logs_Ensure E (sort_key log_pos_of logs) w1 = (res, w')"
    by blast
  then have "db_logs_cursors (w_db w') = db_logs_cursors (w_db w) \<and> honest ?c chain (w_db w')"
  proof cases
    case failed
    with assms(2) fetchQueries_db show ?thesis by metis
  next
    case none
    with assms(2) show ?thesis by simp
  next
    case some
    have "\<exists>rl \<in> set chain. saved_as ?c x rl"
      if x: "x \<in> set (vals (db_logs (w_db w')))" "log_ChainID x = ?c" for x
    proof -
      from Logs_Ensure_effect(2) [OF some(3) x(1)] consider
        "x \<in> set (vals (db_logs (w_db w1)))" | l i where "l \<in> set logs" "x = l\<lparr>log_ID := i\<rparr>"
        by auto
      then show ?thesis
      proof cases
        case 1
        with assms(2) x(2) some(2) show ?thesis by (simp add: honest_def)
      next
        case 2
        with qs [OF some(1)] obtain rl where "rl \<in> set chain" "l = NewLog ?c rl" by blast
        with 2(2) show ?thesis by (intro bexI [of _ rl]) simp_all
      qed
    qed
    with Logs_Ensure_effect(1) [OF some(3)] some(2) show ?thesis by (simp add: honest_def)
  qed
  then show "db_logs_cursors (w_db w') = db_logs_cursors (w_db w)" "honest ?c chain (w_db w')" by auto
qed

lemma int4_below_MaxUint32: "int4_ok n \<Longrightarrow> n < MaxUint32"
  by (simp add: int4_ok_def int4_max_def MaxUint32_def word_less_nat_alt)

text \<open>Sorting by position sorts by block.\<close>

lemma sorted_blocks: "sorted (map log_pos_of ls) \<Longrightarrow> sorted (map log_BlockNumber ls)"
  by (induction ls) (auto dest: log_pos_le_block)

lemma fetchAndSave_fetched:
  assumes ok: "setting_ok G m chain" and hon: "honest (bs_ChainID (mon_cfg m)) chain (w_db w)"
    and r: "unat (br_To r) < 2 ^ 63" "br_From r \<le> br_To r"
    and run: "fetchAndSaveLogs G E m r w = (Inr logs, w')"
  shows "fetched (goals G m chain handled) (w_db w') r logs"
proof -
  let ?c = "bs_ChainID (mon_cfg m)"
  let ?qs = "buildFilterQueries G m r"
  have N: "node_honest chain m" and wf: "chain_wf chain" using ok by (simp_all add: setting_ok_def)
  have hon': "honest ?c chain (w_db w')" by (rule fetchAndSave_frame(2) [OF ok hon r(1) run])
  from fetchAndSave_run [OF run] obtain found w1 where
    found: "fetchQueries m ?qs w = (Inr found, w1)"
    and saved: "found = [] \<and> logs = [] \<or> found \<noteq> [] \<and> Logs_Ensure E (sort_key log_pos_of found) w1 = (Inr logs, w')"
    by auto
  have set_found: "set found = NewLog ?c ` {rl \<in> set chain. \<exists>q \<in> set ?qs. query_matches q rl}"
    using fetchQueries_answers [OF N built_bounded [OF r(1)] found] .
  have cover: "NewLog ?c rl \<in> set found" if "rl \<in> set chain" "wanted G m rl"
      "br_From r \<le> rl_BlockNumber rl" "rl_BlockNumber rl \<le> br_To r" for rl
    using buildFilterQueries_cover [OF r that(3,4,2)] that(1) set_found by auto
  show ?thesis
  proof (cases "found = []")
    case True
    with saved have "logs = []" by auto
    with cover True show ?thesis by (auto simp: fetched_def batchable_def)
  next
    case False
    let ?srt = "sort_key log_pos_of found"
    from saved False have ens: "Logs_Ensure E ?srt w1 = (Inr logs, w')" by auto
    note st = Logs_Ensure_stored [OF ens]
    have len: "length logs = length ?srt" using st(1) by (simp only: list_all2_conv_all_nth)
    have nth: "logs ! i = (?srt ! i)\<lparr>log_ID := log_ID (logs ! i)\<rparr> \<and> stored (w_db w') (?srt ! i) (log_ID (logs ! i))"
      if "i < length logs" for i
      using st(1) that len by (simp add: list_all2_conv_all_nth)
    have elem: "\<exists>rl \<in> set chain. saved_as ?c l rl \<and> l \<in> set (vals (db_logs (w_db w'))) \<and>
        log_BlockNumber l \<le> br_To r \<and> int4_ok (log_BlockNumber l)" if l: "l \<in> set logs" for l
    proof -
      from l obtain i where i: "i < length logs" "l = logs ! i" by (auto simp: in_set_conv_nth)
      have "?srt ! i \<in> set found" using i len by (metis nth_mem set_sort)
      then obtain rl q where rl: "rl \<in> set chain" "?srt ! i = NewLog ?c rl"
        and q: "q \<in> set ?qs" "query_matches q rl"
        unfolding set_found by auto
      have sx: "saved_as ?c (?srt ! i) rl" unfolding rl(2) by (rule saved_as_NewLog)
      have as: "saved_as ?c l rl" unfolding i(2) by (rule same_but_id [OF conjunct1 [OF nth [OF i(1)]] sx])
      have le: "log_BlockNumber l \<le> br_To r"
        using buildFilterQueries_range [OF r q] saved_as_fields(1) [OF as] by simp
      have "int4_ok (log_BlockNumber (?srt ! i))"
        using st(3) i len by (simp add: list_all_length log_columns_ok_def)
      then have int4: "int4_ok (log_BlockNumber l)"
        using saved_as_fields(1) [OF as] rl(2) by simp
      from nth [OF i(1)] obtain row where row: "row \<in> set (vals (db_logs (w_db w')))"
        "log_key row = log_key (?srt ! i)" "log_ID row = log_ID l"
        unfolding stored_def i(2) by blast
      have key: "log_key row = log_key l" using row(2) nth [OF i(1)] i(2) by (metis log_key_id)
      have "log_ChainID row = ?c" using key saved_as_fields(3) [OF as] by (simp add: log_key_def)
      with hon' row(1) obtain rl' where rl': "rl' \<in> set chain" "saved_as ?c row rl'"
        by (auto simp: honest_def)
      have "rl' = rl" by (rule saved_as_unique [OF wf rl'(1) rl(1) rl'(2) as key])
      with rl'(2) as row(3) have "row = l" by (blast intro: same_row)
      with row(1) as rl(1) le int4 show ?thesis by blast
    qed
    have "map log_BlockNumber logs = map log_BlockNumber ?srt"
    proof (rule nth_equalityI)
      show "length (map log_BlockNumber logs) = length (map log_BlockNumber ?srt)" using len by simp
    next
      fix i assume "i < length (map log_BlockNumber logs)"
      then have i: "i < length logs" by simp
      have "log_BlockNumber (logs ! i) = log_BlockNumber ((?srt ! i)\<lparr>log_ID := log_ID (logs ! i)\<rparr>)"
        using nth [OF i] by metis
      with i len show "map log_BlockNumber logs ! i = map log_BlockNumber ?srt ! i" by simp
    qed
    moreover have "sorted (map log_BlockNumber ?srt)" by (rule sorted_blocks) simp
    ultimately have srt: "sorted (map log_BlockNumber logs)" by simp
    have "\<exists>l \<in> set logs. saved_as ?c l rl" if "rl \<in> set chain" "wanted G m rl"
        "br_From r \<le> rl_BlockNumber rl" "rl_BlockNumber rl \<le> br_To r" for rl
    proof -
      from cover [OF that] have "NewLog ?c rl \<in> set ?srt" by simp
      then obtain i where i: "i < length logs" "?srt ! i = NewLog ?c rl"
        using len by (auto simp: in_set_conv_nth simp del: set_sort)
      have sx: "saved_as ?c (?srt ! i) rl" unfolding i(2) by (rule saved_as_NewLog)
      have "saved_as ?c (logs ! i) rl" by (rule same_but_id [OF conjunct1 [OF nth [OF i(1)]] sx])
      with i(1) show ?thesis by auto
    qed
    with srt elem show ?thesis
      by (auto simp: fetched_def batchable_def list_all_iff dest!: elem intro: int4_below_MaxUint32)
  qed
qed

text \<open>Whatever a fetch gives back was found by one of its queries.\<close>

lemma fetchAndSave_found:
  assumes ok: "setting_ok G m chain" and r: "unat (br_To r) < 2 ^ 63" "br_From r \<le> br_To r"
    and run: "fetchAndSaveLogs G E m r w = (Inr logs, w')" and l: "l \<in> set logs"
  shows "\<exists>rl \<in> set chain. saved_as (bs_ChainID (mon_cfg m)) l rl \<and> br_From r \<le> rl_BlockNumber rl \<and>
    rl_BlockNumber rl \<le> br_To r \<and> (bs_StartBlock (mon_cfg m) \<le> rl_BlockNumber rl \<longrightarrow> wanted G m rl)"
proof -
  let ?c = "bs_ChainID (mon_cfg m)" and ?qs = "buildFilterQueries G m r"
  have N: "node_honest chain m" using ok by (simp add: setting_ok_def)
  from fetchAndSave_run [OF run] l obtain found w1 where found: "fetchQueries m ?qs w = (Inr found, w1)"
    and ens: "Logs_Ensure E (sort_key log_pos_of found) w1 = (Inr logs, w')"
    by auto
  let ?srt = "sort_key log_pos_of found"
  obtain i where i: "i < length logs" "l = logs ! i" using l by (auto simp: in_set_conv_nth)
  have len: "length logs = length ?srt" and eq: "logs ! i = (?srt ! i)\<lparr>log_ID := log_ID (logs ! i)\<rparr>"
    using Logs_Ensure_stored(1) [OF ens] i(1) by (simp_all add: list_all2_conv_all_nth)
  have "?srt ! i \<in> set found" using i(1) len by (metis nth_mem set_sort)
  with eq obtain x where x: "x \<in> set found" "l = x\<lparr>log_ID := log_ID l\<rparr>" unfolding i(2) by blast
  from fetchQueries_answers [OF N built_bounded [OF r(1)] found] x(1) obtain rl q where
    rl: "rl \<in> set chain" "x = NewLog ?c rl" and q: "q \<in> set ?qs" "query_matches q rl"
    by auto
  have "saved_as ?c l rl" by (rule same_but_id [OF x(2)]) (simp add: rl(2) saved_as_NewLog)
  with rl(1) buildFilterQueries_range [OF r q] buildFilterQueries_wanted [OF r q] show ?thesis by blast
qed

section \<open>Properties\<close>

text \<open>Property C6. A fetch of a block range that succeeds on an honest node: the logs it gives are sorted by
  block and rows of the database with their ids; each is a log of the chain within the range, and one the monitor
  wants (when its block is not before the start block of the side); and every wanted log of the range is among them,
  whatever was saved before.\<close>

theorem fetch_saves_range:
  assumes "setting_ok G m chain" and "honest (bs_ChainID (mon_cfg m)) chain (w_db w)"
    and "unat (br_To r) < 2 ^ 63" "br_From r \<le> br_To r"
    and "fetchAndSaveLogs G E m r w = (Inr logs, w')"
  shows "sorted (map log_BlockNumber logs)
    \<and> list_all (\<lambda>l. br_From r \<le> log_BlockNumber l \<and> log_BlockNumber l \<le> br_To r) logs
    \<and> list_all (\<lambda>l. list_ex (\<lambda>rl. saved_as (bs_ChainID (mon_cfg m)) l rl \<and>
        (bs_StartBlock (mon_cfg m) \<le> rl_BlockNumber rl \<longrightarrow> wanted G m rl)) chain) logs
    \<and> set logs \<subseteq> set (vals (db_logs (w_db w')))
    \<and> list_all (\<lambda>rl. wanted G m rl \<and> br_From r \<le> rl_BlockNumber rl \<and> rl_BlockNumber rl \<le> br_To r \<longrightarrow>
        list_ex (\<lambda>l. saved_as (bs_ChainID (mon_cfg m)) l rl) logs) chain"
proof -
  note found = fetchAndSave_found [OF assms(1,3-5)]
  have "br_From r \<le> log_BlockNumber l \<and> log_BlockNumber l \<le> br_To r" if "l \<in> set logs" for l
    using found [OF that] saved_as_fields(1) by metis
  moreover have "list_all (\<lambda>l. list_ex (\<lambda>rl. saved_as (bs_ChainID (mon_cfg m)) l rl \<and>
        (bs_StartBlock (mon_cfg m) \<le> rl_BlockNumber rl \<longrightarrow> wanted G m rl)) chain) logs"
    unfolding list_all_iff list_ex_iff using found by blast
  ultimately show ?thesis
    using fetchAndSave_fetched [OF assms, of "\<lambda>l d. True"]
    by (simp add: fetched_def batchable_def list_all_iff list_ex_iff)
qed

end
