(* ===== verification/HandlerFrame.thy ===== *)
theory HandlerFrame
  imports Handlers
begin

text \<open>
  What the handlers leave alone: none of them writes to the tables of logs and of cursors, whether it
  succeeds or fails. The calls of \<open>repository/postgres\<close> the handlers make are stated one by one,
  the handlers of \<open>monitor/handlers.go\<close> follow.
\<close>

definition same_logs :: "world \<Rightarrow> world \<Rightarrow> bool" where
  "same_logs w w' \<longleftrightarrow> db_logs (w_db w') = db_logs (w_db w) \<and> db_logs_cursors (w_db w') = db_logs_cursors (w_db w)"

lemma same_logs_refl [simp, intro]: "same_logs w w"
  by (simp add: same_logs_def)

lemma keepsE_same_bindE [intro]:
  "keepsE same_logs m \<Longrightarrow> (\<And>a. keepsE same_logs (f a)) \<Longrightarrow> keepsE same_logs (bindE m f)"
  by (rule keepsE_bindE) (auto simp: same_logs_def)

lemma keepsE_same_pure [simp, intro]:
  "keepsE same_logs (returnE a)" "keepsE same_logs (failE e)" "keepsE same_logs (liftE r)"
  by (simp_all add: keepsE_def)

lemma keepsE_same_query [simp, intro]: "keepsE same_logs (db_query E q)"
  by (simp add: keepsE_def same_logs_def db_query_db)

lemma keepsE_same_ignore [intro]: "keepsE same_logs m \<Longrightarrow> keepsE same_logs (IgnoreErrNotFound m)"
  by (auto simp: keepsE_def IgnoreErrNotFound_def split: prod.split sum.split) (metis snd_conv)+

lemma keepsE_same_exec:
  assumes "\<And>rows d. db_logs (put rows d) = db_logs d \<and> db_logs_cursors (put rows d) = db_logs_cursors d"
  shows "keepsE same_logs (db_exec E (\<lambda>now d. ensure_stmt put (r now d) d))"
proof -
  have "same_logs w (snd (db_exec E (\<lambda>now d. ensure_stmt put (r now d) d) w))" for w
  proof (cases "r (env_clock E (w_tick w)) (w_db w)")
    case None
    then show ?thesis
      by (simp add: db_exec_def Let_def ensure_stmt_def same_logs_def split: db_fault.split)
  next
    case (Some rows)
    then show ?thesis
      using assms [of rows "w_db w"]
      by (simp add: db_exec_def Let_def ensure_stmt_def same_logs_def split: db_fault.split)
  qed
  then show ?thesis by (simp add: keepsE_def)
qed

lemma ensures_same [simp, intro]:
  "keepsE same_logs (BlockTimestamps_Ensure E ts)"
  "keepsE same_logs (Messages_Ensure E m)" "keepsE same_logs (ErcToNativeMessages_Ensure E em)"
  "keepsE same_logs (SentMessages_Ensure E sm)" "keepsE same_logs (SignedMessages_Ensure E sgm)"
  "keepsE same_logs (CollectedMessages_Ensure E cm)" "keepsE same_logs (ExecutedMessages_Ensure E xm)"
  "keepsE same_logs (InformationRequests_Ensure E ir)"
  "keepsE same_logs (SentInformationRequests_Ensure E sir)"
  "keepsE same_logs (SignedInformationRequests_Ensure E sgir)"
  "keepsE same_logs (ExecutedInformationRequests_Ensure E eir)"
  "keepsE same_logs (BridgeValidators_Ensure E bv)"
  unfolding BlockTimestamps_Ensure_def Messages_Ensure_def ErcToNativeMessages_Ensure_def
    SentMessages_Ensure_def SignedMessages_Ensure_def CollectedMessages_Ensure_def
    ExecutedMessages_Ensure_def InformationRequests_Ensure_def SentInformationRequests_Ensure_def
    SignedInformationRequests_Ensure_def ExecutedInformationRequests_Ensure_def BridgeValidators_Ensure_def
  by (rule keepsE_same_exec, simp)+

lemma queries_same [simp, intro]:
  "keepsE same_logs (Logs_GetByID E i)" "keepsE same_logs (Logs_Find E f)"
  "keepsE same_logs (BlockTimestamps_GetByBlockNumber E c n)"
  "keepsE same_logs (ErcToNativeMessages_GetByMsgHash E b h)" "keepsE same_logs (SentMessages_GetByMsgHash E b h)"
  "keepsE same_logs (Messages_GetByMsgHash E b h)" "keepsE same_logs (BridgeValidators_GetActiveValidator E b c a)"
  unfolding query_defs by (rule keepsE_same_query)+

lemma rpc_same: "keepsE same_logs (rpc f)"
  by (simp add: keepsE_def same_logs_def rpc_def)

lemma client_same [simp, intro]:
  "keepsE same_logs (HeaderByNumber N n)" "keepsE same_logs (TransactionByHash N h)"
  "keepsE same_logs (CallContract N a b)"
  unfolding HeaderByNumber_def TransactionByHash_def CallContract_def by (rule rpc_same)+

lemma handlers_same [simp, intro]:
  "keepsE same_logs (HandleUserRequestForAffirmation G E p log data)"
  "keepsE same_logs (HandleLegacyUserRequestForAffirmation G E p log data)"
  "keepsE same_logs (HandleErcToNativeTransfer G E p log data)"
  "keepsE same_logs (HandleErcToNativeUserRequestForAffirmation G E p log data)"
  "keepsE same_logs (HandleUserRequestForSignature G E p log data)"
  "keepsE same_logs (HandleLegacyUserRequestForSignature G E p log data)"
  "keepsE same_logs (HandleErcToNativeUserRequestForSignature G E p log data)"
  "keepsE same_logs (HandleSignedForUserRequest E p log data)"
  "keepsE same_logs (HandleErcToNativeSignedForAffirmation G E p log data)"
  "keepsE same_logs (HandleRelayedMessage E p log data)"
  "keepsE same_logs (HandleErcToNativeRelayedMessage G E p log data)"
  "keepsE same_logs (HandleAffirmationCompleted E p log data)"
  "keepsE same_logs (HandleErcToNativeAffirmationCompleted G E p log data)"
  "keepsE same_logs (HandleCollectedSignatures E p log data)"
  "keepsE same_logs (HandleUserRequestForInformation E p log data)"
  "keepsE same_logs (HandleSignedForInformation E p log data)"
  "keepsE same_logs (HandleInformationRetrieved E p log data)"
  "keepsE same_logs (HandleValidatorAdded E p log data)"
  "keepsE same_logs (HandleValidatorRemoved E p log data)"
  unfolding handler_defs
  by (auto simp: Let_def intro!: keepsE_same_bindE keepsE_same_ignore split: option.split)

lemma registered_same:
  assumes "map_of (fst (registered G E cfg N)) e = Some h \<or> map_of (snd (registered G E cfg N)) e = Some h"
  shows "keepsE same_logs (h log data)"
  using assms
  by (auto simp: registered_defs split: BridgeMode.splits if_splits)

end
