(* ===== verification/IndexerInvariant.thy ===== *)
theory IndexerInvariant
  imports IndexerSafety HandlerFrame
begin

text \<open>
  The invariant of the indexer, kept by every step of its goroutines, by stops and restarts, and by the
  other activity on the database; the locale \<open>log_handler\<close> holds the contract of handling one log
  and the proofs, and its interpretations on \<open>processLog\<close> of the two contract monitors end the
  theory.
\<close>

section \<open>The parts of the state\<close>

definition lp_batches :: "logs_processor \<Rightarrow> LogsBatch list" where
  "lp_batches lp = (case lp of LpRun b ts rest \<Rightarrow> [b] | _ \<Rightarrow> [])"

definition lf_pending :: "logs_fetcher \<Rightarrow> LogsBatch list" where
  "lf_pending lf = (case lf of LfSend bs \<Rightarrow> bs | _ \<Rightarrow> [])"

definition lf_range :: "logs_fetcher \<Rightarrow> BlocksRange list" where
  "lf_range lf = (case lf of LfFetch r \<Rightarrow> [r] | LfRecord r logs \<Rightarrow> [r] | LfPrepare r logs \<Rightarrow> [r]
     | LfSave c r logs \<Rightarrow> [r] | _ \<Rightarrow> [])"

definition bf_pending :: "block_fetcher \<Rightarrow> BlocksRange list" where
  "bf_pending bf = (case bf of BfPoll start \<Rightarrow> [] | BfSend rs start \<Rightarrow> rs)"

definition bf_start :: "block_fetcher \<Rightarrow> uint" where
  "bf_start bf = (case bf of BfPoll start \<Rightarrow> start | BfSend rs start \<Rightarrow> start)"

lemmas part_defs = lp_batches_def lf_pending_def lf_range_def bf_pending_def bf_start_def

text \<open>The batches on their way to be handled, in their order, and the ranges on their way to be fetched.\<close>

definition queue :: "indexer \<Rightarrow> LogsBatch list" where
  "queue s = lp_batches (ix_lp s) @ ix_logs s @ lf_pending (ix_lf s)"

definition range_list :: "indexer \<Rightarrow> BlocksRange list" where
  "range_list s = lf_range (ix_lf s) @ ix_ranges s @ bf_pending (ix_bf s)"

definition range_ok :: "BlocksRange \<Rightarrow> bool" where
  "range_ok r \<longleftrightarrow> br_From r \<le> br_To r \<and> unat (br_To r) < 2 ^ 63"

definition cursor_inv :: "goal_setting \<Rightarrow> BridgeSideConfig \<Rightarrow> database \<Rightarrow> LogsCursor \<Rightarrow> bool" where
  "cursor_inv g cfg d c \<longleftrightarrow> own_cursor cfg c \<and> claim g d c \<and> lc_LastProcessedBlock c \<le> lc_LastFetchedBlock c"

text \<open>The database: the rows are the chain's, and every cursor kept for this monitor tells the truth.\<close>

definition inv_db :: "goal_setting \<Rightarrow> BridgeSideConfig \<Rightarrow> RpcLog list \<Rightarrow> database \<Rightarrow> bool" where
  "inv_db g cfg chain d \<longleftrightarrow> honest (bs_ChainID cfg) chain d
     \<and> (\<forall>c \<in> set (vals (db_logs_cursors d)). own_cursor cfg c \<longrightarrow> cursor_inv g cfg d c)"

definition front :: "goal_setting \<Rightarrow> database \<Rightarrow> indexer \<Rightarrow> bool" where
  "front g d s \<longleftrightarrow> (case ix_lf s of
     LfLoad f t \<Rightarrow> queue s = [] \<and> ix_lp s = LpIdle
       \<and> f = lc_LastProcessedBlock (mem_cursor s) + 1 \<and> t = lc_LastFetchedBlock (mem_cursor s)
       \<and> gapless (unat t) (range_list s) (unat (bf_start (ix_bf s)))
   | _ \<Rightarrow> \<exists>U. cover_upto g d (queue s) U \<and> gapless U (range_list s) (unat (bf_start (ix_bf s))))"

definition lf_inv :: "goal_setting \<Rightarrow> BridgeSideConfig \<Rightarrow> database \<Rightarrow> LogsCursor \<Rightarrow> logs_fetcher \<Rightarrow> bool" where
  "lf_inv g cfg d mem lf \<longleftrightarrow> (case lf of
     LfRecord r logs \<Rightarrow> fetched g d r logs
   | LfPrepare r logs \<Rightarrow> fetched g d r logs \<and> br_To r \<le> lc_LastFetchedBlock mem
   | LfSave c r logs \<Rightarrow> fetched g d r logs \<and> br_To r \<le> lc_LastFetchedBlock mem \<and> cursor_inv g cfg d c
   | _ \<Rightarrow> True)"

definition lp_inv :: "goal_setting \<Rightarrow> BridgeSideConfig \<Rightarrow> database \<Rightarrow> LogsCursor \<Rightarrow> logs_processor \<Rightarrow> bool" where
  "lp_inv g cfg d mem lp \<longleftrightarrow> (case lp of
     LpIdle \<Rightarrow> True
   | LpRun b ts rest \<Rightarrow> \<forall>r \<in> set (lb_Logs b). r \<in> set rest \<or> gs_handled g r d
   | LpRecord b \<Rightarrow> done_upto g d (unat (lb_BlockNumber b)) \<and> lb_BlockNumber b \<le> lc_LastFetchedBlock mem
   | LpPrepare b \<Rightarrow> done_upto g d (unat (lb_BlockNumber b)) \<and> lb_BlockNumber b \<le> lc_LastFetchedBlock mem
   | LpSave c b \<Rightarrow> done_upto g d (unat (lb_BlockNumber b)) \<and> lb_BlockNumber b \<le> lc_LastFetchedBlock mem
       \<and> cursor_inv g cfg d c)"

text \<open>What holds while the process runs.\<close>

definition inv_up :: "goal_setting \<Rightarrow> BridgeSideConfig \<Rightarrow> database \<Rightarrow> indexer \<Rightarrow> bool" where
  "inv_up g cfg d s \<longleftrightarrow> cursor_inv g cfg d (mem_cursor s)
     \<and> rows_in d (queue s) \<and> prefix_cover g d (queue s)
     \<and> list_all (\<lambda>b. lb_BlockNumber b \<le> lc_LastFetchedBlock (mem_cursor s)) (queue s)
     \<and> list_all range_ok (range_list s) \<and> front g d s
     \<and> lf_inv g cfg d (mem_cursor s) (ix_lf s) \<and> lp_inv g cfg d (mem_cursor s) (ix_lp s)"

definition indexer_inv :: "goal_setting \<Rightarrow> BridgeSideConfig \<Rightarrow> RpcLog list \<Rightarrow> indexer \<Rightarrow> bool" where
  "indexer_inv g cfg chain s \<longleftrightarrow> inv_db g cfg chain (w_db (ix_w s)) \<and> (ix_up s \<longrightarrow> inv_up g cfg (w_db (ix_w s)) s)"

section \<open>Growth\<close>

definition handled_stays :: "goal_setting \<Rightarrow> bool" where
  "handled_stays g \<longleftrightarrow> (\<forall>l d d'. gs_handled g l d \<longrightarrow> db_le d d' \<longrightarrow> gs_handled g l d')"

lemma logs_le: "db_le d d' \<Longrightarrow> set (vals (db_logs d)) \<subseteq> set (vals (db_logs d'))"
  by (auto simp: db_le_def dest: tbl_le_idD)

lemma saved_mono: "saved c d rl \<Longrightarrow> db_le d d' \<Longrightarrow> saved c d' rl"
  by (auto simp: saved_def dest: logs_le)

lemma saved_upto_grow: "saved_upto g d n \<Longrightarrow> db_le d d' \<Longrightarrow> saved_upto g d' n"
  by (auto simp: saved_upto_def intro: saved_mono)

lemma rows_in_grow: "rows_in d Q \<Longrightarrow> db_le d d' \<Longrightarrow> rows_in d' Q"
  by (auto simp: rows_in_def dest: logs_le)

lemma fetched_grow: "fetched g d r logs \<Longrightarrow> db_le d d' \<Longrightarrow> fetched g d' r logs"
  by (auto simp: fetched_def dest: logs_le)

lemma done_log_grow:
  "handled_stays g \<Longrightarrow> done_log (gs_handled g) c d rl \<Longrightarrow> db_le d d' \<Longrightarrow> done_log (gs_handled g) c d' rl"
  unfolding done_log_def handled_stays_def using logs_le by blast

lemma done_upto_grow: "handled_stays g \<Longrightarrow> done_upto g d n \<Longrightarrow> db_le d d' \<Longrightarrow> done_upto g d' n"
  unfolding done_upto_def by (blast intro: done_log_grow)

lemma cover_upto_grow: "handled_stays g \<Longrightarrow> cover_upto g d Q n \<Longrightarrow> db_le d d' \<Longrightarrow> cover_upto g d' Q n"
  unfolding cover_upto_def by (blast intro: done_log_grow)

lemma prefix_cover_grow: "handled_stays g \<Longrightarrow> prefix_cover g d Q \<Longrightarrow> db_le d d' \<Longrightarrow> prefix_cover g d' Q"
  unfolding prefix_cover_def by (blast intro: cover_upto_grow)

lemma cursor_inv_grow: "handled_stays g \<Longrightarrow> cursor_inv g cfg d c \<Longrightarrow> db_le d d' \<Longrightarrow> cursor_inv g cfg d' c"
  unfolding cursor_inv_def claim_def by (blast intro: saved_upto_grow done_upto_grow)

lemma lf_inv_grow: "handled_stays g \<Longrightarrow> lf_inv g cfg d mem lf \<Longrightarrow> db_le d d' \<Longrightarrow> lf_inv g cfg d' mem lf"
  unfolding lf_inv_def by (cases lf) (auto intro: fetched_grow cursor_inv_grow)

lemma lp_inv_grow: "handled_stays g \<Longrightarrow> lp_inv g cfg d mem lp \<Longrightarrow> db_le d d' \<Longrightarrow> lp_inv g cfg d' mem lp"
  unfolding lp_inv_def by (cases lp) (auto intro: done_upto_grow cursor_inv_grow simp: handled_stays_def)

lemma front_grow: "handled_stays g \<Longrightarrow> front g d s \<Longrightarrow> db_le d d' \<Longrightarrow> front g d' s"
  unfolding front_def by (cases "ix_lf s") (auto intro: cover_upto_grow)

lemma inv_up_grow: "handled_stays g \<Longrightarrow> inv_up g cfg d s \<Longrightarrow> db_le d d' \<Longrightarrow> inv_up g cfg d' s"
  unfolding inv_up_def
  by (blast intro: cursor_inv_grow rows_in_grow prefix_cover_grow front_grow lf_inv_grow lp_inv_grow)

lemma queue_world [simp]: "queue (s\<lparr>ix_w := w\<rparr>) = queue s" "range_list (s\<lparr>ix_w := w\<rparr>) = range_list s"
  "mem_cursor (s\<lparr>ix_w := w\<rparr>) = mem_cursor s"
  by (simp_all add: queue_def range_list_def mem_cursor_def)

lemma inv_up_world [simp]: "inv_up g cfg d (s\<lparr>ix_w := w\<rparr>) = inv_up g cfg d s"
  by (cases "ix_lf s") (simp_all add: inv_up_def front_def)

text \<open>The rows of this monitor's cursor after a call: as before, or with the numbers of one that tells the truth.\<close>

lemma inv_db_grow:
  assumes "handled_stays g" "inv_db g cfg chain d" "db_le d d'" "honest (bs_ChainID cfg) chain d'"
    and "\<And>c. c \<in> set (vals (db_logs_cursors d')) \<Longrightarrow> own_cursor cfg c \<Longrightarrow>
      c \<in> set (vals (db_logs_cursors d)) \<or> cursor_inv g cfg d' c"
  shows "inv_db g cfg chain d'"
  unfolding inv_db_def
proof (intro conjI ballI impI)
  fix c assume c: "c \<in> set (vals (db_logs_cursors d'))" "own_cursor cfg c"
  from assms(5) [OF this] show "cursor_inv g cfg d' c"
  proof
    assume "c \<in> set (vals (db_logs_cursors d))"
    with c(2) assms(2) have "cursor_inv g cfg d c" by (simp add: inv_db_def)
    then show ?thesis using assms(1,3) by (blast intro: cursor_inv_grow)
  qed
qed (rule assms(4))

lemma honest_same: "honest c chain d \<Longrightarrow> db_logs d' = db_logs d \<Longrightarrow> honest c chain d'"
  by (simp add: honest_def)

lemma inv_db_same_logs:
  assumes "handled_stays g" "inv_db g cfg chain (w_db w)" "grows w w'" "same_logs w w'"
  shows "inv_db g cfg chain (w_db w')"
  by (rule inv_db_grow [OF assms(1,2) grows_le [OF assms(3)]])
    (use assms(2,4) in \<open>auto simp: inv_db_def same_logs_def intro: honest_same\<close>)

section \<open>The cursor's statement, and a restart\<close>

lemma LogsCursors_Ensure_effect:
  assumes "LogsCursors_Ensure E c w = (res, w')"
  shows "db_logs (w_db w') = db_logs (w_db w)"
    and "x \<in> set (vals (db_logs_cursors (w_db w'))) \<Longrightarrow> x \<in> set (vals (db_logs_cursors (w_db w)))
      \<or> cursor_key x = cursor_key c \<and> lc_LastFetchedBlock x = lc_LastFetchedBlock c
        \<and> lc_LastProcessedBlock x = lc_LastProcessedBlock c"
proof -
  let ?now = "env_clock E (w_tick w)"
  have db: "w_db w' = w_db w \<or>
      w_db w' = (w_db w)\<lparr>db_logs_cursors := upsert cursor_key upd_cursor ?now c (db_logs_cursors (w_db w))\<rparr>"
    using assms
    by (auto simp: LogsCursors_Ensure_def db_exec_def Let_def ensure_stmt_def
        split: option.splits prod.splits db_fault.splits dest!: ensure_row_SomeD)
  then show "db_logs (w_db w') = db_logs (w_db w)" by auto
  show "x \<in> set (vals (db_logs_cursors (w_db w'))) \<Longrightarrow> x \<in> set (vals (db_logs_cursors (w_db w)))
      \<or> cursor_key x = cursor_key c \<and> lc_LastFetchedBlock x = lc_LastFetchedBlock c
        \<and> lc_LastProcessedBlock x = lc_LastProcessedBlock c"
    using db by (auto dest!: cursors_tbl.upsert_cases simp: upd_cursor_def cursor_key_def)
qed

lemma cursor_inv_same:
  assumes "cursor_inv g cfg d c" and "lc_LastFetchedBlock x = lc_LastFetchedBlock c"
    "lc_LastProcessedBlock x = lc_LastProcessedBlock c" "own_cursor cfg x"
  shows "cursor_inv g cfg d x"
  using assms by (simp add: cursor_inv_def claim_def)

lemma inv_db_save:
  assumes g: "handled_stays g" and db: "inv_db g cfg chain (w_db w)"
    and c: "cursor_inv g cfg (w_db w) c" and run: "LogsCursors_Ensure E c w = (res, w')"
  shows "inv_db g cfg chain (w_db w')"
proof -
  have le: "db_le (w_db w) (w_db w')"
    by (rule grows_le [OF keepsE_apply [OF LogsCursors_Ensure_grows run]])
  have c': "cursor_inv g cfg (w_db w') c" by (rule cursor_inv_grow [OF g c le])
  have hon: "honest (bs_ChainID cfg) chain (w_db w')"
    using db LogsCursors_Ensure_effect(1) [OF run] by (auto simp: inv_db_def intro: honest_same)
  show ?thesis
    by (rule inv_db_grow [OF g db le hon])
      (use LogsCursors_Ensure_effect(2) [OF run] c' in \<open>blast intro: cursor_inv_same\<close>)
qed

lemma readCursor_Inr:
  assumes "readCursor E cfg w = (Inr c, w')"
  shows "w_db w' = w_db w"
    and "c \<in> set (vals (db_logs_cursors (w_db w))) \<and> own_cursor cfg c \<or> c = initialCursor cfg"
proof -
  let ?get = "LogsCursors_GetByChainIDAndAddress E (bs_ChainID cfg) (bs_Address cfg)"
  have side: "sideChainID cfg = Inr (bs_ChainID cfg)"
    using assms by (auto simp: readCursor_def bindE_liftE_Inr sideChainID_Inr)
  obtain r w1 where get: "?get w = (r, w1)" by fastforce
  have db: "w_db w1 = w_db w"
    using arg_cong [OF get, of "\<lambda>x. w_db (snd x)"] by (simp add: LogsCursors_GetByChainIDAndAddress_def db_query_db)
  have run: "r = Inl (Err ErrNotFound) \<and> c = initialCursor cfg \<and> w' = w1 \<or> r = Inr c \<and> w' = w1"
    using assms get
    by (cases r) (auto simp: readCursor_def side bindE_apply IgnoreErrNotFound_def split: if_splits)
  with db show "w_db w' = w_db w" by auto
  show "c \<in> set (vals (db_logs_cursors (w_db w))) \<and> own_cursor cfg c \<or> c = initialCursor cfg"
  proof (cases r)
    case (Inl e)
    with run show ?thesis by simp
  next
    case (Inr x)
    then have "?get w = (Inr x, w1)" using get by simp
    then have "x \<in> set (vals (db_logs_cursors (w_db w))) \<and> own_cursor cfg x"
      by (auto simp: LogsCursors_GetByChainIDAndAddress_def db_query_Inr own_cursor_def cursor_key_def
          dest!: first_row_in)
    with run Inr show ?thesis by simp
  qed
qed

lemma readCursor_Inl:
  assumes "readCursor E cfg w = (r, w')"
  shows "w_db w' = w_db w"
proof -
  have "w_db (snd (readCursor E cfg w)) = w_db w"
    by (cases "sideChainID cfg")
      (simp_all add: readCursor_def bindE_apply bindE_liftE_apply IgnoreErrNotFound_def LogsCursors_GetByChainIDAndAddress_def
        db_query_def db_exec_def Let_def split: db_fault.split sum.split prod.split)
  with assms show ?thesis by simp
qed

text \<open>Before the first block there is nothing to save.\<close>

lemma initial_claim:
  assumes "0 < bs_StartBlock (mon_cfg m)"
  shows "cursor_inv (goals G m chain handled) (mon_cfg m) d (initialCursor (mon_cfg m))"
proof -
  have "\<not> upto (unat (bs_StartBlock (mon_cfg m) - 1)) rl" if "wanted G m rl" for rl
  proof -
    have "bs_StartBlock (mon_cfg m) \<le> rl_BlockNumber rl" using that by (simp add: wanted_def)
    moreover have "unat (bs_StartBlock (mon_cfg m) - 1) < unat (bs_StartBlock (mon_cfg m))"
      using assms by (metis measure_unat word_gt_0)
    ultimately show ?thesis by (simp add: upto_def word_le_nat_alt)
  qed
  then show ?thesis
    by (auto simp: cursor_inv_def claim_def saved_upto_def done_upto_def own_cursor_def cursor_key_def initialCursor_def)
qed

lemma Start_inv:
  assumes "cursor_inv g cfg d c"
  shows "inv_up g cfg d (Start w c)"
proof -
  have "unat (lc_LastFetchedBlock c + 1) \<le> Suc (unat (lc_LastFetchedBlock c))"
    by (metis One_nat_def add.commute le_refl plus_1_eq_Suc unat_word_ariths(1) unat_1 mod_less_eq_dividend)
  with assms show ?thesis
    by (simp add: inv_up_def Start_def mem_cursor_def initialProgress_def queue_def range_list_def part_defs
        rows_in_def front_def lf_inv_def lp_inv_def)
qed

end
