(* ===== verification/IndexerSteps.thy ===== *)
theory IndexerSteps
  imports IndexerInvariant
begin

text \<open>
  Every step of the indexer keeps its invariant. The locale \<open>log_handler\<close> states what the proofs
  need of the handling of one log: it leaves what the log was to leave, which later activity keeps, and it
  touches neither logs nor cursors. Its interpretations are \<open>processLog\<close> of the two contract
  monitors with the handlers \<open>NewMonitor\<close> registers.
\<close>

section \<open>The block fetcher\<close>

lemma gapless_snoc:
  "gapless u rs e \<Longrightarrow> (\<And>v. e \<le> Suc v \<Longrightarrow> gapless v qs e') \<Longrightarrow> gapless u (rs @ qs) e'"
  by (induction u rs e rule: gapless.induct) auto

lemma recordHead_cursor [simp]: "pg_logsCursor (recordHeadBlockNumber n p) = pg_logsCursor p"
  by (simp add: recordHeadBlockNumber_def recordIsSynced_def)

lemma scheduleRanges_ok:
  assumes ok: "heads_ok m" "0 < bs_MaxBlockRangeSize (mon_cfg m)"
    and head: "node_BlockNumber (mon_client m) t = Inr n"
    and run: "scheduleRanges (mon_cfg m) start n = Some (h, batches, start')"
  shows "unat start \<le> Suc v \<Longrightarrow> gapless v batches (unat start')" and "list_all range_ok batches"
proof -
  let ?m = "bs_MaxBlockRangeSize (mon_cfg m)"
  from run have split: "SplitBlockRange start h ?m = Some batches" and start': "start' = h + 1"
    and h: "h = n - bs_BlockConfirmations (mon_cfg m)"
    by (auto simp: scheduleRanges_def Let_def split: option.splits)
  have small: "unat h + unat ?m < 2 ^ 63" using ok(1) head h by (auto simp: heads_ok_def)
  have pos: "0 < unat ?m" using ok(2) by (simp add: word_less_nat_alt)
  have "unat (h + 1) = unat h + unat (1 :: uint)" by (rule unat_plus_small) (use small in simp)
  then have st: "unat start' = Suc (unat h)" using start' by simp
  show "gapless v batches (unat start')" if "unat start \<le> Suc v"
    unfolding st by (rule gapless_SplitBlockRange [OF pos _ that split]) (use small in simp)
  have "unat h + unat ?m < 2 ^ 64" using small by simp
  then have batches: "batches = map range_of (split_ranges (unat start) (unat h) (unat ?m))"
    using SplitBlockRange_ranges [OF pos, of h start] split by simp
  have "range_ok r" if "r \<in> set batches" for r
  proof -
    have "br_From r \<le> br_To r \<and> br_To r \<le> h"
      using range_of_member [OF pos] that unfolding batches by blast
    with small show ?thesis by (auto simp: range_ok_def word_le_nat_alt)
  qed
  then show "list_all range_ok batches" by (simp add: list_all_iff)
qed

lemma inv_up_parts:
  assumes "queue s' = queue s" "mem_cursor s' = mem_cursor s" "range_list s' = range_list s"
    "ix_lf s' = ix_lf s" "ix_lp s' = ix_lp s" "bf_start (ix_bf s') = bf_start (ix_bf s)"
  shows "inv_up g cfg d s' = inv_up g cfg d s"
  unfolding inv_up_def front_def assms ..

lemma bf_keeps:
  assumes ok: "setting_ok G m chain" and up: "inv_up g (mon_cfg m) (w_db (ix_w s)) s"
    and st: "bf_step m s s'"
  shows "inv_up g (mon_cfg m) (w_db (ix_w s)) s' \<and> w_db (ix_w s') = w_db (ix_w s) \<and> ix_up s' = ix_up s"
  using st
proof cases
  case (Poll start n w' head batches start')
  let ?d = "w_db (ix_w s)"
  have node: "node_BlockNumber (mon_client m) (w_tick (ix_w s)) = Inr n" and w': "w_db w' = ?d"
    using Poll(3) by (auto simp: BlockNumber_def rpc_def)
  note sched = scheduleRanges_ok [OF _ _ node Poll(4)]
  have hk: "heads_ok m" "0 < bs_MaxBlockRangeSize (mon_cfg m)" using ok by (simp_all add: setting_ok_def)
  have q: "queue s' = queue s" and mem: "mem_cursor s' = mem_cursor s"
    and rl: "range_list s' = range_list s @ batches"
    unfolding Poll(1) using Poll(2) by (simp_all add: queue_def range_list_def mem_cursor_def part_defs)
  have gap: "gapless u (range_list s) (unat (bf_start (ix_bf s))) \<Longrightarrow>
      gapless u (range_list s') (unat (bf_start (ix_bf s')))" for u
    unfolding rl using Poll(1,2) sched(1) [OF hk]
    by (intro gapless_snoc [where e = "unat start"]) (simp_all add: part_defs)
  have rk: "list_all range_ok (range_list s')"
    unfolding rl using up sched(2) [OF hk] by (simp add: inv_up_def)
  have same: "ix_lf s' = ix_lf s" "ix_lp s' = ix_lp s" using Poll(1) by simp_all
  have "front g ?d s'"
    using up unfolding inv_up_def front_def q mem same
    by (cases "ix_lf s") (auto intro: gap)
  with up rk w' Poll(1) show ?thesis
    unfolding inv_up_def q mem same by simp
next
  case (PollFails start e w')
  then show ?thesis using up by (auto simp: BlockNumber_def rpc_def)
next
  case (SendRange r rs start)
  have q: "queue s' = queue s" "mem_cursor s' = mem_cursor s" "range_list s' = range_list s"
    "ix_lf s' = ix_lf s" "ix_lp s' = ix_lp s" "bf_start (ix_bf s') = bf_start (ix_bf s)"
    unfolding SendRange(1) using SendRange(2) by (simp_all add: queue_def range_list_def mem_cursor_def part_defs)
  from inv_up_parts [OF q] up show ?thesis unfolding SendRange(1) by simp
next
  case (Scheduled start)
  have q: "queue s' = queue s" "mem_cursor s' = mem_cursor s" "range_list s' = range_list s"
    "ix_lf s' = ix_lf s" "ix_lp s' = ix_lp s" "bf_start (ix_bf s') = bf_start (ix_bf s)"
    unfolding Scheduled(1) using Scheduled(2) by (simp_all add: queue_def range_list_def mem_cursor_def part_defs)
  from inv_up_parts [OF q] up show ?thesis unfolding Scheduled(1) by simp
qed

section \<open>The logs fetcher\<close>

lemma submit_rows:
  assumes "batchable logs" "list_all (\<lambda>l. log_BlockNumber l \<le> e) logs" "b \<in> set (submitLogs logs e)"
  shows "set (lb_Logs b) \<subseteq> set logs" "lb_BlockNumber b \<le> e"
proof -
  let ?B = "submitLogs logs e"
  from submitLogs_props [OF assms(1,2)]
  have conc: "concat (map lb_Logs ?B) = logs" and srt: "sorted_wrt (<) (map lb_BlockNumber ?B)"
    and ne: "?B \<noteq> []" and lst: "lb_BlockNumber (last ?B) = e" by auto
  have "set (lb_Logs b) \<subseteq> set (concat (map lb_Logs ?B))" using assms(3) by auto
  then show "set (lb_Logs b) \<subseteq> set logs" by (simp only: conc)
  have "sorted_wrt (<) (map lb_BlockNumber (butlast ?B @ [last ?B]))" using srt ne by simp
  moreover have "b \<in> set (butlast ?B @ [last ?B])" using assms(3) ne by simp
  ultimately show "lb_BlockNumber b \<le> e"
    using lst unfolding map_append sorted_wrt_append by (auto simp: less_imp_le)
qed

text \<open>What was fetched before the last stop and not processed is loaded back from the database.\<close>

lemma wanted_address:
  assumes "wanted G m rl" and "f \<le> rl_BlockNumber rl" "rl_BlockNumber rl \<le> t"
  shows "rl_Address rl \<in> set (ContractAddresses (mon_cfg m) f t)"
  using assms
  by (fastforce simp: wanted_def ContractAddresses_def ErcToNativeTokenAddresses_filter token_wants_def list_ex_iff)

lemma load_found:
  assumes "LoadUnprocessedLogs E m f t w = (Inr bs, w')"
  obtains logs where "bs = submitLogs logs t" "w_db w' = w_db w" "batchable logs"
    "list_all (\<lambda>l. log_BlockNumber l \<le> t) logs" "int4_ok t"
    "set logs = {l \<in> set (vals (db_logs (w_db w))). matches (unprocessedFilter (mon_cfg m) f t) l}"
proof -
  let ?F = "unprocessedFilter (mon_cfg m) f t"
  from assms obtain logs where find: "Logs_Find E ?F w = (Inr logs, w')" and bs: "bs = submitLogs logs t"
    by (auto simp: LoadUnprocessedLogs_def bindE_Inr_iff)
  note props = Logs_Find_Inr [OF find]
  have t: "int4_ok t" and logs: "logs = order_logs (filter (matches ?F) (vals (db_logs (w_db w))))"
    using find by (auto simp: Logs_Find_def db_query_Inr unprocessedFilter_def opt_int4_ok_def split: if_splits)
  have le: "log_BlockNumber l \<le> t" if "l \<in> set logs" for l
    using props that by (simp add: matches_def unprocessedFilter_def)
  have "log_ChainID l = bs_ChainID (mon_cfg m)" if "l \<in> set (filter (matches ?F) (vals (db_logs (w_db w))))" for l
    using that by (simp add: matches_def unprocessedFilter_def)
  then have "sorted (map log_pos_of logs)" unfolding logs by (rule order_logs_one_chain)
  then have "sorted (map log_BlockNumber logs)" by (rule sorted_blocks)
  moreover have "log_BlockNumber l < MaxUint32" if "l \<in> set logs" for l
    using le [OF that] int4_below_MaxUint32 [OF t] by (rule le_less_trans)
  ultimately have "batchable logs" by (simp add: batchable_def list_all_iff)
  with le bs props t show thesis by (intro that [of logs]) (simp_all add: list_all_iff)
qed

lemma LoadUnprocessedLogs_db:
  assumes "LoadUnprocessedLogs E m f t w = (r, w')"
  shows "w_db w' = w_db w"
proof -
  obtain a w1 where find: "Logs_Find E (unprocessedFilter (mon_cfg m) f t) w = (a, w1)" by fastforce
  have "w_db w1 = w_db w"
    using arg_cong [OF find, of "\<lambda>x. w_db (snd x)"] by (simp add: Logs_Find_def db_query_db)
  moreover have "w' = w1"
    using assms find by (cases a) (auto simp: LoadUnprocessedLogs_def bindE_apply)
  ultimately show ?thesis by simp
qed

lemma load_cover:
  assumes c: "cursor_inv (goals G m chain handled) (mon_cfg m) (w_db w) c"
    and run: "LoadUnprocessedLogs E m (lc_LastProcessedBlock c + 1) (lc_LastFetchedBlock c) w = (Inr bs, w')"
  defines "g \<equiv> goals G m chain handled"
  shows "w_db w' = w_db w" "prefix_cover g (w_db w) bs" "cover_upto g (w_db w) bs (unat (lc_LastFetchedBlock c))"
    and "rows_in (w_db w) bs" "list_all (\<lambda>b. lb_BlockNumber b \<le> lc_LastFetchedBlock c) bs"
proof -
  let ?P = "lc_LastProcessedBlock c" and ?F = "lc_LastFetchedBlock c" and ?d = "w_db w"
  from load_found [OF run] obtain logs where bs: "bs = submitLogs logs ?F" and db: "w_db w' = ?d"
    and bt: "batchable logs" "list_all (\<lambda>l. log_BlockNumber l \<le> ?F) logs" and t: "int4_ok ?F"
    and found: "set logs = {l \<in> set (vals (db_logs ?d)). matches (unprocessedFilter (mon_cfg m) (?P + 1) ?F) l}" .
  from c have claims: "saved_upto g ?d (unat ?F)" "done_upto g ?d (unat ?P)" and le: "?P \<le> ?F"
    by (simp_all add: cursor_inv_def claim_def g_def)
  have "unat ?P \<le> int4_max" using t le by (simp add: int4_ok_def word_le_nat_alt)
  then have "unat (?P + 1) = unat ?P + unat (1 :: uint)"
    by (intro unat_plus_small) (simp add: int4_max_def)
  then have succ: "unat (?P + 1) = Suc (unat ?P)" by simp
  have fresh: "\<exists>l \<in> set logs. saved_as (gs_chain_id g) l rl"
    if rl: "rl \<in> gs_wanted g" "upto (unat ?F) rl" "\<not> upto (unat ?P) rl" for rl
  proof -
    from claims(1) rl(1,2) obtain r where r: "r \<in> set (vals (db_logs ?d))" "saved_as (gs_chain_id g) r rl"
      by (auto simp: saved_upto_def saved_def)
    have blk: "?P + 1 \<le> rl_BlockNumber rl" "rl_BlockNumber rl \<le> ?F"
      using rl(2,3) by (simp_all add: upto_def word_le_nat_alt succ)
    have "wanted G m rl" using rl(1) by (simp add: g_def)
    from wanted_address [OF this blk] have "matches (unprocessedFilter (mon_cfg m) (?P + 1) ?F) r"
      using saved_as_fields [OF r(2)] blk by (simp add: matches_def unprocessedFilter_def emptyLogsFilter_def g_def)
    with r found show ?thesis by blast
  qed
  have start: "cover_upto g ?d [] (unat ?P)"
    using claims(2) by (simp add: cover_upto_def done_upto_def)
  have new: "\<forall>rl \<in> gs_wanted g. upto (unat ?F) rl \<longrightarrow> \<not> upto (unat ?P) rl \<longrightarrow>
      (\<exists>l \<in> set logs. saved_as (gs_chain_id g) l rl)" using fresh by blast
  note sub = submit_cover [OF prefix_cover_Nil start new bt]
  show "w_db w' = ?d" by (rule db)
  show "prefix_cover g ?d bs" using sub(1) bs by simp
  show "cover_upto g ?d bs (unat ?F)"
    using sub(2) bs by (auto intro: cover_upto_mono)
  show "rows_in ?d bs" using submit_rows [OF bt] found unfolding rows_in_def bs by blast
  show "list_all (\<lambda>b. lb_BlockNumber b \<le> ?F) bs" using submit_rows [OF bt] by (simp add: list_all_iff bs)
qed

text \<open>The invariant of a logs fetcher that is not loading, and what its steps change.\<close>

definition loading :: "logs_fetcher \<Rightarrow> bool" where
  "loading lf = (case lf of LfLoad f t \<Rightarrow> True | _ \<Rightarrow> False)"

lemma front_running:
  "\<not> loading (ix_lf s) \<Longrightarrow> front g d s \<longleftrightarrow>
     (\<exists>U. cover_upto g d (queue s) U \<and> gapless U (range_list s) (unat (bf_start (ix_bf s))))"
  unfolding front_def loading_def by (cases "ix_lf s") auto

lemma inv_up_lf:
  assumes "inv_up g cfg d s" and "queue s' = queue s" "mem_cursor s' = mem_cursor s" "range_list s' = range_list s"
    and "ix_lp s' = ix_lp s" "ix_bf s' = ix_bf s" and "\<not> loading (ix_lf s)" "\<not> loading (ix_lf s')"
    and "lf_inv g cfg d (mem_cursor s) (ix_lf s')"
  shows "inv_up g cfg d s'"
  using assms unfolding inv_up_def by (simp add: front_running)

lemma submit_inv:
  assumes up: "inv_up g cfg d s" and lf: "lf_range (ix_lf s) = [r]" "lf_pending (ix_lf s) = []" "\<not> loading (ix_lf s)"
    and got: "fetched g d r logs" and le: "br_To r \<le> lc_LastFetchedBlock (mem_cursor s)"
  shows "inv_up g cfg d (s\<lparr>ix_lf := LfSend (submitLogs logs (br_To r))\<rparr>)"
proof -
  let ?s = "s\<lparr>ix_lf := LfSend (submitLogs logs (br_To r))\<rparr>" and ?B = "submitLogs logs (br_To r)"
  let ?rest = "ix_ranges s @ bf_pending (ix_bf s)"
  have rl: "range_list s = r # ?rest" and rl': "range_list ?s = ?rest"
    by (simp_all add: range_list_def lf) (simp add: lf_range_def)
  have q: "queue ?s = queue s @ ?B" and mem: "mem_cursor ?s = mem_cursor s"
    using lf(2) by (simp_all add: queue_def mem_cursor_def) (simp add: lf_pending_def)
  have bt: "batchable logs" "list_all (\<lambda>l. log_BlockNumber l \<le> br_To r) logs" "set logs \<subseteq> set (vals (db_logs d))"
    using got by (simp_all add: fetched_def)
  from up have parts: "rows_in d (queue s)" "prefix_cover g d (queue s)" "list_all range_ok (range_list s)"
    "list_all (\<lambda>b. lb_BlockNumber b \<le> lc_LastFetchedBlock (mem_cursor s)) (queue s)" "front g d s"
    by (simp_all add: inv_up_def)
  from parts(5) obtain U where U: "cover_upto g d (queue s) U" "gapless U (r # ?rest) (unat (bf_start (ix_bf s)))"
    using front_running [OF lf(3)] rl by auto
  have new: "\<forall>rl \<in> gs_wanted g. upto (unat (br_To r)) rl \<longrightarrow> \<not> upto U rl \<longrightarrow>
      (\<exists>l \<in> set logs. saved_as (gs_chain_id g) l rl)"
  proof (intro ballI impI)
    fix rl assume w: "rl \<in> gs_wanted g" "upto (unat (br_To r)) rl" "\<not> upto U rl"
    have "br_From r \<le> rl_BlockNumber rl" "rl_BlockNumber rl \<le> br_To r"
      using w(2,3) U(2) by (simp_all add: upto_def word_le_nat_alt)
    with got w(1) show "\<exists>l \<in> set logs. saved_as (gs_chain_id g) l rl" by (simp add: fetched_def)
  qed
  note sub = submit_cover [OF parts(2) U(1) new bt(1,2)]
  have rows: "rows_in d (queue s @ ?B)"
    using parts(1) submit_rows(1) [OF bt(1,2)] bt(3) unfolding rows_in_def by fastforce
  have blocks: "list_all (\<lambda>b. lb_BlockNumber b \<le> lc_LastFetchedBlock (mem_cursor s)) (queue s @ ?B)"
    using parts(4) submit_rows(2) [OF bt(1,2)] le by (auto simp: list_all_iff intro: order_trans)
  have "front g d ?s"
    using sub(2) U(2) by (auto simp: front_running loading_def q rl')
  with up sub(1) rows blocks parts(3) show ?thesis
    unfolding inv_up_def q mem rl' by (simp add: rl lf_inv_def)
qed

lemma setFetched_inv:
  assumes up: "inv_up g cfg d s" and lf: "ix_lf s = LfRecord r logs"
    and set_: "setFetched (br_To r) (ix_p s) = Some p'"
  shows "inv_up g cfg d (s\<lparr>ix_p := p', ix_lf := LfPrepare r logs\<rparr>)"
proof -
  let ?s = "s\<lparr>ix_p := p', ix_lf := LfPrepare r logs\<rparr>" and ?c = "mem_cursor s"
  have nl: "\<not> loading (ix_lf s)" "\<not> loading (ix_lf ?s)" by (simp_all add: lf loading_def)
  have q: "queue ?s = queue s" "range_list ?s = range_list s"
    using lf by (simp_all add: queue_def range_list_def part_defs)
  have ge: "lc_LastFetchedBlock ?c \<le> br_To r" and mem: "mem_cursor ?s = ?c\<lparr>lc_LastFetchedBlock := br_To r\<rparr>"
    using set_ by (auto simp: setFetched_def mem_cursor_def not_less split: if_splits)
  from up have parts: "cursor_inv g cfg d ?c" "rows_in d (queue s)" "prefix_cover g d (queue s)"
    "list_all range_ok (range_list s)"
    "list_all (\<lambda>b. lb_BlockNumber b \<le> lc_LastFetchedBlock ?c) (queue s)" "front g d s"
    "fetched g d r logs" "lp_inv g cfg d ?c (ix_lp s)"
    by (simp_all add: inv_up_def lf lf_inv_def)
  have rl: "range_list s = r # ix_ranges s @ bf_pending (ix_bf s)"
    using lf by (simp add: range_list_def lf_range_def)
  from parts(6) obtain U where U: "cover_upto g d (queue s) U" "gapless U (range_list s) (unat (bf_start (ix_bf s)))"
    using front_running [OF nl(1)] by auto
  have "saved (gs_chain_id g) d rl" if w: "rl \<in> gs_wanted g" "upto (unat (br_To r)) rl" for rl
  proof (cases "upto U rl")
    case True
    with w(1) cover_saved [OF U(1) parts(2)] show ?thesis by (simp add: saved_upto_def)
  next
    case False
    then have "br_From r \<le> rl_BlockNumber rl" "rl_BlockNumber rl \<le> br_To r"
      using w(2) U(2) unfolding rl by (simp_all add: upto_def word_le_nat_alt)
    with parts(7) w(1) show ?thesis unfolding fetched_def saved_def by blast
  qed
  then have "saved_upto g d (unat (br_To r))" by (simp add: saved_upto_def)
  then have c': "cursor_inv g cfg d (mem_cursor ?s)"
    unfolding mem using parts(1) ge by (auto simp: cursor_inv_def claim_def own_cursor_def cursor_key_def)
  have blocks: "list_all (\<lambda>b. lb_BlockNumber b \<le> lc_LastFetchedBlock (mem_cursor ?s)) (queue s)"
    using parts(5) ge by (auto simp: mem list_all_iff intro: order_trans)
  have lp': "lp_inv g cfg d (mem_cursor ?s) (ix_lp s)"
    using parts(8) ge unfolding mem lp_inv_def by (cases "ix_lp s") (auto intro: order_trans)
  have "front g d ?s" using U by (auto simp: front_running [OF nl(2)] q)
  with c' blocks lp' parts show ?thesis
    unfolding inv_up_def q by (simp add: lf_inv_def mem)
qed

text \<open>All steps of the logs fetcher.\<close>

lemma lf_keeps:
  assumes ok: "setting_ok G m chain" and stays: "handled_stays (goals G m chain handled)"
    and db: "inv_db (goals G m chain handled) (mon_cfg m) chain (w_db (ix_w s))"
    and up: "inv_up (goals G m chain handled) (mon_cfg m) (w_db (ix_w s)) s"
    and st: "lf_step G E m s s'"
  shows "inv_db (goals G m chain handled) (mon_cfg m) chain (w_db (ix_w s')) \<and>
    inv_up (goals G m chain handled) (mon_cfg m) (w_db (ix_w s')) s'"
  using st
proof cases
  case (Load f t bs w')
  let ?g = "goals G m chain handled" and ?d = "w_db (ix_w s)"
  from up have parts: "cursor_inv ?g (mon_cfg m) ?d (mem_cursor s)" "queue s = []" "ix_lp s = LpIdle"
    "f = lc_LastProcessedBlock (mem_cursor s) + 1" "t = lc_LastFetchedBlock (mem_cursor s)"
    "gapless (unat t) (range_list s) (unat (bf_start (ix_bf s)))" "list_all range_ok (range_list s)"
    unfolding inv_up_def front_def Load(2) by auto
  note loaded = load_cover [OF parts(1) Load(3) [unfolded parts(4,5)]]
  have q: "queue s' = bs" "range_list s' = range_list s" "mem_cursor s' = mem_cursor s" "bf_start (ix_bf s') = bf_start (ix_bf s)"
    using parts(2,3) Load(2) unfolding Load(1)
    by (simp_all add: queue_def range_list_def mem_cursor_def part_defs)
  have nl: "\<not> loading (ix_lf s')" by (simp add: Load(1) loading_def)
  have "front ?g ?d s'"
    unfolding front_running [OF nl] q using loaded(3) parts(5,6) by blast
  with loaded parts have "inv_up ?g (mon_cfg m) ?d s'"
    unfolding inv_up_def q by (simp add: Load(1) lf_inv_def lp_inv_def)
  with db loaded(1) show ?thesis by (simp add: Load(1))
next
  case (LoadFails f t e w')
  have "w_db w' = w_db (ix_w s)" by (rule LoadUnprocessedLogs_db [OF LoadFails(3)])
  with db up show ?thesis unfolding LoadFails(1) by simp
next
  case (SendBatch b bs)
  have "inv_up (goals G m chain handled) (mon_cfg m) (w_db (ix_w s)) s'"
    by (rule inv_up_lf [OF up])
      (simp_all add: SendBatch(1,2) queue_def range_list_def mem_cursor_def part_defs loading_def lf_inv_def)
  with db show ?thesis by (simp add: SendBatch(1))
next
  case Submitted
  have "inv_up (goals G m chain handled) (mon_cfg m) (w_db (ix_w s)) s'"
    by (rule inv_up_lf [OF up])
      (simp_all add: Submitted queue_def range_list_def mem_cursor_def part_defs loading_def lf_inv_def)
  with db show ?thesis by (simp add: Submitted(1))
next
  case (TakeRange r rs)
  have "inv_up (goals G m chain handled) (mon_cfg m) (w_db (ix_w s)) s'"
    by (rule inv_up_lf [OF up])
      (simp_all add: TakeRange queue_def range_list_def mem_cursor_def part_defs loading_def lf_inv_def)
  with db show ?thesis by (simp add: TakeRange(1))
next
  case (Fetch r logs w')
  let ?g = "goals G m chain handled"
  have r: "unat (br_To r) < 2 ^ 63" "br_From r \<le> br_To r"
    using up Fetch(2) by (simp_all add: inv_up_def range_list_def lf_range_def range_ok_def)
  have hon: "honest (bs_ChainID (mon_cfg m)) chain (w_db (ix_w s))" using db by (simp add: inv_db_def)
  note frame = fetchAndSave_frame [OF ok hon r(1) Fetch(3)]
  have le: "db_le (w_db (ix_w s)) (w_db w')"
    by (rule grows_le [OF keepsE_apply [OF fetchAndSaveLogs_grows Fetch(3)]])
  have got: "fetched ?g (w_db w') r logs" by (rule fetchAndSave_fetched [OF ok hon r Fetch(3)])
  have "inv_up ?g (mon_cfg m) (w_db w') s'"
    by (rule inv_up_lf [OF inv_up_grow [OF stays up le]])
      (simp_all add: Fetch(1,2) queue_def range_list_def mem_cursor_def part_defs loading_def lf_inv_def got)
  moreover have "inv_db ?g (mon_cfg m) chain (w_db w')"
    by (rule inv_db_grow [OF stays db le frame(2)]) (simp add: frame(1))
  ultimately show ?thesis by (simp add: Fetch(1))
next
  case (FetchFails r e w')
  let ?g = "goals G m chain handled"
  have r: "unat (br_To r) < 2 ^ 63" "br_From r \<le> br_To r"
    using up FetchFails(2) by (simp_all add: inv_up_def range_list_def lf_range_def range_ok_def)
  have hon: "honest (bs_ChainID (mon_cfg m)) chain (w_db (ix_w s))" using db by (simp add: inv_db_def)
  note frame = fetchAndSave_frame [OF ok hon r(1) FetchFails(3)]
  have le: "db_le (w_db (ix_w s)) (w_db w')"
    by (rule grows_le [OF keepsE_apply [OF fetchAndSaveLogs_grows FetchFails(3)]])
  have "inv_db ?g (mon_cfg m) chain (w_db w')"
    by (rule inv_db_grow [OF stays db le frame(2)]) (simp add: frame(1))
  with inv_up_grow [OF stays up le] show ?thesis by (simp add: FetchFails(1))
next
  case (FetchedBehind r logs)
  have "br_To r \<le> lc_LastFetchedBlock (mem_cursor s)"
    using FetchedBehind(3) by (simp add: setFetched_def mem_cursor_def less_imp_le split: if_splits)
  moreover have "fetched (goals G m chain handled) (w_db (ix_w s)) r logs"
    using up FetchedBehind(2) by (simp add: inv_up_def lf_inv_def)
  ultimately show ?thesis
    using db submit_inv [OF up] FetchedBehind(1,2) by (simp add: part_defs loading_def)
next
  case (SetFetched r logs p')
  with db setFetched_inv [OF up SetFetched(2,3)] show ?thesis by simp
next
  case (PrepareFetched r logs)
  have "inv_up (goals G m chain handled) (mon_cfg m) (w_db (ix_w s)) s'"
    by (rule inv_up_lf [OF up])
      (use up in \<open>simp_all add: PrepareFetched queue_def range_list_def mem_cursor_def part_defs loading_def
        lf_inv_def inv_up_def\<close>)
  with db show ?thesis by (simp add: PrepareFetched(1))
next
  case (SaveFetched c r logs u w')
  let ?g = "goals G m chain handled"
  have parts: "fetched ?g (w_db (ix_w s)) r logs" "br_To r \<le> lc_LastFetchedBlock (mem_cursor s)"
    "cursor_inv ?g (mon_cfg m) (w_db (ix_w s)) c"
    using up SaveFetched(2) by (simp_all add: inv_up_def lf_inv_def)
  have le: "db_le (w_db (ix_w s)) (w_db w')"
    by (rule grows_le [OF keepsE_apply [OF LogsCursors_Ensure_grows SaveFetched(3)]])
  have "inv_up ?g (mon_cfg m) (w_db w') (s\<lparr>ix_w := w'\<rparr>)"
    using inv_up_grow [OF stays up le] by simp
  from submit_inv [OF this _ _ _ fetched_grow [OF parts(1) le]] parts(2)
  have "inv_up ?g (mon_cfg m) (w_db w') s'"
    by (simp add: SaveFetched(1,2) part_defs loading_def)
  with inv_db_save [OF stays db parts(3) SaveFetched(3)] show ?thesis by (simp add: SaveFetched(1))
next
  case (SaveFetchedFails c r logs e w')
  let ?g = "goals G m chain handled"
  have c: "cursor_inv ?g (mon_cfg m) (w_db (ix_w s)) c"
    using up SaveFetchedFails(2) by (simp add: inv_up_def lf_inv_def)
  have le: "db_le (w_db (ix_w s)) (w_db w')"
    by (rule grows_le [OF keepsE_apply [OF LogsCursors_Ensure_grows SaveFetchedFails(3)]])
  have "inv_up ?g (mon_cfg m) (w_db w') s'"
    by (rule inv_up_lf [OF inv_up_grow [OF stays up le]])
      (simp_all add: SaveFetchedFails(1,2) queue_def range_list_def mem_cursor_def part_defs loading_def lf_inv_def)
  with inv_db_save [OF stays db c SaveFetchedFails(3)] show ?thesis by (simp add: SaveFetchedFails(1))
qed

section \<open>The logs processor\<close>

lemma tryToGetBlockTimestamp_same: "keepsE same_logs (tryToGetBlockTimestamp E m n)"
  unfolding tryToGetBlockTimestamp_def
  by (auto intro!: keepsE_same_bindE keepsE_same_ignore split: option.split)

lemma lp_running:
  "front g d s \<Longrightarrow> ix_lp s \<noteq> LpIdle \<or> queue s \<noteq> [] \<Longrightarrow> \<not> loading (ix_lf s)"
  unfolding front_def loading_def by (cases "ix_lf s") auto

lemma inv_up_lp:
  assumes "inv_up g cfg d s" and "queue s' = queue s" "mem_cursor s' = mem_cursor s"
    and "ix_ranges s' = ix_ranges s" "ix_lf s' = ix_lf s" "ix_bf s' = ix_bf s"
    and "ix_lp s \<noteq> LpIdle \<or> queue s \<noteq> []" and "lp_inv g cfg d (mem_cursor s) (ix_lp s')"
  shows "inv_up g cfg d s'"
proof -
  have nl: "\<not> loading (ix_lf s)" using assms(1,7) by (auto simp: inv_up_def dest: lp_running)
  have "range_list s' = range_list s" using assms(4-6) by (simp add: range_list_def)
  with assms nl show ?thesis unfolding inv_up_def by (simp add: front_running)
qed

lemma batch_done:
  assumes up: "inv_up g cfg d s" and lp: "ix_lp s = LpRun b True []"
  shows "inv_up g cfg d (s\<lparr>ix_lp := LpRecord b\<rparr>)"
proof -
  let ?s = "s\<lparr>ix_lp := LpRecord b\<rparr>"
  have q: "queue s = b # queue ?s" and rl: "range_list ?s = range_list s" and mem: "mem_cursor ?s = mem_cursor s"
    using lp by (simp_all add: queue_def range_list_def mem_cursor_def lp_batches_def)
  from up have parts: "rows_in d (queue s)" "prefix_cover g d (queue s)" "front g d s"
    "list_all (\<lambda>b. lb_BlockNumber b \<le> lc_LastFetchedBlock (mem_cursor s)) (queue s)"
    "\<forall>r \<in> set (lb_Logs b). gs_handled g r d"
    by (simp_all add: inv_up_def lp lp_inv_def)
  have rows: "set (lb_Logs b) \<subseteq> set (vals (db_logs d))" using parts(1) q by (simp add: rows_in_def)
  note head = head_done [OF parts(2) [unfolded q] parts(5) rows]
  have nl: "\<not> loading (ix_lf s)" "\<not> loading (ix_lf ?s)" using lp_running [OF parts(3)] lp by simp_all
  from parts(3) obtain U where U: "cover_upto g d (b # queue ?s) U" "gapless U (range_list s) (unat (bf_start (ix_bf s)))"
    unfolding front_running [OF nl(1)] q by blast
  have "front g d ?s"
    unfolding front_running [OF nl(2)] rl using cover_done [OF U(1) parts(5) rows] U(2) by auto
  with up parts(1,4) head show ?thesis
    unfolding inv_up_def mem rl by (simp add: q lp_inv_def rows_in_def)
qed

lemma setProcessed_inv:
  assumes up: "inv_up g cfg d s" and lp: "ix_lp s = LpRecord b"
    and set_: "setProcessed (lb_BlockNumber b) (ix_p s) = Some p'"
  shows "inv_up g cfg d (s\<lparr>ix_p := p', ix_lp := LpPrepare b\<rparr>)"
proof -
  let ?s = "s\<lparr>ix_p := p', ix_lp := LpPrepare b\<rparr>"
  have mem: "mem_cursor ?s = (mem_cursor s)\<lparr>lc_LastProcessedBlock := lb_BlockNumber b\<rparr>"
    using set_ by (auto simp: setProcessed_def mem_cursor_def recordIsSynced_def split: if_splits)
  have q: "queue ?s = queue s" "range_list ?s = range_list s"
    using lp by (simp_all add: queue_def range_list_def lp_batches_def)
  have d: "done_upto g d (unat (lb_BlockNumber b))" "lb_BlockNumber b \<le> lc_LastFetchedBlock (mem_cursor s)"
    and fr: "front g d s"
    using up by (simp_all add: inv_up_def lp lp_inv_def)
  have nl: "\<not> loading (ix_lf s)" "\<not> loading (ix_lf ?s)" using lp_running [OF fr] lp by simp_all
  have "cursor_inv g cfg d (mem_cursor s)" using up by (simp add: inv_up_def)
  then have "cursor_inv g cfg d (mem_cursor ?s)"
    unfolding mem using d by (simp add: cursor_inv_def claim_def own_cursor_def cursor_key_def)
  moreover have "lf_inv g cfg d (mem_cursor ?s) (ix_lf s)"
    using up unfolding inv_up_def mem lf_inv_def by (cases "ix_lf s") simp_all
  ultimately show ?thesis
    using up d fr unfolding inv_up_def q
    by (simp add: front_running [OF nl(1)] front_running [OF nl(2)] q lp_inv_def mem)
qed

section \<open>Handling a log, and all steps\<close>

locale log_handler =
  fixes handle :: "Log \<Rightarrow> (world, unit) io" and handled :: "Log \<Rightarrow> database \<Rightarrow> bool"
  assumes handle_ok: "handle l w = (Inr u, w') \<Longrightarrow> handled l (w_db w')"
    and handled_mono: "handled l d \<Longrightarrow> db_le d d' \<Longrightarrow> handled l d'"
    and handle_grows: "keepsE grows (handle l)"
    and handle_same: "keepsE same_logs (handle l)"
begin

lemma stays: "handled_stays (goals G m chain handled)"
  by (auto simp: handled_stays_def intro: handled_mono)

lemma lp_keeps:
  assumes db: "inv_db (goals G m chain handled) (mon_cfg m) chain (w_db (ix_w s))"
    and up: "inv_up (goals G m chain handled) (mon_cfg m) (w_db (ix_w s)) s"
    and st: "lp_step E m handle s s'"
  shows "inv_db (goals G m chain handled) (mon_cfg m) chain (w_db (ix_w s')) \<and>
    (ix_up s' \<longrightarrow> inv_up (goals G m chain handled) (mon_cfg m) (w_db (ix_w s')) s')"
  using st
proof cases
  case (TakeBatch b bs)
  have "inv_up (goals G m chain handled) (mon_cfg m) (w_db (ix_w s)) s'"
    by (rule inv_up_lp [OF up])
      (simp_all add: TakeBatch queue_def mem_cursor_def lp_batches_def lp_inv_def)
  with db show ?thesis by (simp add: TakeBatch(1))
next
  case (Timestamp b rest r w')
  let ?g = "goals G m chain handled"
  have g: "grows (ix_w s) w'" by (rule keepsE_apply [OF tryToGetBlockTimestamp_grows Timestamp(3)])
  have f: "same_logs (ix_w s) w'" by (rule keepsE_apply [OF tryToGetBlockTimestamp_same Timestamp(3)])
  have up': "inv_up ?g (mon_cfg m) (w_db w') s" by (rule inv_up_grow [OF stays up grows_le [OF g]])
  have "inv_up ?g (mon_cfg m) (w_db w') s'"
    by (rule inv_up_lp [OF up'])
      (use up' in \<open>simp_all add: Timestamp(1,2) queue_def mem_cursor_def lp_batches_def lp_inv_def inv_up_def\<close>)
  with inv_db_same_logs [OF stays db g f] show ?thesis by (simp add: Timestamp(1))
next
  case (HandleLog b ts l rest u w')
  let ?g = "goals G m chain handled"
  have g: "grows (ix_w s) w'" by (rule keepsE_apply [OF handle_grows HandleLog(3)])
  have f: "same_logs (ix_w s) w'" by (rule keepsE_apply [OF handle_same HandleLog(3)])
  have up': "inv_up ?g (mon_cfg m) (w_db w') s" by (rule inv_up_grow [OF stays up grows_le [OF g]])
  have "inv_up ?g (mon_cfg m) (w_db w') s'"
    by (rule inv_up_lp [OF up'])
      (use up' handle_ok [OF HandleLog(3)] in
        \<open>auto simp: HandleLog(1,2) queue_def mem_cursor_def lp_batches_def lp_inv_def inv_up_def\<close>)
  with inv_db_same_logs [OF stays db g f] show ?thesis by (simp add: HandleLog(1))
next
  case (HandleLogFails b ts l rest e w')
  let ?g = "goals G m chain handled"
  have g: "grows (ix_w s) w'" by (rule keepsE_apply [OF handle_grows HandleLogFails(3)])
  have f: "same_logs (ix_w s) w'" by (rule keepsE_apply [OF handle_same HandleLogFails(3)])
  have up': "inv_up ?g (mon_cfg m) (w_db w') s" by (rule inv_up_grow [OF stays up grows_le [OF g]])
  have "inv_up ?g (mon_cfg m) (w_db w') s'"
    by (rule inv_up_lp [OF up'])
      (simp_all add: HandleLogFails(1,2) queue_def mem_cursor_def lp_batches_def lp_inv_def)
  with inv_db_same_logs [OF stays db g f] show ?thesis by (simp add: HandleLogFails(1))
next
  case (HandleLogPanics b ts l rest w')
  have g: "grows (ix_w s) w'" by (rule keepsE_apply [OF handle_grows HandleLogPanics(3)])
  have f: "same_logs (ix_w s) w'" by (rule keepsE_apply [OF handle_same HandleLogPanics(3)])
  from inv_db_same_logs [OF stays db g f] show ?thesis by (simp add: HandleLogPanics(1))
next
  case (Handled b)
  from db batch_done [OF up Handled(2)] show ?thesis by (simp add: Handled(1))
next
  case (ProcessedBehind b)
  have "inv_up (goals G m chain handled) (mon_cfg m) (w_db (ix_w s)) s'"
    by (rule inv_up_lp [OF up])
      (simp_all add: ProcessedBehind(1,2) queue_def mem_cursor_def lp_batches_def lp_inv_def)
  with db show ?thesis by (simp add: ProcessedBehind(1))
next
  case (SetProcessed b p')
  from db setProcessed_inv [OF up SetProcessed(2,3)] show ?thesis by (simp add: SetProcessed(1))
next
  case (PrepareProcessed b)
  have "inv_up (goals G m chain handled) (mon_cfg m) (w_db (ix_w s)) s'"
    by (rule inv_up_lp [OF up])
      (use up in \<open>simp_all add: PrepareProcessed queue_def mem_cursor_def lp_batches_def lp_inv_def inv_up_def\<close>)
  with db show ?thesis by (simp add: PrepareProcessed(1))
next
  case (SaveProcessed c b u w')
  let ?g = "goals G m chain handled"
  have c: "cursor_inv ?g (mon_cfg m) (w_db (ix_w s)) c" using up by (simp add: inv_up_def SaveProcessed(2) lp_inv_def)
  have le: "db_le (w_db (ix_w s)) (w_db w')"
    by (rule grows_le [OF keepsE_apply [OF LogsCursors_Ensure_grows SaveProcessed(3)]])
  have "inv_up ?g (mon_cfg m) (w_db w') s'"
    by (rule inv_up_lp [OF inv_up_grow [OF stays up le]])
      (simp_all add: SaveProcessed(1,2) queue_def mem_cursor_def lp_batches_def lp_inv_def)
  with inv_db_save [OF stays db c SaveProcessed(3)] show ?thesis by (simp add: SaveProcessed(1))
next
  case (SaveProcessedFails c b e w')
  let ?g = "goals G m chain handled"
  have c: "cursor_inv ?g (mon_cfg m) (w_db (ix_w s)) c" using up by (simp add: inv_up_def SaveProcessedFails(2) lp_inv_def)
  have le: "db_le (w_db (ix_w s)) (w_db w')"
    by (rule grows_le [OF keepsE_apply [OF LogsCursors_Ensure_grows SaveProcessedFails(3)]])
  have up': "inv_up ?g (mon_cfg m) (w_db w') s" by (rule inv_up_grow [OF stays up le])
  have "inv_up ?g (mon_cfg m) (w_db w') s'"
    by (rule inv_up_lp [OF up'])
      (use up' in \<open>simp_all add: SaveProcessedFails(1,2) queue_def mem_cursor_def lp_batches_def lp_inv_def inv_up_def\<close>)
  with inv_db_save [OF stays db c SaveProcessedFails(3)] show ?thesis by (simp add: SaveProcessedFails(1))
qed

lemma step_keeps:
  assumes ok: "setting_ok G m chain" and i: "indexer_inv (goals G m chain handled) (mon_cfg m) chain s"
    and st: "step G E m handle chain s s'"
  shows "indexer_inv (goals G m chain handled) (mon_cfg m) chain s'"
  using st
proof cases
  case Run
  let ?g = "goals G m chain handled"
  from i Run(1) have db: "inv_db ?g (mon_cfg m) chain (w_db (ix_w s))"
    and up: "inv_up ?g (mon_cfg m) (w_db (ix_w s)) s" by (simp_all add: indexer_inv_def)
  from Run(2) consider "bf_step m s s'" | "lf_step G E m s s'" | "lp_step E m handle s s'"
    by (auto simp: run_step_def)
  then show ?thesis
  proof cases
    case 1
    from bf_keeps [OF ok up 1] db show ?thesis by (simp add: indexer_inv_def)
  next
    case 2
    from lf_keeps [OF ok stays db up 2] show ?thesis by (simp add: indexer_inv_def)
  next
    case 3
    from lp_keeps [OF db up 3] show ?thesis by (simp add: indexer_inv_def)
  qed
next
  case Stop
  with i show ?thesis by (simp add: indexer_inv_def)
next
  case (Restart c w')
  let ?g = "goals G m chain handled" and ?d = "w_db (ix_w s)"
  have db: "inv_db ?g (mon_cfg m) chain ?d" using i by (simp add: indexer_inv_def)
  have start: "0 < bs_StartBlock (mon_cfg m)" using ok by (simp add: setting_ok_def)
  have "cursor_inv ?g (mon_cfg m) ?d c"
    using readCursor_Inr(2) [OF Restart(3)] db initial_claim [OF start, of G chain handled]
    by (auto simp: inv_db_def)
  then show ?thesis
    using db readCursor_Inr(1) [OF Restart(3)] Start_inv
    by (simp add: indexer_inv_def Restart(1) Start_def [THEN arg_cong [where f = ix_w]])
next
  case (RestartFails e w')
  with i readCursor_Inl [OF RestartFails(3)] show ?thesis by (simp add: indexer_inv_def)
next
  case (Other d' t')
  let ?g = "goals G m chain handled" and ?d = "w_db (ix_w s)"
  have db: "inv_db ?g (mon_cfg m) chain ?d" using i by (simp add: indexer_inv_def)
  have le: "db_le ?d d'" and hon: "honest (bs_ChainID (mon_cfg m)) chain d'"
    using Other(2) db by (auto simp: other_activity_def inv_db_def)
  have cur: "filter (own_cursor (mon_cfg m)) (vals (db_logs_cursors d')) =
      filter (own_cursor (mon_cfg m)) (vals (db_logs_cursors ?d))"
    using Other(2) by (simp add: other_activity_def)
  have same: "c \<in> set (vals (db_logs_cursors ?d))"
    if "c \<in> set (vals (db_logs_cursors d'))" "own_cursor (mon_cfg m) c" for c
    using arg_cong [OF cur, of set] that by auto
  have "inv_db ?g (mon_cfg m) chain d'"
    by (rule inv_db_grow [OF stays db le hon]) (use same in blast)
  with i inv_up_grow [OF stays _ le] show ?thesis by (simp add: indexer_inv_def Other(1))
qed

theorem reachable_inv:
  assumes ok: "setting_ok G m chain" and reach: "reachable G E m handle chain s"
  shows "indexer_inv (goals G m chain handled) (mon_cfg m) chain s"
  using reach
proof induction
  case (Installed s)
  have "\<not> own_cursor (mon_cfg m) c" if "c \<in> set (vals (db_logs_cursors (w_db (ix_w s))))" for c
    using Installed that by (auto simp: installed_def filter_empty_conv)
  with Installed show ?case by (auto simp: indexer_inv_def inv_db_def installed_def)
next
  case (Next s s')
  show ?case by (rule step_keeps [OF ok Next.IH Next.hyps(2)])
qed

end

section \<open>The handling of logs by the two contract monitors\<close>

text \<open>
  A log has been handled when the handler of its event, if one is registered, has left its row for it.
\<close>

definition handled_log :: "abilib \<Rightarrow> ContractMonitor \<Rightarrow> Log \<Rightarrow> database \<Rightarrow> bool" where
  "handled_log L m l d \<longleftrightarrow> (case ParseLog L (mon_ABI m) l of
     Inl e \<Rightarrow> False
   | Inr (event, data) \<Rightarrow> (case map_of (mon_eventHandlers m) event of
       None \<Rightarrow> True | Some handle \<Rightarrow> recorded event (log_ID l) d))"

definition good_handlers :: "(string \<times> handler) list \<Rightarrow> bool" where
  "good_handlers hs \<longleftrightarrow> (\<forall>e h log data. map_of hs e = Some h \<longrightarrow>
     records e h \<and> keepsE grows (h log data) \<and> keepsE same_logs (h log data))"

lemma registered_good:
  "good_handlers (fst (registered G E cfg N))" "good_handlers (snd (registered G E cfg N))"
  unfolding good_handlers_def records_def
  using registered_record [of G E cfg N] registered_grow [of G E cfg N] registered_same [of G E cfg N]
  by blast+

lemma processLog_handler:
  assumes "good_handlers (mon_eventHandlers m)"
  shows "log_handler (processLog L m) (handled_log L m)"
proof
  fix l w u w' assume "processLog L m l w = (Inr u, w')"
  then obtain event data where parse: "ParseLog L (mon_ABI m) l = Inr (event, data)"
    and run: "(case map_of (mon_eventHandlers m) event of
        None \<Rightarrow> if event = [] \<and> log_Topic0 l = None then failE Panic else returnE ()
      | Some handle \<Rightarrow> handle l data) w = (Inr u, w')"
    by (auto simp: processLog_def bindE_liftE_Inr split: prod.splits)
  show "handled_log L m l (w_db w')"
  proof (cases "map_of (mon_eventHandlers m) event")
    case None
    with parse show ?thesis by (simp add: handled_log_def)
  next
    case (Some h)
    with run have "h l data w = (Inr u, w')" by simp
    with Some assms have "recorded event (log_ID l) (w_db w')"
      unfolding good_handlers_def records_def by blast
    with parse Some show ?thesis by (simp add: handled_log_def)
  qed
next
  fix l d d' assume "handled_log L m l d" "db_le d d'"
  then show "handled_log L m l d'"
    by (auto simp: handled_log_def intro: recorded_mono split: sum.splits option.splits)
next
  fix l
  show "keepsE grows (processLog L m l)"
    unfolding processLog_def using assms
    by (intro keepsE_grows_bindE) (auto simp: good_handlers_def split: option.split)
  show "keepsE same_logs (processLog L m l)"
    unfolding processLog_def using assms
    by (intro keepsE_same_bindE) (auto simp: good_handlers_def split: option.split)
qed

interpretation home: log_handler "processLog L (homeMonitor G E cfg N)" "handled_log L (homeMonitor G E cfg N)"
  for L G E cfg N
  by (rule processLog_handler) (simp add: homeMonitor_def registered_good)

interpretation foreign: log_handler "processLog L (foreignMonitor G E cfg N N')"
    "handled_log L (foreignMonitor G E cfg N N')"
  for L G E cfg N N'
  by (rule processLog_handler) (simp add: foreignMonitor_def registered_good)

lemma monitors_inv:
  assumes "m \<in> {homeMonitor G E cfg N, foreignMonitor G E cfg N N'}" and "setting_ok G m chain"
    and "reachable G E m (processLog L m) chain s"
  shows "indexer_inv (goals G m chain (handled_log L m)) (mon_cfg m) chain s"
proof -
  from assms(1) consider "m = homeMonitor G E cfg N" | "m = foreignMonitor G E cfg N N'" by blast
  then show ?thesis
  proof cases
    case 1
    from home.reachable_inv [OF assms(2,3) [unfolded 1]] show ?thesis unfolding 1 .
  next
    case 2
    from foreign.reachable_inv [OF assms(2,3) [unfolded 2]] show ?thesis unfolding 2 .
  qed
qed

section \<open>What the invariant says\<close>

lemma inv_db_says:
  assumes i: "indexer_inv (goals G m chain handled) (mon_cfg m) chain s"
    and c: "c \<in> set (vals (db_logs_cursors (w_db (ix_w s))))" "own_cursor (mon_cfg m) c"
    and rl: "rl \<in> set chain" "wanted G m rl"
  shows "(rl_BlockNumber rl \<le> lc_LastFetchedBlock c \<longrightarrow> saved (bs_ChainID (mon_cfg m)) (w_db (ix_w s)) rl) \<and>
    (rl_BlockNumber rl \<le> lc_LastProcessedBlock c \<longrightarrow> done_log handled (bs_ChainID (mon_cfg m)) (w_db (ix_w s)) rl)"
proof -
  have "cursor_inv (goals G m chain handled) (mon_cfg m) (w_db (ix_w s)) c"
    using i c by (auto simp: indexer_inv_def inv_db_def)
  with rl show ?thesis
    by (auto simp: cursor_inv_def claim_def saved_upto_def done_upto_def upto_def word_le_nat_alt)
qed

lemma gapless_member:
  "gapless u rs e \<Longrightarrow> u < n \<Longrightarrow> n < e \<Longrightarrow> \<exists>r \<in> set rs. unat (br_From r) \<le> n \<and> n \<le> unat (br_To r)"
proof (induction u rs e rule: gapless.induct)
  case (2 u r rs e)
  show ?case
  proof (cases "n \<le> unat (br_To r)")
    case True
    with "2.prems" show ?thesis by (intro bexI [of _ r]) auto
  next
    case False
    with "2.prems" have "gapless (max u (unat (br_To r))) rs e" "max u (unat (br_To r)) < n" by auto
    from "2.IH" [OF this "2.prems"(3)] show ?thesis by auto
  qed
qed simp

lemma inv_up_says:
  assumes i: "indexer_inv (goals G m chain handled) (mon_cfg m) chain s" and up: "ix_up s" "\<not> loading (ix_lf s)"
    and rl: "rl \<in> set chain" "wanted G m rl" "rl_BlockNumber rl < bf_start (ix_bf s)"
  shows "done_log handled (bs_ChainID (mon_cfg m)) (w_db (ix_w s)) rl
    \<or> queued (bs_ChainID (mon_cfg m)) (queue s) rl
    \<or> list_ex (\<lambda>r. br_From r \<le> rl_BlockNumber rl \<and> rl_BlockNumber rl \<le> br_To r) (range_list s)"
proof -
  let ?g = "goals G m chain handled" and ?n = "unat (rl_BlockNumber rl)"
  have "front ?g (w_db (ix_w s)) s" using i up(1) by (simp add: indexer_inv_def inv_up_def)
  then obtain U where U: "cover_upto ?g (w_db (ix_w s)) (queue s) U"
    "gapless U (range_list s) (unat (bf_start (ix_bf s)))"
    using front_running [OF up(2)] by blast
  show ?thesis
  proof (cases "?n \<le> U")
    case True
    with U(1) rl show ?thesis by (auto simp: cover_upto_def upto_def)
  next
    case False
    moreover have "?n < unat (bf_start (ix_bf s))" using rl(3) by (simp add: word_less_nat_alt)
    ultimately obtain r where "r \<in> set (range_list s)" "unat (br_From r) \<le> ?n" "?n \<le> unat (br_To r)"
      using gapless_member [OF U(2), of ?n] by auto
    then show ?thesis by (auto simp: list_ex_iff word_le_nat_alt)
  qed
qed

text \<open>The cursor on its way into a statement, and the one in memory, satisfy the constraint of the table.\<close>

definition cursors_in_flight :: "indexer \<Rightarrow> LogsCursor list" where
  "cursors_in_flight s = mem_cursor s # (case ix_lf s of LfSave c r logs \<Rightarrow> [c] | _ \<Rightarrow> [])
     @ (case ix_lp s of LpSave c b \<Rightarrow> [c] | _ \<Rightarrow> [])"

lemma inv_in_flight:
  assumes "indexer_inv g cfg chain s" and "ix_up s"
  shows "list_all (\<lambda>c. lc_LastProcessedBlock c \<le> lc_LastFetchedBlock c) (cursors_in_flight s)"
  using assms
  by (auto simp: indexer_inv_def inv_up_def cursors_in_flight_def lf_inv_def lp_inv_def cursor_inv_def
      split: logs_fetcher.split logs_processor.split)

section \<open>When a goroutine waits\<close>

lemma lp_progress: "Ex (lp_step E m handle s) \<or> ix_lp s = LpIdle \<and> ix_logs s = []"
proof (cases "ix_lp s")
  case LpIdle
  then show ?thesis by (cases "ix_logs s") (auto intro: lp_step.TakeBatch)
next
  case (LpRun b ts rest)
  show ?thesis
  proof (cases rest)
    case Nil
    obtain r w' where "tryToGetBlockTimestamp E m (lb_BlockNumber b) (ix_w s) = (r, w')" by fastforce
    with Nil LpRun show ?thesis by (cases ts) (auto intro: lp_step.Handled lp_step.Timestamp)
  next
    case (Cons l ls)
    with LpRun have pc: "ix_lp s = LpRun b ts (l # ls)" by simp
    obtain r w' where "handle l (ix_w s) = (r, w')" by fastforce
    moreover have "(\<exists>e. r = Inl (Err e)) \<or> r = Inl Panic \<or> r = Inr ()"
      by (cases r) (auto intro: failure.exhaust)
    ultimately show ?thesis
      using lp_step.HandleLog [OF pc] lp_step.HandleLogFails [OF pc] lp_step.HandleLogPanics [OF pc] by blast
  qed
next
  case (LpRecord b)
  then show ?thesis
    by (cases "setProcessed (lb_BlockNumber b) (ix_p s)") (auto intro: lp_step.ProcessedBehind lp_step.SetProcessed)
next
  case (LpPrepare b)
  then show ?thesis by (auto intro: lp_step.PrepareProcessed)
next
  case (LpSave c b)
  obtain r w' where "LogsCursors_Ensure E c (ix_w s) = (r, w')" by fastforce
  with LpSave show ?thesis by (cases r) (auto intro: lp_step.SaveProcessed lp_step.SaveProcessedFails)
qed

lemma lf_progress:
  "Ex (lf_step G E m s) \<or> ix_lf s = LfIdle \<and> ix_ranges s = []
     \<or> lf_pending (ix_lf s) \<noteq> [] \<and> defaultLogsChanCap \<le> length (ix_logs s)"
proof (cases "ix_lf s")
  case (LfLoad f t)
  obtain r w' where "LoadUnprocessedLogs E m f t (ix_w s) = (r, w')" by fastforce
  with LfLoad show ?thesis by (cases r) (auto intro: lf_step.Load lf_step.LoadFails)
next
  case (LfSend bs)
  then show ?thesis
    by (cases bs; cases "length (ix_logs s) < defaultLogsChanCap")
      (auto simp: lf_pending_def intro: lf_step.SendBatch lf_step.Submitted)
next
  case LfIdle
  then show ?thesis by (cases "ix_ranges s") (auto intro: lf_step.TakeRange)
next
  case (LfFetch r)
  obtain a w' where "fetchAndSaveLogs G E m r (ix_w s) = (a, w')" by fastforce
  with LfFetch show ?thesis by (cases a) (auto intro: lf_step.Fetch lf_step.FetchFails)
next
  case (LfRecord r logs)
  then show ?thesis
    by (cases "setFetched (br_To r) (ix_p s)") (auto intro: lf_step.FetchedBehind lf_step.SetFetched)
next
  case (LfPrepare r logs)
  then show ?thesis by (auto intro: lf_step.PrepareFetched)
next
  case (LfSave c r logs)
  obtain a w' where "LogsCursors_Ensure E c (ix_w s) = (a, w')" by fastforce
  with LfSave show ?thesis by (cases a) (auto intro: lf_step.SaveFetched lf_step.SaveFetchedFails)
qed

lemma bf_progress:
  assumes "setting_ok G m chain"
  shows "Ex (bf_step m s) \<or> bf_pending (ix_bf s) \<noteq> [] \<and> defaultBlockRangesChanCap \<le> length (ix_ranges s)"
proof (cases "ix_bf s")
  case (BfSend rs start)
  then show ?thesis
    by (cases rs; cases "length (ix_ranges s) < defaultBlockRangesChanCap")
      (auto simp: bf_pending_def intro: bf_step.SendRange bf_step.Scheduled)
next
  case (BfPoll start)
  obtain r w' where run: "BlockNumber (mon_client m) (ix_w s) = (r, w')" by fastforce
  show ?thesis
  proof (cases r)
    case (Inl e)
    with BfPoll run show ?thesis by (auto intro: bf_step.PollFails)
  next
    case (Inr n)
    let ?h = "n - bs_BlockConfirmations (mon_cfg m)" and ?size = "bs_MaxBlockRangeSize (mon_cfg m)"
    have "node_BlockNumber (mon_client m) (w_tick (ix_w s)) = Inr n"
      using run Inr by (simp add: BlockNumber_def rpc_def)
    then have "unat ?h + unat ?size < 2 ^ 63" using assms by (auto simp: setting_ok_def heads_ok_def)
    then have "unat ?h + unat ?size < 2 ^ 64" by simp
    moreover have "0 < unat ?size" using assms by (simp add: setting_ok_def word_less_nat_alt)
    ultimately obtain rs where "SplitBlockRange start ?h ?size = Some rs"
      using SplitBlockRange_blocks by blast
    then have "scheduleRanges (mon_cfg m) start n = Some (?h, rs, ?h + 1)"
      by (simp add: scheduleRanges_def Let_def)
    with BfPoll run Inr show ?thesis by (auto intro: bf_step.Poll)
  qed
qed

section \<open>The cursor in memory\<close>

definition not_back :: "LogsCursor \<Rightarrow> LogsCursor \<Rightarrow> bool" where
  "not_back c c' \<longleftrightarrow> lc_LastFetchedBlock c \<le> lc_LastFetchedBlock c' \<and> lc_LastProcessedBlock c \<le> lc_LastProcessedBlock c'"

lemma set_not_back:
  "setFetched n p = Some p' \<Longrightarrow> not_back (pg_logsCursor p) (pg_logsCursor p')"
  "setProcessed n p = Some p' \<Longrightarrow> not_back (pg_logsCursor p) (pg_logsCursor p')"
  by (auto simp: not_back_def setFetched_def setProcessed_def recordIsSynced_def not_less split: if_splits)

lemma bf_never_back: "bf_step m s s' \<Longrightarrow> not_back (mem_cursor s) (mem_cursor s')"
  by (cases rule: bf_step.cases) (auto simp: mem_cursor_def not_back_def)

lemma lf_never_back: "lf_step G E m s s' \<Longrightarrow> not_back (mem_cursor s) (mem_cursor s')"
  by (cases rule: lf_step.cases) (auto simp: mem_cursor_def set_not_back, auto simp: not_back_def)

lemma lp_never_back: "lp_step E m handle s s' \<Longrightarrow> not_back (mem_cursor s) (mem_cursor s')"
  by (cases rule: lp_step.cases) (auto simp: mem_cursor_def set_not_back, auto simp: not_back_def)

end
