(* ===== verification/SampleRun.thy ===== *)
theory SampleRun
  imports IndexerSteps Bookkeeping
begin

text \<open>
  A concrete run of the indexer, from an empty database to a saved cursor: a chain with one log of the
  bridge, an honest node, and the steps of start-up, loading, polling, fetching and saving. The properties
  of the indexer are applied to it.
\<close>

definition demo_log :: RpcLog where
  "demo_log = \<lparr>rl_Address = 10, rl_Topics = [7], rl_Data = [], rl_BlockNumber = 120, rl_TxHash = 9, rl_Index = 0\<rparr>"

definition demo_node :: node where
  "demo_node = (sample_node 200 [])\<lparr>
     node_FilterLogs := (\<lambda>t q. Inr (filter (query_matches q) [demo_log])),
     node_BatchLogsAndBlock := (\<lambda>t arg. Inr (Inr (filter (q_matches (fa_FromBlock arg) (fa_ToBlock arg)
       (fa_Addresses arg) (fa_Topics arg)) [demo_log]), Inr 200))\<rparr>"

definition demo_bridge :: BridgeConfig where
  "demo_bridge = (snd (hd (cfg_Bridges sample_config_init)))\<lparr>bc_Alerts := []\<rparr>"

definition demo_monitor :: ContractMonitor where
  "demo_monitor = homeMonitor sample_geth sample_env demo_bridge demo_node"

definition demo_cfg :: BridgeSideConfig where
  "demo_cfg = mon_cfg demo_monitor"

lemma demo_cfg_sel [simp]:
  "bs_ChainID demo_cfg = ''100''" "bs_Address demo_cfg = 10" "bs_StartBlock demo_cfg = 100"
  "bs_BlockConfirmations demo_cfg = 2" "bs_MaxBlockRangeSize demo_cfg = 1000" "bs_ErcToNativeTokens demo_cfg = []"
  "bs_ValidatorContractAddress demo_cfg = 77" "mon_cfg demo_monitor = demo_cfg" "safeLogs demo_monitor = True"
  "mon_client demo_monitor = demo_node" "sideChainID demo_cfg = Inr ''100''"
  by (simp_all add: demo_cfg_def demo_monitor_def homeMonitor_def demo_bridge_def sample_config_init_def sample_config_def
      Config_init_def BridgeConfig_init_def BridgeSideConfig_init_def sample_bridge_def sample_side_def Let_def
      bs_ChainID_def sideChainID_def sample_chain_def safeLogs_def)

definition demo_range :: BlocksRange where
  "demo_range = \<lparr>br_From = 100, br_To = 198\<rparr>"

definition demo_row :: Log where
  "demo_row = (NewLog ''100'' demo_log)\<lparr>log_ID := 1\<rparr>"

definition demo_saved :: database where
  "demo_saved = emptyDatabase\<lparr>db_logs := [\<lparr>r_val = demo_row, r_created = 4, r_updated = 4\<rparr>], db_logs_seq := 1\<rparr>"

text \<open>The same, saved at any time.\<close>

definition demo_saved_at :: "nat \<Rightarrow> database" where
  "demo_saved_at t = emptyDatabase\<lparr>db_logs := [\<lparr>r_val = demo_row, r_created = int t, r_updated = int t\<rparr>], db_logs_seq := 1\<rparr>"

definition demo_cursor :: LogsCursor where
  "demo_cursor = \<lparr>lc_ChainID = ''100'', lc_Address = 10, lc_LastFetchedBlock = 198, lc_LastProcessedBlock = 99\<rparr>"

definition demo_final :: database where
  "demo_final = demo_saved\<lparr>db_logs_cursors := [\<lparr>r_val = demo_cursor, r_created = 5, r_updated = 5\<rparr>]\<rparr>"

definition demo_final_at :: "nat \<Rightarrow> database" where
  "demo_final_at t = (demo_saved_at t)\<lparr>db_logs_cursors := [\<lparr>r_val = demo_cursor, r_created = int (Suc t), r_updated = int (Suc t)\<rparr>]\<rparr>"

lemma demo_at_4: "demo_saved_at 4 = demo_saved" "demo_final_at 4 = demo_final"
  by (simp_all add: demo_saved_at_def demo_saved_def demo_final_at_def demo_final_def)

section \<open>The calls of the run\<close>

lemma demo_initial: "initialCursor demo_cfg = \<lparr>lc_ChainID = ''100'', lc_Address = 10, lc_LastFetchedBlock = 99,
    lc_LastProcessedBlock = 99\<rparr>"
  by (simp add: initialCursor_def)

lemma demo_read:
  "readCursor sample_env demo_cfg \<lparr>w_db = emptyDatabase, w_tick = 0\<rparr> =
     (Inr (initialCursor demo_cfg), \<lparr>w_db = emptyDatabase, w_tick = 1\<rparr>)"
  by (simp add: readCursor_def bindE_apply IgnoreErrNotFound_def LogsCursors_GetByChainIDAndAddress_def sample_query
      first_row_def emptyDatabase_def)

lemma demo_poll: "BlockNumber demo_node w = (Inr 200, w\<lparr>w_tick := Suc (w_tick w)\<rparr>)"
  by (simp add: BlockNumber_def rpc_def demo_node_def sample_node_def)

lemma demo_schedule: "scheduleRanges demo_cfg 100 200 = Some (198, [demo_range], 199)"
proof -
  have "split_ranges 100 198 1000 = [(100, 198)]"
    by (simp add: split_ranges.simps)
  then have "SplitBlockRange 100 198 1000 = Some [range_of (100, 198)]"
    using SplitBlockRange_ranges [of 1000 198 100] by simp
  then show ?thesis by (simp add: scheduleRanges_def Let_def range_of_def demo_range_def)
qed

lemma demo_load:
  "LoadUnprocessedLogs sample_env demo_monitor 100 99 \<lparr>w_db = emptyDatabase, w_tick = t\<rparr> =
     (Inr [\<lparr>lb_BlockNumber = 99, lb_Logs = []\<rparr>], \<lparr>w_db = emptyDatabase, w_tick = Suc t\<rparr>)"
  by (simp add: LoadUnprocessedLogs_def bindE_apply Logs_Find_def sample_query opt_int4_ok_def unprocessedFilter_def
      int4_ok_def int4_max_def emptyLogsFilter_def emptyDatabase_def order_logs_def submitLogs_def Let_def
      SplitLogsInBatches_cut)

lemma demo_matches: "q_matches 100 198 [10, 77] [] demo_log"
  by (simp add: q_matches_def demo_log_def)

lemma demo_int64: "int64_of 100 = 100" "int64_of 198 = 198"
  by (simp_all add: int64_of_def)

lemma demo_fetch:
  "fetchAndSaveLogs sample_geth sample_env demo_monitor demo_range \<lparr>w_db = emptyDatabase, w_tick = t\<rparr> =
     (Inr [demo_row], \<lparr>w_db = demo_saved_at (Suc t), w_tick = Suc (Suc t)\<rparr>)"
proof -
  let ?q = "\<lparr>fq_BlockHash = None, fq_FromBlock = Some 100, fq_ToBlock = Some 198, fq_Addresses = [10, 77], fq_Topics = []\<rparr>"
  have queries: "buildFilterQueries sample_geth demo_monitor demo_range = [?q]"
    by (simp add: buildFilterQueries_def demo_range_def demo_int64)
  have safe: "FilterLogsSafe demo_node ?q w = (Inr [demo_log], w\<lparr>w_tick := Suc (w_tick w)\<rparr>)" for w
    by (simp add: FilterLogsSafe_def bindE_apply bindE_liftE_apply rpc_def toFilterArg_def big_Int64_def big_Uint64_def
        demo_node_def demo_matches)
  have ens: "Logs_Ensure sample_env [NewLog ''100'' demo_log] \<lparr>w_db = emptyDatabase, w_tick = Suc t\<rparr> =
      (Inr [demo_row], \<lparr>w_db = demo_saved_at (Suc t), w_tick = Suc (Suc t)\<rparr>)"
    by (simp add: Logs_Ensure_def bindE_apply sample_exec emptyDatabase_def log_columns_ok_def int4_ok_def int4_max_def
        Let_def put_log_def upsert_def lookup_def vals_def demo_row_def demo_saved_at_def demo_log_def)
  show ?thesis
    by (simp add: fetchAndSaveLogs_def queries bindE_apply safe ens)
qed

lemma demo_save:
  "LogsCursors_Ensure sample_env demo_cursor \<lparr>w_db = demo_saved_at t, w_tick = Suc t\<rparr> =
     (Inr (), \<lparr>w_db = demo_final_at t, w_tick = Suc (Suc t)\<rparr>)"
  by (simp add: LogsCursors_Ensure_def sample_exec ensure_stmt_def ensure_row_def cursor_ok_def demo_cursor_def
      int4_ok_def int4_max_def upsert_def demo_final_at_def demo_saved_at_def emptyDatabase_def)


section \<open>The run\<close>

definition demo_prog :: "uint \<Rightarrow> uint \<Rightarrow> progress" where
  "demo_prog f head = \<lparr>pg_logsCursor = demo_cursor\<lparr>lc_LastFetchedBlock := f\<rparr>, pg_headBlock = head, pg_isSynced = False\<rparr>"

definition demo_at :: "world \<Rightarrow> progress \<Rightarrow> BlocksRange list \<Rightarrow> LogsBatch list \<Rightarrow> block_fetcher \<Rightarrow> logs_fetcher \<Rightarrow> indexer" where
  "demo_at w p rs bs bf lf = \<lparr>ix_up = True, ix_w = w, ix_p = p, ix_ranges = rs, ix_logs = bs, ix_bf = bf, ix_lf = lf,
     ix_lp = LpIdle\<rparr>"

text \<open>One step of a goroutine, and steps of a process that stays up.\<close>

abbreviation demo_step :: "indexer \<Rightarrow> indexer \<Rightarrow> bool" where
  "demo_step \<equiv> run_step sample_geth sample_env demo_monitor (processLog sample_abilib demo_monitor)"

inductive run_path :: "geth \<Rightarrow> env \<Rightarrow> ContractMonitor \<Rightarrow> (Log \<Rightarrow> (world, unit) io) \<Rightarrow> indexer \<Rightarrow> indexer \<Rightarrow> bool"
  for G :: geth and E :: env and m :: ContractMonitor and handle :: "Log \<Rightarrow> (world, unit) io" and s :: indexer where
  Nil: "run_path G E m handle s s"
| Snoc: "run_path G E m handle s s' \<Longrightarrow> ix_up s' \<Longrightarrow> run_step G E m handle s' s'' \<Longrightarrow> run_path G E m handle s s''"

lemma reachable_path: "run_path G E m handle s s' \<Longrightarrow> reachable G E m handle chain s \<Longrightarrow> reachable G E m handle chain s'"
  by (induction rule: run_path.induct) (auto intro: reachable.Next step.Run)

lemma demo_bf: "bf_step demo_monitor (demo_at w p rs bs bf lf) s' \<Longrightarrow> demo_step (demo_at w p rs bs bf lf) s'"
  by (simp add: run_step_def)

lemma demo_lf: "lf_step sample_geth sample_env demo_monitor (demo_at w p rs bs bf lf) s' \<Longrightarrow>
    demo_step (demo_at w p rs bs bf lf) s'"
  by (simp add: run_step_def)

definition demo_empty :: "nat \<Rightarrow> world" where
  "demo_empty t = \<lparr>w_db = emptyDatabase, w_tick = t\<rparr>"

definition demo_batch :: LogsBatch where
  "demo_batch = \<lparr>lb_BlockNumber = 99, lb_Logs = []\<rparr>"

definition demo_installed :: indexer where
  "demo_installed = \<lparr>ix_up = False, ix_w = demo_empty 0, ix_p = demo_prog 0 0, ix_ranges = [], ix_logs = [],
     ix_bf = BfPoll 0, ix_lf = LfIdle, ix_lp = LpIdle\<rparr>"

lemma demo_start: "step sample_geth sample_env demo_monitor handle chain demo_installed (demo_at (demo_empty 1) (demo_prog 99 0) [] [] (BfPoll 100) (LfLoad 100 99))"
proof -
  have "step sample_geth sample_env demo_monitor handle chain demo_installed (Start (demo_empty 1) (initialCursor demo_cfg))"
    by (rule Restart) (simp_all add: demo_installed_def demo_empty_def demo_read)
  then show ?thesis
    by (simp add: Start_def demo_initial initialProgress_def demo_at_def demo_prog_def demo_cursor_def)
qed

lemma demo_poll_step: "demo_step (demo_at (demo_empty t) (demo_prog 99 0) [] [] (BfPoll 100) (LfLoad 100 99))
    (demo_at (demo_empty (Suc t)) (demo_prog 99 198) [] [] (BfSend [demo_range] 199) (LfLoad 100 99))"
proof (rule demo_bf)
  show "bf_step demo_monitor (demo_at (demo_empty t) (demo_prog 99 0) [] [] (BfPoll 100) (LfLoad 100 99))
    (demo_at (demo_empty (Suc t)) (demo_prog 99 198) [] [] (BfSend [demo_range] 199) (LfLoad 100 99))"
    using bf_step.Poll [of "demo_at (demo_empty t) (demo_prog 99 0) [] [] (BfPoll 100) (LfLoad 100 99)" 100 demo_monitor
        200 "demo_empty (Suc t)" 198 "[demo_range]" 199]
    by (simp add: demo_at_def demo_poll demo_schedule demo_empty_def recordHeadBlockNumber_def recordIsSynced_def
        demo_prog_def demo_cursor_def defaultSyncedThreshold_def)
qed

lemma demo_send_range: "demo_step (demo_at (demo_empty (Suc t)) (demo_prog 99 198) [] [] (BfSend [demo_range] 199) (LfLoad 100 99))
    (demo_at (demo_empty (Suc t)) (demo_prog 99 198) [demo_range] [] (BfSend [] 199) (LfLoad 100 99))"
proof (rule demo_bf)
  show "bf_step demo_monitor (demo_at (demo_empty (Suc t)) (demo_prog 99 198) [] [] (BfSend [demo_range] 199) (LfLoad 100 99))
    (demo_at (demo_empty (Suc t)) (demo_prog 99 198) [demo_range] [] (BfSend [] 199) (LfLoad 100 99))"
    using bf_step.SendRange [of "demo_at (demo_empty (Suc t)) (demo_prog 99 198) [] [] (BfSend [demo_range] 199) (LfLoad 100 99)"
        demo_range "[]" 199]
    by (simp add: demo_at_def defaultBlockRangesChanCap_def)
qed

lemma demo_load_step: "demo_step (demo_at (demo_empty (Suc t)) (demo_prog 99 198) [demo_range] [] (BfSend [] 199) (LfLoad 100 99))
    (demo_at (demo_empty (Suc (Suc t))) (demo_prog 99 198) [demo_range] [] (BfSend [] 199) (LfSend [demo_batch]))"
proof (rule demo_lf)
  show "lf_step sample_geth sample_env demo_monitor
    (demo_at (demo_empty (Suc t)) (demo_prog 99 198) [demo_range] [] (BfSend [] 199) (LfLoad 100 99))
    (demo_at (demo_empty (Suc (Suc t))) (demo_prog 99 198) [demo_range] [] (BfSend [] 199) (LfSend [demo_batch]))"
    using lf_step.Load [of "demo_at (demo_empty (Suc t)) (demo_prog 99 198) [demo_range] [] (BfSend [] 199) (LfLoad 100 99)"
        100 99 sample_env demo_monitor "[demo_batch]" "demo_empty (Suc (Suc t))" sample_geth]
    by (simp add: demo_at_def demo_empty_def demo_load demo_batch_def)
qed

text \<open>From here on only the logs fetcher moves.\<close>

definition demo_fetching :: "world \<Rightarrow> uint \<Rightarrow> BlocksRange list \<Rightarrow> LogsBatch list \<Rightarrow> logs_fetcher \<Rightarrow> indexer" where
  "demo_fetching w f rs bs lf = demo_at w (demo_prog f 198) rs bs (BfSend [] 199) lf"

lemma demo_fetching_step:
  "lf_step sample_geth sample_env demo_monitor (demo_fetching w f rs bs lf) s' \<Longrightarrow> demo_step (demo_fetching w f rs bs lf) s'"
  unfolding demo_fetching_def by (rule demo_lf)

definition demo_fetched_at :: "nat \<Rightarrow> world" where
  "demo_fetched_at t = \<lparr>w_db = demo_saved_at (Suc (Suc (Suc t))), w_tick = Suc (Suc (Suc (Suc t)))\<rparr>"

definition demo_end_at :: "nat \<Rightarrow> world" where
  "demo_end_at t = \<lparr>w_db = demo_final_at (Suc (Suc (Suc t))), w_tick = Suc (Suc (Suc (Suc (Suc t))))\<rparr>"

lemma demo_send: "demo_step (demo_fetching (demo_empty (Suc (Suc t))) 99 [demo_range] [] (LfSend [demo_batch]))
    (demo_fetching (demo_empty (Suc (Suc t))) 99 [demo_range] [demo_batch] (LfSend []))"
  using demo_fetching_step [OF lf_step.SendBatch [of "demo_fetching (demo_empty (Suc (Suc t))) 99 [demo_range] [] (LfSend [demo_batch])"
      demo_batch "[]"]]
  by (simp add: demo_fetching_def demo_at_def defaultLogsChanCap_def)

lemma demo_submitted: "demo_step (demo_fetching (demo_empty (Suc (Suc t))) 99 [demo_range] [demo_batch] (LfSend []))
    (demo_fetching (demo_empty (Suc (Suc t))) 99 [demo_range] [demo_batch] LfIdle)"
  using demo_fetching_step [OF lf_step.Submitted [of "demo_fetching (demo_empty (Suc (Suc t))) 99 [demo_range] [demo_batch] (LfSend [])"]]
  by (simp add: demo_fetching_def demo_at_def)

lemma demo_take: "demo_step (demo_fetching (demo_empty (Suc (Suc t))) 99 [demo_range] [demo_batch] LfIdle)
    (demo_fetching (demo_empty (Suc (Suc t))) 99 [] [demo_batch] (LfFetch demo_range))"
  using demo_fetching_step [OF lf_step.TakeRange [of "demo_fetching (demo_empty (Suc (Suc t))) 99 [demo_range] [demo_batch] LfIdle"
      demo_range "[]"]]
  by (simp add: demo_fetching_def demo_at_def)

lemma demo_fetched: "demo_step (demo_fetching (demo_empty (Suc (Suc t))) 99 [] [demo_batch] (LfFetch demo_range))
    (demo_fetching (demo_fetched_at t) 99 [] [demo_batch] (LfRecord demo_range [demo_row]))"
  using demo_fetching_step [OF lf_step.Fetch [of "demo_fetching (demo_empty (Suc (Suc t))) 99 [] [demo_batch] (LfFetch demo_range)"
      demo_range sample_geth sample_env demo_monitor "[demo_row]" "demo_fetched_at t"]]
  by (simp add: demo_fetching_def demo_at_def demo_empty_def demo_fetch demo_fetched_at_def)

lemma demo_set: "demo_step (demo_fetching (demo_fetched_at t) 99 [] [demo_batch] (LfRecord demo_range [demo_row]))
    (demo_fetching (demo_fetched_at t) 198 [] [demo_batch] (LfPrepare demo_range [demo_row]))"
  using demo_fetching_step [OF lf_step.SetFetched [of "demo_fetching (demo_fetched_at t) 99 [] [demo_batch]
      (LfRecord demo_range [demo_row])" demo_range "[demo_row]" "demo_prog 198 198"]]
  by (simp add: demo_fetching_def demo_at_def setFetched_def demo_prog_def demo_range_def)

lemma demo_prepare: "demo_step (demo_fetching (demo_fetched_at t) 198 [] [demo_batch] (LfPrepare demo_range [demo_row]))
    (demo_fetching (demo_fetched_at t) 198 [] [demo_batch] (LfSave demo_cursor demo_range [demo_row]))"
  using demo_fetching_step [OF lf_step.PrepareFetched [of "demo_fetching (demo_fetched_at t) 198 [] [demo_batch]
      (LfPrepare demo_range [demo_row])" demo_range "[demo_row]"]]
  by (simp add: demo_fetching_def demo_at_def mem_cursor_def demo_prog_def demo_cursor_def)

definition demo_end_from :: "nat \<Rightarrow> indexer" where
  "demo_end_from t = demo_fetching (demo_end_at t) 198 [] [demo_batch] (LfSend (submitLogs [demo_row] 198))"

lemma demo_save_step: "demo_step (demo_fetching (demo_fetched_at t) 198 [] [demo_batch]
    (LfSave demo_cursor demo_range [demo_row])) (demo_end_from t)"
  using demo_fetching_step [OF lf_step.SaveFetched [of "demo_fetching (demo_fetched_at t) 198 [] [demo_batch]
      (LfSave demo_cursor demo_range [demo_row])" demo_cursor demo_range "[demo_row]" sample_env "()"
      "demo_end_at t"]]
  by (simp add: demo_end_from_def demo_fetching_def demo_at_def demo_fetched_at_def demo_end_at_def demo_save demo_range_def)

lemma demo_path: "run_path sample_geth sample_env demo_monitor (processLog sample_abilib demo_monitor)
    (demo_at (demo_empty t) (demo_prog 99 0) [] [] (BfPoll 100) (LfLoad 100 99)) (demo_end_from t)"
proof -
  have up: "ix_up (demo_at w p rs bs bf lf)" "ix_up (demo_fetching w f rs bs lf')" for w p rs bs bf lf f lf'
    by (simp_all add: demo_fetching_def demo_at_def)
  note snoc = run_path.Snoc [OF _ up(1)] run_path.Snoc [OF _ up(2)]
  note snoc(1) [OF run_path.Nil demo_poll_step]
  note snoc(1) [OF this demo_send_range]
  note snoc(1) [OF this demo_load_step]
  note snoc(2) [OF this [folded demo_fetching_def] demo_send]
  note snoc(2) [OF this demo_submitted]
  note snoc(2) [OF this demo_take]
  note snoc(2) [OF this demo_fetched]
  note snoc(2) [OF this demo_set]
  note snoc(2) [OF this demo_prepare]
  from snoc(2) [OF this demo_save_step] show ?thesis .
qed

definition demo_end :: indexer where
  "demo_end = demo_fetching \<lparr>w_db = demo_final, w_tick = 6\<rparr> 198 [] [demo_batch] (LfSend (submitLogs [demo_row] 198))"

lemma demo_end_from_1: "demo_end_from 1 = demo_end"
  using demo_at_4 by (simp add: demo_end_from_def demo_end_def demo_end_at_def eval_nat_numeral)

lemma demo_reachable: "reachable sample_geth sample_env demo_monitor (processLog sample_abilib demo_monitor) [demo_log] demo_end"
proof -
  have "installed (mon_cfg demo_monitor) [demo_log] demo_installed"
    by (simp add: installed_def demo_installed_def demo_empty_def honest_def emptyDatabase_def)
  then have "reachable sample_geth sample_env demo_monitor (processLog sample_abilib demo_monitor) [demo_log] demo_installed"
    by (rule Installed)
  from reachable_path [OF demo_path Next [OF this demo_start]] show ?thesis by (simp only: demo_end_from_1)
qed

lemma demo_setting: "setting_ok sample_geth demo_monitor [demo_log]"
proof -
  have "node_honest [demo_log] demo_monitor"
    by (auto simp: node_honest_def demo_node_def)
  moreover have "heads_ok demo_monitor"
    by (simp add: heads_ok_def demo_node_def sample_node_def)
  ultimately show ?thesis by (simp add: setting_ok_def chain_wf_def)
qed

lemma demo_wanted: "wanted sample_geth demo_monitor demo_log"
  by (simp add: wanted_def demo_log_def)

lemma demo_final_cursor: "demo_cursor \<in> set (vals (db_logs_cursors (w_db (ix_w demo_end))))" "own_cursor demo_cfg demo_cursor"
  by (simp_all add: demo_end_def demo_fetching_def demo_at_def demo_final_def vals_def own_cursor_def cursor_key_def
      demo_cursor_def)

lemma demo_monitor_home: "demo_monitor \<in> {homeMonitor sample_geth sample_env demo_bridge demo_node,
    foreignMonitor sample_geth sample_env demo_bridge demo_node demo_node}"
  by (simp add: demo_monitor_def)

lemma demo_end_world: "ix_w demo_end = \<lparr>w_db = demo_final, w_tick = 6\<rparr>"
  by (simp add: demo_end_def demo_fetching_def demo_at_def)


lemma fetch_saves_range_witness:
  "set [demo_row] \<subseteq> set (vals (db_logs demo_saved)) \<and> list_ex (\<lambda>l. saved_as ''100'' l demo_log) [demo_row]
    \<and> br_From demo_range \<le> log_BlockNumber demo_row \<and> log_BlockNumber demo_row \<le> br_To demo_range"
proof -
  have hon: "honest (bs_ChainID (mon_cfg demo_monitor)) [demo_log] (w_db \<lparr>w_db = emptyDatabase, w_tick = 3\<rparr>)"
    by (simp add: honest_def emptyDatabase_def)
  have run: "fetchAndSaveLogs sample_geth sample_env demo_monitor demo_range \<lparr>w_db = emptyDatabase, w_tick = 3\<rparr> =
      (Inr [demo_row], \<lparr>w_db = demo_saved, w_tick = 5\<rparr>)"
    using demo_fetch [of 3] demo_at_4 by simp
  have "br_From demo_range \<le> rl_BlockNumber demo_log" "rl_BlockNumber demo_log \<le> br_To demo_range"
    by (simp_all add: demo_range_def demo_log_def)
  with fetch_saves_range [OF demo_setting hon _ _ run] demo_wanted show ?thesis by (simp add: demo_range_def)
qed

end
