(* ===== verification/PresenterTypes.thy ===== *)
theory PresenterTypes
  imports EthClient Abi
begin

text \<open>
  \<open>presenter/types.go\<close>: the records the presenter shows, and the functions that fill them from
  the rows of the tables; with \<open>FormatTxLink\<close> of \<open>config/config.go\<close> and the table of
  request selectors of \<open>contract/bridgeabi/bridge_abi.go\<close>.

  A link is kept as its two ingredients, the format of the chain's explorer and the transaction hash; the
  text is made of them by \<open>fmt.Sprintf\<close>. The \<open>interface{}\<close> values are a sum of the three
  record types that are put into them.
\<close>

section \<open>Texts of hashes\<close>

definition hex_digit :: "nat \<Rightarrow> char" where
  "hex_digit n = (if n < 10 then char_of (48 + n) else char_of (87 + n))"

definition byte_hex :: "byte \<Rightarrow> string" where
  "byte_hex b = [hex_digit (unat b div 16), hex_digit (unat b mod 16)]"

definition hash_String :: "hash \<Rightarrow> string" where
  "hash_String h = ''0x'' @ concat (map byte_hex (hash_bytes h))"

definition address_String :: "address \<Rightarrow> string" where
  "address_String a = ''0x'' @ concat (map byte_hex (address_bytes a))"

lemma hex_digit_inject: "m < 16 \<Longrightarrow> n < 16 \<Longrightarrow> hex_digit m = hex_digit n \<Longrightarrow> m = n"
  by (auto simp: hex_digit_def split: if_splits)

lemma byte_hex_inject: "byte_hex a = byte_hex b \<longleftrightarrow> a = b"
proof
  assume "byte_hex a = byte_hex b"
  moreover have "unat a < 2 ^ LENGTH(8)" "unat b < 2 ^ LENGTH(8)" by (rule unsigned_less)+
  then have "unat a div 16 < 16" "unat b div 16 < 16" by (simp_all add: less_mult_imp_div_less)
  ultimately have "unat a div 16 = unat b div 16" "unat a mod 16 = unat b mod 16"
    by (auto simp: byte_hex_def intro: hex_digit_inject)
  then have "unat a = unat b" by (metis div_mod_decomp)
  then show "a = b" by (simp only: word_unat_eq_iff)
qed simp

lemma hex_bytes_inject: "concat (map byte_hex as) = concat (map byte_hex bs) \<longleftrightarrow> as = bs"
proof (induction as arbitrary: bs)
  case Nil
  then show ?case by (cases bs) (auto simp: byte_hex_def)
next
  case (Cons a as)
  show ?case
  proof (cases bs)
    case Nil
    then show ?thesis by (simp add: byte_hex_def)
  next
    case (Cons b bs')
    have "length (byte_hex a) = length (byte_hex b)" by (simp add: byte_hex_def)
    with Cons Cons.IH [of bs'] show ?thesis by (simp add: byte_hex_inject)
  qed
qed

lemma hash_String_inject [simp]: "hash_String g = hash_String h \<longleftrightarrow> g = h"
  by (simp add: hash_String_def hex_bytes_inject)

lemma address_String_inject [simp]: "address_String a = address_String b \<longleftrightarrow> a = b"
  by (simp add: address_String_def hex_bytes_inject)

section \<open>Links and selectors\<close>

datatype link = PlainTxHash hash | FormattedTxHash string hash

definition FormatTxLink :: "ChainConfig option \<Rightarrow> hash \<Rightarrow> link" where
  "FormatTxLink cfg txHash = (case cfg of
     None \<Rightarrow> PlainTxHash txHash
   | Some c \<Rightarrow> if ch_ExplorerTxLinkFormat c = [] then PlainTxHash txHash
       else FormattedTxHash (ch_ExplorerTxLinkFormat c) txHash)"

definition ArbitraryMessageMethods :: "string list" where
  "ArbitraryMessageMethods = [
     ''eth_call(address,bytes)'',
     ''eth_call(address,bytes,uint256)'',
     ''eth_call(address,address,uint256,bytes)'',
     ''eth_blockNumber()'',
     ''eth_getBlockByNumber()'',
     ''eth_getBlockByNumber(uint256)'',
     ''eth_getBlockByHash(bytes32)'',
     ''eth_getBalance(address)'',
     ''eth_getBalance(address,uint256)'',
     ''eth_getTransactionCount(address)'',
     ''eth_getTransactionCount(address,uint256)'',
     ''eth_getTransactionByHash(bytes32)'',
     ''eth_getTransactionReceipt(bytes32)'',
     ''eth_getStorageAt(address,bytes32)'',
     ''eth_getStorageAt(address,bytes32,uint256)'']"

text \<open>A later string with the same hash replaces an earlier one.\<close>

definition newKeccakMapping :: "geth \<Rightarrow> string list \<Rightarrow> (hash \<times> string) list" where
  "newKeccakMapping G ss = rev (map (\<lambda>s. (Keccak256Hash G (string_bytes s), s)) ss)"

definition ArbitraryMessageSelectors :: "geth \<Rightarrow> (hash \<times> string) list" where
  "ArbitraryMessageSelectors G = newKeccakMapping G ArbitraryMessageMethods"

definition decodeRequestSelector :: "geth \<Rightarrow> hash \<Rightarrow> string" where
  "decodeRequestSelector G selector = (case map_of (ArbitraryMessageSelectors G) selector of
     Some decoded \<Rightarrow> decoded | None \<Rightarrow> hash_String selector)"

section \<open>Records\<close>

record MessageInfo =
  mi_BridgeID :: string
  mi_MsgHash :: hash
  mi_MessageID :: hash
  mi_Direction :: Direction
  mi_Sender :: address
  mi_Executor :: address
  mi_DataType :: uint
  mi_Data :: "byte list"

record InformationRequestInfo =
  iri_BridgeID :: string
  iri_MessageID :: hash
  iri_Direction :: Direction
  iri_Sender :: address
  iri_Executor :: address
  iri_Method :: string
  iri_Data :: "byte list"

record ErcToNativeMessageInfo =
  emi_BridgeID :: string
  emi_MsgHash :: hash
  emi_Direction :: Direction
  emi_Sender :: address
  emi_Receiver :: address
  emi_Value :: string

datatype MessageValue =
    MessageInfoV MessageInfo
  | ErcToNativeMessageInfoV ErcToNativeMessageInfo
  | InformationRequestInfoV InformationRequestInfo

record TxInfo =
  ti_BlockNumber :: uint
  ti_Timestamp :: time
  ti_Link :: link

record EventInfo =
  ei_Action :: string
  ei_LogID :: uint
  ei_Signer :: "address option"
  ei_Data :: "byte list"
  ei_Count :: uint
  ei_Status :: bool
  ei_CallbackStatus :: bool
  ei_TxInfo :: "TxInfo option"

record SearchResult =
  sr_Event :: "EventInfo option"
  sr_Message :: MessageValue
  sr_RelatedEvents :: "EventInfo list"

record LogInfo =
  li_LogID :: uint
  li_ChainID :: string
  li_Address :: address
  li_Topic0 :: "hash option"
  li_Topic1 :: "hash option"
  li_Topic2 :: "hash option"
  li_Topic3 :: "hash option"
  li_Data :: "byte list"
  li_TxHash :: hash
  li_BlockNumber :: uint

record BridgeSideInfo =
  bsi_Chain :: string
  bsi_ChainID :: string
  bsi_BridgeAddress :: address
  bsi_LastFetchedBlock :: uint
  bsi_LastFetchBlockTime :: "time option"
  bsi_LastProcessedBlock :: uint
  bsi_LastProcessedBlockTime :: "time option"
  bsi_Validators :: "address list"

record BridgeInfo =
  bi_BridgeID :: string
  bi_Mode :: BridgeMode
  bi_Home :: BridgeSideInfo
  bi_Foreign :: BridgeSideInfo

record ValidatorInfo =
  vi_Address :: address
  vi_LastConfirmation :: "TxInfo option"

record ValidatorsInfo =
  vsi_BridgeID :: string
  vsi_Mode :: BridgeMode
  vsi_Validators :: "ValidatorInfo list"

record UnsignedMessageInfo =
  ui_Message :: MessageValue
  ui_Link :: "link option"
  ui_Signers :: "address list"
  ui_MissingSigners :: "address list"

record UnsignedMessagesInfo =
  umi_RequiredSignatures :: uint
  umi_ActiveValidators :: "address list"
  umi_TotalPendingMessages :: uint
  umi_TotalUnsignedMessages :: uint
  umi_UnsignedMessages :: "UnsignedMessageInfo list"

section \<open>From rows to records\<close>

definition NewLogInfo :: "Log \<Rightarrow> LogInfo" where
  "NewLogInfo log = \<lparr>li_LogID = log_ID log, li_ChainID = log_ChainID log, li_Address = log_Address log,
     li_Topic0 = log_Topic0 log, li_Topic1 = log_Topic1 log, li_Topic2 = log_Topic2 log,
     li_Topic3 = log_Topic3 log, li_Data = log_Data log, li_TxHash = log_TransactionHash log,
     li_BlockNumber = log_BlockNumber log\<rparr>"

definition NewMessageInfo :: "Message \<Rightarrow> MessageInfo" where
  "NewMessageInfo msg = \<lparr>mi_BridgeID = msg_BridgeID msg, mi_MsgHash = msg_MsgHash msg,
     mi_MessageID = msg_MessageID msg, mi_Direction = msg_Direction msg, mi_Sender = msg_Sender msg,
     mi_Executor = msg_Executor msg, mi_DataType = msg_DataType msg, mi_Data = msg_Data msg\<rparr>"

definition NewInformationRequestInfo :: "geth \<Rightarrow> InformationRequest \<Rightarrow> InformationRequestInfo" where
  "NewInformationRequestInfo G req = \<lparr>iri_BridgeID = ir_BridgeID req, iri_MessageID = ir_MessageID req,
     iri_Direction = ir_Direction req, iri_Sender = ir_Sender req, iri_Executor = ir_Executor req,
     iri_Method = decodeRequestSelector G (ir_RequestSelector req), iri_Data = ir_Data req\<rparr>"

definition NewErcToNativeMessageInfo :: "ErcToNativeMessage \<Rightarrow> ErcToNativeMessageInfo" where
  "NewErcToNativeMessageInfo req = \<lparr>emi_BridgeID = erc_BridgeID req, emi_MsgHash = erc_MsgHash req,
     emi_Direction = erc_Direction req, emi_Sender = erc_Sender req, emi_Receiver = erc_Receiver req,
     emi_Value = erc_Value req\<rparr>"

fun NewBridgeMessageInfo :: "BridgeMessage \<Rightarrow> MessageValue" where
  "NewBridgeMessageInfo (AMBMessage msg) = MessageInfoV (NewMessageInfo msg)"
| "NewBridgeMessageInfo (ErcMessage msg) = ErcToNativeMessageInfoV (NewErcToNativeMessageInfo msg)"

end
