(* ===== verification/Middleware.thy ===== *)
theory Middleware
  imports PresenterTypes
begin

text \<open>
  \<open>presenter/http/\<close>: the middlewares of \<open>middleware/filter.go\<close> and
  \<open>middleware/recoverer.go\<close>, and the two functions of \<open>render/render.go\<close>.

  A request is its URL parameters, its query parameters (the empty text for one that is absent, as in the
  code) and the files of its form. The request context is a record with one field per key. A handler takes
  the context and gives a response; a failure of its call can only be a panic, which \<open>Recoverer\<close>
  turns into a response. \<open>HexToHash\<close> of go-ethereum is a parameter.

  The lemmas show which filters reach the database.
\<close>

section \<open>Requests, contexts and responses\<close>

record FilterContext =
  fc_ChainID :: "string option"
  fc_FromBlock :: "uint option"
  fc_ToBlock :: "uint option"
  fc_TxHash :: "hash option"

definition emptyFilterContext :: FilterContext where
  "emptyFilterContext = \<lparr>fc_ChainID = None, fc_FromBlock = None, fc_ToBlock = None, fc_TxHash = None\<rparr>"

text \<open>
  A form either cannot be parsed, or has files; a file either cannot be opened or decoded, or maps hashes to
  signatures.
\<close>

record request =
  rq_URLParam :: "string \<Rightarrow> string"
  rq_Query :: "string \<Rightarrow> string"
  rq_Form :: "(hash \<times> byte list) list res list res"

record request_ctx =
  cx_bridgeCfg :: "BridgeConfig option"
  cx_chainCfg :: "ChainConfig option"
  cx_fromBlockNumber :: "uint option"
  cx_toBlockNumber :: "uint option"
  cx_txHash :: "hash option"
  cx_filter :: "FilterContext option"

definition emptyContext :: request_ctx where
  "emptyContext = \<lparr>cx_bridgeCfg = None, cx_chainCfg = None, cx_fromBlockNumber = None,
     cx_toBlockNumber = None, cx_txHash = None, cx_filter = None\<rparr>"

datatype 'a response = OK 'a | NotFound string | InternalServerError go_error | Recovered

type_synonym 'a http_handler = "request_ctx \<Rightarrow> (world, 'a response) io"

text \<open>\<open>render.JSON\<close> of the result, or \<open>render.Error\<close>.\<close>

definition render :: "(world, 'a) io \<Rightarrow> (world, 'a response) io" where
  "render m w = (case m w of
     (Inr a, w') \<Rightarrow> (Inr (OK a), w')
   | (Inl (Err e), w') \<Rightarrow> (Inr (InternalServerError e), w')
   | (Inl Panic, w') \<Rightarrow> (Inl Panic, w'))"

definition Recoverer :: "'a http_handler \<Rightarrow> 'a http_handler" where
  "Recoverer next ctx w = (case next ctx w of
     (Inl e, w') \<Rightarrow> (Inr Recovered, w')
   | (Inr r, w') \<Rightarrow> (Inr r, w'))"

section \<open>Numbers in requests\<close>

text \<open>\<open>strconv.ParseUint(s, 10, 32)\<close>: a non-empty text of decimal digits below \<open>2^32\<close>.\<close>

definition is_digit :: "char \<Rightarrow> bool" where
  "is_digit c \<longleftrightarrow> of_char c \<in> {48..57 :: nat}"

definition ParseUint32 :: "string \<Rightarrow> nat res" where
  "ParseUint32 s =
     (if s = [] \<or> \<not> list_all is_digit s then Inl (Err ErrParse)
      else let n = digits_value 0 s in if n < 2 ^ 32 then Inr n else Inl (Err ErrParse))"

section \<open>Middlewares\<close>

definition GetBridgeConfigMiddleware :: "Config \<Rightarrow> request \<Rightarrow> 'a http_handler \<Rightarrow> 'a http_handler" where
  "GetBridgeConfigMiddleware cfg r next ctx =
     (let bridgeID = rq_URLParam r ''bridgeID'' in
      case map_of (cfg_Bridges cfg) bridgeID of
        None \<Rightarrow> returnE (NotFound bridgeID)
      | Some bridgeCfg \<Rightarrow> next (ctx\<lparr>cx_bridgeCfg := Some bridgeCfg\<rparr>))"

definition GetChainConfigMiddleware :: "Config \<Rightarrow> request \<Rightarrow> 'a http_handler \<Rightarrow> 'a http_handler" where
  "GetChainConfigMiddleware cfg r next ctx =
     (let p = rq_URLParam r ''chainID'';
          chainID = (if p = [] then rq_Query r ''chainId'' else p)
      in if chainID = [] then next ctx
         else bindE (liftE (GetChainConfig cfg chainID)) (\<lambda>chain. case chain of
           None \<Rightarrow> returnE (NotFound chainID)
         | Some chainCfg \<Rightarrow> next (ctx\<lparr>cx_chainCfg := Some chainCfg\<rparr>)))"

definition GetBlockNumberMiddleware :: "request \<Rightarrow> 'a http_handler \<Rightarrow> 'a http_handler" where
  "GetBlockNumberMiddleware r next ctx =
     (let p = rq_URLParam r ''blockNumber'';
          blockNumberStr = (if p = [] then rq_Query r ''blockNumber'' else p);
          fromBlockStr = (if blockNumberStr = [] then rq_Query r ''fromBlock'' else blockNumberStr);
          toBlockStr = (if blockNumberStr = [] then rq_Query r ''toBlock'' else blockNumberStr)
      in if blockNumberStr = [] \<and> (fromBlockStr = [] \<or> toBlockStr = []) then next ctx
         else case ParseUint32 fromBlockStr of
           Inl _ \<Rightarrow> returnE (InternalServerError ErrParse)
         | Inr fromBlock \<Rightarrow> (case ParseUint32 toBlockStr of
             Inl _ \<Rightarrow> returnE (InternalServerError ErrParse)
           | Inr toBlock \<Rightarrow>
               if fromBlock > toBlock then returnE (InternalServerError ErrInvalidBlockNumber)
               else if toBlock - fromBlock > 10000 then returnE (InternalServerError ErrInvalidBlockNumber)
               else next (ctx\<lparr>cx_fromBlockNumber := Some (of_nat fromBlock),
                 cx_toBlockNumber := Some (of_nat toBlock)\<rparr>)))"

definition GetTxHashMiddleware :: "(string \<Rightarrow> hash) \<Rightarrow> request \<Rightarrow> 'a http_handler \<Rightarrow> 'a http_handler" where
  "GetTxHashMiddleware HexToHash r next ctx =
     (let p = rq_URLParam r ''txHash'';
          txHash = (if p = [] then rq_Query r ''txHash'' else p)
      in if txHash = [] then next ctx
         else next (ctx\<lparr>cx_txHash := Some (HexToHash txHash)\<rparr>))"

definition GetFilterMiddleware :: "'a http_handler \<Rightarrow> 'a http_handler" where
  "GetFilterMiddleware next ctx =
     next (ctx\<lparr>cx_filter := Some \<lparr>fc_ChainID = map_option ch_ChainID (cx_chainCfg ctx),
       fc_FromBlock = cx_fromBlockNumber ctx, fc_ToBlock = cx_toBlockNumber ctx, fc_TxHash = cx_txHash ctx\<rparr>\<rparr>)"

definition GetFilterContext :: "request_ctx \<Rightarrow> FilterContext" where
  "GetFilterContext ctx = (case cx_filter ctx of Some f \<Rightarrow> f | None \<Rightarrow> emptyFilterContext)"

section \<open>What passes the middlewares\<close>

lemma ParseUint32_Inr:
  "ParseUint32 s = Inr n \<longleftrightarrow> s \<noteq> [] \<and> list_all is_digit s \<and> n = digits_value 0 s \<and> n < 2 ^ 32"
  by (auto simp: ParseUint32_def Let_def)

lemma ParseUint32_less: "ParseUint32 s = Inr n \<Longrightarrow> n < 2 ^ 32"
  by (simp add: ParseUint32_Inr)

lemma digit_is_digit [simp]: "n < 10 \<Longrightarrow> is_digit (char_of (48 + n :: nat))"
  by (simp add: is_digit_def)

lemma decimal_digits_are: "list_all is_digit (decimal_digits n) \<and> decimal_digits n \<noteq> []"
proof (induction n rule: decimal_digits.induct)
  case (1 n)
  then show ?case
    by (cases "n < 10") (simp_all add: decimal_digits.simps [of n])
qed

lemma ParseUint32_decimal: "ParseUint32 (decimal_digits n) = (if n < 2 ^ 32 then Inr n else Inl (Err ErrParse))"
  by (simp add: ParseUint32_def Let_def decimal_digits_are digits_value_decimal)

text \<open>
  A context that the middlewares have filled: a chain of the configuration, if any; and no blocks, or two
  numbers in order, not far apart.
\<close>

definition blocks_ok :: "uint option \<Rightarrow> uint option \<Rightarrow> bool" where
  "blocks_ok from to \<longleftrightarrow> (case (from, to) of
     (None, None) \<Rightarrow> True
   | (Some f, Some t) \<Rightarrow> f \<le> t \<and> unat t - unat f \<le> 10000 \<and> unat t < 2 ^ 32
   | _ \<Rightarrow> False)"

definition ctx_ok :: "Config \<Rightarrow> request_ctx \<Rightarrow> bool" where
  "ctx_ok cfg ctx \<longleftrightarrow> blocks_ok (cx_fromBlockNumber ctx) (cx_toBlockNumber ctx) \<and>
     (case cx_chainCfg ctx of None \<Rightarrow> True | Some c \<Rightarrow> c \<in> set (known_chains cfg))"

definition filter_ok :: "Config \<Rightarrow> FilterContext \<Rightarrow> bool" where
  "filter_ok cfg f \<longleftrightarrow> blocks_ok (fc_FromBlock f) (fc_ToBlock f) \<and>
     (case fc_ChainID f of None \<Rightarrow> True | Some c \<Rightarrow> c \<in> ch_ChainID ` set (known_chains cfg))"

lemma ctx_ok_empty [simp]: "ctx_ok cfg emptyContext"
  by (simp add: ctx_ok_def emptyContext_def blocks_ok_def)

lemma ctx_ok_update:
  "ctx_ok cfg ctx \<Longrightarrow> ctx_ok cfg (ctx\<lparr>cx_txHash := h\<rparr>)"
  "ctx_ok cfg ctx \<Longrightarrow> c \<in> set (known_chains cfg) \<Longrightarrow> ctx_ok cfg (ctx\<lparr>cx_chainCfg := Some c\<rparr>)"
  "ctx_ok cfg ctx \<Longrightarrow> blocks_ok f t \<Longrightarrow> ctx_ok cfg (ctx\<lparr>cx_fromBlockNumber := f, cx_toBlockNumber := t\<rparr>)"
  by (simp_all add: ctx_ok_def)

text \<open>A request that is answered passed every middleware, with a context that is still right.\<close>

lemma chain_passes:
  assumes "GetChainConfigMiddleware cfg r h ctx w = (Inr (OK x), w')" and "ctx_ok cfg ctx"
  shows "\<exists>ctx'. ctx_ok cfg ctx' \<and> h ctx' w = (Inr (OK x), w')"
  using assms by (auto simp: GetChainConfigMiddleware_def Let_def bindE_liftE_Inr
      intro: ctx_ok_update GetChainConfig_in split: if_splits option.splits)

lemma blocks_of_nat:
  assumes "f < 2 ^ 32" "t < 2 ^ 32" "f \<le> t" "t - f \<le> 10000"
  shows "blocks_ok (Some (of_nat f)) (Some (of_nat t))"
proof -
  have "unat (of_nat f :: uint) = f" "unat (of_nat t :: uint) = t" using assms by (simp_all add: unat_of_nat)
  with assms show ?thesis by (simp add: blocks_ok_def word_le_nat_alt)
qed

lemma block_passes:
  assumes run: "GetBlockNumberMiddleware r h ctx w = (Inr (OK x), w')" and ok: "ctx_ok cfg ctx"
  shows "\<exists>ctx'. ctx_ok cfg ctx' \<and> h ctx' w = (Inr (OK x), w')"
proof -
  have step: "\<exists>ctx'. ctx_ok cfg ctx' \<and> h ctx' w = (Inr (OK x), w')"
    if "(case ParseUint32 a of Inl _ \<Rightarrow> returnE (InternalServerError e) | Inr f \<Rightarrow> (case ParseUint32 b of
        Inl _ \<Rightarrow> returnE (InternalServerError e) | Inr t \<Rightarrow>
        if f > t then returnE (InternalServerError e') else if t - f > 10000 then returnE (InternalServerError e')
        else h (ctx\<lparr>cx_fromBlockNumber := Some (of_nat f), cx_toBlockNumber := Some (of_nat t)\<rparr>))) w
      = (Inr (OK x), w')" for a b e e'
  proof -
    from that obtain f t where "ParseUint32 a = Inr f" "ParseUint32 b = Inr t" "f \<le> t" "t - f \<le> 10000"
      and h: "h (ctx\<lparr>cx_fromBlockNumber := Some (of_nat f), cx_toBlockNumber := Some (of_nat t)\<rparr>) w = (Inr (OK x), w')"
      by (auto split: sum.splits if_splits)
    then have "blocks_ok (Some (of_nat f)) (Some (of_nat t))"
      by (auto intro!: blocks_of_nat dest: ParseUint32_less)
    with ok h show ?thesis by (blast intro: ctx_ok_update)
  qed
  show ?thesis
    using run ok unfolding GetBlockNumberMiddleware_def Let_def by (auto intro: step split: if_splits)
qed

lemma tx_passes:
  assumes "GetTxHashMiddleware H r h ctx w = (Inr (OK x), w')" and "ctx_ok cfg ctx"
  shows "\<exists>ctx'. ctx_ok cfg ctx' \<and> h ctx' w = (Inr (OK x), w')"
  using assms by (auto simp: GetTxHashMiddleware_def Let_def intro: ctx_ok_update split: if_splits)

lemma filter_passes:
  assumes "GetFilterMiddleware h ctx w = (Inr (OK x), w')" and "ctx_ok cfg ctx"
  shows "\<exists>ctx'. filter_ok cfg (GetFilterContext ctx') \<and> h ctx' w = (Inr (OK x), w')"
proof -
  let ?c = "ctx\<lparr>cx_filter := Some \<lparr>fc_ChainID = map_option ch_ChainID (cx_chainCfg ctx),
    fc_FromBlock = cx_fromBlockNumber ctx, fc_ToBlock = cx_toBlockNumber ctx, fc_TxHash = cx_txHash ctx\<rparr>\<rparr>"
  have "filter_ok cfg (GetFilterContext ?c)"
    using assms(2) by (auto simp: GetFilterContext_def ctx_ok_def filter_ok_def split: option.splits)
  with assms(1) show ?thesis unfolding GetFilterMiddleware_def by blast
qed

end
