(* ===== verification/Presenter.thy ===== *)
theory Presenter
  imports Middleware "HOL-Library.AList"
begin

text \<open>
  \<open>presenter/presenter.go\<close>: the HTTP handlers that show what is in the tables, and the routes of
  \<open>Serve\<close>; with \<open>RequiredSignatures\<close> of \<open>contract/bridge_contract.go\<close> and
  \<open>RestoreSignerAddress\<close> of \<open>utils/ecdsa.go\<close>.

  Every handler is a sequence of calls that ends in \<open>render\<close>: the first error is the answer. Go maps are
  association lists in the order of insertion. The signature functions of go-ethereum are the record
  \<open>sigcrypto\<close>. Throttling, request ids and request logging leave requests as they are.
\<close>

record presenter =
  pr_repo :: env
  pr_cfg :: Config

text \<open>\<open>NewPresenter\<close>; the pointer to the configuration is shared with the program.\<close>

definition NewPresenter :: "env \<Rightarrow> Config \<Rightarrow> presenter" where
  "NewPresenter repo cfg = \<lparr>pr_repo = repo, pr_cfg = cfg\<rparr>"

section \<open>Blocks, transactions, validators\<close>

definition findActiveValidatorAddresses :: "presenter \<Rightarrow> string \<Rightarrow> string \<Rightarrow> (world, address list) io" where
  "findActiveValidatorAddresses p bridgeID chainID =
     bindE (BridgeValidators_FindActiveValidators (pr_repo p) bridgeID chainID) (\<lambda>validators.
     returnE (map bv_Address validators))"

text \<open>\<open>None\<close> is Go's zero time.\<close>

definition getBlockTimeOrDefault :: "presenter \<Rightarrow> string \<Rightarrow> uint \<Rightarrow> (world, time option) io" where
  "getBlockTimeOrDefault p chainID blockNumber =
     bindE (IgnoreErrNotFound (BlockTimestamps_GetByBlockNumber (pr_repo p) chainID blockNumber)) (\<lambda>bt.
     returnE (map_option bt_Timestamp bt))"

definition getBridgeSideInfo :: "presenter \<Rightarrow> string \<Rightarrow> BridgeSideConfig \<Rightarrow> (world, BridgeSideInfo) io" where
  "getBridgeSideInfo p bridgeID cfg =
     bindE (liftE (sideChainID cfg)) (\<lambda>chainID.
     bindE (LogsCursors_GetByChainIDAndAddress (pr_repo p) chainID (bs_Address cfg)) (\<lambda>cursor.
     bindE (getBlockTimeOrDefault p chainID (lc_LastFetchedBlock cursor)) (\<lambda>lastFetchedBlockTime.
     bindE (if lc_LastFetchedBlock cursor \<noteq> lc_LastProcessedBlock cursor
            then getBlockTimeOrDefault p chainID (lc_LastProcessedBlock cursor)
            else returnE lastFetchedBlockTime) (\<lambda>lastProcessedBlockTime.
     bindE (findActiveValidatorAddresses p bridgeID chainID) (\<lambda>validators.
     returnE \<lparr>bsi_Chain = bs_ChainName cfg, bsi_ChainID = chainID, bsi_BridgeAddress = bs_Address cfg,
       bsi_LastFetchedBlock = lc_LastFetchedBlock cursor, bsi_LastFetchBlockTime = lastFetchedBlockTime,
       bsi_LastProcessedBlock = lc_LastProcessedBlock cursor,
       bsi_LastProcessedBlockTime = lastProcessedBlockTime, bsi_Validators = validators\<rparr>)))))"

definition getTxInfo :: "presenter \<Rightarrow> uint \<Rightarrow> (world, TxInfo) io" where
  "getTxInfo p logID =
     bindE (Logs_GetByID (pr_repo p) logID) (\<lambda>log.
     bindE (BlockTimestamps_GetByBlockNumber (pr_repo p) (log_ChainID log) (log_BlockNumber log)) (\<lambda>bt.
     bindE (liftE (GetChainConfig (pr_cfg p) (log_ChainID log))) (\<lambda>chain.
     returnE \<lparr>ti_BlockNumber = log_BlockNumber log, ti_Timestamp = bt_Timestamp bt,
       ti_Link = FormatTxLink chain (log_TransactionHash log)\<rparr>)))"

text \<open>
  The configuration of the bridge in the context. The one that stands in when there is none has no sides in
  the code; every route that asks for it has passed \<open>GetBridgeConfigMiddleware\<close>.
\<close>

definition emptySideConfig :: BridgeSideConfig where
  "emptySideConfig = \<lparr>bs_ChainName = [], bs_Chain = None, bs_Address = 0, bs_ValidatorContractAddress = 0,
     bs_StartBlock = 0, bs_BlockConfirmations = 0, bs_MaxBlockRangeSize = 0, bs_WhitelistedSenders = [],
     bs_ErcToNativeTokens = []\<rparr>"

definition ctx_BridgeConfig :: "request_ctx \<Rightarrow> BridgeConfig" where
  "ctx_BridgeConfig ctx = (case cx_bridgeCfg ctx of
     Some cfg \<Rightarrow> cfg
   | None \<Rightarrow> \<lparr>bc_ID = [], bc_BridgeMode = OtherBridgeMode [], bc_Home = emptySideConfig,
       bc_Foreign = emptySideConfig, bc_Alerts = []\<rparr>)"

section \<open>Bridges\<close>

definition GetBridgeConfig :: "presenter \<Rightarrow> request_ctx \<Rightarrow> (world, BridgeConfig) io" where
  "GetBridgeConfig p ctx = returnE (ctx_BridgeConfig ctx)"

definition GetBridgeInfo :: "presenter \<Rightarrow> request_ctx \<Rightarrow> (world, BridgeInfo) io" where
  "GetBridgeInfo p ctx =
     (let cfg = ctx_BridgeConfig ctx in
      bindE (getBridgeSideInfo p (bc_ID cfg) (bc_Home cfg)) (\<lambda>homeInfo.
      bindE (getBridgeSideInfo p (bc_ID cfg) (bc_Foreign cfg)) (\<lambda>foreignInfo.
      returnE \<lparr>bi_BridgeID = bc_ID cfg, bi_Mode = bc_BridgeMode cfg, bi_Home = homeInfo,
        bi_Foreign = foreignInfo\<rparr>)))"

definition validatorInfo :: "presenter \<Rightarrow> BridgeConfig \<Rightarrow> address \<Rightarrow> (world, ValidatorInfo) io" where
  "validatorInfo p cfg val =
     bindE (IgnoreErrNotFound (SignedMessages_GetLatest (pr_repo p) (bc_ID cfg) (bs_ChainID (bc_Home cfg)) val)) (\<lambda>confirmation.
     case confirmation of
       None \<Rightarrow> returnE \<lparr>vi_Address = val, vi_LastConfirmation = None\<rparr>
     | Some c \<Rightarrow> bindE (getTxInfo p (sgm_LogID c)) (\<lambda>info.
         returnE \<lparr>vi_Address = val, vi_LastConfirmation = Some info\<rparr>))"

fun validatorInfos :: "presenter \<Rightarrow> BridgeConfig \<Rightarrow> address list \<Rightarrow> address list \<Rightarrow> (world, ValidatorInfo list) io" where
  "validatorInfos p cfg seenValidators [] = returnE []"
| "validatorInfos p cfg seenValidators (val # validators) =
     (if val \<in> set seenValidators then validatorInfos p cfg seenValidators validators
      else bindE (validatorInfo p cfg val) (\<lambda>valInfo.
        bindE (validatorInfos p cfg (val # seenValidators) validators) (\<lambda>rest.
        returnE (valInfo # rest))))"

definition GetBridgeValidators :: "presenter \<Rightarrow> request_ctx \<Rightarrow> (world, ValidatorsInfo) io" where
  "GetBridgeValidators p ctx =
     (let cfg = ctx_BridgeConfig ctx in
      bindE (liftE (sideChainID (bc_Home cfg))) (\<lambda>homeChainID.
      bindE (findActiveValidatorAddresses p (bc_ID cfg) homeChainID) (\<lambda>homeValidators.
      bindE (findActiveValidatorAddresses p (bc_ID cfg) homeChainID) (\<lambda>foreignValidators.
      bindE (validatorInfos p cfg [] (homeValidators @ foreignValidators)) (\<lambda>validators.
      returnE \<lparr>vsi_BridgeID = bc_ID cfg, vsi_Mode = bc_BridgeMode cfg, vsi_Validators = validators\<rparr>)))))"

definition GetPendingMessages :: "presenter \<Rightarrow> request_ctx \<Rightarrow> (world, MessageValue list) io" where
  "GetPendingMessages p ctx =
     (let cfg = ctx_BridgeConfig ctx in
      bindE (Repo_FindPendingMessages (pr_repo p) (bc_ID cfg) (bc_BridgeMode cfg)) (\<lambda>msgs.
      returnE (map NewBridgeMessageInfo msgs)))"

section \<open>Messages that lack signatures\<close>

record sigcrypto =
  TextHash :: "byte list \<Rightarrow> byte list"
  SigToPub :: "byte list \<Rightarrow> byte list \<Rightarrow> byte list res"
  PubkeyToAddress :: "byte list \<Rightarrow> address"

definition RestoreSignerAddress :: "sigcrypto \<Rightarrow> byte list \<Rightarrow> byte list \<Rightarrow> address res" where
  "RestoreSignerAddress K data sig =
     (let sig' = (if length sig \<ge> 65 \<and> sig ! 64 \<ge> 27 then sig[64 := sig ! 64 - 27] else sig) in
      res_bind (SigToPub K (TextHash K data) sig') (\<lambda>pk. Inr (PubkeyToAddress K pk)))"

text \<open>\<open>calldata\<close> is the packed call of \<open>requiredSignatures()\<close>.\<close>

definition RequiredSignatures :: "node \<Rightarrow> byte list res \<Rightarrow> address \<Rightarrow> (world, uint) io" where
  "RequiredSignatures N calldata bridge =
     bindE (Contract_Call N bridge calldata) (\<lambda>res. returnE (big_Uint64 (big_SetBytes res)))"

text \<open>Reading an absent key of a map gives the zero value; \<open>append\<close> to it starts a list.\<close>

definition append_at :: "'k \<Rightarrow> 'a \<Rightarrow> ('k \<times> 'a list) list \<Rightarrow> ('k \<times> 'a list) list" where
  "append_at k a m = AList.update k ((case map_of m k of None \<Rightarrow> [] | Some xs \<Rightarrow> xs) @ [a]) m"

fun manualSignatures_file :: "sigcrypto \<Rightarrow> (hash \<times> byte list) list \<Rightarrow> (hash \<times> byte list) list \<Rightarrow>
    (hash \<times> address list) list \<Rightarrow> (hash \<times> address list) list res" where
  "manualSignatures_file K messages [] res = Inr res"
| "manualSignatures_file K messages ((hash, sig) # sigs) res =
     res_bind (RestoreSignerAddress K (case map_of messages hash of None \<Rightarrow> [] | Some raw \<Rightarrow> raw) sig) (\<lambda>signer.
     manualSignatures_file K messages sigs (append_at hash signer res))"

fun manualSignatures_files :: "sigcrypto \<Rightarrow> (hash \<times> byte list) list \<Rightarrow> (hash \<times> byte list) list res list \<Rightarrow>
    (hash \<times> address list) list \<Rightarrow> (hash \<times> address list) list res" where
  "manualSignatures_files K messages [] res = Inr res"
| "manualSignatures_files K messages (file # files) res =
     res_bind file (\<lambda>signatures.
     res_bind (manualSignatures_file K messages signatures res) (\<lambda>res'.
     manualSignatures_files K messages files res'))"

definition parseManualSignatures :: "sigcrypto \<Rightarrow> request \<Rightarrow> (hash \<times> byte list) list \<Rightarrow>
    (hash \<times> address list) list res" where
  "parseManualSignatures K r messages =
     res_bind (rq_Form r) (\<lambda>files. manualSignatures_files K messages files [])"

text \<open>A write to the inner map of an absent hash is a write to a nil map: a panic.\<close>

definition addSigner :: "hash \<Rightarrow> address \<Rightarrow> (hash \<times> address list) list \<Rightarrow> (hash \<times> address list) list res" where
  "addSigner hash signer m = (case map_of m hash of
     None \<Rightarrow> Inl Panic | Some signers \<Rightarrow> Inr (AList.update hash (List.insert signer signers) m))"

fun addSignatures :: "SignedMessage list \<Rightarrow> (hash \<times> address list) list \<Rightarrow> (hash \<times> address list) list res" where
  "addSignatures [] m = Inr m"
| "addSignatures (sig # sigs) m = res_bind (addSigner (sgm_MsgHash sig) (sgm_Signer sig) m) (addSignatures sigs)"

fun addManualSigners :: "(hash \<times> address list) list \<Rightarrow> (hash \<times> address list) list \<Rightarrow> (hash \<times> address list) list" where
  "addManualSigners [] m = m"
| "addManualSigners ((hash, signers) # manual) m = addManualSigners manual (case map_of m hash of
     None \<Rightarrow> m | Some known \<Rightarrow> AList.update hash (fold List.insert signers known) m)"

definition makeSignersMap :: "hash list \<Rightarrow> SignedMessage list \<Rightarrow> (hash \<times> address list) list \<Rightarrow>
    (hash \<times> address list) list res" where
  "makeSignersMap msgHashes signatures manualSigners =
     res_bind (addSignatures signatures (fold (\<lambda>hash. AList.update hash []) msgHashes [])) (\<lambda>m.
     Inr (addManualSigners manualSigners m))"

definition hasSigned :: "(hash \<times> address list) list \<Rightarrow> hash \<Rightarrow> address \<Rightarrow> bool" where
  "hasSigned m hash signer = (case map_of m hash of None \<Rightarrow> False | Some signers \<Rightarrow> signer \<in> set signers)"

definition unsignedInfo :: "(hash \<times> link) list \<Rightarrow> (hash \<times> address list) list \<Rightarrow> address list \<Rightarrow> uint \<Rightarrow>
    (hash \<times> BridgeMessage) list \<Rightarrow> UnsignedMessageInfo list" where
  "unsignedInfo sentTxLinks signersMap validators requiredSignatures messages =
     concat (map (\<lambda>(hash, msg).
       let signers = filter (hasSigned signersMap hash) validators;
           missingSigners = filter (\<lambda>s. \<not> hasSigned signersMap hash s) validators
       in if of_nat (length signers) < requiredSignatures
          then [\<lparr>ui_Message = NewBridgeMessageInfo msg, ui_Link = map_of sentTxLinks hash,
            ui_Signers = signers, ui_MissingSigners = missingSigners\<rparr>]
          else []) messages)"

definition homeToForeign :: "BridgeMessage \<Rightarrow> bool" where
  "homeToForeign msg \<longleftrightarrow> GetDirection msg = DirectionHomeToForeign"

text \<open>One entry per message; those of the other direction keep the zero hash of \<open>make\<close>.\<close>

definition pendingHashes :: "BridgeMessage list \<Rightarrow> hash list" where
  "pendingHashes msgs = map (\<lambda>msg. if homeToForeign msg then GetMsgHash msg else 0) msgs"

definition by_hash :: "(BridgeMessage \<Rightarrow> 'a) \<Rightarrow> BridgeMessage list \<Rightarrow> (hash \<times> 'a) list" where
  "by_hash f msgs = fold (\<lambda>msg. AList.update (GetMsgHash msg) (f msg)) (filter homeToForeign msgs) []"

fun sentLinks_loop :: "Config \<Rightarrow> (uint \<times> hash) list \<Rightarrow> Log list \<Rightarrow> (hash \<times> link) list \<Rightarrow> (hash \<times> link) list res" where
  "sentLinks_loop cfg sentMsgHashMap [] sentTxLinks = Inr sentTxLinks"
| "sentLinks_loop cfg sentMsgHashMap (log # logs) sentTxLinks =
     res_bind (GetChainConfig cfg (log_ChainID log)) (\<lambda>chain.
     sentLinks_loop cfg sentMsgHashMap logs
       (AList.update (case map_of sentMsgHashMap (log_ID log) of None \<Rightarrow> 0 | Some h \<Rightarrow> h)
         (FormatTxLink chain (log_TransactionHash log)) sentTxLinks))"

definition sentLinks :: "Config \<Rightarrow> SentMessage list \<Rightarrow> Log list \<Rightarrow> (hash \<times> link) list res" where
  "sentLinks cfg sentMsgs logs =
     (let sentMsgHashMap = fold (\<lambda>s. AList.update (sm_LogID s) (sm_MsgHash s)) sentMsgs [] in
      sentLinks_loop cfg sentMsgHashMap logs [])"

definition GetMessagesWithMissingSignatures ::
  "presenter \<Rightarrow> sigcrypto \<Rightarrow> node \<Rightarrow> byte list res \<Rightarrow> request \<Rightarrow> request_ctx \<Rightarrow> (world, UnsignedMessagesInfo) io" where
  "GetMessagesWithMissingSignatures p K N calldata r ctx =
     (let cfg = ctx_BridgeConfig ctx; foreign = bc_Foreign cfg in
      bindE (sideClient (\<lambda>cfg. N) foreign) (\<lambda>foreignClient.
      bindE (RequiredSignatures foreignClient calldata (bs_Address foreign)) (\<lambda>requiredSignatures.
      bindE (findActiveValidatorAddresses p (bc_ID cfg) (bs_ChainID foreign)) (\<lambda>validators.
      bindE (Repo_FindPendingMessages (pr_repo p) (bc_ID cfg) (bc_BridgeMode cfg)) (\<lambda>msgs.
      let msgHashes = pendingHashes msgs; messages = by_hash id msgs; rawMessages = by_hash GetRawMessage msgs in
      bindE (SignedMessages_FindByMsgHashes (pr_repo p) (bc_ID cfg) msgHashes) (\<lambda>signatures.
      bindE (SentMessages_FindByMsgHashes (pr_repo p) (bc_ID cfg) msgHashes) (\<lambda>sentMsgs.
      bindE (Logs_FindByIDs (pr_repo p) (map sm_LogID sentMsgs)) (\<lambda>logs.
      bindE (liftE (sentLinks (pr_cfg p) sentMsgs logs)) (\<lambda>sentTxLinks.
      bindE (liftE (parseManualSignatures K r rawMessages)) (\<lambda>manualSigners.
      bindE (liftE (makeSignersMap msgHashes signatures manualSigners)) (\<lambda>signersMap.
      let res = unsignedInfo sentTxLinks signersMap validators requiredSignatures messages in
      returnE \<lparr>umi_RequiredSignatures = requiredSignatures, umi_ActiveValidators = validators,
        umi_TotalPendingMessages = of_nat (length msgHashes), umi_TotalUnsignedMessages = of_nat (length res),
        umi_UnsignedMessages = res\<rparr>)))))))))))"

section \<open>Searches\<close>

definition getFilteredLogs :: "presenter \<Rightarrow> request_ctx \<Rightarrow> (world, Log list) io" where
  "getFilteredLogs p ctx =
     (let filter = GetFilterContext ctx in
      if fc_TxHash filter = None \<and> fc_ChainID filter = None then failE (Err ErrMissingChainID)
      else if fc_TxHash filter = None \<and> (fc_FromBlock filter = None \<or> fc_ToBlock filter = None)
        then failE (Err ErrMissingBlockQueryParams)
      else Logs_Find (pr_repo p) (emptyLogsFilter\<lparr>lf_ChainID := fc_ChainID filter,
        lf_FromBlock := fc_FromBlock filter, lf_ToBlock := fc_ToBlock filter, lf_TxHash := fc_TxHash filter\<rparr>))"

definition GetLogs :: "presenter \<Rightarrow> request_ctx \<Rightarrow> (world, LogInfo list) io" where
  "GetLogs p ctx = bindE (getFilteredLogs p ctx) (\<lambda>logs. returnE (map NewLogInfo logs))"

definition newEvent :: "string \<Rightarrow> uint \<Rightarrow> EventInfo" where
  "newEvent action logID = \<lparr>ei_Action = action, ei_LogID = logID, ei_Signer = None, ei_Data = [],
     ei_Count = 0, ei_Status = False, ei_CallbackStatus = False, ei_TxInfo = None\<rparr>"

fun enrichEvents :: "presenter \<Rightarrow> EventInfo list \<Rightarrow> (world, EventInfo list) io" where
  "enrichEvents p [] = returnE []"
| "enrichEvents p (event # events) =
     bindE (getTxInfo p (ei_LogID event)) (\<lambda>info.
     bindE (enrichEvents p events) (\<lambda>rest.
     returnE (event\<lparr>ei_TxInfo := Some info\<rparr> # rest)))"

definition messageEvents :: "SentMessage option \<Rightarrow> SignedMessage list \<Rightarrow> CollectedMessage option \<Rightarrow>
    ExecutedMessage option \<Rightarrow> EventInfo list" where
  "messageEvents sentRow signedRows collectedRow executedRow =
     (case sentRow of None \<Rightarrow> [] | Some s \<Rightarrow> [newEvent ''SENT_MESSAGE'' (sm_LogID s)])
     @ map (\<lambda>s. (newEvent ''SIGNED_MESSAGE'' (sgm_LogID s))\<lparr>ei_Signer := Some (sgm_Signer s)\<rparr>) signedRows
     @ (case collectedRow of None \<Rightarrow> [] | Some c \<Rightarrow>
         [(newEvent ''COLLECTED_SIGNATURES'' (cm_LogID c))\<lparr>ei_Count := cm_NumSignatures c\<rparr>])
     @ (case executedRow of None \<Rightarrow> [] | Some e \<Rightarrow>
         [(newEvent ''EXECUTED_MESSAGE'' (em_LogID e))\<lparr>ei_Status := em_Status e\<rparr>])"

definition buildMessageEvents :: "presenter \<Rightarrow> string \<Rightarrow> hash \<Rightarrow> hash \<Rightarrow> (world, EventInfo list) io" where
  "buildMessageEvents p bridgeID msgHash messageID =
     bindE (IgnoreErrNotFound (SentMessages_GetByMsgHash (pr_repo p) bridgeID msgHash)) (\<lambda>sentRow.
     bindE (SignedMessages_FindByMsgHashes (pr_repo p) bridgeID [msgHash]) (\<lambda>signedRows.
     bindE (IgnoreErrNotFound (CollectedMessages_GetByMsgHash (pr_repo p) bridgeID msgHash)) (\<lambda>collectedRow.
     bindE (IgnoreErrNotFound (ExecutedMessages_GetByMessageID (pr_repo p) bridgeID messageID)) (\<lambda>executedRow.
     enrichEvents p (messageEvents sentRow signedRows collectedRow executedRow)))))"

definition requestEvents :: "SentInformationRequest option \<Rightarrow> SignedInformationRequest list \<Rightarrow>
    ExecutedInformationRequest option \<Rightarrow> EventInfo list" where
  "requestEvents sentRow signedRows executedRow =
     (case sentRow of None \<Rightarrow> [] | Some s \<Rightarrow> [newEvent ''SENT_INFORMATION_REQUEST'' (sir_LogID s)])
     @ map (\<lambda>s. (newEvent ''SIGNED_INFORMATION_REQUEST'' (sgir_LogID s))
         \<lparr>ei_Signer := Some (sgir_Signer s), ei_Data := sgir_Data s\<rparr>) signedRows
     @ (case executedRow of None \<Rightarrow> [] | Some e \<Rightarrow>
         [(newEvent ''EXECUTED_INFORMATION_REQUEST'' (eir_LogID e))
           \<lparr>ei_Status := eir_Status e, ei_CallbackStatus := eir_CallbackStatus e\<rparr>])"

definition buildInformationRequestEvents :: "presenter \<Rightarrow> InformationRequest \<Rightarrow> (world, EventInfo list) io" where
  "buildInformationRequestEvents p req =
     bindE (IgnoreErrNotFound (SentInformationRequests_GetByMessageID (pr_repo p) (ir_BridgeID req) (ir_MessageID req))) (\<lambda>sentRow.
     bindE (SignedInformationRequests_FindByMessageID (pr_repo p) (ir_BridgeID req) (ir_MessageID req)) (\<lambda>signedRows.
     bindE (IgnoreErrNotFound (ExecutedInformationRequests_GetByMessageID (pr_repo p) (ir_BridgeID req) (ir_MessageID req))) (\<lambda>executedRow.
     enrichEvents p (requestEvents sentRow signedRows executedRow))))"

text \<open>\<open>if errors.Is(err, db.ErrNotFound)\<close>, try another call.\<close>

definition orElse :: "(world, 'a) io \<Rightarrow> (world, 'a) io \<Rightarrow> (world, 'a) io" where
  "orElse m m' = bindE (IgnoreErrNotFound m) (\<lambda>r. case r of Some a \<Rightarrow> returnE a | None \<Rightarrow> m')"

definition buildSearchResultForMessage :: "presenter \<Rightarrow> string \<Rightarrow> hash option \<Rightarrow> hash option \<Rightarrow>
    (world, SearchResult) io" where
  "buildSearchResultForMessage p bridgeID msgHash messageID =
     (if msgHash = None \<and> messageID = None then failE (Err ErrMissingMsgHashAndMessageID) else
      let searchID = (case msgHash of Some h \<Rightarrow> h | None \<Rightarrow> the messageID) in
      bindE (orElse
          (fmapE AMBMessage (if msgHash \<noteq> None then Messages_GetByMsgHash (pr_repo p) bridgeID searchID
             else Messages_GetByMessageID (pr_repo p) bridgeID searchID))
          (fmapE ErcMessage (ErcToNativeMessages_GetByMsgHash (pr_repo p) bridgeID searchID))) (\<lambda>msg.
      bindE (buildMessageEvents p bridgeID (GetMsgHash msg) (GetMessageID msg)) (\<lambda>events.
      returnE \<lparr>sr_Event = None, sr_Message = NewBridgeMessageInfo msg, sr_RelatedEvents = events\<rparr>)))"

definition buildSearchResultForInformationRequest :: "presenter \<Rightarrow> geth \<Rightarrow> string \<Rightarrow> hash \<Rightarrow> (world, SearchResult) io" where
  "buildSearchResultForInformationRequest p G bridgeID messageID =
     bindE (InformationRequests_GetByMessageID (pr_repo p) bridgeID messageID) (\<lambda>req.
     bindE (buildInformationRequestEvents p req) (\<lambda>events.
     returnE \<lparr>sr_Event = None, sr_Message = InformationRequestInfoV (NewInformationRequestInfo G req),
       sr_RelatedEvents = events\<rparr>))"

definition searchSentMessage :: "presenter \<Rightarrow> Log \<Rightarrow> (world, SearchResult) io" where
  "searchSentMessage p log =
     bindE (SentMessages_GetByLogID (pr_repo p) (log_ID log)) (\<lambda>row.
     buildSearchResultForMessage p (sm_BridgeID row) (Some (sm_MsgHash row)) None)"

definition searchSignedMessage :: "presenter \<Rightarrow> Log \<Rightarrow> (world, SearchResult) io" where
  "searchSignedMessage p log =
     bindE (SignedMessages_GetByLogID (pr_repo p) (log_ID log)) (\<lambda>row.
     buildSearchResultForMessage p (sgm_BridgeID row) (Some (sgm_MsgHash row)) None)"

definition searchExecutedMessage :: "presenter \<Rightarrow> Log \<Rightarrow> (world, SearchResult) io" where
  "searchExecutedMessage p log =
     bindE (ExecutedMessages_GetByLogID (pr_repo p) (log_ID log)) (\<lambda>row.
     buildSearchResultForMessage p (em_BridgeID row) None (Some (em_MessageID row)))"

definition searchSentInformationRequest :: "presenter \<Rightarrow> geth \<Rightarrow> Log \<Rightarrow> (world, SearchResult) io" where
  "searchSentInformationRequest p G log =
     bindE (SentInformationRequests_GetByLogID (pr_repo p) (log_ID log)) (\<lambda>row.
     buildSearchResultForInformationRequest p G (sir_BridgeID row) (sir_MessageID row))"

definition searchSignedInformationRequest :: "presenter \<Rightarrow> geth \<Rightarrow> Log \<Rightarrow> (world, SearchResult) io" where
  "searchSignedInformationRequest p G log =
     bindE (SignedInformationRequests_GetByLogID (pr_repo p) (log_ID log)) (\<lambda>row.
     buildSearchResultForInformationRequest p G (sgir_BridgeID row) (sgir_MessageID row))"

definition searchExecutedInformationRequest :: "presenter \<Rightarrow> geth \<Rightarrow> Log \<Rightarrow> (world, SearchResult) io" where
  "searchExecutedInformationRequest p G log =
     bindE (ExecutedInformationRequests_GetByLogID (pr_repo p) (log_ID log)) (\<lambda>row.
     buildSearchResultForInformationRequest p G (eir_BridgeID row) (eir_MessageID row))"

definition searchTasks :: "presenter \<Rightarrow> geth \<Rightarrow> (Log \<Rightarrow> (world, SearchResult) io) list" where
  "searchTasks p G = [searchSentMessage p, searchSignedMessage p, searchExecutedMessage p,
     searchSentInformationRequest p G, searchSignedInformationRequest p G, searchExecutedInformationRequest p G]"

definition selectEvent :: "Log \<Rightarrow> SearchResult \<Rightarrow> SearchResult" where
  "selectEvent log res = res\<lparr>sr_Event := find (\<lambda>e. ei_LogID e = log_ID log) (sr_RelatedEvents res)\<rparr>"

text \<open>The first task that gives a result; a task that fails is skipped, whatever its error.\<close>

fun runTasks :: "(Log \<Rightarrow> (world, SearchResult) io) list \<Rightarrow> Log \<Rightarrow> (world, SearchResult option) io" where
  "runTasks [] log w = (Inr None, w)"
| "runTasks (task # tasks) log w = (case task log w of
     (Inr res, w') \<Rightarrow> (Inr (Some (selectEvent log res)), w')
   | (Inl (Err _), w') \<Rightarrow> runTasks tasks log w'
   | (Inl Panic, w') \<Rightarrow> (Inl Panic, w'))"

fun searchForMessagesInLogs :: "presenter \<Rightarrow> geth \<Rightarrow> Log list \<Rightarrow> (world, SearchResult list) io" where
  "searchForMessagesInLogs p G [] = returnE []"
| "searchForMessagesInLogs p G (log # logs) =
     bindE (runTasks (searchTasks p G) log) (\<lambda>r.
     bindE (searchForMessagesInLogs p G logs) (\<lambda>rest.
     returnE (case r of None \<Rightarrow> rest | Some res \<Rightarrow> res # rest)))"

definition GetMessages :: "presenter \<Rightarrow> geth \<Rightarrow> request_ctx \<Rightarrow> (world, SearchResult list) io" where
  "GetMessages p G ctx = bindE (getFilteredLogs p ctx) (searchForMessagesInLogs p G)"

section \<open>Routes\<close>

datatype bridge_view = InfoView | ConfigView | ValidatorsView | PendingView | UnsignedView
datatype search_view = LogsView | MessagesView

datatype route =
    BridgeRoute bridge_view
  | ChainBlockRoute search_view
  | ChainTxRoute search_view
  | TxRoute search_view
  | RootRoute search_view

datatype payload =
    BridgeInfoP BridgeInfo
  | BridgeConfigP BridgeConfig
  | ValidatorsP ValidatorsInfo
  | PendingP "MessageValue list"
  | UnsignedP UnsignedMessagesInfo
  | LogsP "LogInfo list"
  | MessagesP "SearchResult list"

fun bridgeView :: "presenter \<Rightarrow> sigcrypto \<Rightarrow> node \<Rightarrow> byte list res \<Rightarrow> request \<Rightarrow> bridge_view \<Rightarrow> payload http_handler" where
  "bridgeView p K N calldata r InfoView ctx = render (fmapE BridgeInfoP (GetBridgeInfo p ctx))"
| "bridgeView p K N calldata r ConfigView ctx = render (fmapE BridgeConfigP (GetBridgeConfig p ctx))"
| "bridgeView p K N calldata r ValidatorsView ctx = render (fmapE ValidatorsP (GetBridgeValidators p ctx))"
| "bridgeView p K N calldata r PendingView ctx = render (fmapE PendingP (GetPendingMessages p ctx))"
| "bridgeView p K N calldata r UnsignedView ctx =
     render (fmapE UnsignedP (GetMessagesWithMissingSignatures p K N calldata r ctx))"

fun searchView :: "presenter \<Rightarrow> geth \<Rightarrow> search_view \<Rightarrow> payload http_handler" where
  "searchView p G LogsView ctx = render (fmapE LogsP (GetLogs p ctx))"
| "searchView p G MessagesView ctx = render (fmapE MessagesP (GetMessages p G ctx))"

fun routed :: "presenter \<Rightarrow> geth \<Rightarrow> (string \<Rightarrow> hash) \<Rightarrow> sigcrypto \<Rightarrow> node \<Rightarrow> byte list res \<Rightarrow> request \<Rightarrow> route \<Rightarrow>
    payload http_handler" where
  "routed p G HexToHash K N calldata r (BridgeRoute v) =
     GetBridgeConfigMiddleware (pr_cfg p) r (bridgeView p K N calldata r v)"
| "routed p G HexToHash K N calldata r (ChainBlockRoute v) =
     GetChainConfigMiddleware (pr_cfg p) r (GetBlockNumberMiddleware r (GetFilterMiddleware (searchView p G v)))"
| "routed p G HexToHash K N calldata r (ChainTxRoute v) =
     GetChainConfigMiddleware (pr_cfg p) r (GetTxHashMiddleware HexToHash r (GetFilterMiddleware (searchView p G v)))"
| "routed p G HexToHash K N calldata r (TxRoute v) =
     GetTxHashMiddleware HexToHash r (GetFilterMiddleware (searchView p G v))"
| "routed p G HexToHash K N calldata r (RootRoute v) =
     GetChainConfigMiddleware (pr_cfg p) r (GetBlockNumberMiddleware r
       (GetTxHashMiddleware HexToHash r (GetFilterMiddleware (searchView p G v))))"

definition Serve :: "presenter \<Rightarrow> geth \<Rightarrow> (string \<Rightarrow> hash) \<Rightarrow> sigcrypto \<Rightarrow> node \<Rightarrow> byte list res \<Rightarrow> request \<Rightarrow> route \<Rightarrow>
    (world, payload response) io" where
  "Serve p G HexToHash K N calldata r route = Recoverer (routed p G HexToHash K N calldata r route) emptyContext"

end
