(* ===== verification/PresenterFacts.thy ===== *)
theory PresenterFacts
  imports Presenter Bookkeeping
begin

text \<open>
  What the presenter shows. Its calls read and never write; a search asks the database only for the logs of
  a transaction or of a bounded range of blocks of a configured chain; the listings of validators, of
  messages that lack signatures and of the messages behind a log are what the tables hold.
\<close>

section \<open>The presenter only reads\<close>

named_theorems reads_intro \<open>calls that leave the database as it is\<close>

lemma reads_bindE [reads_intro]:
  "keepsE quiet m \<Longrightarrow> (\<And>a. keepsE quiet (f a)) \<Longrightarrow> keepsE quiet (bindE m f)"
  by (rule keepsE_quiet_bindE)

lemma reads_pure [reads_intro]:
  "keepsE quiet (returnE a)" "keepsE quiet (failE e)" "keepsE quiet (liftE r)"
  "keepsE quiet (Pair (Inr a))"
  by simp_all

lemma reads_query [reads_intro]: "keepsE quiet (db_query E q)"
  by simp

lemma reads_rpc [reads_intro]: "keepsE quiet (rpc f)"
  by simp

lemma reads_ignore [reads_intro]: "keepsE quiet m \<Longrightarrow> keepsE quiet (IgnoreErrNotFound m)"
  by (auto simp: keepsE_def IgnoreErrNotFound_def split: prod.split sum.split) (metis snd_conv)+

lemma reads_render [reads_intro]: "keepsE quiet m \<Longrightarrow> keepsE quiet (render m)"
  by (auto simp: keepsE_def render_def split: prod.split sum.split failure.split) (metis snd_conv)+

lemma reads_queries [reads_intro]:
  "keepsE quiet (Logs_GetByID E i)" "keepsE quiet (Logs_Find E fl)" "keepsE quiet (Logs_FindByIDs E ids)"
  "keepsE quiet (LogsCursors_GetByChainIDAndAddress E c a)" "keepsE quiet (BlockTimestamps_GetByBlockNumber E c n)"
  "keepsE quiet (Messages_GetByMsgHash E b h)" "keepsE quiet (Messages_GetByMessageID E b h)"
  "keepsE quiet (Messages_FindPendingMessages E b)" "keepsE quiet (ErcToNativeMessages_GetByMsgHash E b h)"
  "keepsE quiet (ErcToNativeMessages_FindPendingMessages E b)" "keepsE quiet (SentMessages_GetByLogID E i)"
  "keepsE quiet (SentMessages_GetByMsgHash E b h)" "keepsE quiet (SentMessages_FindByMsgHashes E b hs)"
  "keepsE quiet (SignedMessages_GetByLogID E i)" "keepsE quiet (SignedMessages_FindByMsgHashes E b hs)"
  "keepsE quiet (SignedMessages_GetLatest E b c a)" "keepsE quiet (CollectedMessages_GetByMsgHash E b h)"
  "keepsE quiet (ExecutedMessages_GetByLogID E i)" "keepsE quiet (ExecutedMessages_GetByMessageID E b h)"
  "keepsE quiet (InformationRequests_GetByMessageID E b h)" "keepsE quiet (SentInformationRequests_GetByLogID E i)"
  "keepsE quiet (SentInformationRequests_GetByMessageID E b h)"
  "keepsE quiet (SignedInformationRequests_GetByLogID E i)"
  "keepsE quiet (SignedInformationRequests_FindByMessageID E b h)"
  "keepsE quiet (ExecutedInformationRequests_GetByLogID E i)"
  "keepsE quiet (ExecutedInformationRequests_GetByMessageID E b h)"
  "keepsE quiet (BridgeValidators_FindActiveValidators E b c)"
  unfolding query_defs by (rule reads_query)+

lemma reads_pending [reads_intro]: "keepsE quiet (Repo_FindPendingMessages E b mode)"
  by (auto simp: Repo_FindPendingMessages_def intro!: reads_intro)

lemma reads_client [reads_intro]: "keepsE quiet (sideClient dial cfg)" "keepsE quiet (CallContract N a d)"
  by (auto simp: sideClient_def chainNode_def NewClient_def CallContract_def intro!: reads_intro split: option.split)

lemma reads_parts [reads_intro]:
  "keepsE quiet (findActiveValidatorAddresses p b c)" "keepsE quiet (getBlockTimeOrDefault p c n)"
  "keepsE quiet (getTxInfo p i)" "keepsE quiet (RequiredSignatures N cd a)" "keepsE quiet (getFilteredLogs p ctx)"
  by (auto simp: findActiveValidatorAddresses_def getBlockTimeOrDefault_def getTxInfo_def
      RequiredSignatures_def Contract_Call_def getFilteredLogs_def Let_def intro!: reads_intro)

lemma reads_combinators [reads_intro]:
  "keepsE quiet m \<Longrightarrow> keepsE quiet (fmapE g m)"
  "keepsE quiet m \<Longrightarrow> keepsE quiet m' \<Longrightarrow> keepsE quiet (orElse m m')"
  by (auto simp: fmapE_def orElse_def intro!: reads_intro split: option.split)

lemma reads_enrich [reads_intro]: "keepsE quiet (enrichEvents p es)"
  by (induction es) (auto intro!: reads_intro)

lemma reads_validators [reads_intro]: "keepsE quiet (validatorInfos p cfg seen vs)"
  by (induction vs arbitrary: seen)
    (auto simp: validatorInfo_def intro!: reads_intro split: option.split)

lemma reads_events [reads_intro]:
  "keepsE quiet (buildMessageEvents p b h i)" "keepsE quiet (buildInformationRequestEvents p req)"
  by (auto simp: buildMessageEvents_def buildInformationRequestEvents_def intro!: reads_intro)

lemma reads_build [reads_intro]:
  "keepsE quiet (buildSearchResultForMessage p b h i)"
  "keepsE quiet (buildSearchResultForInformationRequest p G b j)"
  by (auto simp: buildSearchResultForMessage_def buildSearchResultForInformationRequest_def Let_def
      intro!: reads_intro)

lemma reads_tasks: "task \<in> set (searchTasks p G) \<Longrightarrow> keepsE quiet (task log)"
  by (auto simp: searchTasks_def searchSentMessage_def searchSignedMessage_def searchExecutedMessage_def
      searchSentInformationRequest_def searchSignedInformationRequest_def searchExecutedInformationRequest_def
      intro!: reads_intro)

lemma reads_run: "(\<And>task. task \<in> set tasks \<Longrightarrow> keepsE quiet (task log)) \<Longrightarrow> keepsE quiet (runTasks tasks log)"
proof (induction tasks)
  case Nil
  then show ?case by (simp add: keepsE_def)
next
  case (Cons task tasks)
  have first: "quiet w (snd (task log w))" for w using Cons.prems [of task] by (simp add: keepsE_def)
  have rest: "quiet w (snd (runTasks tasks log w))" for w using Cons by (simp add: keepsE_def)
  show ?case
    unfolding keepsE_def
  proof
    fix w
    obtain r w' where run: "task log w = (r, w')" by (cases "task log w")
    with first [of w] rest [of w'] show "quiet w (snd (runTasks (task # tasks) log w))"
      by (auto split: sum.split failure.split intro: quiet_trans)
  qed
qed

lemma reads_search [reads_intro]: "keepsE quiet (searchForMessagesInLogs p G logs)"
  by (induction logs) (auto intro!: reads_intro reads_run reads_tasks)

lemma reads_views [reads_intro]:
  "keepsE quiet (bridgeView p K N cd r v ctx)" "keepsE quiet (searchView p G sv ctx)"
   apply (cases v; auto simp: GetBridgeInfo_def GetBridgeConfig_def GetBridgeValidators_def GetPendingMessages_def
      getBridgeSideInfo_def GetMessagesWithMissingSignatures_def Let_def intro!: reads_intro)
  apply (cases sv; auto simp: GetLogs_def GetMessages_def intro!: reads_intro)
  done

lemma reads_middlewares:
  assumes "\<And>c. keepsE quiet (h c)"
  shows "keepsE quiet (GetBridgeConfigMiddleware cfg r h ctx)" "keepsE quiet (GetChainConfigMiddleware cfg r h ctx)"
    "keepsE quiet (GetBlockNumberMiddleware r h ctx)" "keepsE quiet (GetTxHashMiddleware H r h ctx)"
    "keepsE quiet (GetFilterMiddleware h ctx)"
  using assms by (auto simp: GetBridgeConfigMiddleware_def GetChainConfigMiddleware_def GetBlockNumberMiddleware_def
      GetTxHashMiddleware_def GetFilterMiddleware_def Let_def intro!: reads_intro split: option.split sum.split)

lemma reads_routed: "keepsE quiet (routed p G H K N cd r route ctx)"
  by (cases route) (auto intro!: reads_middlewares reads_intro)

lemma reads_Serve: "keepsE quiet (Serve p G H K N cd r route)"
proof -
  have "quiet w (snd (routed p G H K N cd r route emptyContext w))" for w
    using reads_routed unfolding keepsE_def by blast
  then show ?thesis by (auto simp: keepsE_def Serve_def Recoverer_def split: prod.split sum.split) (metis snd_conv)+
qed

text \<open>Property C15. The presenter never changes the database, whatever the request and wherever it fails.\<close>

theorem presenter_reads_only:
  "w_db (snd (Serve p G HexToHash K N calldata r route w)) = w_db w"
  using reads_Serve unfolding keepsE_def quiet_def by blast

section \<open>Searches are bounded\<close>

lemma render_OK: "render m w = (Inr (OK a), w') \<longleftrightarrow> m w = (Inr a, w')"
  by (auto simp: render_def split: prod.splits sum.splits failure.splits)

lemma Recoverer_OK: "Recoverer h ctx w = (Inr (OK a), w') \<longleftrightarrow> h ctx w = (Inr (OK a), w')"
  by (auto simp: Recoverer_def split: prod.splits sum.splits)

lemma fmapE_Inr: "fmapE f m w = (Inr b, w') \<longleftrightarrow> (\<exists>a. m w = (Inr a, w') \<and> b = f a)"
  by (auto simp: fmapE_def bindE_Inr_iff)

definition search_route :: "search_view \<Rightarrow> route \<Rightarrow> bool" where
  "search_route v route \<longleftrightarrow> route \<in> {ChainBlockRoute v, ChainTxRoute v, TxRoute v, RootRoute v}"

lemma search_passes:
  assumes "Serve p G H K N cd r route w = (Inr (OK x), w')" and "search_route v route"
  shows "\<exists>ctx. filter_ok (pr_cfg p) (GetFilterContext ctx) \<and> searchView p G v ctx w = (Inr (OK x), w')"
proof -
  have run: "routed p G H K N cd r route emptyContext w = (Inr (OK x), w')"
    using assms(1) by (simp add: Serve_def Recoverer_OK)
  have ok: "ctx_ok (pr_cfg p) emptyContext" by simp
  from assms(2) have "route = ChainBlockRoute v \<or> route = ChainTxRoute v \<or> route = TxRoute v \<or> route = RootRoute v"
    by (simp add: search_route_def)
  then show ?thesis
  proof (elim disjE)
    assume "route = ChainBlockRoute v"
    with run show ?thesis
      by (auto dest!: chain_passes [OF _ ok] dest!: block_passes dest: filter_passes)
  next
    assume "route = ChainTxRoute v"
    with run show ?thesis
      by (auto dest!: chain_passes [OF _ ok] dest!: tx_passes dest: filter_passes)
  next
    assume "route = TxRoute v"
    with run show ?thesis by (auto dest!: tx_passes [OF _ ok] dest: filter_passes)
  next
    assume "route = RootRoute v"
    with run show ?thesis
      by (auto dest!: chain_passes [OF _ ok] dest!: block_passes dest!: tx_passes dest: filter_passes)
  qed
qed

definition bounded_filter :: "Config \<Rightarrow> LogsFilter \<Rightarrow> bool" where
  "bounded_filter cfg f \<longleftrightarrow> lf_TxHash f \<noteq> None \<or>
     (\<exists>c b e. lf_ChainID f = Some c \<and> c \<in> ch_ChainID ` set (known_chains cfg)
       \<and> lf_FromBlock f = Some b \<and> lf_ToBlock f = Some e \<and> b \<le> e \<and> unat e - unat b \<le> 10000)"

lemma getFilteredLogs_bounded:
  assumes "getFilteredLogs p ctx w = (Inr logs, w')" and "filter_ok (pr_cfg p) (GetFilterContext ctx)"
  shows "\<exists>f. bounded_filter (pr_cfg p) f \<and> logs = order_logs (filter (matches f) (vals (db_logs (w_db w))))"
proof -
  let ?c = "GetFilterContext ctx"
  let ?f = "emptyLogsFilter\<lparr>lf_ChainID := fc_ChainID ?c, lf_FromBlock := fc_FromBlock ?c,
    lf_ToBlock := fc_ToBlock ?c, lf_TxHash := fc_TxHash ?c\<rparr>"
  from assms(1) have find: "Logs_Find (pr_repo p) ?f w = (Inr logs, w')"
    and given: "fc_TxHash ?c \<noteq> None \<or> fc_ChainID ?c \<noteq> None \<and> fc_FromBlock ?c \<noteq> None \<and> fc_ToBlock ?c \<noteq> None"
    by (auto simp: getFilteredLogs_def Let_def split: if_splits)
  from find have "logs = order_logs (filter (matches ?f) (vals (db_logs (w_db w))))"
    by (auto simp: Logs_Find_def db_query_Inr split: if_splits)
  moreover have "bounded_filter (pr_cfg p) ?f"
    using given assms(2) by (auto simp: bounded_filter_def filter_ok_def blocks_ok_def split: option.splits)
  ultimately show ?thesis by blast
qed

text \<open>Property C16. A listing of logs that is answered shows the logs of one transaction, or of at most
  10001 blocks of one configured chain: all the saved ones that match, in the order of the database.\<close>

theorem logs_listing_bounded:
  assumes "Serve p G HexToHash K N calldata r route w = (Inr (OK (LogsP infos)), w')" and "search_route LogsView route"
  shows "\<exists>f. bounded_filter (pr_cfg p) f
    \<and> infos = map NewLogInfo (order_logs (filter (matches f) (vals (db_logs (w_db w)))))"
proof -
  from search_passes [OF assms] obtain ctx logs where "filter_ok (pr_cfg p) (GetFilterContext ctx)"
    and "getFilteredLogs p ctx w = (Inr logs, w')" and "infos = map NewLogInfo logs"
    by (auto simp: render_OK fmapE_Inr GetLogs_def bindE_Inr_iff)
  then show ?thesis using getFilteredLogs_bounded by blast
qed

section \<open>Validators\<close>

text \<open>The logs of the home chain in which an address signed messages of a bridge.\<close>

definition signing_logs :: "database \<Rightarrow> string \<Rightarrow> string \<Rightarrow> address \<Rightarrow> Log set" where
  "signing_logs d bridgeID chainID signer = {l \<in> set (vals (db_logs d)). log_ChainID l = chainID \<and>
     (\<exists>m \<in> set (vals (db_signed_messages d)). sgm_BridgeID m = bridgeID \<and> sgm_Signer m = signer \<and> sgm_LogID m = log_ID l)}"

lemma last_sort_key_max:
  fixes f :: "'a \<Rightarrow> 'b :: linorder"
  assumes "xs \<noteq> []"
  shows "last (sort_key f xs) \<in> set xs \<and> (\<forall>x \<in> set xs. f x \<le> f (last (sort_key f xs)))"
proof -
  let ?s = "sort_key f xs"
  have ne: "?s \<noteq> []" using assms by (metis length_0_conv length_sort)
  then have "last ?s \<in> set ?s" by (rule last_in_set)
  then have "last ?s \<in> set xs" by (simp only: set_sort)
  moreover have "f x \<le> f (last ?s)" if "x \<in> set xs" for x
  proof -
    from that obtain i where i: "i < length ?s" "?s ! i = x" by (metis in_set_conv_nth set_sort)
    have "map f ?s ! i \<le> map f ?s ! (length ?s - 1)"
      using i(1) by (intro sorted_nth_mono) auto
    with i ne show ?thesis by (simp add: last_conv_nth)
  qed
  ultimately show ?thesis by simp
qed

definition signing_pairs :: "database \<Rightarrow> string \<Rightarrow> string \<Rightarrow> address \<Rightarrow> (SignedMessage \<times> Log) list" where
  "signing_pairs d b c v = filter (\<lambda>(m, l). sgm_BridgeID m = b \<and> sgm_Signer m = v \<and> log_ChainID l = c)
    (concat (map (\<lambda>m. map (Pair m) (filter (\<lambda>l. log_ID l = sgm_LogID m) (vals (db_logs d))))
      (vals (db_signed_messages d))))"

lemma signing_pairs_logs:
  "snd ` set (signing_pairs d b c v) = signing_logs d b c v"
  "x \<in> set (signing_pairs d b c v) \<Longrightarrow> sgm_LogID (fst x) = log_ID (snd x)"
  by (force simp: signing_pairs_def signing_logs_def)+

lemma GetLatest_pairs: "SignedMessages_GetLatest E b c v = db_query E (\<lambda>d.
    first_row (map fst (rev (sort_key (\<lambda>x. log_BlockNumber (snd x)) (signing_pairs d b c v)))))"
  by (simp add: SignedMessages_GetLatest_def signing_pairs_def)

lemma GetLatest_log:
  assumes "SignedMessages_GetLatest E b c v w = (Inr m, w')"
  shows "w_db w' = w_db w \<and> (\<exists>l \<in> signing_logs (w_db w) b c v. sgm_LogID m = log_ID l
    \<and> (\<forall>l' \<in> signing_logs (w_db w) b c v. log_BlockNumber l' \<le> log_BlockNumber l))"
proof -
  let ?ps = "signing_pairs (w_db w) b c v"
  let ?s = "sort_key (\<lambda>x. log_BlockNumber (snd x)) ?ps"
  from assms have same: "w_db w' = w_db w" and m: "rev ?s \<noteq> []" "m = fst (hd (rev ?s))"
    by (auto simp: GetLatest_pairs db_query_Inr first_row_Inr hd_map)
  then have "?ps \<noteq> []" by (metis length_0_conv length_rev length_sort)
  from last_sort_key_max [OF this, of "\<lambda>x. log_BlockNumber (snd x)"]
  have last: "last ?s \<in> set ?ps" "\<forall>x \<in> set ?ps. log_BlockNumber (snd x) \<le> log_BlockNumber (snd (last ?s))" by simp_all
  have "m = fst (last ?s)" using m by (simp only: hd_rev)
  with signing_pairs_logs(2) [OF last(1)] have "sgm_LogID m = log_ID (snd (last ?s))" by simp
  moreover from last(1) have "snd (last ?s) \<in> signing_logs (w_db w) b c v"
    unfolding signing_pairs_logs(1) [symmetric] by (rule imageI)
  moreover have "\<forall>l' \<in> signing_logs (w_db w) b c v. log_BlockNumber l' \<le> log_BlockNumber (snd (last ?s))"
    using last(2) unfolding signing_pairs_logs(1) [symmetric] by simp
  ultimately show ?thesis using same by blast
qed

lemma query_none:
  assumes "IgnoreErrNotFound (db_query E (\<lambda>d. first_row (rows d))) w = (Inr None, w')"
  shows "w_db w' = w_db w \<and> rows (w_db w) = []"
  using assms
  by (cases "rows (w_db w)") (auto simp: IgnoreErrNotFound_def db_query_def db_exec_def Let_def first_row_def
      split: db_fault.splits if_splits)

lemma GetLatest_none:
  assumes "IgnoreErrNotFound (SignedMessages_GetLatest E b c v) w = (Inr None, w')"
  shows "w_db w' = w_db w \<and> signing_logs (w_db w) b c v = {}"
proof -
  from query_none [OF assms [unfolded GetLatest_pairs]]
  have "w_db w' = w_db w" "sort_key (\<lambda>x. log_BlockNumber (snd x)) (signing_pairs (w_db w) b c v) = []" by simp_all
  then have "w_db w' = w_db w" "signing_pairs (w_db w) b c v = []" by (metis length_0_conv length_sort)+
  then show ?thesis unfolding signing_pairs_logs(1) [symmetric] by simp
qed

text \<open>What the presenter says of one validator.\<close>

definition latest_ok :: "database \<Rightarrow> BridgeConfig \<Rightarrow> ValidatorInfo \<Rightarrow> bool" where
  "latest_ok d cfg vi \<longleftrightarrow>
     (let ls = signing_logs d (bc_ID cfg) (bs_ChainID (bc_Home cfg)) (vi_Address vi) in
      case vi_LastConfirmation vi of None \<Rightarrow> ls = {}
      | Some ti \<Rightarrow> ls \<noteq> {} \<and> ti_BlockNumber ti = Max (log_BlockNumber ` ls))"

lemma getTxInfo_Inr:
  assumes "getTxInfo p i w = (Inr ti, w')" and "distinct (log_ids (w_db w))"
    and "l \<in> set (vals (db_logs (w_db w)))" "log_ID l = i"
  shows "ti_BlockNumber ti = log_BlockNumber l
    \<and> (\<exists>chain. GetChainConfig (pr_cfg p) (log_ChainID l) = Inr chain
        \<and> ti_Link ti = FormatTxLink chain (log_TransactionHash l)) \<and> w_db w' = w_db w"
proof -
  have unique: "l' = l" if "l' \<in> set (vals (db_logs (w_db w)))" "log_ID l' = i" for l'
    using that assms(2-4) by (auto simp: log_ids_def distinct_map inj_on_def)
  from assms(1) show ?thesis
    by (auto simp: getTxInfo_def bindE_Inr_iff bindE_liftE_Inr Logs_GetByID_def BlockTimestamps_GetByBlockNumber_def db_query_Inr
        split: if_splits dest!: first_row_in dest!: unique)
qed

lemma validatorInfo_Inr:
  assumes "validatorInfo p cfg v w = (Inr vi, w')" and "distinct (log_ids (w_db w))"
  shows "vi_Address vi = v \<and> latest_ok (w_db w) cfg vi \<and> w_db w' = w_db w"
proof -
  let ?q = "SignedMessages_GetLatest (pr_repo p) (bc_ID cfg) (bs_ChainID (bc_Home cfg)) v"
  let ?ls = "signing_logs (w_db w) (bc_ID cfg) (bs_ChainID (bc_Home cfg)) v"
  have fin: "finite ?ls" by (simp add: signing_logs_def)
  from assms(1) obtain r w1 where r: "IgnoreErrNotFound ?q w = (Inr r, w1)"
    and rest: "(case r of None \<Rightarrow> returnE \<lparr>vi_Address = v, vi_LastConfirmation = None\<rparr>
      | Some c \<Rightarrow> bindE (getTxInfo p (sgm_LogID c)) (\<lambda>info.
          returnE \<lparr>vi_Address = v, vi_LastConfirmation = Some info\<rparr>)) w1 = (Inr vi, w')"
    by (auto simp: validatorInfo_def bindE_Inr_iff)
  show ?thesis
  proof (cases r)
    case None
    with r rest show ?thesis by (auto simp: latest_ok_def dest: GetLatest_none)
  next
    case (Some c)
    with r have "?q w = (Inr c, w1)" by (auto simp: IgnoreErrNotFound_def split: prod.splits sum.splits if_splits)
    from GetLatest_log [OF this] obtain l where l: "l \<in> ?ls" "sgm_LogID c = log_ID l" "w_db w1 = w_db w"
      and max: "\<forall>l' \<in> ?ls. log_BlockNumber l' \<le> log_BlockNumber l" by blast
    from rest Some obtain ti where ti: "getTxInfo p (sgm_LogID c) w1 = (Inr ti, w')"
      and vi: "vi = \<lparr>vi_Address = v, vi_LastConfirmation = Some ti\<rparr>" by (auto simp: bindE_Inr_iff)
    have "l \<in> set (vals (db_logs (w_db w1)))" using l by (simp add: signing_logs_def)
    from getTxInfo_Inr [OF ti _ this] l assms(2)
    have "ti_BlockNumber ti = log_BlockNumber l" "w_db w' = w_db w" by simp_all
    moreover have "Max (log_BlockNumber ` ?ls) = log_BlockNumber l"
      using fin l(1) max by (intro Max_eqI) auto
    ultimately show ?thesis using vi l(1) by (auto simp: latest_ok_def Let_def)
  qed
qed

lemma validatorInfos_Inr:
  "validatorInfos p cfg seen vs w = (Inr infos, w') \<Longrightarrow> distinct (log_ids (w_db w)) \<Longrightarrow>
     distinct (map vi_Address infos) \<and> set (map vi_Address infos) = set vs - set seen
     \<and> list_all (latest_ok (w_db w) cfg) infos"
proof (induction vs arbitrary: seen w infos)
  case (Cons v vs)
  show ?case
  proof (cases "v \<in> set seen")
    case True
    with Cons.prems Cons.IH [of seen w infos] show ?thesis by auto
  next
    case False
    with Cons.prems(1) obtain info rest w1 where v: "validatorInfo p cfg v w = (Inr info, w1)"
      and infos: "infos = info # rest" and rest: "validatorInfos p cfg (v # seen) vs w1 = (Inr rest, w')"
      by (auto simp: bindE_Inr_iff)
    from validatorInfo_Inr [OF v Cons.prems(2)] Cons.IH [OF rest] Cons.prems(2) infos False
    show ?thesis by auto
  qed
qed simp

text \<open>Property C14. The listing of validators names every active validator of the home chain exactly once,
  and no one else (also the list that the code means for the foreign chain is read from the home chain); with each
  it shows the greatest block in which the validator signed a message on the home chain, or nothing when there is
  no signature.\<close>

theorem validators_listing:
  assumes "distinct (log_ids (w_db w))" and "GetBridgeValidators p ctx w = (Inr info, w')"
  shows "distinct (map vi_Address (vsi_Validators info))
    \<and> set (map vi_Address (vsi_Validators info)) =
        set_mset (validators_of (bc_ID (ctx_BridgeConfig ctx)) (bs_ChainID (bc_Home (ctx_BridgeConfig ctx))) (w_db w))
    \<and> list_all (latest_ok (w_db w) (ctx_BridgeConfig ctx)) (vsi_Validators info)"
proof -
  let ?cfg = "ctx_BridgeConfig ctx"
  have find: "vs = map bv_Address (filter (active_validator b c) (vals (db_bridge_validators (w_db w1)))) \<and> w_db w2 = w_db w1"
    if "findActiveValidatorAddresses p b c w1 = (Inr vs, w2)" for b c vs w1 w2
    using that by (auto simp: findActiveValidatorAddresses_def bindE_Inr_iff BridgeValidators_FindActiveValidators_def db_query_Inr)
  from assms(2) obtain hs fs w1 w2 where "findActiveValidatorAddresses p (bc_ID ?cfg) (bs_ChainID (bc_Home ?cfg)) w = (Inr hs, w1)"
    "findActiveValidatorAddresses p (bc_ID ?cfg) (bs_ChainID (bc_Home ?cfg)) w1 = (Inr fs, w2)"
    and infos: "validatorInfos p ?cfg [] (hs @ fs) w2 = (Inr (vsi_Validators info), w')"
    by (auto simp: GetBridgeValidators_def Let_def bindE_Inr_iff sideChainID_Inr)
  then have hs: "hs = map bv_Address (filter (active_validator (bc_ID ?cfg) (bs_ChainID (bc_Home ?cfg)))
      (vals (db_bridge_validators (w_db w))))" "fs = hs" "w_db w2 = w_db w" by (auto dest!: find)
  from validatorInfos_Inr [OF infos] hs assms(1) show ?thesis
    by (auto simp: validators_of_def)
qed

section \<open>Messages that lack signatures\<close>

lemma update_fresh: "k \<notin> fst ` set al \<Longrightarrow> AList.update k v al = al @ [(k, v)]"
  by (induction al) auto

lemma fold_update_fresh:
  "distinct (map k xs) \<Longrightarrow> k ` set xs \<inter> fst ` set al = {} \<Longrightarrow>
     fold (\<lambda>x. AList.update (k x) (f x)) xs al = al @ map (\<lambda>x. (k x, f x)) xs"
proof (induction xs arbitrary: al)
  case (Cons x xs)
  then have "AList.update (k x) (f x) al = al @ [(k x, f x)]" by (intro update_fresh) auto
  with Cons show ?case by auto
qed simp

lemma by_hash_distinct:
  assumes "distinct (map GetMsgHash (filter homeToForeign msgs))"
  shows "by_hash f msgs = map (\<lambda>m. (GetMsgHash m, f m)) (filter homeToForeign msgs)"
  unfolding by_hash_def using fold_update_fresh [OF assms, of "[]" f] by simp

lemma hasSigned_update:
  "hasSigned (AList.update h xs m) h' v \<longleftrightarrow> (if h' = h then v \<in> set xs else hasSigned m h' v)"
  by (simp add: hasSigned_def update_conv')

lemma addSignatures_ok:
  "sgm_MsgHash ` set sigs \<subseteq> fst ` set m \<Longrightarrow> \<exists>m'. addSignatures sigs m = Inr m' \<and> fst ` set m' = fst ` set m
    \<and> (\<forall>h v. hasSigned m' h v \<longleftrightarrow> hasSigned m h v
        \<or> list_ex (\<lambda>s. sgm_MsgHash s = h \<and> sgm_Signer s = v) sigs)"
proof (induction sigs arbitrary: m)
  case (Cons s sigs)
  then have "sgm_MsgHash s \<in> fst ` set m" by auto
  then obtain xs where xs: "map_of m (sgm_MsgHash s) = Some xs"
    by (cases "map_of m (sgm_MsgHash s)") (auto simp: map_of_eq_None_iff)
  let ?m = "AList.update (sgm_MsgHash s) (List.insert (sgm_Signer s) xs) m"
  have dom: "fst ` set ?m = fst ` set m" using xs by (force simp: dom_update dest: map_of_SomeD)
  have signed: "hasSigned ?m h v \<longleftrightarrow> hasSigned m h v \<or> sgm_MsgHash s = h \<and> sgm_Signer s = v" for h v
    using xs by (auto simp: hasSigned_update) (auto simp: hasSigned_def)
  have "sgm_MsgHash ` set sigs \<subseteq> fst ` set ?m" using Cons.prems dom by auto
  from Cons.IH [OF this] show ?case
    using xs by (auto simp: addSigner_def dom signed)
qed simp

lemma addManualSigners_ok:
  "fst ` set (addManualSigners manual m) = fst ` set m \<and>
   (\<forall>h v. h \<in> fst ` set m \<longrightarrow> (hasSigned (addManualSigners manual m) h v \<longleftrightarrow>
      hasSigned m h v \<or> list_ex (\<lambda>(h', vs). h' = h \<and> v \<in> set vs) manual))"
proof (induction manual arbitrary: m)
  case (Cons x manual)
  obtain h vs where x: "x = (h, vs)" by (cases x)
  show ?case
  proof (cases "map_of m h")
    case None
    then have "h \<notin> fst ` set m" by (simp add: map_of_eq_None_iff)
    with Cons.IH [of m] None x show ?thesis by auto
  next
    case (Some known)
    let ?m = "AList.update h (fold List.insert vs known) m"
    have fold: "set (fold List.insert vs known) = set vs \<union> set known" by (induction vs arbitrary: known) auto
    have dom: "fst ` set ?m = fst ` set m" using Some by (force simp: dom_update dest: map_of_SomeD)
    have "hasSigned ?m h' v \<longleftrightarrow> hasSigned m h' v \<or> h = h' \<and> v \<in> set vs" for h' v
      using Some by (auto simp: hasSigned_update fold) (auto simp: hasSigned_def)
    with Cons.IH [of ?m] Some x dom show ?thesis by auto
  qed
qed simp

lemma makeSignersMap_ok:
  assumes "sgm_MsgHash ` set sigs \<subseteq> set hs"
  shows "\<exists>m. makeSignersMap hs sigs manual = Inr m \<and> (\<forall>h \<in> set hs. \<forall>v. hasSigned m h v \<longleftrightarrow>
    list_ex (\<lambda>s. sgm_MsgHash s = h \<and> sgm_Signer s = v) sigs \<or> list_ex (\<lambda>(h', vs). h' = h \<and> v \<in> set vs) manual)"
proof -
  let ?init = "\<lambda>m. fold (\<lambda>h. AList.update h ([] :: address list)) hs m"
  have init: "fst ` set (?init m) = set hs \<union> fst ` set m \<and> (\<forall>h v. hasSigned (?init m) h v \<longrightarrow> hasSigned m h v)" for m
  proof (induction hs arbitrary: m)
    case (Cons h hs)
    let ?m = "AList.update h [] m"
    from Cons [of ?m] have dom: "fst ` set (fold (\<lambda>h. AList.update h []) hs ?m) = set hs \<union> fst ` set ?m"
      and signed: "\<And>h' v. hasSigned (fold (\<lambda>h. AList.update h []) hs ?m) h' v \<Longrightarrow> hasSigned ?m h' v" by auto
    have "hasSigned m h' v" if "hasSigned ?m h' v" for h' v
      using that by (simp add: hasSigned_update split: if_splits)
    with dom signed show ?case by (simp add: dom_update)
  qed simp
  have keys: "fst ` set (?init []) = set hs" using init [of "[]"] by auto
  have "sgm_MsgHash ` set sigs \<subseteq> fst ` set (?init [])" using assms by (simp only: keys)
  from addSignatures_ok [OF this] obtain m where m: "addSignatures sigs (?init []) = Inr m"
    "fst ` set m = set hs" "\<forall>h v. hasSigned m h v \<longleftrightarrow> list_ex (\<lambda>s. sgm_MsgHash s = h \<and> sgm_Signer s = v) sigs"
    using init [of "[]"] keys by (auto simp: hasSigned_def)
  with addManualSigners_ok [of manual m] show ?thesis by (simp add: makeSignersMap_def)
qed

text \<open>The pending messages of a bridge, the ones of its mode, in the order of their rows.\<close>

definition pending_messages :: "database \<Rightarrow> string \<Rightarrow> BridgeMode \<Rightarrow> BridgeMessage list" where
  "pending_messages d b mode =
     (if mode = BridgeModeErcToNative then
        map ErcMessage (map r_val (sort_key r_created (filter (\<lambda>r. erc_BridgeID (r_val r) = b
          \<and> \<not> executed d (erc_BridgeID (r_val r)) (erc_MsgHash (r_val r))) (db_erc_to_native_messages d))))
      else
        map AMBMessage (map r_val (sort_key r_created (filter (\<lambda>r. msg_BridgeID (r_val r) = b
          \<and> \<not> executed d (msg_BridgeID (r_val r)) (msg_MessageID (r_val r))) (db_messages d)))))"

lemma Repo_FindPendingMessages_Inr:
  "Repo_FindPendingMessages E b mode w = (Inr msgs, w') \<Longrightarrow> msgs = pending_messages (w_db w) b mode \<and> w_db w' = w_db w"
  by (auto simp: Repo_FindPendingMessages_def pending_messages_def bindE_Inr_iff db_query_Inr
      ErcToNativeMessages_FindPendingMessages_def Messages_FindPendingMessages_def split: if_splits)

lemma distinct_sorted_hashes:
  assumes "distinct (map key (vals rows))" and "\<And>x y. P x \<Longrightarrow> P y \<Longrightarrow> h x = h y \<Longrightarrow> key x = key y"
  shows "distinct (map h (map r_val (sort_key r_created (filter (\<lambda>r. P (r_val r)) rows))))"
proof -
  let ?rs = "filter (\<lambda>r. P (r_val r)) rows"
  have "distinct (map (\<lambda>r. key (r_val r)) rows)" using assms(1) by (simp add: vals_def comp_def)
  then have "distinct (map (\<lambda>r. key (r_val r)) ?rs)" by (rule distinct_map_filter)
  then have "inj_on (\<lambda>r. key (r_val r)) (set ?rs)" and "distinct ?rs"
    by (simp_all add: distinct_map)
  then have "inj_on (\<lambda>r. h (r_val r)) (set ?rs)" using assms(2) by (auto simp: inj_on_def)
  with \<open>distinct ?rs\<close> show ?thesis by (simp add: distinct_map comp_def)
qed

lemma pending_distinct: "db_inv d \<Longrightarrow> distinct (map GetMsgHash (pending_messages d b mode))"
  using distinct_sorted_hashes [of msg_key "db_messages d" "\<lambda>m. msg_BridgeID m = b \<and> \<not> executed d (msg_BridgeID m) (msg_MessageID m)" msg_MsgHash]
    distinct_sorted_hashes [of erc_key "db_erc_to_native_messages d" "\<lambda>m. erc_BridgeID m = b \<and> \<not> executed d (erc_BridgeID m) (erc_MsgHash m)" erc_MsgHash]
  by (simp add: pending_messages_def db_inv_def keys_inv_def comp_def msg_key_def erc_key_def)

text \<open>Who has signed a message: the rows of the table, and the signatures in the request.\<close>

definition signed_by :: "database \<Rightarrow> string \<Rightarrow> (hash \<times> address list) list \<Rightarrow> BridgeMessage \<Rightarrow> address \<Rightarrow> bool" where
  "signed_by d b manual m v \<longleftrightarrow>
     list_ex (\<lambda>s. sgm_BridgeID s = b \<and> sgm_MsgHash s = GetMsgHash m \<and> sgm_Signer s = v) (vals (db_signed_messages d))
     \<or> list_ex (\<lambda>(h, vs). h = GetMsgHash m \<and> v \<in> set vs) manual"

lemma concat_if: "concat (map (\<lambda>x. if P x then [f x] else []) xs) = map f (filter P xs)"
  by (induction xs) auto

lemma reads_apply: "keepsE quiet m \<Longrightarrow> m w = (r, w') \<Longrightarrow> w_db w' = w_db w"
  by (metis keepsE_def quiet_def snd_conv)

lemma unsignedInfo_map:
  assumes "\<And>m v. m \<in> set ms \<Longrightarrow> hasSigned sg (GetMsgHash m) v \<longleftrightarrow> S m v"
  shows "map (\<lambda>u. (ui_Message u, ui_Signers u, ui_MissingSigners u))
      (unsignedInfo links sg vs n (map (\<lambda>m. (GetMsgHash m, m)) ms)) =
    map (\<lambda>m. (NewBridgeMessageInfo m, filter (S m) vs, filter (\<lambda>v. v \<notin> set (filter (S m) vs)) vs))
      (filter (\<lambda>m. of_nat (length (filter (S m) vs)) < n) ms)"
proof -
  have "hasSigned sg (GetMsgHash m) = S m" if "m \<in> set ms" for m using assms [OF that] by blast
  moreover have "filter (\<lambda>v. \<not> S m v) vs = filter (\<lambda>v. v \<notin> set (filter (S m) vs)) vs" for m
    by (rule filter_cong) auto
  ultimately show ?thesis
    by (auto simp: unsignedInfo_def Let_def comp_def concat_if intro!: map_cong filter_cong)
qed

lemma signers_exact:
  assumes "SignedMessages_FindByMsgHashes E b (pendingHashes msgs) w = (Inr sigs, w')"
    and "makeSignersMap (pendingHashes msgs) sigs manual = Inr sg" and "m \<in> set (filter homeToForeign msgs)"
  shows "hasSigned sg (GetMsgHash m) v \<longleftrightarrow> signed_by (w_db w) b manual m v"
proof -
  have sigs: "set sigs = {s \<in> set (vals (db_signed_messages (w_db w))).
      sgm_BridgeID s = b \<and> sgm_MsgHash s \<in> set (pendingHashes msgs)}"
    using assms(1) by (auto simp: SignedMessages_FindByMsgHashes_def db_query_Inr)
  then have "sgm_MsgHash ` set sigs \<subseteq> set (pendingHashes msgs)" by auto
  from makeSignersMap_ok [OF this, of manual] assms(2) have signed: "hasSigned sg h v \<longleftrightarrow>
      list_ex (\<lambda>s. sgm_MsgHash s = h \<and> sgm_Signer s = v) sigs \<or> list_ex (\<lambda>(h', vs). h' = h \<and> v \<in> set vs) manual"
    if "h \<in> set (pendingHashes msgs)" for h v using that by auto
  have "GetMsgHash m \<in> set (pendingHashes msgs)" using assms(3) by (force simp: pendingHashes_def)
  then show ?thesis by (auto simp: signed signed_by_def list_ex_iff sigs)
qed

text \<open>The calls of an answered listing.\<close>

lemma missing_signatures_run:
  assumes "GetMessagesWithMissingSignatures p K N calldata r ctx w = (Inr info, w')"
  obtains msgs sigs manual sg links validators w4 w5 where
    "mset validators = validators_of (bc_ID (ctx_BridgeConfig ctx)) (bs_ChainID (bc_Foreign (ctx_BridgeConfig ctx))) (w_db w)"
    "msgs = pending_messages (w_db w) (bc_ID (ctx_BridgeConfig ctx)) (bc_BridgeMode (ctx_BridgeConfig ctx))" "w_db w4 = w_db w"
    "SignedMessages_FindByMsgHashes (pr_repo p) (bc_ID (ctx_BridgeConfig ctx)) (pendingHashes msgs) w4 = (Inr sigs, w5)"
    "parseManualSignatures K r (by_hash GetRawMessage msgs) = Inr manual"
    "makeSignersMap (pendingHashes msgs) sigs manual = Inr sg"
    "umi_TotalPendingMessages info = of_nat (length (pendingHashes msgs))"
    "umi_UnsignedMessages info = unsignedInfo links sg validators (umi_RequiredSignatures info) (by_hash id msgs)"
proof -
  let ?cfg = "ctx_BridgeConfig ctx"
  let ?b = "bc_ID ?cfg" and ?c = "bs_ChainID (bc_Foreign ?cfg)"
  from assms obtain N' n validators msgs sigs rows logs links manual sg w1 w2 w3 w4 w5 w6 w7 where
    1: "sideClient (\<lambda>cfg. N) (bc_Foreign ?cfg) w = (Inr N', w1)"
    and 2: "RequiredSignatures N' calldata (bs_Address (bc_Foreign ?cfg)) w1 = (Inr n, w2)"
    and 3: "findActiveValidatorAddresses p ?b ?c w2 = (Inr validators, w3)"
    and 4: "Repo_FindPendingMessages (pr_repo p) ?b (bc_BridgeMode ?cfg) w3 = (Inr msgs, w4)"
    and 5: "SignedMessages_FindByMsgHashes (pr_repo p) ?b (pendingHashes msgs) w4 = (Inr sigs, w5)"
    and 6: "SentMessages_FindByMsgHashes (pr_repo p) ?b (pendingHashes msgs) w5 = (Inr rows, w6)"
    and 7: "Logs_FindByIDs (pr_repo p) (map sm_LogID rows) w6 = (Inr logs, w7)"
    and manual: "parseManualSignatures K r (by_hash GetRawMessage msgs) = Inr manual"
    and sg: "makeSignersMap (pendingHashes msgs) sigs manual = Inr sg"
    and info: "info = (let res = unsignedInfo links sg validators n (by_hash id msgs) in
      \<lparr>umi_RequiredSignatures = n, umi_ActiveValidators = validators,
        umi_TotalPendingMessages = of_nat (length (pendingHashes msgs)),
        umi_TotalUnsignedMessages = of_nat (length res), umi_UnsignedMessages = res\<rparr>)"
    by (auto simp: GetMessagesWithMissingSignatures_def Let_def bindE_Inr_iff)
  have "w_db w1 = w_db w" by (rule reads_apply [OF reads_client(1) 1])
  moreover have "w_db w2 = w_db w1" by (rule reads_apply [OF reads_parts(4) 2])
  moreover have "w_db w3 = w_db w2" by (rule reads_apply [OF reads_parts(1) 3])
  moreover have "w_db w4 = w_db w3" by (rule reads_apply [OF reads_pending 4])
  ultimately have db: "w_db w2 = w_db w" "w_db w3 = w_db w" "w_db w4 = w_db w" by simp_all
  have "mset validators = validators_of ?b ?c (w_db w)"
    using 3 db by (auto simp: findActiveValidatorAddresses_def bindE_Inr_iff
        BridgeValidators_FindActiveValidators_def db_query_Inr validators_of_def)
  moreover have "msgs = pending_messages (w_db w) ?b (bc_BridgeMode ?cfg)" using Repo_FindPendingMessages_Inr [OF 4] db by simp
  ultimately show thesis using that [OF _ _ db(3) 5 manual sg] info by (simp add: Let_def)
qed

text \<open>Property C13. The listing of messages that lack signatures: the pending messages to the foreign chain that
  fewer validators have signed than the bridge contract requires, each once (in no order: the code lists the entries
  of a Go map), with the active validators of the foreign chain split into those who signed it (on chain, or in the request) and those
  who did not. The total counts the pending messages of both directions.\<close>

theorem unsigned_listing:
  assumes "db_inv (w_db w)" and "GetMessagesWithMissingSignatures p K N calldata r ctx w = (Inr info, w')"
  shows "\<exists>cfg pending sent validators manual by.
    cfg = ctx_BridgeConfig ctx \<and> pending = pending_messages (w_db w) (bc_ID cfg) (bc_BridgeMode cfg)
    \<and> sent = filter homeToForeign pending
    \<and> mset validators = validators_of (bc_ID cfg) (bs_ChainID (bc_Foreign cfg)) (w_db w)
    \<and> parseManualSignatures K r (map (\<lambda>m. (GetMsgHash m, GetRawMessage m)) sent) = Inr manual
    \<and> by = (\<lambda>m. filter (signed_by (w_db w) (bc_ID cfg) manual m) validators)
    \<and> umi_TotalPendingMessages info = of_nat (length pending)
    \<and> mset (map (\<lambda>u. (ui_Message u, ui_Signers u, ui_MissingSigners u)) (umi_UnsignedMessages info)) =
        mset (map (\<lambda>m. (NewBridgeMessageInfo m, by m, filter (\<lambda>v. v \<notin> set (by m)) validators))
          (filter (\<lambda>m. of_nat (length (by m)) < umi_RequiredSignatures info) sent))"
proof -
  let ?cfg = "ctx_BridgeConfig ctx" and ?d = "w_db w"
  let ?b = "bc_ID ?cfg"
  let ?pending = "pending_messages ?d ?b (bc_BridgeMode ?cfg)"
  let ?sent = "filter homeToForeign ?pending"
  obtain msgs sigs manual sg links validators w4 w5 where
    vs: "mset validators = validators_of ?b (bs_ChainID (bc_Foreign ?cfg)) ?d" and msgs: "msgs = ?pending" and db: "w_db w4 = ?d"
    and find: "SignedMessages_FindByMsgHashes (pr_repo p) ?b (pendingHashes msgs) w4 = (Inr sigs, w5)"
    and manual: "parseManualSignatures K r (by_hash GetRawMessage msgs) = Inr manual"
    and sg: "makeSignersMap (pendingHashes msgs) sigs manual = Inr sg"
    and total: "umi_TotalPendingMessages info = of_nat (length (pendingHashes msgs))"
    and res: "umi_UnsignedMessages info = unsignedInfo links sg validators (umi_RequiredSignatures info) (by_hash id msgs)"
    by (rule missing_signatures_run [OF assms(2)])
  have "distinct (map GetMsgHash ?pending)" by (rule pending_distinct [OF assms(1)])
  then have dist: "distinct (map GetMsgHash (filter homeToForeign msgs))"
    unfolding msgs by (rule distinct_map_filter)
  have S: "hasSigned sg (GetMsgHash m) v \<longleftrightarrow> signed_by ?d ?b manual m v" if "m \<in> set ?sent" for m v
    using signers_exact [OF find sg] that unfolding db msgs .
  from res have listed: "umi_UnsignedMessages info = unsignedInfo links sg validators
      (umi_RequiredSignatures info) (map (\<lambda>m. (GetMsgHash m, m)) ?sent)"
    unfolding by_hash_distinct [OF dist] by (simp add: msgs)
  show ?thesis
  proof (intro exI conjI)
    show "umi_TotalPendingMessages info = of_nat (length ?pending)"
      using total by (simp add: pendingHashes_def msgs)
    show "parseManualSignatures K r (map (\<lambda>m. (GetMsgHash m, GetRawMessage m)) ?sent) = Inr manual"
      using manual [unfolded by_hash_distinct [OF dist]] by (simp only: msgs)
    show "mset (map (\<lambda>u. (ui_Message u, ui_Signers u, ui_MissingSigners u)) (umi_UnsignedMessages info)) =
        mset (map (\<lambda>m. (NewBridgeMessageInfo m, filter (signed_by ?d ?b manual m) validators,
            filter (\<lambda>v. v \<notin> set (filter (signed_by ?d ?b manual m) validators)) validators))
          (filter (\<lambda>m. of_nat (length (filter (signed_by ?d ?b manual m) validators)) < umi_RequiredSignatures info) ?sent))"
      unfolding listed by (rule arg_cong [OF unsignedInfo_map [OF S]])
  qed (use vs in simp_all)
qed

end
