(* ===== verification/PresenterSearch.thy ===== *)
theory PresenterSearch
  imports PresenterFacts
begin

text \<open>
  The search of the presenter, joined with the handlers: what an event handler has recorded is what a search
  for the log of the event shows.
\<close>

section \<open>Calls on a database that answers\<close>

definition db_up :: "env \<Rightarrow> bool" where
  "db_up E \<longleftrightarrow> env_db E = (\<lambda>t. DbOk)"

lemma up_query: "db_up E \<Longrightarrow> db_query E q w = (q (w_db w), w\<lparr>w_tick := Suc (w_tick w)\<rparr>)"
  by (cases w) (simp add: db_up_def db_query_def db_exec_def Let_def)

text \<open>Every saved log has the timestamp of its block.\<close>

definition all_timed :: "database \<Rightarrow> bool" where
  "all_timed d \<longleftrightarrow> list_all (\<lambda>l. int4_ok (log_BlockNumber l)
     \<and> has_key ts_key (log_ChainID l, log_BlockNumber l) (db_block_timestamps d)) (vals (db_logs d))"

definition tx_of :: "presenter \<Rightarrow> Log \<Rightarrow> TxInfo \<Rightarrow> bool" where
  "tx_of p l ti \<longleftrightarrow> ti_BlockNumber ti = log_BlockNumber l
     \<and> (case GetChainConfig (pr_cfg p) (log_ChainID l) of Inl e \<Rightarrow> False
        | Inr chain \<Rightarrow> ti_Link ti = FormatTxLink chain (log_TransactionHash l))"

lemma getTxInfo_ok:
  assumes "db_up (pr_repo p)" "all_timed (w_db w)" "log_exists (w_db w) i" "chains_given (pr_cfg p)"
  shows "\<exists>ti w'. getTxInfo p i w = (Inr ti, w') \<and> w_db w' = w_db w"
proof -
  let ?ls = "filter (\<lambda>l. log_ID l = i) (vals (db_logs (w_db w)))"
  have "?ls \<noteq> []" using assms(3) by (auto simp: log_exists_def log_ids_def filter_empty_conv)
  then obtain l where row: "first_row ?ls = Inr l" by (cases ?ls) (auto simp: first_row_def)
  then have l: "l \<in> set (vals (db_logs (w_db w)))" by (auto dest: first_row_in)
  let ?ts = "filter (\<lambda>t. bt_ChainID t = log_ChainID l \<and> bt_BlockNumber t = log_BlockNumber l)
    (vals (db_block_timestamps (w_db w)))"
  from assms(2) l have "int4_ok (log_BlockNumber l)" and "?ts \<noteq> []"
    by (auto simp: all_timed_def list_all_iff has_key_def list_ex_iff ts_key_def filter_empty_conv)
  moreover then obtain t where "first_row ?ts = Inr t" by (cases ?ts) (auto simp: first_row_def)
  moreover obtain chain where "GetChainConfig (pr_cfg p) (log_ChainID l) = Inr chain"
    using GetChainConfig_given [OF assms(4)] by blast
  ultimately show ?thesis
    using row by (simp add: getTxInfo_def bindE_apply bindE_liftE_apply Logs_GetByID_def BlockTimestamps_GetByBlockNumber_def
        up_query [OF assms(1)])
qed

lemma enrich_ok:
  assumes up: "db_up (pr_repo p)" "chains_given (pr_cfg p)" and "all_timed (w_db w)"
    and "list_all (\<lambda>e. log_exists (w_db w) (ei_LogID e)) es"
  shows "\<exists>es' w'. enrichEvents p es w = (Inr es', w') \<and> w_db w' = w_db w
    \<and> list_all2 (\<lambda>e e'. \<exists>ti wa wb. e' = e\<lparr>ei_TxInfo := Some ti\<rparr> \<and> w_db wa = w_db w
        \<and> getTxInfo p (ei_LogID e) wa = (Inr ti, wb)) es es'"
  using assms(3,4)
proof (induction es arbitrary: w)
  case (Cons e es)
  from Cons.prems(2) have "log_exists (w_db w) (ei_LogID e)" by simp
  from getTxInfo_ok [OF up(1) Cons.prems(1) this up(2)] obtain ti w1
    where ti: "getTxInfo p (ei_LogID e) w = (Inr ti, w1)" "w_db w1 = w_db w" by blast
  from Cons.IH [of w1] Cons.prems ti(2) obtain es' w2 where
    "enrichEvents p es w1 = (Inr es', w2)" "w_db w2 = w_db w"
    "list_all2 (\<lambda>e e'. \<exists>ti wa wb. e' = e\<lparr>ei_TxInfo := Some ti\<rparr> \<and> w_db wa = w_db w
        \<and> getTxInfo p (ei_LogID e) wa = (Inr ti, wb)) es es'" by auto
  with ti show ?case by (auto simp: bindE_apply)
qed simp

text \<open>\<open>IgnoreErrNotFound\<close> of a query for one row, on a database that answers.\<close>

lemma up_ignore:
  assumes "db_up E"
  shows "IgnoreErrNotFound (db_query E (\<lambda>d. first_row (rows d))) w =
    (Inr (case rows (w_db w) of [] \<Rightarrow> None | r # _ \<Rightarrow> Some r), w\<lparr>w_tick := Suc (w_tick w)\<rparr>)"
  by (cases "rows (w_db w)") (simp_all add: IgnoreErrNotFound_def up_query [OF assms] first_row_def)

section \<open>A sent message is found\<close>

lemma filter_hd_in: "filter P xs = y # ys \<Longrightarrow> y \<in> set xs"
  by (auto simp: filter_eq_Cons_iff)

lemma filter_key: "distinct (map key xs) \<Longrightarrow> x \<in> set xs \<Longrightarrow> filter (\<lambda>y. key y = key x) xs = [x]"
proof (induction xs)
  case (Cons y xs)
  then show ?case by (auto simp: filter_empty_conv rev_image_eqI)
qed simp

lemma hd_row_in: "(case rows of [] \<Rightarrow> None | r # _ \<Rightarrow> Some r) = Some y \<Longrightarrow> y \<in> set rows"
  by (cases rows) simp_all

lemma messageEvents_logs:
  assumes "\<And>y. s = Some y \<Longrightarrow> P (sm_LogID y)" "\<And>y. y \<in> set sg \<Longrightarrow> P (sgm_LogID y)"
    and "\<And>y. c = Some y \<Longrightarrow> P (cm_LogID y)" "\<And>y. x = Some y \<Longrightarrow> P (em_LogID y)"
  shows "list_all (\<lambda>e. P (ei_LogID e)) (messageEvents s sg c x)"
  using assms by (cases s; cases c; cases x) (simp_all add: messageEvents_def newEvent_def list_all_iff)

lemma events_found:
  assumes up: "db_up (pr_repo p)" and given: "chains_given (pr_cfg p)" and timed: "all_timed (w_db w)" and inv: "db_inv (w_db w)"
    and sent: "filter (\<lambda>x. sm_BridgeID x = b \<and> sm_MsgHash x = h) (vals (db_sent_messages (w_db w))) = s # ss"
  shows "\<exists>e es ti w' wa wb. buildMessageEvents p b h i w = (Inr (e # es), w') \<and> w_db w' = w_db w
    \<and> e = (newEvent ''SENT_MESSAGE'' (sm_LogID s))\<lparr>ei_TxInfo := Some ti\<rparr> \<and> w_db wa = w_db w
    \<and> getTxInfo p (sm_LogID s) wa = (Inr ti, wb)"
proof -
  let ?d = "w_db w"
  note q = query_defs up_query [OF up] up_ignore [OF up]
  let ?c = "filter (\<lambda>m. cm_BridgeID m = b \<and> cm_MsgHash m = h) (vals (db_collected_messages ?d))"
  let ?x = "filter (\<lambda>m. em_BridgeID m = b \<and> em_MessageID m = i) (vals (db_executed_messages ?d))"
  let ?sg = "sort_key sgm_Signer (filter (\<lambda>m. sgm_BridgeID m = b \<and> sgm_MsgHash m \<in> set [h]) (vals (db_signed_messages ?d)))"
  let ?o = "\<lambda>rows. case rows of [] \<Rightarrow> None | r # _ \<Rightarrow> Some r"
  let ?es = "messageEvents (Some s) ?sg (?o ?c) (?o ?x)"
  let ?w = "w\<lparr>w_tick := Suc (Suc (Suc (Suc (w_tick w))))\<rparr>"
  have build: "buildMessageEvents p b h i w = enrichEvents p ?es ?w"
    unfolding buildMessageEvents_def by (simp add: bindE_apply q sent)
  have s: "s \<in> set (vals (db_sent_messages ?d))" by (rule filter_hd_in [OF sent])
  have "list_all (\<lambda>e. log_exists ?d (ei_LogID e)) ?es"
  proof (rule messageEvents_logs)
    fix y assume "Some s = Some y"
    with s inv show "log_exists ?d (sm_LogID y)" by (simp add: db_inv_def refs_inv_def fk_ok_def)
  next
    fix y assume "y \<in> set ?sg"
    with inv show "log_exists ?d (sgm_LogID y)" by (simp add: db_inv_def refs_inv_def fk_ok_def)
  next
    fix y assume "?o ?c = Some y"
    from hd_row_in [OF this] inv show "log_exists ?d (cm_LogID y)" by (simp add: db_inv_def refs_inv_def fk_ok_def)
  next
    fix y assume "?o ?x = Some y"
    from hd_row_in [OF this] inv show "log_exists ?d (em_LogID y)" by (simp add: db_inv_def refs_inv_def fk_ok_def)
  qed
  with enrich_ok [OF up given, of ?w ?es] timed obtain es' w' where
    run: "enrichEvents p ?es ?w = (Inr es', w')" "w_db w' = ?d"
    and all: "list_all2 (\<lambda>e e'. \<exists>ti wa wb. e' = e\<lparr>ei_TxInfo := Some ti\<rparr> \<and> w_db wa = ?d
        \<and> getTxInfo p (ei_LogID e) wa = (Inr ti, wb)) ?es es'" by auto
  have "?es = newEvent ''SENT_MESSAGE'' (sm_LogID s) # tl ?es" by (simp add: messageEvents_def)
  then obtain T where es: "?es = newEvent ''SENT_MESSAGE'' (sm_LogID s) # T" by blast
  from all obtain e es ti wa wb where "es' = e # es" "e = (newEvent ''SENT_MESSAGE'' (sm_LogID s))\<lparr>ei_TxInfo := Some ti\<rparr>"
    "w_db wa = ?d" "getTxInfo p (ei_LogID (newEvent ''SENT_MESSAGE'' (sm_LogID s))) wa = (Inr ti, wb)"
    unfolding es list_all2_Cons1 by blast
  with build run show ?thesis by (auto simp: newEvent_def)
qed

lemma sent_message_found:
  assumes up: "db_up (pr_repo p)" and given: "chains_given (pr_cfg p)" and timed: "all_timed (w_db w)" and inv: "db_inv (w_db w)"
    and l: "l \<in> set (vals (db_logs (w_db w)))" and s: "s \<in> set (vals (db_sent_messages (w_db w)))" "sm_LogID s = log_ID l"
    and m: "m \<in> set (vals (db_messages (w_db w)))" "msg_key m = (sm_BridgeID s, sm_MsgHash s)"
    and once: "length (filter (\<lambda>x. sm_BridgeID x = sm_BridgeID s \<and> sm_MsgHash x = sm_MsgHash s)
      (vals (db_sent_messages (w_db w)))) = 1"
  shows "\<exists>res e ti w'. searchForMessagesInLogs p G [l] w = (Inr [res], w') \<and> w_db w' = w_db w
    \<and> sr_Message res = MessageInfoV (NewMessageInfo m) \<and> sr_Event res = Some e
    \<and> ei_Action e = ''SENT_MESSAGE'' \<and> ei_LogID e = log_ID l \<and> ei_TxInfo e = Some ti \<and> tx_of p l ti"
proof -
  let ?d = "w_db w" and ?E = "pr_repo p" and ?b = "sm_BridgeID s" and ?h = "sm_MsgHash s"
  from inv have ids: "distinct (log_ids ?d)" and sent_keys: "distinct (map sm_LogID (vals (db_sent_messages ?d)))"
    and msg_keys: "distinct (map msg_key (vals (db_messages ?d)))"
    by (simp_all add: db_inv_def logs_inv_def keys_inv_def)
  have "distinct (map sm_LogID (vals (db_sent_messages ?d)))" by (rule sent_keys)
  from filter_key [OF this s(1)] s(2) have sent1: "filter (\<lambda>x. sm_LogID x = log_ID l) (vals (db_sent_messages ?d)) = [s]" by simp
  from filter_key [OF msg_keys m(1)] m(2)
  have msg1: "filter (\<lambda>x. msg_BridgeID x = ?b \<and> msg_MsgHash x = ?h) (vals (db_messages ?d)) = [m]"
    by (simp add: msg_key_def)
  obtain s' where s': "filter (\<lambda>x. sm_BridgeID x = ?b \<and> sm_MsgHash x = ?h) (vals (db_sent_messages ?d)) = [s']"
    using once by (metis (no_types, lifting) One_nat_def length_0_conv length_Suc_conv)
  have "s \<in> set (filter (\<lambda>x. sm_BridgeID x = ?b \<and> sm_MsgHash x = ?h) (vals (db_sent_messages ?d)))" using s(1) by simp
  with s' have "s' = s" by simp
  note q = query_defs up_query [OF up] up_ignore [OF up]
  let ?w = "w\<lparr>w_tick := Suc (Suc (w_tick w))\<rparr>"
  from events_found [OF up given, of ?w ?b ?h s "[]" "msg_MessageID m" ] timed inv s' \<open>s' = s\<close>
  obtain e es ti w' wa wb where run: "buildMessageEvents p ?b ?h (msg_MessageID m) ?w = (Inr (e # es), w')" "w_db w' = ?d"
    and e: "e = (newEvent ''SENT_MESSAGE'' (sm_LogID s))\<lparr>ei_TxInfo := Some ti\<rparr>" "w_db wa = ?d"
    and ti: "getTxInfo p (sm_LogID s) wa = (Inr ti, wb)" by auto
  have hash: "msg_MsgHash m = ?h" using m(2) by (simp add: msg_key_def)
  have task: "searchSentMessage p l w = (Inr \<lparr>sr_Event = None, sr_Message = MessageInfoV (NewMessageInfo m),
      sr_RelatedEvents = e # es\<rparr>, w')"
    unfolding searchSentMessage_def buildSearchResultForMessage_def orElse_def fmapE_def Let_def
    using run(1) hash by (simp add: bindE_apply q sent1 msg1 first_row_def IgnoreErrNotFound_def)
  have "tx_of p l ti"
    using getTxInfo_Inr [OF ti, of l] ids l s(2) e(2) by (auto simp: tx_of_def)
  with task run(2) e s(2) show ?thesis
    by (simp add: bindE_apply searchTasks_def selectEvent_def newEvent_def)
qed

section \<open>What was handled is found\<close>

text \<open>No message was sent in two logs.\<close>

definition sent_once :: "database \<Rightarrow> bool" where
  "sent_once d \<longleftrightarrow> distinct (map (\<lambda>s. (sm_BridgeID s, sm_MsgHash s)) (vals (db_sent_messages d)))"

lemma sent_once_length:
  assumes "sent_once d" and "s \<in> set (vals (db_sent_messages d))"
  shows "length (filter (\<lambda>x. sm_BridgeID x = sm_BridgeID s \<and> sm_MsgHash x = sm_MsgHash s) (vals (db_sent_messages d))) = 1"
proof -
  have "filter (\<lambda>x. (sm_BridgeID x, sm_MsgHash x) = (sm_BridgeID s, sm_MsgHash s)) (vals (db_sent_messages d)) = [s]"
    by (rule filter_key) (use assms in \<open>simp_all add: sent_once_def\<close>)
  then show ?thesis by simp
qed

text \<open>What the handlers of requests write.\<close>

lemma request_handlers_store:
  assumes "(h, decode) \<in> set (request_handlers G E bh)" and "h log data w = (Inr (), w1)"
  shows "\<exists>enc m. as_bytes data ''encodedData'' = Inr enc \<and> decode log enc = Inr m \<and> msg_BridgeID m = beh_bridgeID bh
    \<and> bindE (Messages_Ensure E m) (\<lambda>_. SentMessages_Ensure E \<lparr>sm_LogID = log_ID log, sm_BridgeID = beh_bridgeID bh,
        sm_MsgHash = msg_MsgHash m\<rparr>) w = (Inr (), w1)"
  using assms unfolding request_handlers_def handler_defs Let_def
  by (auto simp: bindE_liftE_Inr) (erule unmarshalMessage_BridgeID unmarshalLegacyMessage_BridgeID)+

lemma store_steps:
  assumes "bindE (Messages_Ensure E m) (\<lambda>_. SentMessages_Ensure E s) w = (Inr (), w1)"
    and "\<not> has_key sm_LogID (sm_LogID s) (db_sent_messages (w_db w))"
  shows "s \<in> set (vals (db_sent_messages (w_db w1)))"
    and "\<exists>m'. lookup msg_key (db_messages (w_db w1)) (msg_key m) = Some m'"
proof -
  from assms(1) obtain u wm where 1: "Messages_Ensure E m w = (Inr u, wm)" and 2: "SentMessages_Ensure E s wm = (Inr (), w1)"
    by (rule bindE_InrE)
  have "db_sent_messages (w_db wm) = db_sent_messages (w_db w)" by (subst Messages_Ensure_Inr(1) [OF 1]) simp
  with assms(2) have "lookup sm_LogID (db_sent_messages (w_db wm)) (sm_LogID s) = None"
    by (simp add: lookup_None has_key_iff)
  with SentMessages_Ensure_Inr(2) [OF 2] have "lookup sm_LogID (db_sent_messages (w_db w1)) (sm_LogID s) = Some s" by simp
  from lookup_in [OF this] show "s \<in> set (vals (db_sent_messages (w_db w1)))" by simp
  have "db_messages (w_db w1) = db_messages (w_db wm)" by (subst SentMessages_Ensure_Inr(1) [OF 2]) simp
  with Messages_Ensure_Inr(2) [OF 1] show "\<exists>m'. lookup msg_key (db_messages (w_db w1)) (msg_key m) = Some m'"
    by (auto split: option.splits)
qed

text \<open>Property C12. What the monitor recorded, the presenter finds: after a handler has recorded the message
  of a request, a search in the log of the request, then or later, answers with one result: the message as it was
  first seen, with the event of that log, its block and the link to its transaction. (The search needs the
  timestamp of every saved log, a message that was sent in one log only, and a configuration that has no null for a
  chain: looking for the chain of a link panics there.)\<close>

theorem handled_request_is_found:
  assumes "(h, decode) \<in> set (request_handlers G E bh)" and "h log data w = (Inr (), w1)"
    and "\<not> has_key sm_LogID (log_ID log) (db_sent_messages (w_db w))"
    and "db_le (w_db w1) (w_db w2)" and "db_inv (w_db w2)" and "all_timed (w_db w2)" and "sent_once (w_db w2)"
    and "log \<in> set (vals (db_logs (w_db w2)))" and "db_up (pr_repo p)" and "chains_given (pr_cfg p)"
  shows "\<exists>enc m0 m res e ti w'. as_bytes data ''encodedData'' = Inr enc \<and> decode log enc = Inr m0
    \<and> lookup msg_key (db_messages (w_db w1)) (msg_key m0) = Some m
    \<and> searchForMessagesInLogs p G' [log] w2 = (Inr [res], w') \<and> w_db w' = w_db w2
    \<and> sr_Message res = MessageInfoV (NewMessageInfo m) \<and> sr_Event res = Some e
    \<and> ei_Action e = ''SENT_MESSAGE'' \<and> ei_LogID e = log_ID log \<and> ei_TxInfo e = Some ti \<and> tx_of p log ti"
proof -
  from request_handlers_store [OF assms(1,2)] obtain enc m0 where
    enc: "as_bytes data ''encodedData'' = Inr enc" "decode log enc = Inr m0" "msg_BridgeID m0 = beh_bridgeID bh" and
    run: "bindE (Messages_Ensure E m0) (\<lambda>_. SentMessages_Ensure E \<lparr>sm_LogID = log_ID log, sm_BridgeID = beh_bridgeID bh,
        sm_MsgHash = msg_MsgHash m0\<rparr>) w = (Inr (), w1)" (is "bindE _ (\<lambda>_. SentMessages_Ensure E ?s) w = _") by blast
  have "\<not> has_key sm_LogID (sm_LogID ?s) (db_sent_messages (w_db w))" using assms(3) by simp
  note st = store_steps [OF run this]
  from st(2) obtain m where m: "lookup msg_key (db_messages (w_db w1)) (msg_key m0) = Some m" by blast
  from lookup_in [OF m] have "m \<in> set (vals (db_messages (w_db w1)))" "msg_key m = msg_key m0" by simp_all
  with assms(4) have "m \<in> set (vals (db_messages (w_db w2)))" "msg_key m = (sm_BridgeID ?s, sm_MsgHash ?s)"
    using enc(3) by (auto simp: db_le_def msg_key_def dest: tbl_le_idD)
  moreover have s: "?s \<in> set (vals (db_sent_messages (w_db w2)))"
    using st(1) assms(4) by (auto simp: db_le_def dest: tbl_le_idD)
  ultimately obtain res e ti w' where
    "searchForMessagesInLogs p G' [log] w2 = (Inr [res], w')" "w_db w' = w_db w2"
    "sr_Message res = MessageInfoV (NewMessageInfo m)" "sr_Event res = Some e"
    "ei_Action e = ''SENT_MESSAGE''" "ei_LogID e = log_ID log" "ei_TxInfo e = Some ti" "tx_of p log ti"
    using sent_message_found [OF assms(9,10,6,5,8) s _ _ _ sent_once_length [OF assms(7) s], of m G'] by auto
  with enc m show ?thesis by blast
qed

end
