(* ===== verification/PresenterRuns.thy ===== *)
theory PresenterRuns
  imports PresenterSearch
begin

text \<open>
  Concrete answers of the presenter, on a small database: the properties of theories
  \<open>PresenterFacts\<close> and \<open>PresenterSearch\<close> applied to them.
\<close>

section \<open>A small bridge\<close>

definition view_side :: "string \<Rightarrow> address \<Rightarrow> BridgeSideConfig" where
  "view_side c a = (sample_side c a 100 [])\<lparr>bs_Chain := Some (sample_chain c)\<rparr>"

definition view_bridge :: BridgeConfig where
  "view_bridge = \<lparr>bc_ID = ''b'', bc_BridgeMode = BridgeModeArbitraryMessage, bc_Home = view_side ''100'' 10,
     bc_Foreign = view_side ''1'' 20, bc_Alerts = []\<rparr>"

definition view_config :: Config where
  "view_config = sample_config\<lparr>cfg_Bridges := [(''b'', view_bridge)]\<rparr>"

definition view_presenter :: presenter where
  "view_presenter = \<lparr>pr_repo = sample_env, pr_cfg = view_config\<rparr>"

definition saved_row :: "'a \<Rightarrow> 'a row" where
  "saved_row v = \<lparr>r_val = v, r_created = 0, r_updated = 0\<rparr>"

definition view_message :: "hash \<Rightarrow> hash \<Rightarrow> Direction \<Rightarrow> Message" where
  "view_message h i dir = \<lparr>msg_BridgeID = ''b'', msg_MsgHash = h, msg_MessageID = i, msg_Direction = dir,
     msg_Sender = 4, msg_Executor = 5, msg_Data = [], msg_DataType = 0, msg_GasLimit = 0, msg_RawMessage = [1]\<rparr>"

definition view_validator :: "uint \<Rightarrow> string \<Rightarrow> address \<Rightarrow> BridgeValidator" where
  "view_validator l c a = \<lparr>bv_LogID = l, bv_BridgeID = ''b'', bv_ChainID = c, bv_Address = a, bv_RemovedLogID = None\<rparr>"

definition view_signed :: "uint \<Rightarrow> hash \<Rightarrow> address \<Rightarrow> SignedMessage" where
  "view_signed l h a = \<lparr>sgm_LogID = l, sgm_BridgeID = ''b'', sgm_MsgHash = h, sgm_Signer = a\<rparr>"

text \<open>
  Three logs of the home chain: a message to the foreign chain was sent in the second and signed by one
  validator in the third. A message in the other direction is pending too.
\<close>

definition view_world :: world where
  "view_world = \<lparr>w_db = emptyDatabase\<lparr>
     db_logs := map saved_row [sample_log 1 10, sample_log 2 10, sample_log 3 10], db_logs_seq := 3,
     db_block_timestamps := map saved_row [\<lparr>bt_ChainID = ''100'', bt_BlockNumber = 121, bt_Timestamp = 5\<rparr>,
       \<lparr>bt_ChainID = ''100'', bt_BlockNumber = 122, bt_Timestamp = 6\<rparr>,
       \<lparr>bt_ChainID = ''100'', bt_BlockNumber = 123, bt_Timestamp = 7\<rparr>],
     db_messages := map saved_row [view_message 7 8 DirectionHomeToForeign, view_message 9 11 DirectionForeignToHome],
     db_sent_messages := [saved_row \<lparr>sm_LogID = 2, sm_BridgeID = ''b'', sm_MsgHash = 7\<rparr>],
     db_signed_messages := [saved_row (view_signed 3 7 66)],
     db_bridge_validators := map saved_row [view_validator 1 ''100'' 66, view_validator 2 ''1'' 66, view_validator 3 ''1'' 67]\<rparr>,
     w_tick = 0\<rparr>"

lemma view_vals [simp]: "vals (map saved_row xs) = xs"
  by (simp add: vals_def saved_row_def comp_def)

lemma row_val [simp]: "r_val (saved_row v) = v" "r_created (saved_row v) = 0"
  by (simp_all add: saved_row_def)

lemma view_inv: "db_inv (w_db view_world)"
  by (simp add: db_inv_def logs_inv_def keys_inv_def refs_inv_def fk_ok_def log_ids_def view_world_def
      emptyDatabase_def vals_def log_key_def sample_log_def int4_max_def saved_row_def ts_key_def msg_key_def
      view_message_def view_signed_def view_validator_def signed_ix_def log_exists_def opt_log_exists_def)

definition view_ctx :: request_ctx where
  "view_ctx = emptyContext\<lparr>cx_bridgeCfg := Some view_bridge\<rparr>"

lemma view_sel [simp]:
  "pr_repo view_presenter = sample_env" "pr_cfg view_presenter = view_config"
  "ctx_BridgeConfig view_ctx = view_bridge" "bc_ID view_bridge = ''b''"
  "bc_BridgeMode view_bridge = BridgeModeArbitraryMessage"
  "bs_ChainID (bc_Home view_bridge) = ''100''" "bs_ChainID (bc_Foreign view_bridge) = ''1''"
  "bs_Address (bc_Foreign view_bridge) = 20"
  by (simp_all add: view_presenter_def view_ctx_def ctx_BridgeConfig_def view_bridge_def view_side_def bs_ChainID_def
      sample_chain_def sample_side_def emptyContext_def)

lemma view_tables:
  "vals (db_bridge_validators (w_db view_world)) = [view_validator 1 ''100'' 66, view_validator 2 ''1'' 66, view_validator 3 ''1'' 67]"
  "vals (db_signed_messages (w_db view_world)) = [view_signed 3 7 66]"
  "vals (db_sent_messages (w_db view_world)) = [\<lparr>sm_LogID = 2, sm_BridgeID = ''b'', sm_MsgHash = 7\<rparr>]"
  "vals (db_logs (w_db view_world)) = [sample_log 1 10, sample_log 2 10, sample_log 3 10]"
  "vals (db_executed_messages (w_db view_world)) = []"
  "db_messages (w_db view_world) = map saved_row [view_message 7 8 DirectionHomeToForeign, view_message 9 11 DirectionForeignToHome]"
  "vals (db_block_timestamps (w_db view_world)) = [\<lparr>bt_ChainID = ''100'', bt_BlockNumber = 121, bt_Timestamp = 5\<rparr>,
       \<lparr>bt_ChainID = ''100'', bt_BlockNumber = 122, bt_Timestamp = 6\<rparr>,
       \<lparr>bt_ChainID = ''100'', bt_BlockNumber = 123, bt_Timestamp = 7\<rparr>]"
  by (simp_all add: view_world_def emptyDatabase_def vals_def)

section \<open>Logs\<close>

definition view_request :: request where
  "view_request = \<lparr>rq_URLParam = (\<lambda>k. []), rq_Query = (\<lambda>k. if k = ''chainId'' then ''100''
     else if k = ''fromBlock'' then decimal_digits 120 else if k = ''toBlock'' then decimal_digits 122 else []), rq_Form = Inr []\<rparr>"

lemma view_numbers: "ParseUint32 (decimal_digits 120) = Inr 120" "ParseUint32 (decimal_digits 122) = Inr 122"
  by (simp_all add: ParseUint32_decimal)

lemma view_chain: "GetChainConfig view_config ''100'' = Inr (Some (sample_chain ''100''))"
  by (simp add: GetChainConfig_def view_config_def sample_config_def sample_chain_def)

lemma logs_listing_bounded_witness:
  "\<exists>f. bounded_filter view_config f \<and> map NewLogInfo [sample_log 1 10, sample_log 2 10] =
     map NewLogInfo (order_logs (filter (matches f) [sample_log 1 10, sample_log 2 10, sample_log 3 10]))"
proof -
  have "Serve view_presenter sample_geth (\<lambda>s. 0) K N cd view_request (RootRoute LogsView) view_world =
      (Inr (OK (LogsP (map NewLogInfo [sample_log 1 10, sample_log 2 10]))), view_world\<lparr>w_tick := 1\<rparr>)" for K N cd
    unfolding Serve_def Recoverer_def
    by (simp add: GetChainConfigMiddleware_def GetBlockNumberMiddleware_def GetTxHashMiddleware_def GetFilterMiddleware_def
        Let_def view_request_def view_numbers view_chain bindE_liftE_apply render_def fmapE_def GetLogs_def getFilteredLogs_def
        GetFilterContext_def emptyContext_def bindE_apply Logs_Find_def sample_query opt_int4_ok_def int4_ok_def int4_max_def
        emptyLogsFilter_def view_tables matches_def order_logs_def sample_chain_def topic_in_def decimal_digits_are
        log_pos_of_def less_eq_log_pos_def less_log_pos_def)
      (simp add: view_world_def)
  from logs_listing_bounded [OF this] show ?thesis by (simp add: search_route_def view_tables)
qed

section \<open>Validators\<close>

lemma view_time [simp]:
  "getTxInfo view_presenter 3 (view_world\<lparr>w_tick := t\<rparr>) = (Inr \<lparr>ti_BlockNumber = 123, ti_Timestamp = 7,
     ti_Link = FormatTxLink (Some (sample_chain ''100'')) 9\<rparr>, view_world\<lparr>w_tick := Suc (Suc t)\<rparr>)"
  by (simp add: getTxInfo_def bindE_apply bindE_liftE_apply view_chain query_defs sample_query view_tables first_row_def
      int4_ok_def int4_max_def)

lemma view_sides [simp]: "sideChainID (bc_Home view_bridge) = Inr ''100''" "sideChainID (bc_Foreign view_bridge) = Inr ''1''"
  by (simp_all add: sideChainID_def view_bridge_def view_side_def sample_chain_def)

lemma validators_listing_witness:
  "\<exists>info w'. GetBridgeValidators view_presenter view_ctx view_world = (Inr info, w')
    \<and> set (map vi_Address (vsi_Validators info)) = {66} \<and> distinct (map vi_Address (vsi_Validators info))
    \<and> list_all (latest_ok (w_db view_world) view_bridge) (vsi_Validators info)"
proof -
  obtain info w' where run: "GetBridgeValidators view_presenter view_ctx view_world = (Inr info, w')"
    by (rule that, simp add: GetBridgeValidators_def Let_def bindE_apply bindE_liftE_apply findActiveValidatorAddresses_def query_defs sample_query
        view_tables view_validator_def active_validator_def validatorInfo_def IgnoreErrNotFound_def view_signed_def
        first_row_def)
  have "distinct (log_ids (w_db view_world))" using view_inv by (simp add: db_inv_def logs_inv_def)
  from validators_listing [OF this run] run show ?thesis
    by (simp add: validators_of_def view_tables view_validator_def active_validator_def)
qed

section \<open>Messages that lack signatures\<close>

definition view_node :: node where
  "view_node = (sample_node 200 [])\<lparr>node_ChainID := (\<lambda>t. Inr 1), node_CallContract := (\<lambda>t a d. Inr [2])\<rparr>"

definition view_crypto :: sigcrypto where
  "view_crypto = \<lparr>TextHash = (\<lambda>bs. bs), SigToPub = (\<lambda>h s. Inr s), PubkeyToAddress = (\<lambda>k. 1)\<rparr>"

lemma big_string_1: "big_string 1 = ''1''"
  by code_simp

lemma view_manual: "parseManualSignatures view_crypto view_request messages = Inr []"
  by (simp add: parseManualSignatures_def view_request_def)

lemma view_calls:
  "sideClient (\<lambda>cfg. view_node) (bc_Foreign view_bridge) w = (Inr view_node, w\<lparr>w_tick := Suc (Suc (w_tick w))\<rparr>)"
  "RequiredSignatures view_node (Inr []) 20 w = (Inr 2, w\<lparr>w_tick := Suc (w_tick w)\<rparr>)"
  by (simp_all add: sideClient_def chainNode_def view_bridge_def view_side_def sample_chain_def NewClient_def bindE_apply rpc_def view_node_def sample_node_def big_string_1 RequiredSignatures_def Contract_Call_def CallContract_def
      bindE_liftE_apply big_SetBytes_def big_Uint64_def)

definition view_pending :: "BridgeMessage list" where
  "view_pending = map AMBMessage [view_message 7 8 DirectionHomeToForeign, view_message 9 11 DirectionForeignToHome]"

lemma view_queries:
  assumes "w_db w = w_db view_world"
  shows "findActiveValidatorAddresses view_presenter ''b'' ''1'' w = (Inr [66, 67], w\<lparr>w_tick := Suc (w_tick w)\<rparr>)"
    and "Repo_FindPendingMessages sample_env ''b'' BridgeModeArbitraryMessage w = (Inr view_pending, w\<lparr>w_tick := Suc (w_tick w)\<rparr>)"
    and "SignedMessages_FindByMsgHashes sample_env ''b'' [7, 0] w = (Inr [view_signed 3 7 66], w\<lparr>w_tick := Suc (w_tick w)\<rparr>)"
    and "SentMessages_FindByMsgHashes sample_env ''b'' [7, 0] w =
      (Inr [\<lparr>sm_LogID = 2, sm_BridgeID = ''b'', sm_MsgHash = 7\<rparr>], w\<lparr>w_tick := Suc (w_tick w)\<rparr>)"
    and "Logs_FindByIDs sample_env [2] w = (Inr [sample_log 2 10], w\<lparr>w_tick := Suc (w_tick w)\<rparr>)"
  by (simp_all add: assms findActiveValidatorAddresses_def bindE_apply query_defs sample_query view_tables view_validator_def
      active_validator_def Repo_FindPendingMessages_def view_message_def executed_def view_pending_def view_signed_def
      order_logs_def)

lemma view_hashes: "pendingHashes view_pending = [7, 0]"
  by (simp add: pendingHashes_def view_pending_def homeToForeign_def view_message_def)

lemma view_signers: "makeSignersMap [7, 0] [view_signed 3 7 66] [] = Inr [(7, [66]), (0, [])]"
  by (simp add: makeSignersMap_def addSigner_def view_signed_def)

lemma view_links: "sentLinks view_config [\<lparr>sm_LogID = 2, sm_BridgeID = ''b'', sm_MsgHash = 7\<rparr>] [sample_log 2 10] =
    Inr [(7, FormatTxLink (Some (sample_chain ''100'')) (log_TransactionHash (sample_log 2 10)))]"
  by (simp add: sentLinks_def view_chain)

abbreviation view_first :: BridgeMessage where
  "view_first \<equiv> AMBMessage (view_message 7 8 DirectionHomeToForeign)"

lemma view_pending_messages: "pending_messages (w_db view_world) ''b'' BridgeModeArbitraryMessage = view_pending"
  by (simp add: pending_messages_def view_tables view_pending_def view_message_def executed_def)

lemma view_sent: "filter homeToForeign view_pending = [view_first]"
  by (simp add: view_pending_def homeToForeign_def view_message_def)

lemma view_signed_by: "signed_by (w_db view_world) ''b'' [] view_first = (\<lambda>v. v = 66)"
  by (auto simp: signed_by_def view_tables view_signed_def view_message_def)

lemma view_validators: "validators_of ''b'' ''1'' (w_db view_world) = {#66, 67#}"
  by (simp add: validators_of_def view_tables view_validator_def active_validator_def)

lemma mset_filter_one: "mset xs = mset (map g (filter P [y])) \<Longrightarrow> xs \<in> {[], [g y]}"
  by (cases "P y") (simp_all add: mset_single_iff)

lemma unsigned_listing_witness:
  "\<exists>info w'. GetMessagesWithMissingSignatures view_presenter view_crypto view_node (Inr []) view_request view_ctx view_world =
      (Inr info, w') \<and> umi_TotalPendingMessages info = 2
    \<and> list_all (\<lambda>u. mset (ui_Signers u) = {#66#}) (umi_UnsignedMessages info)"
proof -
  obtain info w' where run: "GetMessagesWithMissingSignatures view_presenter view_crypto view_node (Inr []) view_request view_ctx view_world =
      (Inr info, w')"
    by (rule that, simp add: GetMessagesWithMissingSignatures_def Let_def bindE_apply bindE_liftE_apply view_calls view_queries
        view_manual view_hashes view_signers view_links)
  from unsigned_listing [OF view_inv run] obtain cfg pending sent validators manual signers where
    cfg: "cfg = ctx_BridgeConfig view_ctx" and pending: "pending = pending_messages (w_db view_world) (bc_ID cfg) (bc_BridgeMode cfg)"
    and sent: "sent = filter homeToForeign pending"
    and vs: "mset validators = validators_of (bc_ID cfg) (bs_ChainID (bc_Foreign cfg)) (w_db view_world)"
    and manual: "parseManualSignatures view_crypto view_request (map (\<lambda>m. (GetMsgHash m, GetRawMessage m)) sent) = Inr manual"
    and signers: "signers = (\<lambda>m. filter (signed_by (w_db view_world) (bc_ID cfg) manual m) validators)"
    and total: "umi_TotalPendingMessages info = of_nat (length pending)"
    and ms: "mset (map (\<lambda>u. (ui_Message u, ui_Signers u, ui_MissingSigners u)) (umi_UnsignedMessages info)) =
        mset (map (\<lambda>m. (NewBridgeMessageInfo m, signers m, filter (\<lambda>v. v \<notin> set (signers m)) validators))
          (filter (\<lambda>m. of_nat (length (signers m)) < umi_RequiredSignatures info) sent))"
    by blast
  have c: "cfg = view_bridge" "manual = []" using cfg manual by (simp_all add: view_manual)
  have p: "pending = view_pending" "sent = [view_first]" using pending sent by (simp_all add: c view_pending_messages view_sent)
  have "signers view_first = filter (\<lambda>v. v = 66) validators" by (simp add: signers c view_signed_by)
  moreover have "filter (\<lambda>v. v = 66) validators = [66]"
    unfolding mset_single_iff [symmetric] by (simp add: vs c view_validators)
  moreover have "map ui_Signers (umi_UnsignedMessages info) \<in> {[], [signers view_first]}"
    using mset_filter_one [OF ms [unfolded p]] by auto
  ultimately have "list_all (\<lambda>u. mset (ui_Signers u) = {#66#}) (umi_UnsignedMessages info)"
    by (auto simp: map_eq_Cons_conv)
  with run total show ?thesis by (auto simp: p view_pending_def)
qed

section \<open>A message that was handled\<close>

text \<open>The logs of \<open>sample_world\<close>, with the time of each block.\<close>

definition timed_world :: world where
  "timed_world = sample_world\<lparr>w_db := (w_db sample_world)\<lparr>db_block_timestamps :=
     map saved_row [\<lparr>bt_ChainID = ''100'', bt_BlockNumber = 121, bt_Timestamp = 5\<rparr>,
       \<lparr>bt_ChainID = ''100'', bt_BlockNumber = 122, bt_Timestamp = 6\<rparr>,
       \<lparr>bt_ChainID = ''100'', bt_BlockNumber = 123, bt_Timestamp = 7\<rparr>]\<rparr>\<rparr>"

lemma timed_inv: "db_inv (w_db timed_world)"
  by (simp add: timed_world_def db_inv_def logs_inv_def keys_inv_def refs_inv_def fk_ok_def log_ids_def sample_world_def
      emptyDatabase_def vals_def log_key_def sample_log_def int4_max_def saved_row_def ts_key_def)

lemma timed_all: "all_timed (w_db timed_world)"
  by (simp add: all_timed_def timed_world_def sample_world_def emptyDatabase_def vals_def saved_row_def has_key_def
      ts_key_def int4_ok_def int4_max_def)

definition view_handled :: world where
  "view_handled = after (HandleUserRequestForAffirmation sample_geth sample_env sample_handlers (sample_log 1 20)
     sample_message) timed_world"

lemma handled_run:
  "HandleUserRequestForAffirmation sample_geth sample_env sample_handlers (sample_log 1 20) sample_message timed_world =
     (Inr (), view_handled)"
proof -
  note m = unmarshalMessage_encode_v5 [OF sample_geth_documented sample_mid_prefix, of "[1]" "[100]"
      "beh_bridgeID sample_handlers" DirectionForeignToHome 10 20 100000 0 "[1, 2, 3]"]
  have "runs (HandleUserRequestForAffirmation sample_geth sample_env sample_handlers (sample_log 1 20)
      sample_message) timed_world"
    unfolding runs_def HandleUserRequestForAffirmation_def timed_world_def
    by (simp add: bindE_apply as_bytes_def sample_message_def m run_simps)
  from after_ok [OF this] show ?thesis by (simp add: view_handled_def)
qed

lemma handled_in: "(HandleUserRequestForAffirmation sample_geth sample_env sample_handlers,
    \<lambda>log enc. unmarshalMessage sample_geth (beh_bridgeID sample_handlers) DirectionForeignToHome enc)
    \<in> set (request_handlers sample_geth sample_env sample_handlers)"
  by (simp add: request_handlers_def)

lemma handled_tables:
  "db_logs (w_db view_handled) = db_logs (w_db timed_world)"
  "db_block_timestamps (w_db view_handled) = db_block_timestamps (w_db timed_world)"
  "length (db_sent_messages (w_db view_handled)) = 1"
proof -
  from request_handlers_store [OF handled_in handled_run] obtain m s where
    "bindE (Messages_Ensure sample_env m) (\<lambda>_. SentMessages_Ensure sample_env s) timed_world = (Inr (), view_handled)" by blast
  then obtain u wm where 1: "Messages_Ensure sample_env m timed_world = (Inr u, wm)"
    and 2: "SentMessages_Ensure sample_env s wm = (Inr (), view_handled)" by (rule bindE_InrE)
  note e1 = Messages_Ensure_Inr(1) [OF 1] and e2 = SentMessages_Ensure_Inr(1) [OF 2]
  have "db_sent_messages (w_db wm) = []" by (subst e1) (simp add: timed_world_def)
  then have "SentMessages_Ensure sample_env s wm = (Inr (), w') \<Longrightarrow> length (db_sent_messages (w_db w')) = 1" for w'
    by (auto simp: SentMessages_Ensure_def db_exec_Inr ensure_stmt_Inr ensure_row_Some upsert_def has_key_def)
  from this [OF 2] show "length (db_sent_messages (w_db view_handled)) = 1" .
  show "db_logs (w_db view_handled) = db_logs (w_db timed_world)" by (subst e2, simp, subst e1, simp)
  show "db_block_timestamps (w_db view_handled) = db_block_timestamps (w_db timed_world)" by (subst e2, simp, subst e1, simp)
qed

lemma handled_request_is_found_witness:
  "\<exists>res e w'. searchForMessagesInLogs view_presenter sample_geth [sample_log 1 20] view_handled = (Inr [res], w')
    \<and> sr_Event res = Some e \<and> ei_Action e = ''SENT_MESSAGE'' \<and> ei_LogID e = 1"
proof -
  have new_row: "\<not> has_key sm_LogID (log_ID (sample_log 1 20)) (db_sent_messages (w_db timed_world))"
    by (simp add: timed_world_def has_key_def)
  have inv: "db_inv (w_db view_handled)"
    using keepsE_apply [OF handlers_grow(1) handled_run] timed_inv by (simp add: grows_def)
  have timed: "all_timed (w_db view_handled)" using timed_all by (simp add: all_timed_def handled_tables)
  have once: "sent_once (w_db view_handled)"
    using handled_tables(3) by (auto simp: sent_once_def vals_def length_Suc_conv)
  have log: "sample_log 1 20 \<in> set (vals (db_logs (w_db view_handled)))"
    by (simp add: handled_tables timed_world_def sample_world_def vals_def)
  have up: "db_up (pr_repo view_presenter)" by (simp add: db_up_def sample_env_def)
  have given: "chains_given (pr_cfg view_presenter)" by (simp add: chains_given_def view_config_def sample_config_def)
  from handled_request_is_found [OF handled_in handled_run new_row db_le_refl inv timed once log up given, of sample_geth]
  show ?thesis by auto
qed

end
