(* ===== verification/AlertQueries.thy ===== *)
theory AlertQueries
  imports Repository PresenterTypes
begin

text \<open>
  \<open>monitor/alerts/db_alerts_provider.go\<close>: the queries behind the alerts, one function per method of
  \<open>DBAlertsProvider\<close> and one record per row type; \<open>AlertJobParams\<close> is of
  \<open>monitor/alerts/job.go\<close>.

  A \<open>JOIN\<close> is a list comprehension over the rows of the tables, a \<open>LEFT JOIN\<close> has the row
  \<open>None\<close> when nothing matches, \<open>GROUP BY\<close> splits the joined rows by a key and \<open>UNION\<close>
  removes duplicates. None of the queries has an order. \<open>now()\<close> is the clock of the database, in
  seconds (in the time zone in which the timestamps were written), and ages are differences in seconds. A block
  number that does not fit the type of the column is refused by the database. The text of an amount divided by
  \<open>1e18\<close> is made by PostgreSQL: the parameter \<open>D\<close>.
\<close>

section \<open>Queries\<close>

definition left_join :: "'a list \<Rightarrow> 'a option list" where
  "left_join rows = (if rows = [] then [None] else map Some rows)"

definition group_rows :: "('j \<Rightarrow> 'k) \<Rightarrow> 'j list \<Rightarrow> 'j list list" where
  "group_rows key rows = map (\<lambda>k. filter (\<lambda>j. key j = k) rows) (remdups (map key rows))"

definition count_rows :: "('j \<Rightarrow> 'a option) \<Rightarrow> 'j list \<Rightarrow> nat" where
  "count_rows col rows = length (filter (\<lambda>j. col j \<noteq> None) rows)"

definition select_rows :: "env \<Rightarrow> bool \<Rightarrow> (time \<Rightarrow> database \<Rightarrow> 'a) \<Rightarrow> (world, 'a) io" where
  "select_rows E args_ok rows = db_exec E (\<lambda>now d. (if args_ok then Inr (rows now d) else Inl (Err ErrDB), d))"

text \<open>The log with a given id, and the timestamp of its block.\<close>

definition log_times :: "database \<Rightarrow> uint \<Rightarrow> (Log \<times> BlockTimestamp) list" where
  "log_times d i = [(l, bt). l \<leftarrow> vals (db_logs d), log_ID l = i, bt \<leftarrow> vals (db_block_timestamps d),
     bt_ChainID bt = log_ChainID l \<and> bt_BlockNumber bt = log_BlockNumber l]"

definition messages_of :: "database \<Rightarrow> string \<Rightarrow> hash \<Rightarrow> Message list" where
  "messages_of d b h = filter (\<lambda>m. msg_BridgeID m = b \<and> msg_MsgHash m = h) (vals (db_messages d))"

definition erc_messages_of :: "database \<Rightarrow> string \<Rightarrow> hash \<Rightarrow> ErcToNativeMessage list" where
  "erc_messages_of d b h = filter (\<lambda>m. erc_BridgeID m = b \<and> erc_MsgHash m = h) (vals (db_erc_to_native_messages d))"

definition signed_of :: "database \<Rightarrow> string \<Rightarrow> hash \<Rightarrow> SignedMessage list" where
  "signed_of d b h = filter (\<lambda>s. sgm_BridgeID s = b \<and> sgm_MsgHash s = h) (vals (db_signed_messages d))"

definition collected_of :: "database \<Rightarrow> string \<Rightarrow> hash \<Rightarrow> CollectedMessage list" where
  "collected_of d b h = filter (\<lambda>c. cm_BridgeID c = b \<and> cm_MsgHash c = h) (vals (db_collected_messages d))"

definition executed_of :: "database \<Rightarrow> string \<Rightarrow> hash \<Rightarrow> ExecutedMessage list" where
  "executed_of d b i = filter (\<lambda>e. em_BridgeID e = b \<and> em_MessageID e = i) (vals (db_executed_messages d))"

definition requests_of :: "database \<Rightarrow> string \<Rightarrow> hash \<Rightarrow> InformationRequest list" where
  "requests_of d b i = filter (\<lambda>r. ir_BridgeID r = b \<and> ir_MessageID r = i) (vals (db_information_requests d))"

definition signed_requests_of :: "database \<Rightarrow> string \<Rightarrow> hash \<Rightarrow> SignedInformationRequest list" where
  "signed_requests_of d b i = filter (\<lambda>r. sgir_BridgeID r = b \<and> sgir_MessageID r = i)
     (vals (db_signed_information_requests d))"

definition executed_requests_of :: "database \<Rightarrow> string \<Rightarrow> hash \<Rightarrow> ExecutedInformationRequest list" where
  "executed_requests_of d b i = filter (\<lambda>r. eir_BridgeID r = b \<and> eir_MessageID r = i)
     (vals (db_executed_information_requests d))"

section \<open>Parameters\<close>

record AlertJobParams =
  ap_Bridge :: string
  ap_HomeChainID :: string
  ap_ForeignChainID :: string
  ap_HomeStartBlockNumber :: uint
  ap_ForeignStartBlockNumber :: uint
  ap_HomeBridgeAddress :: address
  ap_ForeignBridgeAddress :: address
  ap_HomeWhitelistedSenders :: "address list"

definition on_home :: "AlertJobParams \<Rightarrow> Log \<Rightarrow> bool" where
  "on_home q l \<longleftrightarrow> log_ChainID l = ap_HomeChainID q \<and> ap_HomeStartBlockNumber q \<le> log_BlockNumber l"

definition on_foreign :: "AlertJobParams \<Rightarrow> Log \<Rightarrow> bool" where
  "on_foreign q l \<longleftrightarrow> log_ChainID l = ap_ForeignChainID q \<and> ap_ForeignStartBlockNumber q \<le> log_BlockNumber l"

definition home_ok :: "AlertJobParams \<Rightarrow> bool" where
  "home_ok q \<longleftrightarrow> int4_ok (ap_HomeStartBlockNumber q)"

definition sides_ok :: "AlertJobParams \<Rightarrow> bool" where
  "sides_ok q \<longleftrightarrow> int4_ok (ap_HomeStartBlockNumber q) \<and> int4_ok (ap_ForeignStartBlockNumber q)"

text \<open>
  The cursors whose address is at or above the address of the bridge, in the order of byte strings. \<open>MIN\<close>
  of no rows is a null, which \<open>time.Time\<close> cannot hold.
\<close>

definition min_cursor :: "AlertJobParams \<Rightarrow> LogsCursor \<Rightarrow> bool" where
  "min_cursor q c \<longleftrightarrow> (lc_ChainID c = ap_HomeChainID q \<and> ap_HomeBridgeAddress q \<le> lc_Address c)
     \<or> (lc_ChainID c = ap_ForeignChainID q \<and> ap_ForeignBridgeAddress q \<le> lc_Address c)"

definition processed_times :: "AlertJobParams \<Rightarrow> database \<Rightarrow> time list" where
  "processed_times q d = [bt_Timestamp bt. c \<leftarrow> vals (db_logs_cursors d), min_cursor q c,
     bt \<leftarrow> vals (db_block_timestamps d), bt_ChainID bt = lc_ChainID c \<and> bt_BlockNumber bt = lc_LastProcessedBlock c]"

definition findMinProcessedTime :: "env \<Rightarrow> AlertJobParams \<Rightarrow> (world, time) io" where
  "findMinProcessedTime E q = db_query E (\<lambda>d. let ts = processed_times q d in
     if ts = [] then Inl (Err ErrDB) else Inr (Min (set ts)))"

section \<open>AMB messages\<close>

record UnknownConfirmation =
  uc_ChainID :: string
  uc_BlockNumber :: uint
  uc_Age :: int
  uc_TransactionHash :: hash
  uc_Signer :: address
  uc_MsgHash :: hash

definition unknown_confirmation :: "time \<Rightarrow> SignedMessage \<Rightarrow> Log \<Rightarrow> BlockTimestamp \<Rightarrow> UnknownConfirmation" where
  "unknown_confirmation now s l bt = \<lparr>uc_ChainID = log_ChainID l, uc_BlockNumber = log_BlockNumber l,
     uc_Age = now - bt_Timestamp bt, uc_TransactionHash = log_TransactionHash l, uc_Signer = sgm_Signer s,
     uc_MsgHash = sgm_MsgHash s\<rparr>"

definition UnknownConfirmations_rows :: "AlertJobParams \<Rightarrow> time \<Rightarrow> time \<Rightarrow> database \<Rightarrow> UnknownConfirmation list" where
  "UnknownConfirmations_rows q minTS now d = [unknown_confirmation now s l bt.
     s \<leftarrow> vals (db_signed_messages d), (l, bt) \<leftarrow> log_times d (sgm_LogID s),
     m \<leftarrow> left_join (messages_of d (sgm_BridgeID s) (sgm_MsgHash s)),
     m = None \<and> sgm_BridgeID s = ap_Bridge q \<and> on_home q l \<and> bt_Timestamp bt \<le> minTS]"

definition FindUnknownConfirmations :: "env \<Rightarrow> AlertJobParams \<Rightarrow> (world, UnknownConfirmation list) io" where
  "FindUnknownConfirmations E q = bindE (findMinProcessedTime E q) (\<lambda>minTS.
     select_rows E (home_ok q) (UnknownConfirmations_rows q minTS))"

record UnknownExecution =
  ue_ChainID :: string
  ue_BlockNumber :: uint
  ue_Age :: int
  ue_TransactionHash :: hash
  ue_MessageID :: hash

definition unknown_execution :: "time \<Rightarrow> ExecutedMessage \<Rightarrow> Log \<Rightarrow> BlockTimestamp \<Rightarrow> UnknownExecution" where
  "unknown_execution now e l bt = \<lparr>ue_ChainID = log_ChainID l, ue_BlockNumber = log_BlockNumber l,
     ue_Age = now - bt_Timestamp bt, ue_TransactionHash = log_TransactionHash l, ue_MessageID = em_MessageID e\<rparr>"

definition UnknownExecutions_rows :: "AlertJobParams \<Rightarrow> time \<Rightarrow> time \<Rightarrow> database \<Rightarrow> UnknownExecution list" where
  "UnknownExecutions_rows q minTS now d = [unknown_execution now e l bt.
     e \<leftarrow> vals (db_executed_messages d), (l, bt) \<leftarrow> log_times d (em_LogID e),
     m \<leftarrow> left_join (filter (\<lambda>m. msg_BridgeID m = em_BridgeID e \<and> msg_MessageID m = em_MessageID e) (vals (db_messages d))),
     m = None \<and> em_BridgeID e = ap_Bridge q \<and> (on_home q l \<or> on_foreign q l) \<and> bt_Timestamp bt \<le> minTS]"

definition FindUnknownExecutions :: "env \<Rightarrow> AlertJobParams \<Rightarrow> (world, UnknownExecution list) io" where
  "FindUnknownExecutions E q = bindE (findMinProcessedTime E q) (\<lambda>minTS.
     select_rows E (sides_ok q) (UnknownExecutions_rows q minTS))"

record StuckMessage =
  st_ChainID :: string
  st_BlockNumber :: uint
  st_Age :: int
  st_TransactionHash :: hash
  st_MsgHash :: hash
  st_Count :: nat

type_synonym stuck_join = "SentMessage \<times> Log \<times> BlockTimestamp \<times> Message \<times> SignedMessage option"

definition stuck_message :: "time \<Rightarrow> stuck_join list \<Rightarrow> StuckMessage" where
  "stuck_message now g = (case hd g of (s, l, bt, m, sg) \<Rightarrow>
     \<lparr>st_ChainID = log_ChainID l, st_BlockNumber = log_BlockNumber l, st_Age = now - bt_Timestamp bt,
      st_TransactionHash = log_TransactionHash l, st_MsgHash = sm_MsgHash s,
      st_Count = count_rows (\<lambda>(s, l, bt, m, sg). sg) g\<rparr>)"

definition stuck_key :: "stuck_join \<Rightarrow> uint \<times> uint \<times> time" where
  "stuck_key = (\<lambda>(s, l, bt, m, sg). (sm_LogID s, log_ID l, bt_Timestamp bt))"

definition stuck_home :: "AlertJobParams \<Rightarrow> database \<Rightarrow> stuck_join list" where
  "stuck_home q d = [(s, l, bt, m, sg).
     s \<leftarrow> vals (db_sent_messages d), (l, bt) \<leftarrow> log_times d (sm_LogID s),
     m \<leftarrow> messages_of d (sm_BridgeID s) (sm_MsgHash s),
     sg \<leftarrow> left_join (signed_of d (msg_BridgeID m) (msg_MsgHash m)),
     cm \<leftarrow> left_join (collected_of d (msg_BridgeID m) (msg_MsgHash m)),
     em \<leftarrow> left_join (executed_of d (msg_BridgeID m) (msg_MessageID m)),
     msg_Direction m = DirectionHomeToForeign
     \<and> (cm = None \<or> em = None \<and> msg_DataType m = 0 \<and> msg_Sender m \<in> set (ap_HomeWhitelistedSenders q))
     \<and> sm_BridgeID s = ap_Bridge q \<and> ap_HomeStartBlockNumber q \<le> log_BlockNumber l]"

definition stuck_foreign :: "AlertJobParams \<Rightarrow> database \<Rightarrow> stuck_join list" where
  "stuck_foreign q d = [(s, l, bt, m, sg).
     s \<leftarrow> vals (db_sent_messages d), (l, bt) \<leftarrow> log_times d (sm_LogID s),
     m \<leftarrow> messages_of d (sm_BridgeID s) (sm_MsgHash s),
     sg \<leftarrow> left_join (signed_of d (msg_BridgeID m) (msg_MsgHash m)),
     em \<leftarrow> left_join (executed_of d (msg_BridgeID m) (msg_MessageID m)),
     msg_Direction m = DirectionForeignToHome \<and> em = None
     \<and> sm_BridgeID s = ap_Bridge q \<and> ap_ForeignStartBlockNumber q \<le> log_BlockNumber l]"

definition StuckMessages_rows :: "AlertJobParams \<Rightarrow> time \<Rightarrow> database \<Rightarrow> StuckMessage list" where
  "StuckMessages_rows q now d = remdups (map (stuck_message now) (group_rows stuck_key (stuck_home q d))
     @ map (stuck_message now) (group_rows stuck_key (stuck_foreign q d)))"

definition FindStuckMessages :: "env \<Rightarrow> AlertJobParams \<Rightarrow> (world, StuckMessage list) io" where
  "FindStuckMessages E q = select_rows E (sides_ok q) (StuckMessages_rows q)"

record FailedExecution =
  fe_ChainID :: string
  fe_BlockNumber :: uint
  fe_Age :: int
  fe_TransactionHash :: hash
  fe_Sender :: address
  fe_Executor :: address

definition failed_execution :: "time \<Rightarrow> Message \<Rightarrow> Log \<Rightarrow> BlockTimestamp \<Rightarrow> FailedExecution" where
  "failed_execution now m l bt = \<lparr>fe_ChainID = log_ChainID l, fe_BlockNumber = log_BlockNumber l,
     fe_Age = now - bt_Timestamp bt, fe_TransactionHash = log_TransactionHash l, fe_Sender = msg_Sender m,
     fe_Executor = msg_Executor m\<rparr>"

definition FailedExecutions_rows :: "AlertJobParams \<Rightarrow> time \<Rightarrow> database \<Rightarrow> FailedExecution list" where
  "FailedExecutions_rows q now d = [failed_execution now m l bt.
     m \<leftarrow> vals (db_messages d), e \<leftarrow> executed_of d (msg_BridgeID m) (msg_MessageID m),
     (l, bt) \<leftarrow> log_times d (em_LogID e),
     \<not> em_Status e \<and> msg_DataType m \<in> {0, 128} \<and> em_BridgeID e = ap_Bridge q \<and> (on_home q l \<or> on_foreign q l)]"

definition FindFailedExecutions :: "env \<Rightarrow> AlertJobParams \<Rightarrow> (world, FailedExecution list) io" where
  "FindFailedExecutions E q = select_rows E (sides_ok q) (FailedExecutions_rows q)"

section \<open>Information requests\<close>

record StuckInformationRequest =
  sr_i_ChainID :: string
  sr_i_BlockNumber :: uint
  sr_i_Age :: int
  sr_i_TransactionHash :: hash
  sr_i_MessageID :: hash
  sr_i_Count :: nat

type_synonym request_join =
  "SentInformationRequest \<times> Log \<times> BlockTimestamp \<times> InformationRequest \<times> SignedInformationRequest option"

definition request_join_key :: "request_join \<Rightarrow> uint \<times> (string \<times> hash) \<times> time" where
  "request_join_key = (\<lambda>(s, l, bt, r, sg). (log_ID l, ir_key r, bt_Timestamp bt))"

definition stuck_request :: "time \<Rightarrow> request_join list \<Rightarrow> StuckInformationRequest" where
  "stuck_request now g = (case hd g of (s, l, bt, r, sg) \<Rightarrow>
     \<lparr>sr_i_ChainID = log_ChainID l, sr_i_BlockNumber = log_BlockNumber l, sr_i_Age = now - bt_Timestamp bt,
      sr_i_TransactionHash = log_TransactionHash l, sr_i_MessageID = ir_MessageID r,
      sr_i_Count = count_rows (\<lambda>(s, l, bt, r, sg). sg) g\<rparr>)"

definition stuck_requests :: "AlertJobParams \<Rightarrow> database \<Rightarrow> request_join list" where
  "stuck_requests q d = [(s, l, bt, r, sg).
     s \<leftarrow> vals (db_sent_information_requests d), (l, bt) \<leftarrow> log_times d (sir_LogID s),
     r \<leftarrow> requests_of d (sir_BridgeID s) (sir_MessageID s),
     sg \<leftarrow> left_join (signed_requests_of d (ir_BridgeID r) (ir_MessageID r)),
     er \<leftarrow> left_join (executed_requests_of d (ir_BridgeID r) (ir_MessageID r)),
     er = None \<and> sir_BridgeID s = ap_Bridge q \<and> on_home q l]"

definition FindStuckInformationRequests :: "env \<Rightarrow> AlertJobParams \<Rightarrow> (world, StuckInformationRequest list) io" where
  "FindStuckInformationRequests E q = select_rows E (home_ok q) (\<lambda>now d.
     map (stuck_request now) (group_rows request_join_key (stuck_requests q d)))"

record FailedInformationRequest =
  fr_ChainID :: string
  fr_BlockNumber :: uint
  fr_Age :: int
  fr_TransactionHash :: hash
  fr_Sender :: address
  fr_Executor :: address
  fr_Status :: bool
  fr_CallbackStatus :: bool

definition failed_request :: "time \<Rightarrow> InformationRequest \<Rightarrow> ExecutedInformationRequest \<Rightarrow> Log \<Rightarrow> BlockTimestamp \<Rightarrow>
    FailedInformationRequest" where
  "failed_request now r e l bt = \<lparr>fr_ChainID = log_ChainID l, fr_BlockNumber = log_BlockNumber l,
     fr_Age = now - bt_Timestamp bt, fr_TransactionHash = log_TransactionHash l, fr_Sender = ir_Sender r,
     fr_Executor = ir_Executor r, fr_Status = eir_Status e, fr_CallbackStatus = eir_CallbackStatus e\<rparr>"

definition FindFailedInformationRequests :: "env \<Rightarrow> AlertJobParams \<Rightarrow> (world, FailedInformationRequest list) io" where
  "FindFailedInformationRequests E q = select_rows E (home_ok q) (\<lambda>now d. [failed_request now r e l bt.
     r \<leftarrow> vals (db_information_requests d), e \<leftarrow> executed_requests_of d (ir_BridgeID r) (ir_MessageID r),
     (l, bt) \<leftarrow> log_times d (eir_LogID e),
     (\<not> eir_Status e \<or> \<not> eir_CallbackStatus e) \<and> eir_BridgeID e = ap_Bridge q \<and> on_home q l])"

record DifferentInformationSignature =
  ds_ChainID :: string
  ds_BlockNumber :: uint
  ds_Age :: int
  ds_TransactionHash :: hash
  ds_MessageID :: hash
  ds_Count :: nat

type_synonym answer_join =
  "SentInformationRequest \<times> Log \<times> BlockTimestamp \<times> InformationRequest \<times> SignedInformationRequest"

definition answer_key :: "answer_join \<Rightarrow> uint \<times> (string \<times> hash) \<times> time" where
  "answer_key = (\<lambda>(s, l, bt, r, sg). (log_ID l, ir_key r, bt_Timestamp bt))"

definition answers_given :: "answer_join list \<Rightarrow> byte list list" where
  "answers_given g = remdups (map (\<lambda>(s, l, bt, r, sg). sgir_Data sg) g)"

definition different_answers :: "time \<Rightarrow> answer_join list \<Rightarrow> DifferentInformationSignature" where
  "different_answers now g = (case hd g of (s, l, bt, r, sg) \<Rightarrow>
     \<lparr>ds_ChainID = log_ChainID l, ds_BlockNumber = log_BlockNumber l, ds_Age = now - bt_Timestamp bt,
      ds_TransactionHash = log_TransactionHash l, ds_MessageID = ir_MessageID r,
      ds_Count = length (answers_given g)\<rparr>)"

definition answers_joined :: "AlertJobParams \<Rightarrow> database \<Rightarrow> answer_join list" where
  "answers_joined q d = [(s, l, bt, r, sg).
     s \<leftarrow> vals (db_sent_information_requests d), (l, bt) \<leftarrow> log_times d (sir_LogID s),
     r \<leftarrow> requests_of d (sir_BridgeID s) (sir_MessageID s),
     sg \<leftarrow> signed_requests_of d (ir_BridgeID r) (ir_MessageID r),
     sir_BridgeID s = ap_Bridge q \<and> on_home q l]"

definition FindDifferentInformationSignatures :: "env \<Rightarrow> AlertJobParams \<Rightarrow>
    (world, DifferentInformationSignature list) io" where
  "FindDifferentInformationSignatures E q = select_rows E (home_ok q) (\<lambda>now d.
     map (different_answers now) (filter (\<lambda>g. length (answers_given g) > 1) (group_rows answer_key (answers_joined q d))))"

record UnknownInformationSignature =
  us_ChainID :: string
  us_BlockNumber :: uint
  us_Age :: int
  us_TransactionHash :: hash
  us_Signer :: address
  us_MessageID :: hash

definition unknown_request_signature :: "time \<Rightarrow> SignedInformationRequest \<Rightarrow> Log \<Rightarrow> BlockTimestamp \<Rightarrow>
    UnknownInformationSignature" where
  "unknown_request_signature now s l bt = \<lparr>us_ChainID = log_ChainID l, us_BlockNumber = log_BlockNumber l,
     us_Age = now - bt_Timestamp bt, us_TransactionHash = log_TransactionHash l, us_Signer = sgir_Signer s,
     us_MessageID = sgir_MessageID s\<rparr>"

definition FindUnknownInformationSignatures :: "env \<Rightarrow> AlertJobParams \<Rightarrow> (world, UnknownInformationSignature list) io" where
  "FindUnknownInformationSignatures E q = bindE (findMinProcessedTime E q) (\<lambda>minTS.
     select_rows E (home_ok q) (\<lambda>now d. [unknown_request_signature now s l bt.
       s \<leftarrow> vals (db_signed_information_requests d), (l, bt) \<leftarrow> log_times d (sgir_LogID s),
       r \<leftarrow> left_join (requests_of d (sgir_BridgeID s) (sgir_MessageID s)),
       r = None \<and> sgir_BridgeID s = ap_Bridge q \<and> on_home q l \<and> bt_Timestamp bt \<le> minTS]))"

record UnknownInformationExecution =
  ui_ChainID :: string
  ui_BlockNumber :: uint
  ui_Age :: int
  ui_TransactionHash :: hash
  ui_MessageID :: hash

definition unknown_request_execution :: "time \<Rightarrow> ExecutedInformationRequest \<Rightarrow> Log \<Rightarrow> BlockTimestamp \<Rightarrow>
    UnknownInformationExecution" where
  "unknown_request_execution now e l bt = \<lparr>ui_ChainID = log_ChainID l, ui_BlockNumber = log_BlockNumber l,
     ui_Age = now - bt_Timestamp bt, ui_TransactionHash = log_TransactionHash l, ui_MessageID = eir_MessageID e\<rparr>"

definition FindUnknownInformationExecutions :: "env \<Rightarrow> AlertJobParams \<Rightarrow> (world, UnknownInformationExecution list) io" where
  "FindUnknownInformationExecutions E q = bindE (findMinProcessedTime E q) (\<lambda>minTS.
     select_rows E (home_ok q) (\<lambda>now d. [unknown_request_execution now e l bt.
       e \<leftarrow> vals (db_executed_information_requests d), (l, bt) \<leftarrow> log_times d (eir_LogID e),
       r \<leftarrow> left_join (requests_of d (eir_BridgeID e) (eir_MessageID e)),
       r = None \<and> eir_BridgeID e = ap_Bridge q \<and> on_home q l \<and> bt_Timestamp bt \<le> minTS]))"

section \<open>ERC to native messages\<close>

definition FindUnknownErcToNativeConfirmations :: "env \<Rightarrow> AlertJobParams \<Rightarrow> (world, UnknownConfirmation list) io" where
  "FindUnknownErcToNativeConfirmations E q = bindE (findMinProcessedTime E q) (\<lambda>minTS.
     select_rows E (home_ok q) (\<lambda>now d. [unknown_confirmation now s l bt.
       s \<leftarrow> vals (db_signed_messages d), (l, bt) \<leftarrow> log_times d (sgm_LogID s),
       m \<leftarrow> left_join (erc_messages_of d (sgm_BridgeID s) (sgm_MsgHash s)),
       m = None \<and> sgm_BridgeID s = ap_Bridge q \<and> on_home q l \<and> bt_Timestamp bt \<le> minTS]))"

record UnknownErcToNativeExecution =
  ux_ChainID :: string
  ux_BlockNumber :: uint
  ux_Age :: int
  ux_TransactionHash :: hash
  ux_MsgHash :: hash

definition unknown_erc_execution :: "time \<Rightarrow> ExecutedMessage \<Rightarrow> Log \<Rightarrow> BlockTimestamp \<Rightarrow> UnknownErcToNativeExecution" where
  "unknown_erc_execution now e l bt = \<lparr>ux_ChainID = log_ChainID l, ux_BlockNumber = log_BlockNumber l,
     ux_Age = now - bt_Timestamp bt, ux_TransactionHash = log_TransactionHash l, ux_MsgHash = em_MessageID e\<rparr>"

definition FindUnknownErcToNativeExecutions :: "env \<Rightarrow> AlertJobParams \<Rightarrow> (world, UnknownErcToNativeExecution list) io" where
  "FindUnknownErcToNativeExecutions E q = bindE (findMinProcessedTime E q) (\<lambda>minTS.
     select_rows E (sides_ok q) (\<lambda>now d. [unknown_erc_execution now e l bt.
       e \<leftarrow> vals (db_executed_messages d), (l, bt) \<leftarrow> log_times d (em_LogID e),
       m \<leftarrow> left_join (erc_messages_of d (em_BridgeID e) (em_MessageID e)),
       m = None \<and> em_BridgeID e = ap_Bridge q \<and> (on_home q l \<or> on_foreign q l) \<and> bt_Timestamp bt \<le> minTS]))"

record StuckErcToNativeMessage =
  se_ChainID :: string
  se_BlockNumber :: uint
  se_Age :: int
  se_TransactionHash :: hash
  se_MsgHash :: hash
  se_Count :: nat
  se_Sender :: address
  se_Receiver :: address
  se_Value :: string

type_synonym erc_join = "SentMessage \<times> Log \<times> BlockTimestamp \<times> ErcToNativeMessage \<times> SignedMessage option"

definition erc_join_key :: "erc_join \<Rightarrow> uint \<times> uint \<times> time \<times> string \<times> hash" where
  "erc_join_key = (\<lambda>(s, l, bt, m, sg). (sm_LogID s, log_ID l, bt_Timestamp bt, erc_key m))"

definition stuck_erc :: "(string \<Rightarrow> string) \<Rightarrow> time \<Rightarrow> erc_join list \<Rightarrow> StuckErcToNativeMessage" where
  "stuck_erc D now g = (case hd g of (s, l, bt, m, sg) \<Rightarrow>
     \<lparr>se_ChainID = log_ChainID l, se_BlockNumber = log_BlockNumber l, se_Age = now - bt_Timestamp bt,
      se_TransactionHash = log_TransactionHash l, se_MsgHash = sm_MsgHash s,
      se_Count = count_rows (\<lambda>(s, l, bt, m, sg). sg) g,
      se_Sender = erc_Sender m, se_Receiver = erc_Receiver m, se_Value = D (erc_Value m)\<rparr>)"

definition stuck_erc_home :: "AlertJobParams \<Rightarrow> database \<Rightarrow> erc_join list" where
  "stuck_erc_home q d = [(s, l, bt, m, sg).
     s \<leftarrow> vals (db_sent_messages d), (l, bt) \<leftarrow> log_times d (sm_LogID s),
     m \<leftarrow> erc_messages_of d (sm_BridgeID s) (sm_MsgHash s),
     sg \<leftarrow> left_join (signed_of d (erc_BridgeID m) (erc_MsgHash m)),
     cm \<leftarrow> left_join (collected_of d (erc_BridgeID m) (erc_MsgHash m)),
     erc_Direction m = DirectionHomeToForeign \<and> cm = None
     \<and> sm_BridgeID s = ap_Bridge q \<and> ap_HomeStartBlockNumber q \<le> log_BlockNumber l]"

definition positive_amount :: "string \<Rightarrow> bool" where
  "positive_amount v \<longleftrightarrow> hd v \<noteq> CHR ''-'' \<and> 0 < digits_value 0 v"

definition stuck_erc_foreign :: "AlertJobParams \<Rightarrow> database \<Rightarrow> erc_join list" where
  "stuck_erc_foreign q d = [(s, l, bt, m, sg).
     s \<leftarrow> vals (db_sent_messages d), (l, bt) \<leftarrow> log_times d (sm_LogID s),
     m \<leftarrow> erc_messages_of d (sm_BridgeID s) (sm_MsgHash s),
     sg \<leftarrow> left_join (signed_of d (erc_BridgeID m) (erc_MsgHash m)),
     em \<leftarrow> left_join (executed_of d (erc_BridgeID m) (erc_MsgHash m)),
     erc_Direction m = DirectionForeignToHome \<and> em = None
     \<and> sm_BridgeID s = ap_Bridge q \<and> ap_ForeignStartBlockNumber q \<le> log_BlockNumber l
     \<and> positive_amount (erc_Value m)]"

definition FindStuckErcToNativeMessages :: "(string \<Rightarrow> string) \<Rightarrow> env \<Rightarrow> AlertJobParams \<Rightarrow>
    (world, StuckErcToNativeMessage list) io" where
  "FindStuckErcToNativeMessages D E q = select_rows E (sides_ok q) (\<lambda>now d. remdups
     (map (stuck_erc D now) (group_rows erc_join_key (stuck_erc_home q d))
      @ map (stuck_erc D now) (group_rows erc_join_key (stuck_erc_foreign q d))))"

section \<open>Validators\<close>

record LastValidatorActivity =
  lv_ChainID :: string
  lv_Address :: address
  lv_Age :: int

text \<open>\<open>max\<close> ignores nulls; over nothing it is a null.\<close>

definition sql_max :: "time list \<Rightarrow> time option" where
  "sql_max ts = (if ts = [] then None else Some (Max (set ts)))"

definition last_active :: "database \<Rightarrow> string \<Rightarrow> address \<Rightarrow> time option" where
  "last_active d b signer = sql_max [bt_Timestamp bt. s \<leftarrow> vals (db_signed_messages d),
     sgm_BridgeID s = b \<and> sgm_Signer s = signer, (l, bt) \<leftarrow> log_times d (sgm_LogID s)]"

definition added_time :: "database \<Rightarrow> BridgeValidator \<Rightarrow> time option" where
  "added_time d v = sql_max [bt_Timestamp bt. (l, bt) \<leftarrow> log_times d (bv_LogID v)]"

definition activity :: "database \<Rightarrow> BridgeValidator \<Rightarrow> time option" where
  "activity d v = (case last_active d (bv_BridgeID v) (bv_Address v) of Some t \<Rightarrow> Some t | None \<Rightarrow> added_time d v)"

definition validator_groups :: "AlertJobParams \<Rightarrow> database \<Rightarrow> BridgeValidator list list" where
  "validator_groups q d = filter (\<lambda>g. count_rows bv_RemovedLogID g < length g)
     (group_rows bv_Address (filter (\<lambda>v. bv_BridgeID v = ap_Bridge q) (vals (db_bridge_validators d))))"

definition group_activity :: "database \<Rightarrow> BridgeValidator list \<Rightarrow> time option" where
  "group_activity d g = sql_max (List.map_filter (activity d) g)"

text \<open>An age that is null cannot be read.\<close>

definition FindLastValidatorActivity :: "env \<Rightarrow> AlertJobParams \<Rightarrow> (world, LastValidatorActivity list) io" where
  "FindLastValidatorActivity E q = db_exec E (\<lambda>now d.
     let groups = validator_groups q d in
     (if list_all (\<lambda>g. group_activity d g \<noteq> None) groups
      then Inr (map (\<lambda>g. \<lparr>lv_ChainID = ap_HomeChainID q, lv_Address = bv_Address (hd g),
        lv_Age = now - the (group_activity d g)\<rparr>) groups)
      else Inl (Err ErrDB), d))"

end
