(* ===== verification/Alerts.thy ===== *)
theory Alerts
  imports AlertQueries "HOL-Library.AList"
begin

text \<open>
  \<open>monitor/alerts/job.go\<close>, \<open>alert_manager.go\<close> and \<open>metrics.go\<close>: alert jobs, their metrics,
  and the manager that makes a job of every alert of the configuration.

  The \<open>interface{}\<close> a query returns is a sum of the types of row lists. A value of
  \<open>AlertMetricValues\<close> is a list of keys and texts, as the \<open>json\<close> tags of the row types say. A
  \<open>GaugeVec\<close> of the Prometheus library has a fixed list of label names and a number for every list of
  label values that was set since the last \<open>Reset\<close>; \<open>With\<close> panics unless it gets exactly its label
  names. Intervals and timeouts are in seconds; a timeout shows as a failure of the query.
\<close>

section \<open>Metric values\<close>

type_synonym AlertMetricValues = "(string \<times> string) list"

definition ValueLabelTag :: string where
  "ValueLabelTag = ''_value''"

definition Labels :: "AlertMetricValues \<Rightarrow> (string \<times> string) list" where
  "Labels v = filter (\<lambda>(k, val). k \<noteq> ValueLabelTag) v"

text \<open>\<open>strconv.ParseFloat\<close>, of the decimal text of an integer.\<close>

definition parse_decimal :: "string \<Rightarrow> int" where
  "parse_decimal s = (if s \<noteq> [] \<and> hd s = CHR ''-'' then - int (digits_value 0 (tl s)) else int (digits_value 0 s))"

definition Value :: "AlertMetricValues \<Rightarrow> int" where
  "Value v = (case map_of v ValueLabelTag of None \<Rightarrow> 0 | Some val \<Rightarrow> parse_decimal val)"

section \<open>JSON of the rows\<close>

datatype alerts =
    UnknownConfirmations "UnknownConfirmation list"
  | UnknownExecutions "UnknownExecution list"
  | StuckMessages "StuckMessage list"
  | FailedExecutions "FailedExecution list"
  | StuckInformationRequests "StuckInformationRequest list"
  | FailedInformationRequests "FailedInformationRequest list"
  | DifferentInformationSignatures "DifferentInformationSignature list"
  | UnknownInformationSignatures "UnknownInformationSignature list"
  | UnknownInformationExecutions "UnknownInformationExecution list"
  | UnknownErcToNativeExecutions "UnknownErcToNativeExecution list"
  | StuckErcToNativeMessages "StuckErcToNativeMessage list"
  | LastValidatorActivities "LastValidatorActivity list"

definition uint_text :: "uint \<Rightarrow> string" where
  "uint_text n = decimal_digits (unat n)"

definition bool_text :: "bool \<Rightarrow> string" where
  "bool_text b = (if b then ''true'' else ''false'')"

text \<open>The keys every row has that is about a log.\<close>

definition log_json :: "string \<Rightarrow> uint \<Rightarrow> int \<Rightarrow> hash \<Rightarrow> AlertMetricValues" where
  "log_json chainID blockNumber age txHash = [(''chain_id'', chainID), (''block_number'', uint_text blockNumber),
     (''_value'', big_string age), (''tx_hash'', hash_String txHash)]"

definition UnknownConfirmation_json :: "UnknownConfirmation \<Rightarrow> AlertMetricValues" where
  "UnknownConfirmation_json r = log_json (uc_ChainID r) (uc_BlockNumber r) (uc_Age r) (uc_TransactionHash r)
     @ [(''signer'', address_String (uc_Signer r)), (''msg_hash'', hash_String (uc_MsgHash r))]"

definition UnknownExecution_json :: "UnknownExecution \<Rightarrow> AlertMetricValues" where
  "UnknownExecution_json r = log_json (ue_ChainID r) (ue_BlockNumber r) (ue_Age r) (ue_TransactionHash r)
     @ [(''message_id'', hash_String (ue_MessageID r))]"

definition StuckMessage_json :: "StuckMessage \<Rightarrow> AlertMetricValues" where
  "StuckMessage_json r = log_json (st_ChainID r) (st_BlockNumber r) (st_Age r) (st_TransactionHash r)
     @ [(''msg_hash'', hash_String (st_MsgHash r)), (''count'', decimal_digits (st_Count r))]"

definition FailedExecution_json :: "FailedExecution \<Rightarrow> AlertMetricValues" where
  "FailedExecution_json r = log_json (fe_ChainID r) (fe_BlockNumber r) (fe_Age r) (fe_TransactionHash r)
     @ [(''sender'', address_String (fe_Sender r)), (''executor'', address_String (fe_Executor r))]"

definition StuckInformationRequest_json :: "StuckInformationRequest \<Rightarrow> AlertMetricValues" where
  "StuckInformationRequest_json r = log_json (sr_i_ChainID r) (sr_i_BlockNumber r) (sr_i_Age r) (sr_i_TransactionHash r)
     @ [(''message_id'', hash_String (sr_i_MessageID r)), (''count'', decimal_digits (sr_i_Count r))]"

definition FailedInformationRequest_json :: "FailedInformationRequest \<Rightarrow> AlertMetricValues" where
  "FailedInformationRequest_json r = log_json (fr_ChainID r) (fr_BlockNumber r) (fr_Age r) (fr_TransactionHash r)
     @ [(''sender'', address_String (fr_Sender r)), (''executor'', address_String (fr_Executor r)),
        (''status'', bool_text (fr_Status r)), (''callback_status'', bool_text (fr_CallbackStatus r))]"

definition DifferentInformationSignature_json :: "DifferentInformationSignature \<Rightarrow> AlertMetricValues" where
  "DifferentInformationSignature_json r = log_json (ds_ChainID r) (ds_BlockNumber r) (ds_Age r) (ds_TransactionHash r)
     @ [(''message_id'', hash_String (ds_MessageID r)), (''count'', decimal_digits (ds_Count r))]"

definition UnknownInformationSignature_json :: "UnknownInformationSignature \<Rightarrow> AlertMetricValues" where
  "UnknownInformationSignature_json r = log_json (us_ChainID r) (us_BlockNumber r) (us_Age r) (us_TransactionHash r)
     @ [(''signer'', address_String (us_Signer r)), (''message_id'', hash_String (us_MessageID r))]"

definition UnknownInformationExecution_json :: "UnknownInformationExecution \<Rightarrow> AlertMetricValues" where
  "UnknownInformationExecution_json r = log_json (ui_ChainID r) (ui_BlockNumber r) (ui_Age r) (ui_TransactionHash r)
     @ [(''message_id'', hash_String (ui_MessageID r))]"

definition UnknownErcToNativeExecution_json :: "UnknownErcToNativeExecution \<Rightarrow> AlertMetricValues" where
  "UnknownErcToNativeExecution_json r = log_json (ux_ChainID r) (ux_BlockNumber r) (ux_Age r) (ux_TransactionHash r)
     @ [(''msg_hash'', hash_String (ux_MsgHash r))]"

definition StuckErcToNativeMessage_json :: "StuckErcToNativeMessage \<Rightarrow> AlertMetricValues" where
  "StuckErcToNativeMessage_json r = log_json (se_ChainID r) (se_BlockNumber r) (se_Age r) (se_TransactionHash r)
     @ [(''msg_hash'', hash_String (se_MsgHash r)), (''count'', decimal_digits (se_Count r)),
        (''sender'', address_String (se_Sender r)), (''receiver'', address_String (se_Receiver r)),
        (''value'', se_Value r)]"

definition LastValidatorActivity_json :: "LastValidatorActivity \<Rightarrow> AlertMetricValues" where
  "LastValidatorActivity_json r = [(''chain_id'', lv_ChainID r), (''address'', address_String (lv_Address r)),
     (''_value'', big_string (lv_Age r))]"

fun ConvertToAlertMetricValues :: "alerts \<Rightarrow> AlertMetricValues list" where
  "ConvertToAlertMetricValues (UnknownConfirmations rs) = map UnknownConfirmation_json rs"
| "ConvertToAlertMetricValues (UnknownExecutions rs) = map UnknownExecution_json rs"
| "ConvertToAlertMetricValues (StuckMessages rs) = map StuckMessage_json rs"
| "ConvertToAlertMetricValues (FailedExecutions rs) = map FailedExecution_json rs"
| "ConvertToAlertMetricValues (StuckInformationRequests rs) = map StuckInformationRequest_json rs"
| "ConvertToAlertMetricValues (FailedInformationRequests rs) = map FailedInformationRequest_json rs"
| "ConvertToAlertMetricValues (DifferentInformationSignatures rs) = map DifferentInformationSignature_json rs"
| "ConvertToAlertMetricValues (UnknownInformationSignatures rs) = map UnknownInformationSignature_json rs"
| "ConvertToAlertMetricValues (UnknownInformationExecutions rs) = map UnknownInformationExecution_json rs"
| "ConvertToAlertMetricValues (UnknownErcToNativeExecutions rs) = map UnknownErcToNativeExecution_json rs"
| "ConvertToAlertMetricValues (StuckErcToNativeMessages rs) = map StuckErcToNativeMessage_json rs"
| "ConvertToAlertMetricValues (LastValidatorActivities rs) = map LastValidatorActivity_json rs"

section \<open>Metrics\<close>

record gauge_vec =
  gv_Name :: string
  gv_Bridge :: string
  gv_Labels :: "string list"
  gv_Series :: "(string list \<times> int) list"

definition NewGaugeVec :: "string \<Rightarrow> string \<Rightarrow> string list \<Rightarrow> gauge_vec" where
  "NewGaugeVec name bridge labels = \<lparr>gv_Name = name, gv_Bridge = bridge, gv_Labels = labels, gv_Series = []\<rparr>"

definition Reset :: "gauge_vec \<Rightarrow> gauge_vec" where
  "Reset g = g\<lparr>gv_Series := []\<rparr>"

text \<open>The label values in the order of the label names.\<close>

definition With :: "gauge_vec \<Rightarrow> (string \<times> string) list \<Rightarrow> string list res" where
  "With g labels =
     (if length labels = length (gv_Labels g) \<and> list_all (\<lambda>n. map_of labels n \<noteq> None) (gv_Labels g)
      then Inr (map (\<lambda>n. the (map_of labels n)) (gv_Labels g)) else Inl Panic)"

definition Set_gauge :: "string list \<Rightarrow> int \<Rightarrow> gauge_vec \<Rightarrow> gauge_vec" where
  "Set_gauge values x g = g\<lparr>gv_Series := AList.update values x (gv_Series g)\<rparr>"

fun set_gauges :: "AlertMetricValues list \<Rightarrow> gauge_vec \<Rightarrow> gauge_vec res" where
  "set_gauges [] g = Inr g"
| "set_gauges (v # vs) g = res_bind (With g (Labels v)) (\<lambda>values. set_gauges vs (Set_gauge values (Value v) g))"

definition NewAlertUnknownMessageConfirmation :: "string \<Rightarrow> gauge_vec" where
  "NewAlertUnknownMessageConfirmation bridge = NewGaugeVec ''unknown_message_confirmation'' bridge
     [''chain_id'', ''block_number'', ''tx_hash'', ''signer'', ''msg_hash'']"

definition NewAlertUnknownMessageExecution :: "string \<Rightarrow> gauge_vec" where
  "NewAlertUnknownMessageExecution bridge = NewGaugeVec ''unknown_message_execution'' bridge
     [''chain_id'', ''block_number'', ''tx_hash'', ''message_id'']"

definition NewAlertStuckMessageConfirmation :: "string \<Rightarrow> gauge_vec" where
  "NewAlertStuckMessageConfirmation bridge = NewGaugeVec ''stuck_message_confirmation'' bridge
     [''chain_id'', ''block_number'', ''tx_hash'', ''msg_hash'', ''count'']"

definition NewAlertFailedMessageExecution :: "string \<Rightarrow> gauge_vec" where
  "NewAlertFailedMessageExecution bridge = NewGaugeVec ''failed_message_execution'' bridge
     [''chain_id'', ''block_number'', ''tx_hash'', ''sender'', ''executor'']"

definition NewAlertUnknownInformationSignature :: "string \<Rightarrow> gauge_vec" where
  "NewAlertUnknownInformationSignature bridge = NewGaugeVec ''unknown_information_signature'' bridge
     [''chain_id'', ''block_number'', ''tx_hash'', ''signer'', ''message_id'']"

definition NewAlertUnknownInformationExecution :: "string \<Rightarrow> gauge_vec" where
  "NewAlertUnknownInformationExecution bridge = NewGaugeVec ''unknown_information_execution'' bridge
     [''chain_id'', ''block_number'', ''tx_hash'', ''message_id'']"

definition NewAlertStuckInformationRequest :: "string \<Rightarrow> gauge_vec" where
  "NewAlertStuckInformationRequest bridge = NewGaugeVec ''stuck_information_request'' bridge
     [''chain_id'', ''block_number'', ''tx_hash'', ''message_id'', ''count'']"

definition NewAlertFailedInformationRequest :: "string \<Rightarrow> gauge_vec" where
  "NewAlertFailedInformationRequest bridge = NewGaugeVec ''failed_information_request'' bridge
     [''chain_id'', ''block_number'', ''tx_hash'', ''sender'', ''executor'', ''status'', ''callback_status'']"

definition NewAlertDifferentInformationSignatures :: "string \<Rightarrow> gauge_vec" where
  "NewAlertDifferentInformationSignatures bridge = NewGaugeVec ''different_information_signatures'' bridge
     [''chain_id'', ''block_number'', ''tx_hash'', ''message_id'', ''count'']"

definition NewAlertUnknownErcToNativeMessageConfirmation :: "string \<Rightarrow> gauge_vec" where
  "NewAlertUnknownErcToNativeMessageConfirmation bridge = NewGaugeVec ''unknown_erc_to_native_message_confirmation'' bridge
     [''chain_id'', ''block_number'', ''tx_hash'', ''signer'', ''msg_hash'']"

definition NewAlertUnknownErcToNativeMessageExecution :: "string \<Rightarrow> gauge_vec" where
  "NewAlertUnknownErcToNativeMessageExecution bridge = NewGaugeVec ''unknown_erc_to_native_message_execution'' bridge
     [''chain_id'', ''block_number'', ''tx_hash'', ''msg_hash'']"

definition NewAlertStuckErcToNativeMessageConfirmation :: "string \<Rightarrow> gauge_vec" where
  "NewAlertStuckErcToNativeMessageConfirmation bridge = NewGaugeVec ''stuck_erc_to_native_message_confirmation'' bridge
     [''chain_id'', ''block_number'', ''tx_hash'', ''msg_hash'', ''count'', ''sender'', ''receiver'', ''value'']"

definition NewAlertLastValidatorActivity :: "string \<Rightarrow> gauge_vec" where
  "NewAlertLastValidatorActivity bridge = NewGaugeVec ''last_validator_activity'' bridge [''chain_id'', ''address'']"

section \<open>Jobs\<close>

record Job =
  j_Metric :: gauge_vec
  j_Interval :: nat
  j_Timeout :: nat
  j_Func :: "AlertJobParams \<Rightarrow> (world, alerts) io"
  j_Params :: AlertJobParams

text \<open>One execution of a job: its error, the job with its metric, and the world.\<close>

definition Execute :: "Job \<Rightarrow> bool \<Rightarrow> world \<Rightarrow> (unit res \<times> Job) \<times> world" where
  "Execute j isSynced w =
     (if \<not> isSynced then ((Inr (), j), w)
      else case j_Func j (j_Params j) w of
        (Inl e, w') \<Rightarrow> ((Inl e, j), w')
      | (Inr alerts, w') \<Rightarrow>
          (let metric = Reset (j_Metric j); values = ConvertToAlertMetricValues alerts in
           if values = [] then ((Inr (), j\<lparr>j_Metric := metric\<rparr>), w')
           else case set_gauges values metric of
             Inl e \<Rightarrow> ((Inl e, j\<lparr>j_Metric := metric\<rparr>), w')
           | Inr metric' \<Rightarrow> ((Inr (), j\<lparr>j_Metric := metric'\<rparr>), w')))"

text \<open>
  The loop of a job until its context is cancelled, given what \<open>isSynced\<close> says at each tick: an error is
  logged, a panic ends the process.
\<close>

fun Job_Start :: "bool list \<Rightarrow> Job \<Rightarrow> world \<Rightarrow> (unit res \<times> Job) \<times> world" where
  "Job_Start [] j w = ((Inr (), j), w)"
| "Job_Start (isSynced # ticks) j w = (case Execute j isSynced w of
     ((Inl Panic, j'), w') \<Rightarrow> ((Inl Panic, j'), w')
   | ((_, j'), w') \<Rightarrow> Job_Start ticks j' w')"

section \<open>The manager\<close>

text \<open>The cases of the switch: metric, interval, timeout and query.\<close>

definition new_job :: "gauge_vec \<Rightarrow> nat \<Rightarrow> nat \<Rightarrow> (AlertJobParams \<Rightarrow> (world, alerts) io) \<Rightarrow> AlertJobParams \<Rightarrow> Job" where
  "new_job metric interval timeout func params =
     \<lparr>j_Metric = metric, j_Interval = interval, j_Timeout = timeout, j_Func = func, j_Params = params\<rparr>"

definition alert_jobs :: "(string \<Rightarrow> string) \<Rightarrow> env \<Rightarrow> string \<Rightarrow> (string \<times> (AlertJobParams \<Rightarrow> Job)) list" where
  "alert_jobs D E bridge = [
     (''unknown_message_confirmation'', new_job (NewAlertUnknownMessageConfirmation bridge) 60 10
        (\<lambda>q. fmapE UnknownConfirmations (FindUnknownConfirmations E q))),
     (''unknown_message_execution'', new_job (NewAlertUnknownMessageExecution bridge) 60 10
        (\<lambda>q. fmapE UnknownExecutions (FindUnknownExecutions E q))),
     (''stuck_message_confirmation'', new_job (NewAlertStuckMessageConfirmation bridge) 300 20
        (\<lambda>q. fmapE StuckMessages (FindStuckMessages E q))),
     (''failed_message_execution'', new_job (NewAlertFailedMessageExecution bridge) 300 20
        (\<lambda>q. fmapE FailedExecutions (FindFailedExecutions E q))),
     (''unknown_information_signature'', new_job (NewAlertUnknownInformationSignature bridge) 60 10
        (\<lambda>q. fmapE UnknownInformationSignatures (FindUnknownInformationSignatures E q))),
     (''unknown_information_execution'', new_job (NewAlertUnknownInformationExecution bridge) 60 10
        (\<lambda>q. fmapE UnknownInformationExecutions (FindUnknownInformationExecutions E q))),
     (''stuck_information_request'', new_job (NewAlertStuckInformationRequest bridge) 300 20
        (\<lambda>q. fmapE StuckInformationRequests (FindStuckInformationRequests E q))),
     (''failed_information_request'', new_job (NewAlertFailedInformationRequest bridge) 300 20
        (\<lambda>q. fmapE FailedInformationRequests (FindFailedInformationRequests E q))),
     (''different_information_signatures'', new_job (NewAlertDifferentInformationSignatures bridge) 300 10
        (\<lambda>q. fmapE DifferentInformationSignatures (FindDifferentInformationSignatures E q))),
     (''unknown_erc_to_native_message_confirmation'', new_job (NewAlertUnknownErcToNativeMessageConfirmation bridge) 60 10
        (\<lambda>q. fmapE UnknownConfirmations (FindUnknownErcToNativeConfirmations E q))),
     (''unknown_erc_to_native_message_execution'', new_job (NewAlertUnknownErcToNativeMessageExecution bridge) 60 10
        (\<lambda>q. fmapE UnknownErcToNativeExecutions (FindUnknownErcToNativeExecutions E q))),
     (''stuck_erc_to_native_message_confirmation'', new_job (NewAlertStuckErcToNativeMessageConfirmation bridge) 300 20
        (\<lambda>q. fmapE StuckErcToNativeMessages (FindStuckErcToNativeMessages D E q))),
     (''last_validator_activity'', new_job (NewAlertLastValidatorActivity bridge) 600 20
        (\<lambda>q. fmapE LastValidatorActivities (FindLastValidatorActivity E q)))]"

definition alert_params :: "BridgeConfig \<Rightarrow> BridgeAlertConfig \<Rightarrow> AlertJobParams" where
  "alert_params cfg alertCfg = \<lparr>ap_Bridge = bc_ID cfg, ap_HomeChainID = bs_ChainID (bc_Home cfg),
     ap_ForeignChainID = bs_ChainID (bc_Foreign cfg), ap_HomeStartBlockNumber = al_HomeStartBlock alertCfg,
     ap_ForeignStartBlockNumber = al_ForeignStartBlock alertCfg, ap_HomeBridgeAddress = bs_Address (bc_Home cfg),
     ap_ForeignBridgeAddress = bs_Address (bc_Foreign cfg),
     ap_HomeWhitelistedSenders = bs_WhitelistedSenders (bc_Home cfg)\<rparr>"

type_synonym AlertManager = "(string \<times> Job) list"

definition NewAlertManager :: "(string \<Rightarrow> string) \<Rightarrow> env \<Rightarrow> BridgeConfig \<Rightarrow> AlertManager res" where
  "NewAlertManager D E cfg = map_res (\<lambda>(name, alertCfg).
     case map_of (alert_jobs D E (bc_ID cfg)) name of
       None \<Rightarrow> Inl (Err ErrInvalidConfig)
     | Some job \<Rightarrow> (case alertCfg of
         None \<Rightarrow> Inl Panic
       | Some a \<Rightarrow> Inr (name, job (alert_params cfg a)))) (bc_Alerts cfg)"

text \<open>
  The manager waits for \<open>isSynced\<close>, given what it says every ten seconds until the context is cancelled,
  and then starts every job.
\<close>

definition AlertManager_Start :: "bool list \<Rightarrow> AlertManager \<Rightarrow> AlertManager" where
  "AlertManager_Start isSynced jobs = (if list_ex id isSynced then jobs else [])"

end
