(* ===== verification/AlertFacts.thy ===== *)
theory AlertFacts
  imports Alerts PresenterSearch
begin

text \<open>
  The alerts: no job can panic on its metric, a metric shows the rows of the last answer, and what the rows
  of the alerts about messages and validators say of the tables.
\<close>

section \<open>Labels\<close>

definition labels_fit :: "string list \<Rightarrow> AlertMetricValues \<Rightarrow> bool" where
  "labels_fit names v \<longleftrightarrow> length (Labels v) = length names \<and> list_all (\<lambda>n. map_of (Labels v) n \<noteq> None) names"

definition label_values :: "string list \<Rightarrow> AlertMetricValues \<Rightarrow> string list" where
  "label_values names v = map (\<lambda>n. the (map_of (Labels v) n)) names"

lemma With_fit: "With g (Labels v) = (if labels_fit (gv_Labels g) v then Inr (label_values (gv_Labels g) v) else Inl Panic)"
  by (simp add: With_def labels_fit_def label_values_def)

lemmas row_json_defs = log_json_def UnknownConfirmation_json_def UnknownExecution_json_def StuckMessage_json_def
  FailedExecution_json_def StuckInformationRequest_json_def FailedInformationRequest_json_def
  DifferentInformationSignature_json_def UnknownInformationSignature_json_def UnknownInformationExecution_json_def
  UnknownErcToNativeExecution_json_def StuckErcToNativeMessage_json_def LastValidatorActivity_json_def

lemmas metric_defs = NewGaugeVec_def NewAlertUnknownMessageConfirmation_def NewAlertUnknownMessageExecution_def
  NewAlertStuckMessageConfirmation_def NewAlertFailedMessageExecution_def NewAlertUnknownInformationSignature_def
  NewAlertUnknownInformationExecution_def NewAlertStuckInformationRequest_def NewAlertFailedInformationRequest_def
  NewAlertDifferentInformationSignatures_def NewAlertUnknownErcToNativeMessageConfirmation_def
  NewAlertUnknownErcToNativeMessageExecution_def NewAlertStuckErcToNativeMessageConfirmation_def
  NewAlertLastValidatorActivity_def

text \<open>A job whose query gives rows that fit its metric, and never panics.\<close>

definition fits :: "gauge_vec \<Rightarrow> (world, alerts) io \<Rightarrow> bool" where
  "fits g m \<longleftrightarrow> (\<forall>w. case fst (m w) of Inl e \<Rightarrow> e \<noteq> Panic
     | Inr a \<Rightarrow> list_all (labels_fit (gv_Labels g)) (ConvertToAlertMetricValues a))"

definition job_fits :: "Job \<Rightarrow> bool" where
  "job_fits j \<longleftrightarrow> fits (j_Metric j) (j_Func j (j_Params j))"

definition no_panic :: "(world, 'a) io \<Rightarrow> bool" where
  "no_panic m \<longleftrightarrow> (\<forall>w. fst (m w) \<noteq> Inl Panic)"

lemma no_panic_exec: "(\<And>now d. fst (stmt now d) \<noteq> Inl Panic) \<Longrightarrow> no_panic (db_exec E stmt)"
  by (simp add: no_panic_def db_exec_def Let_def split: prod.split db_fault.split) (metis fst_conv)

lemma no_panic_select: "no_panic (select_rows E ok rows)"
  unfolding select_rows_def by (rule no_panic_exec) simp

lemma no_panic_bindE: "no_panic m \<Longrightarrow> (\<And>a. no_panic (f a)) \<Longrightarrow> no_panic (bindE m f)"
  by (auto simp: no_panic_def bindE_apply split: prod.splits sum.splits) (metis fst_conv)+

lemma no_panic_min: "no_panic (findMinProcessedTime E q)"
  unfolding findMinProcessedTime_def db_query_def by (rule no_panic_exec) (simp add: Let_def)

lemma no_panic_queries:
  "no_panic (FindUnknownConfirmations E q)" "no_panic (FindUnknownExecutions E q)" "no_panic (FindStuckMessages E q)"
  "no_panic (FindFailedExecutions E q)" "no_panic (FindStuckInformationRequests E q)"
  "no_panic (FindFailedInformationRequests E q)" "no_panic (FindDifferentInformationSignatures E q)"
  "no_panic (FindUnknownInformationSignatures E q)" "no_panic (FindUnknownInformationExecutions E q)"
  "no_panic (FindUnknownErcToNativeConfirmations E q)" "no_panic (FindUnknownErcToNativeExecutions E q)"
  "no_panic (FindStuckErcToNativeMessages D E q)" "no_panic (FindLastValidatorActivity E q)"
  unfolding FindUnknownConfirmations_def FindUnknownExecutions_def FindStuckMessages_def FindFailedExecutions_def
    FindStuckInformationRequests_def FindFailedInformationRequests_def FindDifferentInformationSignatures_def
    FindUnknownInformationSignatures_def FindUnknownInformationExecutions_def FindUnknownErcToNativeConfirmations_def
    FindUnknownErcToNativeExecutions_def FindStuckErcToNativeMessages_def FindLastValidatorActivity_def
  by (intro no_panic_bindE no_panic_min no_panic_select no_panic_exec; simp add: Let_def)+

lemma fits_rows:
  assumes "no_panic m" and "\<And>rs. list_all (labels_fit (gv_Labels g)) (ConvertToAlertMetricValues (C rs))"
  shows "fits g (fmapE C m)"
  using assms by (auto simp: fits_def no_panic_def fmapE_def bindE_apply returnE_def split: prod.split sum.split) (metis fst_conv)+

lemma alert_jobs_fit:
  assumes "(name, mk) \<in> set (alert_jobs D E bridge)"
  shows "job_fits (mk q)"
proof -
  have "list_all (\<lambda>(name, mk). job_fits (mk q)) (alert_jobs D E bridge)"
    unfolding alert_jobs_def list.pred_inject prod.case job_fits_def new_job_def Job.simps
    by (intro conjI TrueI fits_rows no_panic_queries)
      (simp_all add: list_all_iff labels_fit_def Labels_def ValueLabelTag_def row_json_defs metric_defs)
  with assms show ?thesis by (auto simp: list_all_iff)
qed

lemma map_res_member: "map_res f xs = Inr ys \<Longrightarrow> y \<in> set ys \<Longrightarrow> \<exists>x \<in> set xs. f x = Inr y"
  by (induction xs arbitrary: ys) (auto simp: res_bind_Inr_iff)

lemma managed_job_fits:
  assumes "NewAlertManager D E cfg = Inr jobs" and "(name, j) \<in> set jobs"
  shows "job_fits j"
proof -
  from map_res_member [OF assms[unfolded NewAlertManager_def]] obtain a where
    "(case map_of (alert_jobs D E (bc_ID cfg)) (fst a) of None \<Rightarrow> Inl (Err ErrInvalidConfig)
      | Some job \<Rightarrow> (case snd a of None \<Rightarrow> Inl Panic
        | Some c \<Rightarrow> Inr (fst a, job (alert_params cfg c)))) = Inr (name, j)"
    by (auto simp: case_prod_beta)
  then obtain mk c where "map_of (alert_jobs D E (bc_ID cfg)) (fst a) = Some mk" "j = mk (alert_params cfg c)"
    by (auto split: option.splits)
  then show ?thesis by (auto dest!: map_of_SomeD intro: alert_jobs_fit)
qed

section \<open>Executions\<close>

definition gauges_of :: "string list \<Rightarrow> AlertMetricValues list \<Rightarrow> (string list \<times> int) list \<Rightarrow> (string list \<times> int) list" where
  "gauges_of names vs = fold (\<lambda>v. AList.update (label_values names v) (Value v)) vs"

lemma set_gauges_fit:
  "list_all (labels_fit (gv_Labels g)) vs \<Longrightarrow>
     set_gauges vs g = Inr (g\<lparr>gv_Series := gauges_of (gv_Labels g) vs (gv_Series g)\<rparr>)"
  by (induction vs arbitrary: g) (simp_all add: With_fit Set_gauge_def gauges_of_def)

lemma Execute_fits:
  assumes "job_fits j"
  shows "Execute j isSynced w = (if \<not> isSynced then ((Inr (), j), w)
    else case j_Func j (j_Params j) w of
      (Inl e, w') \<Rightarrow> ((Inl e, j), w')
    | (Inr a, w') \<Rightarrow> ((Inr (), j\<lparr>j_Metric := (j_Metric j)\<lparr>gv_Series :=
        gauges_of (gv_Labels (j_Metric j)) (ConvertToAlertMetricValues a) []\<rparr>\<rparr>), w'))"
proof (cases "j_Func j (j_Params j) w")
  case (Pair r w')
  show ?thesis
  proof (cases r)
    case (Inr a)
    from assms have "case fst (j_Func j (j_Params j) w) of Inl e \<Rightarrow> e \<noteq> Panic
        | Inr a \<Rightarrow> list_all (labels_fit (gv_Labels (j_Metric j))) (ConvertToAlertMetricValues a)"
      unfolding job_fits_def fits_def by blast
    then have "list_all (labels_fit (gv_Labels (Reset (j_Metric j)))) (ConvertToAlertMetricValues a)"
      by (simp add: Pair Inr Reset_def)
    from set_gauges_fit [OF this] Pair Inr show ?thesis
      by (auto simp: Execute_def Reset_def gauges_of_def Let_def)
  qed (simp add: Pair Execute_def)
qed

lemma Execute_keeps_fits:
  assumes "job_fits j" and "Execute j isSynced w = ((r, j'), w')"
  shows "r \<noteq> Inl Panic \<and> job_fits j'"
proof -
  have "case fst (j_Func j (j_Params j) w) of Inl e \<Rightarrow> e \<noteq> Panic | Inr a \<Rightarrow> True"
    using assms(1) unfolding job_fits_def fits_def by (metis (no_types, lifting) sum.case_eq_if)
  then show ?thesis
    using assms unfolding Execute_fits [OF assms(1)]
    by (auto simp: job_fits_def fits_def split: if_splits prod.splits sum.splits)
qed

text \<open>Property C22. No alert job of an accepted configuration ends in a panic: whatever the answers of the
  database, the rows of every query have exactly the labels of the metric they are shown in. (A panic of a
  goroutine would end the process.)\<close>

theorem alert_jobs_never_panic:
  assumes "NewAlertManager D E cfg = Inr jobs" and "(name, j) \<in> set jobs"
  shows "fst (fst (Job_Start ticks j w)) = Inr ()"
proof -
  have "job_fits j \<Longrightarrow> fst (fst (Job_Start ticks j w)) = Inr ()"
  proof (induction ticks arbitrary: j w)
    case (Cons b ticks)
    obtain r j' w' where ex: "Execute j b w = ((r, j'), w')" by (metis surj_pair)
    from Execute_keeps_fits [OF Cons.prems ex] Cons.IH [of j' w'] ex show ?case
      by (auto split: sum.splits failure.splits)
  qed simp
  with managed_job_fits [OF assms] show ?thesis by blast
qed

lemma gauges_of_entries:
  "distinct (map fst acc) \<Longrightarrow> distinct (map fst (gauges_of names vs acc))
    \<and> fst ` set (gauges_of names vs acc) = fst ` set acc \<union> label_values names ` set vs
    \<and> (\<forall>e \<in> set (gauges_of names vs acc). e \<in> set acc \<or> (\<exists>v \<in> set vs. e = (label_values names v, Value v)))"
proof (induction vs arbitrary: acc)
  case (Cons v vs)
  let ?acc = "AList.update (label_values names v) (Value v) acc"
  have "distinct (map fst ?acc)" by (rule distinct_update [OF Cons.prems])
  moreover have "fst ` set ?acc = insert (label_values names v) (fst ` set acc)" by (induction acc) auto
  moreover have "set ?acc \<subseteq> insert (label_values names v, Value v) (set acc)"
    by (induction acc) auto
  ultimately show ?case using Cons.IH [of ?acc] by (auto simp: gauges_of_def)
qed (simp add: gauges_of_def)

text \<open>Property C23. After an execution that succeeds on a synced monitor, the metric of an alert shows the
  answer of its query and nothing else: one number for the labels of every row, which is the age of a row with
  these labels. When it fails, or the monitor is not synced, the metric stays as it was.\<close>

theorem alert_metric_shows_answer:
  assumes "NewAlertManager D E cfg = Inr jobs" and "(name, j) \<in> set jobs"
    and "Execute j isSynced w = ((r, j'), w')"
  shows "(case (isSynced, fst (j_Func j (j_Params j) w)) of
      (True, Inr a) \<Rightarrow> (let names = gv_Labels (j_Metric j); vs = ConvertToAlertMetricValues a; gs = gv_Series (j_Metric j') in
        r = Inr () \<and> distinct (map fst gs) \<and> fst ` set gs = label_values names ` set vs
        \<and> list_all (\<lambda>g. list_ex (\<lambda>v. g = (label_values names v, Value v)) vs) gs)
    | _ \<Rightarrow> j' = j)"
proof -
  note ex = assms(3)[unfolded Execute_fits [OF managed_job_fits [OF assms(1,2)]]]
  show ?thesis
  proof (cases isSynced)
    case True
    show ?thesis
    proof (cases "fst (j_Func j (j_Params j) w)")
      case (Inl e)
      with True ex show ?thesis by (auto split: prod.splits)
    next
      case (Inr a)
      have "gv_Series (j_Metric j') = gauges_of (gv_Labels (j_Metric j)) (ConvertToAlertMetricValues a) []" "r = Inr ()"
        using ex True Inr by (auto split: prod.splits)
      with gauges_of_entries [of "[]" "gv_Labels (j_Metric j)" "ConvertToAlertMetricValues a"] True Inr
      show ?thesis by (auto simp: Let_def list_all_iff list_ex_iff)
    qed
  qed (use ex in auto)
qed

section \<open>Answers\<close>

lemma left_join_None [simp]: "None \<in> set (left_join rows) \<longleftrightarrow> rows = []"
  by (auto simp: left_join_def)

lemma left_join_Some [simp]: "Some r \<in> set (left_join rows) \<longleftrightarrow> r \<in> set rows"
  by (auto simp: left_join_def)

lemma left_join_Nil [simp]: "left_join [] = [None]"
  by (simp add: left_join_def)

lemma select_rows_Inr:
  "select_rows E ok rows w = (Inr rs, w') \<longleftrightarrow> ok \<and> env_db E (w_tick w) = DbOk
     \<and> rs = rows (env_clock E (w_tick w)) (w_db w) \<and> w' = w\<lparr>w_tick := Suc (w_tick w)\<rparr>"
  by (cases w) (auto simp: select_rows_def db_exec_def Let_def split: db_fault.splits if_splits)

lemma log_times_in: "(l, bt) \<in> set (log_times d i) \<longleftrightarrow> l \<in> set (vals (db_logs d)) \<and> log_ID l = i
    \<and> bt \<in> set (vals (db_block_timestamps d)) \<and> ts_key bt = (log_ChainID l, log_BlockNumber l)"
  by (auto simp: log_times_def ts_key_def)

text \<open>A time that both sides of the bridge have processed, as far as the time of their last block is known.\<close>

definition processed_until :: "AlertJobParams \<Rightarrow> database \<Rightarrow> time \<Rightarrow> bool" where
  "processed_until q d t \<longleftrightarrow> list_all (\<lambda>c.
     cursor_key c \<in> {(ap_HomeChainID q, ap_HomeBridgeAddress q), (ap_ForeignChainID q, ap_ForeignBridgeAddress q)} \<longrightarrow>
     list_all (\<lambda>bt. ts_key bt = (lc_ChainID c, lc_LastProcessedBlock c) \<longrightarrow> t \<le> bt_Timestamp bt)
       (vals (db_block_timestamps d))) (vals (db_logs_cursors d))"

lemma processed_times_in:
  "t \<in> set (processed_times q d) \<longleftrightarrow> (\<exists>c \<in> set (vals (db_logs_cursors d)). min_cursor q c \<and>
     (\<exists>bt \<in> set (vals (db_block_timestamps d)). ts_key bt = (lc_ChainID c, lc_LastProcessedBlock c) \<and> t = bt_Timestamp bt))"
  by (auto simp: processed_times_def ts_key_def)

lemma findMinProcessedTime_Inr:
  assumes "findMinProcessedTime E q w = (Inr t, w')"
  shows "processed_until q (w_db w) t \<and> w_db w' = w_db w \<and> t = Min (set (processed_times q (w_db w)))"
proof -
  from assms have t: "t = Min (set (processed_times q (w_db w)))" and same: "w_db w' = w_db w"
    by (auto simp: findMinProcessedTime_def db_query_Inr Let_def split: if_splits)
  have "t \<le> x" if "x \<in> set (processed_times q (w_db w))" for x using that by (simp add: t)
  moreover have "min_cursor q c" if "cursor_key c \<in> {(ap_HomeChainID q, ap_HomeBridgeAddress q),
      (ap_ForeignChainID q, ap_ForeignBridgeAddress q)}" for c
    using that by (auto simp: min_cursor_def cursor_key_def)
  ultimately have "processed_until q (w_db w) t"
    by (auto simp: processed_until_def list_all_iff processed_times_in)
  with same t show ?thesis by blast
qed

definition message_known :: "database \<Rightarrow> string \<Rightarrow> hash \<Rightarrow> bool" where
  "message_known d b i \<longleftrightarrow> list_ex (\<lambda>m. msg_BridgeID m = b \<and> msg_MessageID m = i) (vals (db_messages d))"

lemma anti_join: "concat (map (\<lambda>m. if m = None \<and> P then [y] else []) (left_join xs)) = (if xs = [] \<and> P then [y] else [])"
  by (cases xs) (simp_all add: left_join_def comp_def)

lemma UnknownExecutions_rows_in:
  "r \<in> set (UnknownExecutions_rows q t now d) \<longleftrightarrow> (\<exists>e \<in> set (vals (db_executed_messages d)).
     \<exists>(l, bt) \<in> set (log_times d (em_LogID e)). r = unknown_execution now e l bt
       \<and> \<not> message_known d (em_BridgeID e) (em_MessageID e) \<and> em_BridgeID e = ap_Bridge q
       \<and> (on_home q l \<or> on_foreign q l) \<and> bt_Timestamp bt \<le> t)"
  unfolding UnknownExecutions_rows_def anti_join
  by (simp add: message_known_def list_ex_iff filter_empty_conv case_prod_beta Bex_def split: if_splits) blast

text \<open>Property C24. The alert of unknown executions reports an execution exactly when no message with its
  identifier is in the database, and its block is not later than the least time up to which the selected cursors
  have been processed, the cursors of both sides of the bridge among them: an execution is not reported while its message may still be on the way.\<close>

theorem unknown_executions_listed:
  assumes "FindUnknownExecutions E q w = (Inr rs, w')"
  shows "\<exists>t now. processed_until q (w_db w) t \<and> t = Min (set (processed_times q (w_db w)))
    \<and> set rs = {unknown_execution now e l bt | e l bt. e \<in> set (vals (db_executed_messages (w_db w)))
        \<and> (l, bt) \<in> set (log_times (w_db w) (em_LogID e)) \<and> em_BridgeID e = ap_Bridge q
        \<and> (on_home q l \<or> on_foreign q l) \<and> bt_Timestamp bt \<le> t
        \<and> \<not> message_known (w_db w) (ap_Bridge q) (em_MessageID e)}"
proof -
  from assms obtain t w1 where t: "findMinProcessedTime E q w = (Inr t, w1)"
    and rs: "select_rows E (sides_ok q) (UnknownExecutions_rows q t) w1 = (Inr rs, w')"
    by (auto simp: FindUnknownExecutions_def bindE_Inr_iff)
  note min = findMinProcessedTime_Inr [OF t]
  let ?now = "env_clock E (w_tick w1)"
  have "rs = UnknownExecutions_rows q t ?now (w_db w)" using rs min by (simp add: select_rows_Inr)
  then have "set rs = {unknown_execution ?now e l bt | e l bt. e \<in> set (vals (db_executed_messages (w_db w)))
        \<and> (l, bt) \<in> set (log_times (w_db w) (em_LogID e)) \<and> em_BridgeID e = ap_Bridge q
        \<and> (on_home q l \<or> on_foreign q l) \<and> bt_Timestamp bt \<le> t
        \<and> \<not> message_known (w_db w) (ap_Bridge q) (em_MessageID e)}"
    by (simp add: set_eq_iff UnknownExecutions_rows_in Bex_def) metis
  with min show ?thesis by blast
qed

lemma UnknownConfirmations_rows_in:
  "r \<in> set (UnknownConfirmations_rows q t now d) \<Longrightarrow> \<exists>s \<in> set (vals (db_signed_messages d)).
     uc_MsgHash r = sgm_MsgHash s \<and> messages_of d (ap_Bridge q) (sgm_MsgHash s) = []"
  unfolding UnknownConfirmations_rows_def anti_join
  by (auto simp: unknown_confirmation_def split: if_splits)

lemma request_stored:
  assumes "(h, decode) \<in> set (request_handlers G E bh)" and "h log data w = (Inr (), w1)"
  shows "\<exists>enc m0 m. as_bytes data ''encodedData'' = Inr enc \<and> decode log enc = Inr m0 \<and> msg_key m = msg_key m0
    \<and> msg_BridgeID m = beh_bridgeID bh \<and> m \<in> set (vals (db_messages (w_db w1)))"
proof -
  from request_handlers_store [OF assms] obtain enc m0 s where
    enc: "as_bytes data ''encodedData'' = Inr enc" "decode log enc = Inr m0" "msg_BridgeID m0 = beh_bridgeID bh" and
    run: "bindE (Messages_Ensure E m0) (\<lambda>_. SentMessages_Ensure E s) w = (Inr (), w1)" by blast
  from run obtain u wm where 1: "Messages_Ensure E m0 w = (Inr u, wm)" and 2: "SentMessages_Ensure E s wm = (Inr (), w1)"
    by (rule bindE_InrE)
  have "db_messages (w_db w1) = db_messages (w_db wm)" by (subst SentMessages_Ensure_Inr(1) [OF 2]) simp
  moreover from Messages_Ensure_Inr(3) [OF 1] obtain m where "m \<in> set (vals (db_messages (w_db wm)))" "msg_key m = msg_key m0"
    by (auto simp: has_key_def list_ex_iff)
  ultimately show ?thesis using enc by (auto simp: msg_key_def)
qed

text \<open>Property C25. A message that a handler has recorded is known from then on: neither its signatures nor
  its execution are reported by the alerts of unknown confirmations and executions, then or later.\<close>

theorem handled_message_not_unknown:
  assumes "(h, decode) \<in> set (request_handlers G E bh)" and "h log data w = (Inr (), w1)"
    and "db_le (w_db w1) (w_db w2)" and "ap_Bridge q = beh_bridgeID bh"
  shows "\<exists>enc m0 m. as_bytes data ''encodedData'' = Inr enc \<and> decode log enc = Inr m0 \<and> msg_key m = msg_key m0
    \<and> m \<in> set (vals (db_messages (w_db w1)))
    \<and> (case fst (FindUnknownConfirmations E' q w2) of Inl e \<Rightarrow> True
        | Inr rs \<Rightarrow> list_all (\<lambda>r. uc_MsgHash r \<noteq> msg_MsgHash m) rs)
    \<and> (case fst (FindUnknownExecutions E' q w2) of Inl e \<Rightarrow> True
        | Inr rs \<Rightarrow> list_all (\<lambda>r. ue_MessageID r \<noteq> msg_MessageID m) rs)"
proof -
  from request_stored [OF assms(1,2)] obtain enc m0 m where
    enc: "as_bytes data ''encodedData'' = Inr enc" "decode log enc = Inr m0" "msg_key m = msg_key m0" and
    m: "msg_BridgeID m = ap_Bridge q" "m \<in> set (vals (db_messages (w_db w1)))" using assms(4) by auto
  have m2: "m \<in> set (vals (db_messages (w_db w2)))" using m(2) assms(3) by (auto simp: db_le_def dest: tbl_le_idD)
  have conf: "uc_MsgHash r \<noteq> msg_MsgHash m" if run: "FindUnknownConfirmations E' q w2 = (Inr rs, w')" and r: "r \<in> set rs" for rs r w'
  proof -
    from run obtain t wa where t: "findMinProcessedTime E' q w2 = (Inr t, wa)"
      and rs: "select_rows E' (home_ok q) (UnknownConfirmations_rows q t) wa = (Inr rs, w')"
      by (auto simp: FindUnknownConfirmations_def bindE_Inr_iff)
    from rs r findMinProcessedTime_Inr [OF t] have "r \<in> set (UnknownConfirmations_rows q t (env_clock E' (w_tick wa)) (w_db w2))"
      by (simp add: select_rows_Inr)
    from UnknownConfirmations_rows_in [OF this] m(1) m2 show ?thesis by (auto simp: messages_of_def filter_empty_conv)
  qed
  have exec: "ue_MessageID r \<noteq> msg_MessageID m" if run: "FindUnknownExecutions E' q w2 = (Inr rs, w')" and r: "r \<in> set rs" for rs r w'
  proof -
    from run obtain t wa where t: "findMinProcessedTime E' q w2 = (Inr t, wa)"
      and rs: "select_rows E' (sides_ok q) (UnknownExecutions_rows q t) wa = (Inr rs, w')"
      by (auto simp: FindUnknownExecutions_def bindE_Inr_iff)
    from rs r findMinProcessedTime_Inr [OF t] have "r \<in> set (UnknownExecutions_rows q t (env_clock E' (w_tick wa)) (w_db w2))"
      by (simp add: select_rows_Inr)
    then show ?thesis
      using m(1) m2 by (auto simp: UnknownExecutions_rows_in message_known_def list_ex_iff unknown_execution_def)
  qed
  have "case fst (FindUnknownConfirmations E' q w2) of Inl e \<Rightarrow> True
      | Inr rs \<Rightarrow> list_all (\<lambda>r. uc_MsgHash r \<noteq> msg_MsgHash m) rs"
    using conf by (cases "FindUnknownConfirmations E' q w2") (auto simp: list_all_iff split: sum.split)
  moreover have "case fst (FindUnknownExecutions E' q w2) of Inl e \<Rightarrow> True
      | Inr rs \<Rightarrow> list_all (\<lambda>r. ue_MessageID r \<noteq> msg_MessageID m) rs"
    using exec by (cases "FindUnknownExecutions E' q w2") (auto simp: list_all_iff split: sum.split)
  ultimately show ?thesis using enc m(2) by blast
qed

end
