(* ===== verification/Monitor.thy ===== *)
theory Monitor
  imports IndexerInvariant AlertFacts
begin

text \<open>
  \<open>monitor/monitor.go\<close> and \<open>cmd/monitor/main.go\<close>: the monitor of a bridge, made of the contract
  monitors of its two sides and its alert manager, and the choice of the bridges a process monitors.

  \<open>NewContractMonitor\<close> stores the address of the validator contract in the configuration it was given
  by pointer, so the configuration of the bridge changes with it. The goroutines \<open>Monitor.Start\<close> starts
  are those of theory \<open>Indexer\<close>, for either side, and \<open>AlertManager_Start\<close>.
\<close>

section \<open>Monitors\<close>

record Monitor =
  mo_cfg :: BridgeConfig
  mo_homeMonitor :: ContractMonitor
  mo_foreignMonitor :: ContractMonitor
  mo_home :: progress
  mo_foreign :: progress
  mo_alertManager :: AlertManager

definition NewMonitor ::
  "(string \<Rightarrow> string) \<Rightarrow> geth \<Rightarrow> env \<Rightarrow> byte list res \<Rightarrow> BridgeConfig \<Rightarrow> node \<Rightarrow> node \<Rightarrow> (world, Monitor) io" where
  "NewMonitor D G E calldata cfg homeClient foreignClient =
     bindE (NewContractMonitor G E calldata cfg (bc_Home cfg) homeClient) (\<lambda>(home, hp).
     let cfg = cfg\<lparr>bc_Home := mon_cfg home\<rparr> in
     bindE (NewContractMonitor G E calldata cfg (bc_Foreign cfg) foreignClient) (\<lambda>(foreign, fp).
     let cfg = cfg\<lparr>bc_Foreign := mon_cfg foreign\<rparr> in
     bindE (liftE (NewAlertManager D E cfg)) (\<lambda>alertManager.
     let home = home\<lparr>mon_bridgeCfg := cfg, mon_eventHandlers := fst (registered G E cfg homeClient)\<rparr>;
         foreign = foreign\<lparr>mon_bridgeCfg := cfg, mon_eventHandlers := snd (registered G E cfg homeClient)\<rparr>
     in bindE (liftE (VerifyEventHandlersABI (mon_ABI home) (mon_eventHandlers home))) (\<lambda>_.
     bindE (liftE (VerifyEventHandlersABI (mon_ABI foreign) (mon_eventHandlers foreign))) (\<lambda>_.
     returnE \<lparr>mo_cfg = cfg, mo_homeMonitor = home, mo_foreignMonitor = foreign, mo_home = hp,
       mo_foreign = fp, mo_alertManager = alertManager\<rparr>)))))"

definition IsSynced :: "Monitor \<Rightarrow> bool" where
  "IsSynced m = (pg_isSynced (mo_home m) \<and> pg_isSynced (mo_foreign m))"

section \<open>The process\<close>

text \<open>
  The bridges left in the configuration: the disabled ones are deleted, then the map is made anew of the
  enabled ones, when there is such a list. The entry of an enabled bridge that is not in the map is a nil
  pointer, which is dereferenced when its monitor is made. A logged fatal error ends the process, as an error
  does here.
\<close>

definition monitoredBridges :: "Config \<Rightarrow> (string \<times> BridgeConfig option) list" where
  "monitoredBridges cfg =
     (let bridges = filter (\<lambda>(bridgeID, b). bridgeID \<notin> set (cfg_DisabledBridges cfg)) (cfg_Bridges cfg) in
      case cfg_EnabledBridges cfg of
        None \<Rightarrow> map (\<lambda>(bridgeID, b). (bridgeID, Some b)) bridges
      | Some enabled \<Rightarrow> map (\<lambda>bridgeID. (bridgeID, map_of bridges bridgeID)) (remdups enabled))"

definition startMonitor ::
  "(RPCConfig \<Rightarrow> node) \<Rightarrow> (string \<Rightarrow> string) \<Rightarrow> geth \<Rightarrow> env \<Rightarrow> byte list res \<Rightarrow> BridgeConfig option \<Rightarrow>
    (world, Monitor) io" where
  "startMonitor dial D G E calldata bridge =
     (case bridge of
       None \<Rightarrow> failE Panic
     | Some bridgeCfg \<Rightarrow>
         bindE (sideClient dial (bc_Home bridgeCfg)) (\<lambda>homeClient.
         bindE (sideClient dial (bc_Foreign bridgeCfg)) (\<lambda>foreignClient.
         NewMonitor D G E calldata bridgeCfg homeClient foreignClient)))"

fun startMonitors ::
  "(RPCConfig \<Rightarrow> node) \<Rightarrow> (string \<Rightarrow> string) \<Rightarrow> geth \<Rightarrow> env \<Rightarrow> byte list res \<Rightarrow>
    (string \<times> BridgeConfig option) list \<Rightarrow> (world, Monitor list) io" where
  "startMonitors dial D G E calldata [] = returnE []"
| "startMonitors dial D G E calldata ((bridgeID, bridge) # bridges) =
     bindE (startMonitor dial D G E calldata bridge) (\<lambda>m.
     bindE (startMonitors dial D G E calldata bridges) (\<lambda>ms.
     returnE (m # ms)))"

section \<open>What start-up makes\<close>

definition alert_names :: "string set" where
  "alert_names = {''unknown_message_confirmation'', ''unknown_message_execution'', ''stuck_message_confirmation'',
     ''failed_message_execution'', ''unknown_information_signature'', ''unknown_information_execution'',
     ''stuck_information_request'', ''failed_information_request'', ''different_information_signatures'',
     ''unknown_erc_to_native_message_confirmation'', ''unknown_erc_to_native_message_execution'',
     ''stuck_erc_to_native_message_confirmation'', ''last_validator_activity''}"

lemma alert_jobs_names: "fst ` set (alert_jobs D E b) = alert_names"
  by (simp add: alert_jobs_def alert_names_def)

text \<open>The validator contract of a side: as configured, or as the bridge contract answered.\<close>

definition resolved_side :: "BridgeSideConfig \<Rightarrow> BridgeSideConfig \<Rightarrow> bool" where
  "resolved_side cfg cfg' \<longleftrightarrow> cfg' = cfg\<lparr>bs_ValidatorContractAddress := bs_ValidatorContractAddress cfg'\<rparr>
     \<and> (bs_ValidatorContractAddress cfg \<noteq> 0 \<longrightarrow> cfg' = cfg)"

definition resolved :: "BridgeConfig \<Rightarrow> BridgeConfig \<Rightarrow> bool" where
  "resolved cfg cfg' \<longleftrightarrow> cfg' = cfg\<lparr>bc_Home := bc_Home cfg', bc_Foreign := bc_Foreign cfg'\<rparr>
     \<and> resolved_side (bc_Home cfg) (bc_Home cfg') \<and> resolved_side (bc_Foreign cfg) (bc_Foreign cfg')"

text \<open>The cursor a side goes on from: the saved one of its chain and address, and only where there is none the one before
  the start block. Nothing of the head is known yet.\<close>

definition saved_cursor :: "BridgeSideConfig \<Rightarrow> database \<Rightarrow> LogsCursor option" where
  "saved_cursor cfg d = find (own_cursor cfg) (vals (db_logs_cursors d))"

definition starts_at :: "BridgeSideConfig \<Rightarrow> database \<Rightarrow> progress \<Rightarrow> bool" where
  "starts_at cfg d p \<longleftrightarrow>
     p = initialProgress (case saved_cursor cfg d of Some c \<Rightarrow> c | None \<Rightarrow> initialCursor cfg)"

lemma first_row_filter: "first_row (filter P xs) = (case find P xs of None \<Rightarrow> Inl (Err ErrNotFound) | Some x \<Rightarrow> Inr x)"
  by (induction xs) (auto simp: first_row_def)

lemma readCursor_saved:
  assumes "readCursor E cfg w = (Inr c, w')"
  shows "c = (case saved_cursor cfg (w_db w) of Some c \<Rightarrow> c | None \<Rightarrow> initialCursor cfg)"
proof -
  have own: "(\<lambda>c. lc_ChainID c = bs_ChainID cfg \<and> lc_Address c = bs_Address cfg) = own_cursor cfg"
    by (simp add: own_cursor_def cursor_key_def fun_eq_iff)
  have "sideChainID cfg = Inr (bs_ChainID cfg)"
    using assms by (auto simp: readCursor_def bindE_liftE_Inr sideChainID_Inr)
  then show ?thesis
    using assms
    by (auto simp: readCursor_def bindE_apply IgnoreErrNotFound_def LogsCursors_GetByChainIDAndAddress_def own first_row_filter
        saved_cursor_def db_query_def db_exec_def Let_def split: db_fault.splits option.splits if_splits)
qed

lemma ValidatorContractAddress_db:
  "ValidatorContractAddress G N calldata a w = (r, w') \<Longrightarrow> w_db w' = w_db w"
  by (auto simp: ValidatorContractAddress_def bindE_apply Contract_Call_def CallContract_def rpc_def split: sum.splits prod.splits)

lemma NewContractMonitor_Inr:
  assumes "NewContractMonitor G E calldata bridgeCfg cfg client w = (Inr (m, p), w')"
  shows "w_db w' = w_db w \<and> resolved_side cfg (mon_cfg m) \<and> starts_at (mon_cfg m) (w_db w) p
    \<and> m = \<lparr>mon_bridgeCfg = bridgeCfg, mon_cfg = mon_cfg m, mon_client = client,
        mon_ABI = getBridgeABI G (bc_BridgeMode bridgeCfg), mon_eventHandlers = []\<rparr>"
proof -
  let ?ask = "if bs_ValidatorContractAddress cfg = 0
            then ValidatorContractAddress G client calldata (bs_Address cfg)
            else returnE (bs_ValidatorContractAddress cfg)"
  from assms obtain v w1 c where v: "?ask w = (Inr v, w1)"
    and c: "readCursor E (cfg\<lparr>bs_ValidatorContractAddress := v\<rparr>) w1 = (Inr c, w')"
    and m: "m = \<lparr>mon_bridgeCfg = bridgeCfg, mon_cfg = cfg\<lparr>bs_ValidatorContractAddress := v\<rparr>, mon_client = client,
        mon_ABI = getBridgeABI G (bc_BridgeMode bridgeCfg), mon_eventHandlers = []\<rparr>" and p: "p = initialProgress c"
    unfolding NewContractMonitor_def by (auto simp: bindE_Inr_iff Let_def)
  have "w_db w1 = w_db w" using v ValidatorContractAddress_db by (fastforce split: if_splits)
  moreover have "resolved_side cfg (cfg\<lparr>bs_ValidatorContractAddress := v\<rparr>)"
    using v by (auto simp: resolved_side_def split: if_splits)
  ultimately show ?thesis
    using readCursor_Inr(1) [OF c] readCursor_saved [OF c] by (simp add: m p starts_at_def)
qed

lemma map_res_list_all2: "map_res f xs = Inr ys \<Longrightarrow> list_all2 (\<lambda>x y. f x = Inr y) xs ys"
  by (induction xs arbitrary: ys) (auto simp: res_bind_Inr_iff)

lemma NewAlertManager_names:
  assumes "NewAlertManager D E cfg = Inr jobs"
  shows "map fst jobs = map fst (bc_Alerts cfg)" and "fst ` set (bc_Alerts cfg) \<subseteq> alert_names"
proof -
  let ?f = "\<lambda>(name, alertCfg). case map_of (alert_jobs D E (bc_ID cfg)) name of
       None \<Rightarrow> Inl (Err ErrInvalidConfig)
     | Some job \<Rightarrow> (case alertCfg of None \<Rightarrow> Inl Panic | Some a \<Rightarrow> Inr (name, job (alert_params cfg a)))"
  have known: "fst j = fst a \<and> fst a \<in> alert_names" if "?f a = Inr j" for a j
    using that by (auto simp: alert_jobs_names [of D E "bc_ID cfg", symmetric] split: prod.splits option.splits
        dest!: map_of_SomeD intro: rev_image_eqI)
  have "list_all2 (\<lambda>a j. fst j = fst a \<and> fst a \<in> alert_names) (bc_Alerts cfg) jobs"
    by (rule list_all2_mono [OF map_res_list_all2 [OF assms[unfolded NewAlertManager_def]]]) (rule known)
  then show "map fst jobs = map fst (bc_Alerts cfg)" "fst ` set (bc_Alerts cfg) \<subseteq> alert_names"
    by (induction) auto
qed

lemma monitor_made:
  assumes "NewMonitor D G E calldata cfg homeClient foreignClient w = (Inr mon, w')"
  shows "resolved cfg (mo_cfg mon) \<and> mo_homeMonitor mon = homeMonitor G E (mo_cfg mon) homeClient
    \<and> mo_foreignMonitor mon = foreignMonitor G E (mo_cfg mon) homeClient foreignClient
    \<and> starts_at (bc_Home (mo_cfg mon)) (w_db w) (mo_home mon)
    \<and> starts_at (bc_Foreign (mo_cfg mon)) (w_db w) (mo_foreign mon)
    \<and> map fst (mo_alertManager mon) = map fst (bc_Alerts cfg) \<and> fst ` set (bc_Alerts cfg) \<subseteq> alert_names
    \<and> w_db w' = w_db w"
proof -
  obtain home hp w1 foreign fp w2 alertManager where
    home: "NewContractMonitor G E calldata cfg (bc_Home cfg) homeClient w = (Inr (home, hp), w1)"
    and foreign: "NewContractMonitor G E calldata (cfg\<lparr>bc_Home := mon_cfg home\<rparr>) (bc_Foreign cfg) foreignClient w1
        = (Inr (foreign, fp), w2)"
    and alerts: "NewAlertManager D E (cfg\<lparr>bc_Home := mon_cfg home, bc_Foreign := mon_cfg foreign\<rparr>) = Inr alertManager"
    and mon: "mon = (let cfg = cfg\<lparr>bc_Home := mon_cfg home, bc_Foreign := mon_cfg foreign\<rparr> in
      \<lparr>mo_cfg = cfg,
       mo_homeMonitor = home\<lparr>mon_bridgeCfg := cfg, mon_eventHandlers := fst (registered G E cfg homeClient)\<rparr>,
       mo_foreignMonitor = foreign\<lparr>mon_bridgeCfg := cfg, mon_eventHandlers := snd (registered G E cfg homeClient)\<rparr>,
       mo_home = hp, mo_foreign = fp, mo_alertManager = alertManager\<rparr>)"
    and w': "w' = w2"
    using assms unfolding NewMonitor_def by (auto simp: bindE_Inr_iff liftE_def Let_def)
  note h = NewContractMonitor_Inr [OF home] and f = NewContractMonitor_Inr [OF foreign]
    and a = NewAlertManager_names [OF alerts]
  from h have "home\<lparr>mon_bridgeCfg := c, mon_eventHandlers := hs\<rparr> = \<lparr>mon_bridgeCfg = c, mon_cfg = mon_cfg home,
      mon_client = homeClient, mon_ABI = getBridgeABI G (bc_BridgeMode cfg), mon_eventHandlers = hs\<rparr>" for c hs
    by (cases home) simp
  moreover from f have "foreign\<lparr>mon_bridgeCfg := c, mon_eventHandlers := hs\<rparr> = \<lparr>mon_bridgeCfg = c,
      mon_cfg = mon_cfg foreign, mon_client = foreignClient, mon_ABI = getBridgeABI G (bc_BridgeMode cfg),
      mon_eventHandlers = hs\<rparr>" for c hs
    by (cases foreign) simp
  ultimately show ?thesis using h f a
    by (simp add: mon w' Let_def resolved_def homeMonitor_def foreignMonitor_def)
qed

text \<open>Property C19. A monitor that starts has the two contract monitors of the configuration with the addresses of the validator
  contracts filled in, with all the handlers of the mode of the bridge; each resumes at the cursor that is saved for
  its side, and only where none is saved before the start block. It has one job for every alert of the configuration, all of known types.
  Making it changes nothing in the database.\<close>

theorem monitor_starts:
  assumes "NewMonitor D G E calldata cfg homeClient foreignClient w = (Inr mon, w')"
  shows "resolved cfg (mo_cfg mon) \<and> mo_homeMonitor mon = homeMonitor G E (mo_cfg mon) homeClient
    \<and> mo_foreignMonitor mon = foreignMonitor G E (mo_cfg mon) homeClient foreignClient
    \<and> starts_at (bc_Home (mo_cfg mon)) (w_db w) (mo_home mon)
    \<and> starts_at (bc_Foreign (mo_cfg mon)) (w_db w) (mo_foreign mon)
    \<and> map fst (mo_alertManager mon) = map fst (bc_Alerts cfg) \<and> fst ` set (bc_Alerts cfg) \<subseteq> alert_names
    \<and> w_db w' = w_db w"
  by (rule monitor_made [OF assms])

section \<open>Which bridges are monitored\<close>

definition chosen :: "Config \<Rightarrow> string \<Rightarrow> bool" where
  "chosen cfg bridgeID \<longleftrightarrow> bridgeID \<in> fst ` set (cfg_Bridges cfg) \<and> bridgeID \<notin> set (cfg_DisabledBridges cfg)
     \<and> (case cfg_EnabledBridges cfg of None \<Rightarrow> True | Some enabled \<Rightarrow> bridgeID \<in> set enabled)"

lemma startMonitors_rel:
  "startMonitors dial D G E calldata bs w = (Inr ms, w') \<Longrightarrow>
     list_all2 (\<lambda>(bridgeID, b) m. \<exists>cfg. b = Some cfg \<and> bc_ID (mo_cfg m) = bc_ID cfg) bs ms"
proof (induction dial D G E calldata bs arbitrary: w ms rule: startMonitors.induct)
  case (2 dial D G E calldata bridgeID bridge bridges)
  from "2.prems" obtain m ms' w1 where ms: "ms = m # ms'"
    and m: "startMonitor dial D G E calldata bridge w = (Inr m, w1)"
    and rest: "startMonitors dial D G E calldata bridges w1 = (Inr ms', w')"
    by (auto simp: bindE_Inr_iff)
  from m obtain cfg hc fc w2 where cfg: "bridge = Some cfg" and run: "NewMonitor D G E calldata cfg hc fc w2 = (Inr m, w1)"
    by (auto simp: startMonitor_def bindE_Inr_iff failE_def split: option.splits)
  from run have "bc_ID (mo_cfg m) = bc_ID cfg"
    by (auto simp: NewMonitor_def Let_def bindE_Inr_iff liftE_def)
  with "2.IH" [OF rest] show ?case by (simp add: ms cfg)
qed simp

lemma startMonitors_chosen:
  assumes "distinct (map fst (cfg_Bridges cfg))" and "list_all (\<lambda>(bridgeID, b). bc_ID b = bridgeID) (cfg_Bridges cfg)"
    and "startMonitors dial D G E calldata (monitoredBridges cfg) w = (Inr ms, w')"
  shows "map (\<lambda>m. bc_ID (mo_cfg m)) ms = map fst (monitoredBridges cfg) \<and> set (map (\<lambda>m. bc_ID (mo_cfg m)) ms) = {bridgeID. chosen cfg bridgeID}
    \<and> distinct (map (\<lambda>m. bc_ID (mo_cfg m)) ms)
    \<and> list_all (chosen cfg) (case cfg_EnabledBridges cfg of None \<Rightarrow> [] | Some enabled \<Rightarrow> enabled)"
proof -
  let ?bridges = "filter (\<lambda>(bridgeID, b). bridgeID \<notin> set (cfg_DisabledBridges cfg)) (cfg_Bridges cfg)"
  have dist: "distinct (map fst ?bridges)" using assms(1) by (simp add: distinct_map_filter)
  have named: "bc_ID b = i" if "(i, b) \<in> set ?bridges" for i b using assms(2) that by (auto simp: list_all_iff)
  have entry: "\<exists>c. snd e = Some c \<and> (fst e, c) \<in> set ?bridges \<and> bc_ID (mo_cfg m) = fst e"
    if "(e, m) \<in> set (zip (monitoredBridges cfg) ms)" for e m
  proof -
    from startMonitors_rel [OF assms(3)] that obtain c where c: "snd e = Some c" "bc_ID (mo_cfg m) = bc_ID c"
      by (auto simp: list_all2_iff case_prod_beta)
    moreover have "(fst e, c) \<in> set ?bridges"
      using set_zip_leftD [of "fst e" "snd e"] that c(1)
      by (auto simp: monitoredBridges_def Let_def dest!: set_zip_leftD map_of_SomeD split: option.splits)
    ultimately show ?thesis using named by auto
  qed
  have len: "length (monitoredBridges cfg) = length ms"
    using startMonitors_rel [OF assms(3)] by (rule list_all2_lengthD)
  have ids: "map (\<lambda>m. bc_ID (mo_cfg m)) ms = map fst (monitoredBridges cfg)"
    by (rule nth_equalityI) (use len entry in \<open>fastforce simp: set_zip\<close>)+
  show ?thesis
  proof (cases "cfg_EnabledBridges cfg")
    case None
    with dist show ?thesis unfolding ids
      by (auto simp: monitoredBridges_def chosen_def comp_def case_prod_beta image_iff)
  next
    case (Some enabled)
    have "(i, b) \<in> set ?bridges \<Longrightarrow> chosen cfg i" if "i \<in> set enabled" for i b
      using that by (force simp: chosen_def Some)
    moreover have "\<exists>b. (i, b) \<in> set ?bridges" if "i \<in> set enabled" for i
    proof -
      from that have "i \<in> set (map fst (monitoredBridges cfg))" by (simp add: monitoredBridges_def Some comp_def)
      then obtain n where "n < length ms" "fst (monitoredBridges cfg ! n) = i" by (auto simp: in_set_conv_nth len)
      with entry [of "monitoredBridges cfg ! n" "ms ! n"] len show ?thesis by (auto simp: set_zip)
    qed
    ultimately have all: "list_all (chosen cfg) enabled" unfolding list_all_iff by blast
    then have "set enabled = {i. chosen cfg i}" by (auto simp: list_all_iff chosen_def Some)
    with all show ?thesis unfolding ids by (simp add: monitoredBridges_def Some comp_def)
  qed
qed

text \<open>Making a monitor dereferences the chains of both sides.\<close>

definition has_chains :: "BridgeConfig \<Rightarrow> bool" where
  "has_chains cfg \<longleftrightarrow> bs_Chain (bc_Home cfg) \<noteq> None \<and> bs_Chain (bc_Foreign cfg) \<noteq> None"

lemma NewContractMonitor_chain:
  "NewContractMonitor G E calldata bridgeCfg cfg client w = (Inr (m, p), w') \<Longrightarrow> bs_Chain (mon_cfg m) \<noteq> None"
  by (auto simp: NewContractMonitor_def bindE_Inr_iff Let_def readCursor_def bindE_liftE_Inr sideChainID_Inr)

lemma NewMonitor_chains:
  assumes "NewMonitor D G E calldata cfg homeClient foreignClient w = (Inr mon, w')"
  shows "has_chains (mo_cfg mon)"
  using assms NewContractMonitor_chain
  by (fastforce simp: NewMonitor_def bindE_Inr_iff liftE_def Let_def has_chains_def)

lemma startMonitors_chains:
  "startMonitors dial D G E calldata bs w = (Inr ms, w') \<Longrightarrow> list_all (\<lambda>m. has_chains (mo_cfg m)) ms"
proof (induction dial D G E calldata bs arbitrary: w ms rule: startMonitors.induct)
  case (2 dial D G E calldata bridgeID bridge bridges)
  from "2.prems" obtain m ms' w1 where ms: "ms = m # ms'"
    and m: "startMonitor dial D G E calldata bridge w = (Inr m, w1)"
    and rest: "startMonitors dial D G E calldata bridges w1 = (Inr ms', w')"
    by (auto simp: bindE_Inr_iff)
  from m have "has_chains (mo_cfg m)"
    by (auto simp: startMonitor_def bindE_Inr_iff failE_def dest: NewMonitor_chains split: option.splits)
  with "2.IH" [OF rest] show ?case by (simp add: ms)
qed simp

text \<open>The process monitors exactly the bridges of the configuration that are not disabled and, when there is a
  list of enabled bridges, that are in it; each once. When that list names a bridge that is not configured, or is also
  disabled, no monitor is started at all.\<close>

theorem bridges_started:
  assumes "distinct (map fst (cfg_Bridges cfg))" and "list_all (\<lambda>(bridgeID, b). bc_ID b = bridgeID) (cfg_Bridges cfg)"
    and "startMonitors dial D G E calldata (monitoredBridges cfg) w = (Inr ms, w')"
  shows "set (map (\<lambda>m. bc_ID (mo_cfg m)) ms) = {bridgeID. chosen cfg bridgeID}
    \<and> distinct (map (\<lambda>m. bc_ID (mo_cfg m)) ms)
    \<and> list_all (chosen cfg) (case cfg_EnabledBridges cfg of None \<Rightarrow> [] | Some enabled \<Rightarrow> enabled)"
  using startMonitors_chosen [OF assms] by blast

end
