(* ===== verification/Reprocess.thy ===== *)
theory Reprocess
  imports Monitor IndexerSteps
begin

text \<open>
  \<open>ProcessBlockRange\<close> of \<open>monitor/contract_monitor.go\<close> with its goroutines, and the arguments of
  \<open>cmd/reprocess_block_range/main.go\<close>: blocks that were processed before are fetched and processed again.

  Here the two channels also carry nil, which the goroutines skip: the caller puts one before the ranges and the
  sender of the ranges one behind them, and the caller takes an empty channel as a sign that all before the last
  nil has been dealt with. A step is an attempt to fetch a range, to get a timestamp, to process a batch or to
  record it, or a channel operation; the process may be cancelled, and other processes work on the same database.
\<close>

section \<open>The goroutines\<close>

datatype fetch_task = RtIdle | RtFetch BlocksRange | RtSend "LogsBatch list"

text \<open>A batch with what is done: its timestamp, its logs.\<close>

datatype batch_task = BtIdle | BtRun LogsBatch bool bool | BtRecord LogsBatch

datatype main_task = MtFetching | MtStub | MtProcessing | MtReturned "unit res" | MtCancelled

record reprocess =
  rp_w :: world
  rp_p :: progress
  rp_ranges :: "BlocksRange option list"
  rp_logs :: "LogsBatch option list"
  rp_sender :: "BlocksRange option list"
  rp_fetcher :: fetch_task
  rp_processor :: batch_task
  rp_main :: main_task

definition rp_running :: "reprocess \<Rightarrow> bool" where
  "rp_running s \<longleftrightarrow> (case rp_main s of MtReturned r \<Rightarrow> False | MtCancelled \<Rightarrow> False | _ \<Rightarrow> True)"

text \<open>The call: the check, the first nil, the sender with what it will send, if the splitting returns.\<close>

definition ProcessBlockRange :: "ContractMonitor \<Rightarrow> uint \<Rightarrow> uint \<Rightarrow> progress \<Rightarrow> world \<Rightarrow> reprocess" where
  "ProcessBlockRange m fromBlock toBlock p w =
     (let s = \<lparr>rp_w = w, rp_p = p, rp_ranges = [], rp_logs = [], rp_sender = [], rp_fetcher = RtIdle,
        rp_processor = BtIdle, rp_main = MtFetching\<rparr> in
      if toBlock > lc_LastProcessedBlock (pg_logsCursor p)
      then s\<lparr>rp_main := MtReturned (Inl (Err ErrInvalidConfig))\<rparr>
      else s\<lparr>rp_ranges := [None],
        rp_sender := (case SplitBlockRange fromBlock toBlock (bs_MaxBlockRangeSize (mon_cfg m)) of
          None \<Rightarrow> [] | Some batches \<Rightarrow> map Some batches @ [None])\<rparr>)"

inductive rp_step :: "abilib \<Rightarrow> geth \<Rightarrow> env \<Rightarrow> ContractMonitor \<Rightarrow> reprocess \<Rightarrow> reprocess \<Rightarrow> bool"
  for L :: abilib and G :: geth and E :: env and m :: ContractMonitor where
  SendRange: "rp_sender s = x # xs \<Longrightarrow> length (rp_ranges s) < defaultBlockRangesChanCap \<Longrightarrow>
    rp_step L G E m s (s\<lparr>rp_ranges := rp_ranges s @ [x], rp_sender := xs\<rparr>)"
| SkipRange: "rp_fetcher s = RtIdle \<Longrightarrow> rp_ranges s = None # rs \<Longrightarrow>
    rp_step L G E m s (s\<lparr>rp_ranges := rs\<rparr>)"
| TakeRange: "rp_fetcher s = RtIdle \<Longrightarrow> rp_ranges s = Some r # rs \<Longrightarrow>
    rp_step L G E m s (s\<lparr>rp_ranges := rs, rp_fetcher := RtFetch r\<rparr>)"
| Fetch: "rp_fetcher s = RtFetch r \<Longrightarrow> tryToFetchLogs G E m r (rp_p s, rp_w s) = (Inr bs, (p', w')) \<Longrightarrow>
    rp_step L G E m s (s\<lparr>rp_p := p', rp_w := w', rp_fetcher := RtSend bs\<rparr>)"
| FetchFails: "rp_fetcher s = RtFetch r \<Longrightarrow> tryToFetchLogs G E m r (rp_p s, rp_w s) = (Inl e, (p', w')) \<Longrightarrow>
    rp_step L G E m s (s\<lparr>rp_p := p', rp_w := w'\<rparr>)"
| SendBatch: "rp_fetcher s = RtSend (b # bs) \<Longrightarrow> length (rp_logs s) < defaultLogsChanCap \<Longrightarrow>
    rp_step L G E m s (s\<lparr>rp_logs := rp_logs s @ [Some b], rp_fetcher := RtSend bs\<rparr>)"
| Submitted: "rp_fetcher s = RtSend [] \<Longrightarrow> rp_step L G E m s (s\<lparr>rp_fetcher := RtIdle\<rparr>)"
| SkipBatch: "rp_processor s = BtIdle \<Longrightarrow> rp_logs s = None # bs \<Longrightarrow>
    rp_step L G E m s (s\<lparr>rp_logs := bs\<rparr>)"
| TakeBatch: "rp_processor s = BtIdle \<Longrightarrow> rp_logs s = Some b # bs \<Longrightarrow>
    rp_step L G E m s (s\<lparr>rp_logs := bs, rp_processor := BtRun b False False\<rparr>)"
| Timestamp: "rp_processor s = BtRun b False pd \<Longrightarrow>
    tryToGetBlockTimestamp E m (lb_BlockNumber b) (rp_w s) = (r, w') \<Longrightarrow>
    rp_step L G E m s (s\<lparr>rp_w := w', rp_processor := BtRun b (r = Inr ()) pd\<rparr>)"
| Process: "rp_processor s = BtRun b ts False \<Longrightarrow> tryToProcessLogsBatch L m b (rp_w s) = (Inr u, w') \<Longrightarrow>
    rp_step L G E m s (s\<lparr>rp_w := w', rp_processor := BtRun b ts True\<rparr>)"
| ProcessFails: "rp_processor s = BtRun b ts False \<Longrightarrow> tryToProcessLogsBatch L m b (rp_w s) = (Inl (Err e), w') \<Longrightarrow>
    rp_step L G E m s (s\<lparr>rp_w := w'\<rparr>)"
| ProcessPanics: "rp_processor s = BtRun b ts False \<Longrightarrow> tryToProcessLogsBatch L m b (rp_w s) = (Inl Panic, w') \<Longrightarrow>
    rp_step L G E m s (s\<lparr>rp_w := w', rp_main := MtReturned (Inl Panic)\<rparr>)"
| Processed: "rp_processor s = BtRun b True True \<Longrightarrow> rp_step L G E m s (s\<lparr>rp_processor := BtRecord b\<rparr>)"
| Record: "rp_processor s = BtRecord b \<Longrightarrow>
    recordProcessedBlockNumber E (lb_BlockNumber b) (rp_p s, rp_w s) = (Inr u, (p', w')) \<Longrightarrow>
    rp_step L G E m s (s\<lparr>rp_p := p', rp_w := w', rp_processor := BtIdle\<rparr>)"
| RecordFails: "rp_processor s = BtRecord b \<Longrightarrow>
    recordProcessedBlockNumber E (lb_BlockNumber b) (rp_p s, rp_w s) = (Inl e, (p', w')) \<Longrightarrow>
    rp_step L G E m s (s\<lparr>rp_p := p', rp_w := w'\<rparr>)"
| FetchedAll: "rp_main s = MtFetching \<Longrightarrow> rp_ranges s = [] \<Longrightarrow> rp_step L G E m s (s\<lparr>rp_main := MtStub\<rparr>)"
| SendStub: "rp_main s = MtStub \<Longrightarrow> length (rp_logs s) < defaultLogsChanCap \<Longrightarrow>
    rp_step L G E m s (s\<lparr>rp_logs := rp_logs s @ [None], rp_main := MtProcessing\<rparr>)"
| ProcessedAll: "rp_main s = MtProcessing \<Longrightarrow> rp_logs s = [] \<Longrightarrow>
    rp_step L G E m s (s\<lparr>rp_main := MtReturned (Inr ())\<rparr>)"
| Cancel: "rp_step L G E m s (s\<lparr>rp_main := MtCancelled\<rparr>)"

text \<open>Runs: steps while the caller has not returned, and what others do to the database at any time.\<close>

inductive rp_run :: "abilib \<Rightarrow> geth \<Rightarrow> env \<Rightarrow> ContractMonitor \<Rightarrow> RpcLog list \<Rightarrow> reprocess \<Rightarrow> reprocess \<Rightarrow> bool"
  for L :: abilib and G :: geth and E :: env and m :: ContractMonitor and chain :: "RpcLog list" where
  Refl: "rp_run L G E m chain s s"
| Step: "rp_run L G E m chain s s' \<Longrightarrow> rp_running s' \<Longrightarrow> rp_step L G E m s' s'' \<Longrightarrow> rp_run L G E m chain s s''"
| Others: "rp_run L G E m chain s s' \<Longrightarrow> db_le (w_db (rp_w s')) d' \<Longrightarrow>
    (honest (bs_ChainID (mon_cfg m)) chain (w_db (rp_w s')) \<longrightarrow> honest (bs_ChainID (mon_cfg m)) chain d') \<Longrightarrow>
    rp_run L G E m chain s (s'\<lparr>rp_w := \<lparr>w_db = d', w_tick = t'\<rparr>\<rparr>)"

section \<open>The arguments of the command\<close>

text \<open>The bridge is looked up before the numbers are checked; a fatal message ends the process.\<close>

definition reprocessArgs ::
  "Config \<Rightarrow> string \<Rightarrow> bool \<Rightarrow> bool \<Rightarrow> uint \<Rightarrow> uint \<Rightarrow> (BridgeConfig \<times> bool \<times> uint \<times> uint) res" where
  "reprocessArgs cfg bridgeID home foreign fromBlock toBlock =
     (if bridgeID = [] \<or> home = foreign then Inl (Err ErrInvalidConfig)
      else case map_of (cfg_Bridges cfg) bridgeID of
        None \<Rightarrow> Inl (Err ErrInvalidConfig)
      | Some bridgeCfg \<Rightarrow>
          (let sideCfg = (if home then bc_Home bridgeCfg else bc_Foreign bridgeCfg);
               fromBlock = (if fromBlock < bs_StartBlock sideCfg then bs_StartBlock sideCfg else fromBlock)
           in if toBlock = 0 \<or> toBlock < fromBlock then Inl (Err ErrInvalidConfig)
              else Inr (bridgeCfg, home, fromBlock, toBlock)))"

text \<open>The call goes to the contract monitor of the side that was asked for.\<close>

definition Monitor_ProcessBlockRange :: "Monitor \<Rightarrow> bool \<Rightarrow> uint \<Rightarrow> uint \<Rightarrow> world \<Rightarrow> reprocess" where
  "Monitor_ProcessBlockRange mon home fromBlock toBlock =
     (if home then ProcessBlockRange (mo_homeMonitor mon) fromBlock toBlock (mo_home mon)
      else ProcessBlockRange (mo_foreignMonitor mon) fromBlock toBlock (mo_foreign mon))"

text \<open>The command from its clients, one for either chain as in the monitor process, to the start of the call.\<close>

definition reprocessBlockRange ::
  "(RPCConfig \<Rightarrow> node) \<Rightarrow> (string \<Rightarrow> string) \<Rightarrow> geth \<Rightarrow> env \<Rightarrow> byte list res \<Rightarrow>
    BridgeConfig \<times> bool \<times> uint \<times> uint \<Rightarrow> (world, reprocess) io" where
  "reprocessBlockRange dial D G E calldata = (\<lambda>(bridgeCfg, home, fromBlock, toBlock).
     bindE (startMonitor dial D G E calldata (Some bridgeCfg)) (\<lambda>mon w.
     (Inr (Monitor_ProcessBlockRange mon home fromBlock toBlock w), w)))"

section \<open>Processing a batch\<close>

lemma processLogs_handled:
  assumes h: "log_handler (processLog L m) H"
  shows "processLogs L m ls w = (r, w') \<Longrightarrow> grows w w' \<and> same_logs w w' \<and> (r = Inr () \<longrightarrow> list_all (\<lambda>l. H l (w_db w')) ls)"
proof (induction ls arbitrary: w)
  case (Cons l ls)
  note keep = keepsE_apply [OF log_handler.handle_grows [OF h]] keepsE_apply [OF log_handler.handle_same [OF h]]
  obtain a w1 where run: "processLog L m l w = (a, w1)" by fastforce
  show ?case
  proof (cases a)
    case (Inl e)
    with Cons.prems run keep [OF run] show ?thesis by (auto simp: bindE_apply)
  next
    case (Inr u)
    with Cons.prems run have rest: "processLogs L m ls w1 = (r, w')" by (simp add: bindE_apply)
    note ih = Cons.IH [OF rest]
    have "H l (w_db w1)" using run Inr log_handler.handle_ok [OF h] by blast
    then have "H l (w_db w')" using ih log_handler.handled_mono [OF h] grows_le by blast
    with ih keep [OF run] show ?thesis
      by (auto simp: same_logs_def intro: grows_trans)
  qed
qed (simp add: returnE_def)

lemma tryToProcess_handled:
  assumes "log_handler (processLog L m) H" and "tryToProcessLogsBatch L m b w = (r, w')"
  shows "grows w w' \<and> same_logs w w' \<and> (r = Inr () \<longrightarrow> list_all (\<lambda>l. H l (w_db w')) (lb_Logs b))"
  using processLogs_handled [OF assms(1)] assms(2) by (simp add: tryToProcessLogsBatch_def)

section \<open>What is on its way\<close>

definition rp_queue :: "reprocess \<Rightarrow> LogsBatch list" where
  "rp_queue s = (case rp_processor s of BtRun b ts pd \<Rightarrow> if pd then [] else [b] | _ \<Rightarrow> [])
     @ List.map_filter id (rp_logs s) @ (case rp_fetcher s of RtSend bs \<Rightarrow> bs | _ \<Rightarrow> [])"

definition ranges_left :: "reprocess \<Rightarrow> BlocksRange list" where
  "ranges_left s = (case rp_fetcher s of RtFetch r \<Rightarrow> [r] | _ \<Rightarrow> []) @ List.map_filter id (rp_ranges s @ rp_sender s)"

definition range_covered :: "goal_setting \<Rightarrow> database \<Rightarrow> LogsBatch list \<Rightarrow> BlocksRange \<Rightarrow> bool" where
  "range_covered g d Q r \<longleftrightarrow> (\<forall>rl \<in> gs_wanted g. br_From r \<le> rl_BlockNumber rl \<longrightarrow> rl_BlockNumber rl \<le> br_To r \<longrightarrow>
     done_log (gs_handled g) (gs_chain_id g) d rl \<or> queued (gs_chain_id g) Q rl)"

text \<open>Of the ranges \<open>rs\<close> of the call, every one is still to be fetched, or its logs are handled or on their way.\<close>

definition rp_inv :: "goal_setting \<Rightarrow> BridgeSideConfig \<Rightarrow> RpcLog list \<Rightarrow> BlocksRange list \<Rightarrow> reprocess \<Rightarrow> bool" where
  "rp_inv g cfg chain rs s \<longleftrightarrow> honest (bs_ChainID cfg) chain (w_db (rp_w s)) \<and> rows_in (w_db (rp_w s)) (rp_queue s)
     \<and> list_all range_ok (ranges_left s)
     \<and> list_all (\<lambda>r. r \<in> set (ranges_left s) \<or> range_covered g (w_db (rp_w s)) (rp_queue s) r) rs"

lemma map_filter_id [simp]: "List.map_filter id [] = []" "List.map_filter id (None # xs) = List.map_filter id xs"
  "List.map_filter id (Some x # xs) = x # List.map_filter id xs"
  "List.map_filter id (xs @ ys) = List.map_filter id xs @ List.map_filter id ys"
  by (simp_all add: List.map_filter_def)

lemma map_filter_Some [simp]: "List.map_filter id (map Some xs) = xs"
  by (induction xs) simp_all

lemma range_covered_grow:
  assumes "handled_stays g" "range_covered g d Q r" "db_le d d'" "set Q \<subseteq> set Q'"
  shows "range_covered g d' Q' r"
  using assms done_log_grow unfolding range_covered_def queued_def by blast

lemma rp_inv_grow:
  assumes "handled_stays g" "rp_inv g cfg chain rs s" "db_le (w_db (rp_w s)) d'" "honest (bs_ChainID cfg) chain d'"
    and "w_db (rp_w s') = d'" "rp_queue s' = rp_queue s" "ranges_left s' = ranges_left s"
  shows "rp_inv g cfg chain rs s'"
  using assms range_covered_grow [OF assms(1) _ assms(3) order_refl]
  by (auto simp: rp_inv_def list_all_iff intro: rows_in_grow)

text \<open>Steps that only move things around.\<close>

lemma rp_inv_moved:
  assumes "rp_inv g cfg chain rs s" "rp_w s' = rp_w s" "rp_queue s' = rp_queue s" "ranges_left s' = ranges_left s"
  shows "rp_inv g cfg chain rs s'"
  using assms by (simp add: rp_inv_def)

text \<open>A batch is handled, a range is fetched.\<close>

lemma batch_handled:
  assumes inv: "rp_inv g cfg chain rs s" and g: "handled_stays g" and le: "db_le (w_db (rp_w s)) d'"
    and hon: "honest (bs_ChainID cfg) chain d'" and q: "rp_queue s = b # rp_queue s'" and db: "w_db (rp_w s') = d'"
    and left: "ranges_left s' = ranges_left s" and done_: "list_all (\<lambda>l. gs_handled g l d') (lb_Logs b)"
  shows "rp_inv g cfg chain rs s'"
proof -
  let ?d = "w_db (rp_w s)"
  from inv have rows: "rows_in ?d (b # rp_queue s')" by (simp add: rp_inv_def q)
  have "range_covered g d' (rp_queue s') r" if r: "range_covered g ?d (b # rp_queue s') r" for r
  proof -
    from range_covered_grow [OF g r le order_refl] have c: "range_covered g d' (b # rp_queue s') r" .
    have "set (lb_Logs b) \<subseteq> set (vals (db_logs d'))" using rows_in_grow [OF rows le] by (simp add: rows_in_def)
    then have "done_log (gs_handled g) (gs_chain_id g) d' rl" if "l \<in> set (lb_Logs b)" "saved_as (gs_chain_id g) l rl" for l rl
      using that done_ by (auto simp: done_log_def list_all_iff)
    with c show ?thesis unfolding range_covered_def queued_def by auto
  qed
  with inv rows_in_grow [OF rows le] hon show ?thesis
    unfolding rp_inv_def db left q by (auto simp: list_all_iff rows_in_def)
qed

lemma submit_queued:
  assumes "fetched g d r logs"
  shows "rows_in d (submitLogs logs (br_To r))" and "range_covered g d (submitLogs logs (br_To r)) r"
proof -
  let ?B = "submitLogs logs (br_To r)"
  from assms have bt: "batchable logs" "list_all (\<lambda>l. log_BlockNumber l \<le> br_To r) logs"
    and sub: "set logs \<subseteq> set (vals (db_logs d))" by (simp_all add: fetched_def)
  from submitLogs_props [OF bt] have conc: "concat (map lb_Logs ?B) = logs" by simp
  show "rows_in d ?B" using submit_rows [OF bt] sub by (auto simp: rows_in_def)
  have "\<exists>b \<in> set ?B. l \<in> set (lb_Logs b)" if "l \<in> set logs" for l
    using that arg_cong [OF conc, of set] by auto
  with assms show "range_covered g d ?B r" unfolding range_covered_def fetched_def queued_def by blast
qed

lemma recordFetched_same:
  assumes "recordFetchedBlockNumber E n (p, w) = (r, (p', w'))"
  shows "grows w w' \<and> db_logs (w_db w') = db_logs (w_db w)"
  using assms LogsCursors_Ensure_effect(1) keepsE_apply [OF LogsCursors_Ensure_grows]
  by (auto simp: recordFetchedBlockNumber_def saveCursor_def Let_def split: option.splits prod.splits)

lemma recordProcessed_same:
  assumes "recordProcessedBlockNumber E n (p, w) = (r, (p', w'))"
  shows "grows w w' \<and> db_logs (w_db w') = db_logs (w_db w)"
  using assms LogsCursors_Ensure_effect(1) keepsE_apply [OF LogsCursors_Ensure_grows]
  by (auto simp: recordProcessedBlockNumber_def saveCursor_def Let_def split: option.splits prod.splits)

lemma tryToFetch_effect:
  assumes ok: "setting_ok G m chain" and hon: "honest (bs_ChainID (mon_cfg m)) chain (w_db w)" and r: "range_ok r"
    and run: "tryToFetchLogs G E m r (p, w) = (res, (p', w'))"
  shows "db_le (w_db w) (w_db w') \<and> honest (bs_ChainID (mon_cfg m)) chain (w_db w')
    \<and> (\<forall>bs. res = Inr bs \<longrightarrow> (\<exists>logs. bs = submitLogs logs (br_To r) \<and> fetched (goals G m chain handled) (w_db w') r logs))"
proof -
  obtain a w1 where fetch: "fetchAndSaveLogs G E m r w = (a, w1)" by fastforce
  have rr: "unat (br_To r) < 2 ^ 63" "br_From r \<le> br_To r" using r by (auto simp: range_ok_def)
  have le1: "db_le (w_db w) (w_db w1)" by (rule grows_le [OF keepsE_apply [OF fetchAndSaveLogs_grows fetch]])
  note hon1 = fetchAndSave_frame(2) [OF ok hon rr(1) fetch]
  show ?thesis
  proof (cases a)
    case (Inl e)
    with run fetch le1 hon1 show ?thesis by (auto simp: tryToFetchLogs_def bindE_def)
  next
    case (Inr logs)
    obtain b p2 w2 where rec: "recordFetchedBlockNumber E (br_To r) (p, w1) = (b, (p2, w2))" by (metis surj_pair)
    with run fetch Inr have res: "w' = w2" "res = Inr bs \<Longrightarrow> bs = submitLogs logs (br_To r)" for bs
      by (auto simp: tryToFetchLogs_def bindE_def returnE_def split: sum.splits)
    from recordFetched_same [OF rec] have g2: "grows w1 w2" and same: "db_logs (w_db w2) = db_logs (w_db w1)" by auto
    have "fetched (goals G m chain handled) (w_db w1) r logs"
      using fetchAndSave_fetched [OF ok hon rr] fetch Inr by blast
    then have "fetched (goals G m chain handled) (w_db w2) r logs" by (rule fetched_grow [OF _ grows_le [OF g2]])
    with res le1 hon1 g2 same show ?thesis
      by (auto intro: honest_same db_le_trans grows_le)
  qed
qed

lemmas rp_parts = rp_queue_def ranges_left_def

lemma rp_inv_step:
  assumes ok: "setting_ok G m chain" and h: "log_handler (processLog L m) H"
    and inv: "rp_inv (goals G m chain H) (mon_cfg m) chain rs s" and st: "rp_step L G E m s s'"
  shows "rp_inv (goals G m chain H) (mon_cfg m) chain rs s'"
proof -
  let ?g = "goals G m chain H" and ?cfg = "mon_cfg m" and ?d = "w_db (rp_w s)"
  have g: "handled_stays ?g" by (rule log_handler.stays [OF h])
  from inv have hon: "honest (bs_ChainID ?cfg) chain ?d" and ok_ranges: "list_all range_ok (ranges_left s)"
    by (simp_all add: rp_inv_def)
  note moved = rp_inv_moved [OF inv] and grow = rp_inv_grow [OF g inv]
  have same: "rp_inv ?g ?cfg chain rs t"
    if "grows (rp_w s) w'" "db_logs (w_db w') = db_logs ?d" "rp_w t = w'" "rp_queue t = rp_queue s" "ranges_left t = ranges_left s" for t w'
    by (rule grow [of "w_db w'"]) (use that hon in \<open>auto intro: grows_le honest_same\<close>)
  note batch = tryToProcess_handled [OF h]
  from st show ?thesis
  proof cases
    case (Fetch r bs p' w')
    then have "range_ok r" using ok_ranges by (simp add: ranges_left_def)
    from tryToFetch_effect [OF ok hon this Fetch(3), of H] obtain logs where le: "db_le ?d (w_db w')"
      and hon': "honest (bs_ChainID ?cfg) chain (w_db w')" and bs: "bs = submitLogs logs (br_To r)"
      and got: "fetched ?g (w_db w') r logs" by blast
    have q: "rp_queue s' = rp_queue s @ bs" and left: "ranges_left s = r # ranges_left s'"
      using Fetch(2) by (simp_all add: Fetch(1) rp_parts)
    have "range_covered ?g (w_db w') (rp_queue s') r"
      by (rule range_covered_grow [OF g submit_queued(2) [OF got]]) (simp_all add: q bs)
    moreover have "range_covered ?g (w_db w') (rp_queue s') x" if "range_covered ?g ?d (rp_queue s) x" for x
      by (rule range_covered_grow [OF g that le]) (simp add: q)
    moreover have "rows_in (w_db w') (rp_queue s)" using inv by (intro rows_in_grow [OF _ le]) (simp add: rp_inv_def)
    then have "rows_in (w_db w') (rp_queue s')" using submit_queued(1) [OF got] by (auto simp: rows_in_def q bs)
    moreover have "w_db (rp_w s') = w_db w'" by (simp add: Fetch(1))
    ultimately show ?thesis
      using inv hon' unfolding rp_inv_def left by (auto simp: list_all_iff)
  next
    case (FetchFails r e p' w')
    then have "range_ok r" using ok_ranges by (simp add: ranges_left_def)
    from tryToFetch_effect [OF ok hon this FetchFails(3)] show ?thesis
      by (intro grow [of "w_db w'"]) (simp_all add: FetchFails(1) rp_parts)
  next
    case (Timestamp b pd r w')
    show ?thesis
      by (rule same [of w']) (use Timestamp keepsE_apply [OF tryToGetBlockTimestamp_grows Timestamp(3)]
          keepsE_apply [OF tryToGetBlockTimestamp_same Timestamp(3)] in \<open>simp_all add: rp_parts same_logs_def\<close>)
  next
    case (Process b ts u w')
    from batch [OF Process(3)] show ?thesis
      by (intro batch_handled [OF inv g, where b = b and d' = "w_db w'"])
        (use Process(2) hon in \<open>auto simp: Process(1) rp_parts same_logs_def intro: grows_le honest_same\<close>)
  next
    case (ProcessFails b ts e w')
    from batch [OF ProcessFails(3)] show ?thesis
      by (intro same [of w']) (simp_all add: ProcessFails(1) rp_parts same_logs_def)
  next
    case (ProcessPanics b ts w')
    from batch [OF ProcessPanics(3)] show ?thesis
      by (intro same [of w']) (simp_all add: ProcessPanics(1) rp_parts same_logs_def)
  next
    case (Record b u p' w')
    from recordProcessed_same [OF Record(3)] show ?thesis
      by (intro same [of w']) (use Record(2) in \<open>simp_all add: Record(1) rp_parts\<close>)
  next
    case (RecordFails b e p' w')
    from recordProcessed_same [OF RecordFails(3)] show ?thesis
      by (intro same [of w']) (use RecordFails(2) in \<open>simp_all add: RecordFails(1) rp_parts\<close>)
  qed (auto intro!: moved simp: rp_parts)
qed

text \<open>The last nil of a channel is behind everything.\<close>

definition stub_last :: "'a option list \<Rightarrow> bool \<Rightarrow> bool" where
  "stub_last xs idle \<longleftrightarrow> (xs \<noteq> [] \<longrightarrow> last xs = None) \<and> (xs = [] \<longrightarrow> idle)"

definition fetched_all :: "reprocess \<Rightarrow> bool" where
  "fetched_all s \<longleftrightarrow> rp_ranges s = [] \<and> rp_fetcher s = RtIdle"

definition rp_stubs :: "reprocess \<Rightarrow> bool" where
  "rp_stubs s \<longleftrightarrow> stub_last (rp_ranges s @ rp_sender s) (rp_fetcher s = RtIdle)"

definition main_inv :: "reprocess \<Rightarrow> bool" where
  "main_inv s \<longleftrightarrow> rp_sender s = [] \<and> rp_stubs s \<and> (case rp_main s of
     MtFetching \<Rightarrow> True
   | MtStub \<Rightarrow> fetched_all s
   | MtProcessing \<Rightarrow> fetched_all s \<and> stub_last (rp_logs s) (rp_processor s = BtIdle)
   | MtReturned (Inr u) \<Rightarrow> fetched_all s \<and> rp_logs s = [] \<and> rp_processor s = BtIdle
   | _ \<Rightarrow> True)"

lemma stub_last_Cons [simp]: "stub_last (x # xs) b \<longleftrightarrow> (if xs = [] then x = None else last xs = None)"
  by (simp add: stub_last_def)

lemma rp_stubs_step: "rp_step L G E m s s' \<Longrightarrow> rp_stubs s \<Longrightarrow> rp_stubs s'"
  by (induction rule: rp_step.cases) (auto simp: rp_stubs_def stub_last_def)

lemma main_inv_step:
  assumes "rp_step L G E m s s'" and "main_inv s" and "rp_running s"
  shows "main_inv s'"
proof -
  have "rp_stubs s'" using assms by (auto simp: main_inv_def intro: rp_stubs_step)
  with assms show ?thesis
    by (cases) (auto simp: main_inv_def fetched_all_def stub_last_def rp_stubs_def rp_running_def
        split: main_task.splits sum.splits if_splits)
qed

section \<open>What a finished call has done\<close>

lemma rp_inv_run:
  assumes "setting_ok G m chain" "log_handler (processLog L m) H" and "rp_run L G E m chain s s'"
  shows "rp_inv (goals G m chain H) (mon_cfg m) chain rs s \<Longrightarrow> rp_inv (goals G m chain H) (mon_cfg m) chain rs s'"
  using assms(3)
proof induction
  case (Step s s' s'')
  from rp_inv_step [OF assms(1,2) Step.IH [OF Step.prems] Step.hyps(3)] show ?case .
next
  case (Others s s' d' t')
  then have "rp_inv (goals G m chain H) (mon_cfg m) chain rs s'" by blast
  then show ?case
    by (rule rp_inv_grow [OF log_handler.stays [OF assms(2)], where d' = d'])
      (use Others \<open>rp_inv _ _ _ _ s'\<close> in \<open>simp_all add: rp_inv_def rp_parts\<close>)
qed

lemma rp_world [simp]: "rp_stubs (s\<lparr>rp_w := v\<rparr>) = rp_stubs s" "main_inv (s\<lparr>rp_w := v\<rparr>) = main_inv s"
  by (simp_all add: main_inv_def rp_stubs_def fetched_all_def split: main_task.split sum.split)

lemma rp_stubs_run: "rp_run L G E m chain s s' \<Longrightarrow> rp_stubs s \<Longrightarrow> rp_stubs s'"
proof (induction rule: rp_run.induct)
  case (Step s s' s'')
  from rp_stubs_step [OF Step.hyps(3) Step.IH [OF Step.prems]] show ?case .
qed simp_all

lemma main_inv_run: "rp_run L G E m chain s s' \<Longrightarrow> main_inv s \<Longrightarrow> main_inv s'"
proof (induction rule: rp_run.induct)
  case (Step s s' s'')
  from main_inv_step [OF Step.hyps(3) Step.IH [OF Step.prems] Step.hyps(2)] show ?case .
qed simp_all

lemma rp_stopped: "rp_run L G E m chain s s' \<Longrightarrow> \<not> rp_running s \<Longrightarrow> rp_main s' = rp_main s"
  by (induction rule: rp_run.induct) (auto simp: rp_running_def)

lemma split_covers:
  assumes "0 < unat k" "unat t + unat k < 2 ^ 63" "SplitBlockRange f t k = Some rs"
  shows "list_all range_ok rs"
    and "0 < n \<Longrightarrow> f \<le> n \<Longrightarrow> n \<le> t \<Longrightarrow> \<exists>r \<in> set rs. br_From r \<le> n \<and> n \<le> br_To r"
proof -
  have sum: "unat t + unat k < 2 ^ 64" using assms(2) by simp
  have rs: "rs = map range_of (split_ranges (unat f) (unat t) (unat k))"
    using SplitBlockRange_ranges [OF assms(1) sum, of f] assms(3) by simp
  show "list_all range_ok rs"
    unfolding list_all_iff range_ok_def
  proof
    fix r assume "r \<in> set rs"
    with range_of_member [OF assms(1), of r f t] have "br_From r \<le> br_To r" "br_To r \<le> t" by (auto simp: rs)
    with assms(2) show "br_From r \<le> br_To r \<and> unat (br_To r) < 2 ^ 63" by (simp add: word_le_nat_alt)
  qed
  have gap: "gapless (unat f - 1) rs (Suc (unat t))"
    by (rule gapless_SplitBlockRange [OF assms(1) sum _ assms(3)]) simp
  assume n: "0 < n" "f \<le> n" "n \<le> t"
  then have "unat f - 1 < unat n" "unat n < Suc (unat t)" by (auto simp: word_le_nat_alt word_less_nat_alt)
  from gapless_member [OF gap this] show "\<exists>r \<in> set rs. br_From r \<le> n \<and> n \<le> br_To r" by (simp add: word_le_nat_alt)
qed

text \<open>Property C17. When the caller finds the channel of ranges empty only after the sender has sent its last
  nil, a call that returns without an error has handled every log of the range that the monitor is there for, whatever
  failed on the way, and however the goroutines and other processes were interleaved.\<close>

theorem reprocess_complete:
  assumes "m \<in> {homeMonitor G E cfg N, foreignMonitor G E cfg N N'}" and "setting_ok G m chain"
    and "honest (bs_ChainID (mon_cfg m)) chain (w_db w)"
    and "unat toBlock + unat (bs_MaxBlockRangeSize (mon_cfg m)) < 2 ^ 63"
    and "rp_run L G E m chain (ProcessBlockRange m fromBlock toBlock p w) s" and "rp_main s = MtFetching" and "rp_sender s = []"
    and "rp_run L G E m chain s s'" and "rp_main s' = MtReturned (Inr ())"
    and "rl \<in> set chain" and "wanted G m rl" and "fromBlock \<le> rl_BlockNumber rl" and "rl_BlockNumber rl \<le> toBlock"
  shows "done_log (handled_log L m) (bs_ChainID (mon_cfg m)) (w_db (rp_w s')) rl"
proof -
  let ?s0 = "ProcessBlockRange m fromBlock toBlock p w" and ?k = "bs_MaxBlockRangeSize (mon_cfg m)"
  let ?g = "goals G m chain (handled_log L m)"
  from assms(1) have h: "log_handler (processLog L m) (handled_log L m)"
    by (auto intro!: processLog_handler simp: homeMonitor_def foreignMonitor_def registered_good)
  have "0 < ?k" and start: "0 < bs_StartBlock (mon_cfg m)" using assms(2) by (simp_all add: setting_ok_def)
  then have k: "0 < unat ?k" by (simp add: word_less_nat_alt)
  have sum: "unat toBlock + unat ?k < 2 ^ 64" using assms(4) by simp
  have ok: "\<not> toBlock > lc_LastProcessedBlock (pg_logsCursor p)"
    using rp_stopped [OF assms(5)] assms(6) by (auto simp: ProcessBlockRange_def rp_running_def Let_def)
  obtain rs where rs: "SplitBlockRange fromBlock toBlock ?k = Some rs"
    using SplitBlockRange_ranges [OF k sum] by blast
  have s0: "rp_w ?s0 = w" "ranges_left ?s0 = rs" "rp_queue ?s0 = []" "rp_stubs ?s0"
    using ok rs by (simp_all add: ProcessBlockRange_def rp_parts rp_stubs_def Let_def)
  have "rp_inv ?g (mon_cfg m) chain rs ?s0"
    using assms(3) split_covers(1) [OF k assms(4) rs] by (simp add: rp_inv_def s0 rows_in_def list_all_iff)
  from rp_inv_run [OF assms(2) h assms(8) rp_inv_run [OF assms(2) h assms(5) this]]
  have inv: "rp_inv ?g (mon_cfg m) chain rs s'" .
  have "main_inv s" using rp_stubs_run [OF assms(5) s0(4)] assms(6,7) by (simp add: main_inv_def)
  from main_inv_run [OF assms(8) this] have "rp_queue s' = []" "ranges_left s' = []"
    using assms(9) by (simp_all add: main_inv_def fetched_all_def rp_parts)
  with inv have all: "list_all (range_covered ?g (w_db (rp_w s')) []) rs" by (simp add: rp_inv_def)
  have "0 < rl_BlockNumber rl" using start assms(11) by (auto simp: wanted_def intro: less_le_trans)
  from split_covers(2) [OF k assms(4) rs this assms(12,13)] all assms(10,11) show ?thesis
    by (auto simp: list_all_iff range_covered_def queued_def)
qed

text \<open>The caller may find the channel empty before the sender has sent anything: the fetcher skips
  the first nil, both channels are empty, and the call returns without an error, with nothing fetched or handled.\<close>

theorem reprocess_may_do_nothing:
  assumes "toBlock \<le> lc_LastProcessedBlock (pg_logsCursor p)"
  shows "\<exists>s. rp_run L G E m chain (ProcessBlockRange m fromBlock toBlock p w) s \<and> rp_main s = MtReturned (Inr ())
    \<and> rp_w s = w \<and> rp_sender s = rp_sender (ProcessBlockRange m fromBlock toBlock p w)"
proof -
  let ?s = "ProcessBlockRange m fromBlock toBlock p w"
  have s: "rp_fetcher ?s = RtIdle" "rp_ranges ?s = [None]" "rp_main ?s = MtFetching" "rp_logs ?s = []"
    "rp_processor ?s = BtIdle" "rp_w ?s = w"
    using assms by (simp_all add: ProcessBlockRange_def Let_def not_less)
  note step = rp_run.Step [where L = L and G = G and E = E and m = m and chain = chain]
  have 1: "rp_run L G E m chain ?s (?s\<lparr>rp_ranges := []\<rparr>)"
    by (rule step [OF rp_run.Refl _ rp_step.SkipRange]) (simp_all add: s rp_running_def)
  have 2: "rp_run L G E m chain ?s (?s\<lparr>rp_ranges := [], rp_main := MtStub\<rparr>)"
    using step [OF 1 _ rp_step.FetchedAll] by (simp add: s rp_running_def)
  have 3: "rp_run L G E m chain ?s (?s\<lparr>rp_ranges := [], rp_logs := [None], rp_main := MtProcessing\<rparr>)"
    using step [OF 2 _ rp_step.SendStub] by (simp add: s rp_running_def defaultLogsChanCap_def)
  have 4: "rp_run L G E m chain ?s (?s\<lparr>rp_ranges := [], rp_main := MtProcessing, rp_logs := []\<rparr>)"
    using step [OF 3 _ rp_step.SkipBatch] by (simp add: s rp_running_def)
  have 5: "rp_run L G E m chain ?s (?s\<lparr>rp_ranges := [], rp_logs := [], rp_main := MtReturned (Inr ())\<rparr>)"
    using step [OF 4 _ rp_step.ProcessedAll] by (simp add: s rp_running_def)
  show ?thesis by (intro exI conjI, rule 5) (simp_all add: s)
qed

end
