(* ===== verification/ReprocessEnds.thy ===== *)
theory ReprocessEnds
  imports Reprocess
begin

text \<open>
  When a reprocessing call ends: until it returns something can be done, and whatever is done brings it closer to its
  end, except for the steps that come back with an error and are repeated. A call that does not return has a call
  of the node or of the database that fails again and again.
\<close>

section \<open>What is left to do\<close>

text \<open>A step that leaves everything to be done again: a failed attempt.\<close>

definition rp_retry :: "reprocess \<Rightarrow> reprocess \<Rightarrow> bool" where
  "rp_retry s s' \<longleftrightarrow> s' = s\<lparr>rp_w := rp_w s', rp_p := rp_p s'\<rparr>"

text \<open>The ranges that were not fetched yet; and the remaining steps, when nothing more is fetched.\<close>

definition fetches_left :: "reprocess \<Rightarrow> nat" where
  "fetches_left s = length (rp_sender s) + length (rp_ranges s) + (case rp_fetcher s of RtFetch r \<Rightarrow> 1 | _ \<Rightarrow> 0)"

definition fetcher_left :: "fetch_task \<Rightarrow> nat" where
  "fetcher_left t = (case t of RtSend bs \<Rightarrow> 7 * length bs + 1 | _ \<Rightarrow> 0)"

definition processor_left :: "batch_task \<Rightarrow> nat" where
  "processor_left t = (case t of BtIdle \<Rightarrow> 0 | BtRecord b \<Rightarrow> 1
     | BtRun b ts pd \<Rightarrow> 2 + (if ts then 0 else 1) + (if pd then 0 else 1))"

definition main_left :: "main_task \<Rightarrow> nat" where
  "main_left t = (case t of MtFetching \<Rightarrow> 8 | MtStub \<Rightarrow> 7 | _ \<Rightarrow> 0)"

definition steps_left :: "reprocess \<Rightarrow> nat" where
  "steps_left s = 2 * length (rp_sender s) + length (rp_ranges s) + fetcher_left (rp_fetcher s)
     + 6 * length (rp_logs s) + processor_left (rp_processor s) + main_left (rp_main s)"

lemmas left_defs = fetches_left_def steps_left_def fetcher_left_def processor_left_def main_left_def

lemma rp_step_closer:
  assumes "rp_step L G E m s s'" and "rp_running s'" and "\<not> rp_retry s s'"
  shows "(s', s) \<in> measures [fetches_left, steps_left]"
  using assms
proof cases
  case (Timestamp b pd r w')
  have "r = Inr ()"
  proof (rule ccontr)
    assume "r \<noteq> Inr ()"
    then have "s' = s\<lparr>rp_w := w'\<rparr>" using Timestamp(1,2) by (cases s) simp
    then show False using assms(3) by (simp add: rp_retry_def)
  qed
  with Timestamp show ?thesis by (simp add: left_defs)
qed (auto simp: left_defs rp_running_def rp_retry_def split: if_splits)

section \<open>Something can be done\<close>

definition rp_goes :: "abilib \<Rightarrow> geth \<Rightarrow> env \<Rightarrow> ContractMonitor \<Rightarrow> reprocess \<Rightarrow> bool" where
  "rp_goes L G E m s \<longleftrightarrow> (\<exists>s'. rp_step L G E m s s' \<and> rp_main s' \<noteq> MtCancelled)"

lemma rp_goesI: "rp_step L G E m s s' \<Longrightarrow> rp_main s' \<noteq> MtCancelled \<Longrightarrow> rp_goes L G E m s"
  by (auto simp: rp_goes_def)

lemma processor_goes:
  assumes "rp_running s" and "rp_logs s \<noteq> [] \<or> rp_processor s \<noteq> BtIdle"
  shows "rp_goes L G E m s"
proof -
  have main: "rp_main s \<noteq> MtCancelled" using assms(1) by (auto simp: rp_running_def)
  show ?thesis
  proof (cases "rp_processor s")
    case BtIdle
    with assms(2) obtain x bs where "rp_logs s = x # bs" by (cases "rp_logs s") auto
    with BtIdle main show ?thesis
      by (cases x) (auto intro: rp_goesI [OF rp_step.SkipBatch] rp_goesI [OF rp_step.TakeBatch])
  next
    case (BtRun b ts pd)
    show ?thesis
    proof (cases "ts \<and> pd")
      case True
      with BtRun have "rp_processor s = BtRun b True True" by simp
      from rp_goesI [OF rp_step.Processed [OF this]] main show ?thesis by simp
    next
      case False
      then consider "\<not> ts" | "\<not> pd" by blast
      then show ?thesis
      proof cases
        case 1
        with BtRun have pc: "rp_processor s = BtRun b False pd" by simp
        obtain r w' where "tryToGetBlockTimestamp E m (lb_BlockNumber b) (rp_w s) = (r, w')" by fastforce
        from rp_goesI [OF rp_step.Timestamp [OF pc this]] main show ?thesis by simp
      next
        case 2
        with BtRun have pc: "rp_processor s = BtRun b ts False" by simp
        obtain r w' where run: "tryToProcessLogsBatch L m b (rp_w s) = (r, w')" by fastforce
        consider u where "r = Inr u" | e where "r = Inl (Err e)" | "r = Inl Panic"
          by (cases r) (auto intro: failure.exhaust)
        then show ?thesis
        proof cases
          case 1
          from rp_goesI [OF rp_step.Process [OF pc run [unfolded 1]]] main show ?thesis by simp
        next
          case 2
          from rp_goesI [OF rp_step.ProcessFails [OF pc run [unfolded 2]]] main show ?thesis by simp
        next
          case 3
          from rp_goesI [OF rp_step.ProcessPanics [OF pc run [unfolded 3]]] show ?thesis by simp
        qed
      qed
    qed
  next
    case (BtRecord b)
    obtain r p' w' where run: "recordProcessedBlockNumber E (lb_BlockNumber b) (rp_p s, rp_w s) = (r, (p', w'))"
      by (metis surj_pair)
    show ?thesis
    proof (cases r)
      case (Inl e)
      from rp_goesI [OF rp_step.RecordFails [OF BtRecord run [unfolded Inl]]] main show ?thesis by simp
    next
      case (Inr u)
      from rp_goesI [OF rp_step.Record [OF BtRecord run [unfolded Inr]]] main show ?thesis by simp
    qed
  qed
qed

lemma full_not_empty: "\<not> length xs < defaultLogsChanCap \<Longrightarrow> xs \<noteq> []"
  by (auto simp: defaultLogsChanCap_def)

lemma fetcher_goes:
  assumes "rp_running s" and "rp_ranges s \<noteq> []"
  shows "rp_goes L G E m s"
proof -
  have main: "rp_main s \<noteq> MtCancelled" using assms(1) by (auto simp: rp_running_def)
  show ?thesis
  proof (cases "rp_fetcher s")
    case RtIdle
    from assms(2) obtain x rs where "rp_ranges s = x # rs" by (cases "rp_ranges s") auto
    with RtIdle main show ?thesis
      by (cases x) (auto intro: rp_goesI [OF rp_step.SkipRange] rp_goesI [OF rp_step.TakeRange])
  next
    case (RtFetch r)
    obtain res p' w' where run: "tryToFetchLogs G E m r (rp_p s, rp_w s) = (res, (p', w'))" by (metis surj_pair)
    show ?thesis
    proof (cases res)
      case (Inl e)
      from rp_goesI [OF rp_step.FetchFails [OF RtFetch run [unfolded Inl]]] main show ?thesis by simp
    next
      case (Inr bs)
      from rp_goesI [OF rp_step.Fetch [OF RtFetch run [unfolded Inr]]] main show ?thesis by simp
    qed
  next
    case (RtSend bs)
    show ?thesis
    proof (cases bs)
      case Nil
      with RtSend have "rp_fetcher s = RtSend []" by simp
      from rp_goesI [OF rp_step.Submitted [OF this]] main show ?thesis by simp
    next
      case (Cons b bs')
      with RtSend have pc: "rp_fetcher s = RtSend (b # bs')" by simp
      show ?thesis
      proof (cases "length (rp_logs s) < defaultLogsChanCap")
        case True
        from rp_goesI [OF rp_step.SendBatch [OF pc True]] main show ?thesis by simp
      next
        case False
        from processor_goes [OF assms(1) disjI1 [OF full_not_empty [OF False]]] show ?thesis .
      qed
    qed
  qed
qed

lemma running_goes:
  assumes "rp_running s"
  shows "rp_goes L G E m s"
proof (cases "rp_main s")
  case MtFetching
  then show ?thesis
    using fetcher_goes [OF assms] by (cases "rp_ranges s = []") (auto intro: rp_goesI [OF rp_step.FetchedAll])
next
  case MtStub
  show ?thesis
  proof (cases "length (rp_logs s) < defaultLogsChanCap")
    case True
    from rp_goesI [OF rp_step.SendStub [OF MtStub True]] show ?thesis by simp
  next
    case False
    from processor_goes [OF assms disjI1 [OF full_not_empty [OF False]]] show ?thesis .
  qed
next
  case MtProcessing
  then show ?thesis
    using processor_goes [OF assms] by (cases "rp_logs s = []") (auto intro: rp_goesI [OF rp_step.ProcessedAll])
qed (use assms in \<open>simp_all add: rp_running_def\<close>)

section \<open>Properties\<close>

text \<open>Property C18. A reprocessing call ends unless something fails for ever: there is no infinite run of a call that
  has not returned with only finitely many failed attempts, for the steps that are no failed attempts decrease a
  well-founded order; and a call that has not returned can always take a step that is not its cancellation, so that its
  goroutines never wait for each other.\<close>

theorem reprocess_ends:
  "wf {(s', s). rp_step L G E m s s' \<and> rp_running s' \<and> \<not> rp_retry s s'}
   \<and> (rp_running s \<longrightarrow> (\<exists>s'. rp_step L G E m s s' \<and> rp_main s' \<noteq> MtCancelled))"
proof
  show "wf {(s', s). rp_step L G E m s s' \<and> rp_running s' \<and> \<not> rp_retry s s'}"
    by (rule wf_subset [of "measures [fetches_left, steps_left]"]) (auto dest: rp_step_closer)
  show "rp_running s \<longrightarrow> (\<exists>s'. rp_step L G E m s s' \<and> rp_main s' \<noteq> MtCancelled)"
    using running_goes [of s L G E m] by (simp add: rp_goes_def)
qed

end
