(* ===== verification/FixTimestamps.thy ===== *)
theory FixTimestamps
  imports Monitor
begin

text \<open>
  \<open>cmd/fix_block_timestamps/main.go\<close>: the rows of block timestamps that belong to no log are deleted,
  and those that are missing for a log are fetched from the nodes. The Go map of missing blocks has one entry
  for every block, in the order \<open>order\<close>; a client is made once for every chain. A fatal message ends
  the process, as an error does here.
\<close>

section \<open>The command\<close>

definition log_block :: "Log \<Rightarrow> string \<times> uint" where
  "log_block l = (log_ChainID l, log_BlockNumber l)"

definition deleteOrphans :: "env \<Rightarrow> (world, unit) io" where
  "deleteOrphans E = db_exec E (\<lambda>now d. (Inr (), d\<lparr>db_block_timestamps :=
     filter (\<lambda>r. ts_key (r_val r) \<in> log_block ` set (vals (db_logs d))) (db_block_timestamps d)\<rparr>))"

definition logsWithoutTimestamp :: "env \<Rightarrow> (world, Log list) io" where
  "logsWithoutTimestamp E = db_query E (\<lambda>d. Inr (filter
     (\<lambda>l. log_block l \<notin> ts_key ` set (vals (db_block_timestamps d))) (vals (db_logs d))))"

type_synonym clients = "(string \<times> node) list"

definition chainClient :: "(RPCConfig \<Rightarrow> node) \<Rightarrow> Config \<Rightarrow> string \<Rightarrow> clients \<Rightarrow> (world, node \<times> clients) io" where
  "chainClient dial cfg chainID clients =
     (case map_of clients chainID of
       Some client \<Rightarrow> returnE (client, clients)
     | None \<Rightarrow> bindE (liftE (GetChainConfig cfg chainID)) (\<lambda>chain. case chain of
         None \<Rightarrow> failE (Err ErrInvalidConfig)
       | Some chainCfg \<Rightarrow> bindE (chainNode dial chainCfg) (\<lambda>client.
           returnE (client, (chainID, client) # clients))))"

fun addTimestamps :: "(RPCConfig \<Rightarrow> node) \<Rightarrow> env \<Rightarrow> Config \<Rightarrow> clients \<Rightarrow> (string \<times> uint) list \<Rightarrow> (world, unit) io" where
  "addTimestamps dial E cfg clients [] = returnE ()"
| "addTimestamps dial E cfg clients ((chainID, blockNumber) # bts) =
     bindE (chainClient dial cfg chainID clients) (\<lambda>(client, clients).
     bindE (HeaderByNumber client blockNumber) (\<lambda>headerTime.
     bindE (BlockTimestamps_Ensure E \<lparr>bt_ChainID = chainID, bt_BlockNumber = blockNumber,
       bt_Timestamp = int64_of headerTime\<rparr>) (\<lambda>_.
     addTimestamps dial E cfg clients bts)))"

definition fixBlockTimestamps ::
  "(RPCConfig \<Rightarrow> node) \<Rightarrow> env \<Rightarrow> ((string \<times> uint) list \<Rightarrow> (string \<times> uint) list) \<Rightarrow> Config \<Rightarrow> (world, unit) io" where
  "fixBlockTimestamps dial E order cfg =
     bindE (deleteOrphans E) (\<lambda>_.
     bindE (logsWithoutTimestamp E) (\<lambda>logs.
     addTimestamps dial E cfg [] (order (remdups (map log_block logs)))))"

section \<open>What it leaves\<close>

definition timed_blocks :: "database \<Rightarrow> (string \<times> uint) set" where
  "timed_blocks d = ts_key ` set (vals (db_block_timestamps d))"

definition log_blocks :: "database \<Rightarrow> (string \<times> uint) set" where
  "log_blocks d = log_block ` set (vals (db_logs d))"

lemma timed_lookup: "k \<in> timed_blocks d \<longleftrightarrow> lookup ts_key (db_block_timestamps d) k \<noteq> None"
  by (simp add: timed_blocks_def lookup_None)

lemma lookup_filter:
  "P k \<Longrightarrow> lookup key (filter (\<lambda>r. P (key (r_val r))) rows) k = lookup key rows k"
  by (induction rows) (auto simp: lookup_def vals_def)

lemma chainClient_db:
  assumes "chainClient dial cfg chainID clients w = (Inr (client, clients'), w1)"
  shows "w_db w1 = w_db w"
proof (cases "map_of clients chainID")
  case None
  with assms obtain chain where "(case chain of None \<Rightarrow> failE (Err ErrInvalidConfig)
      | Some chainCfg \<Rightarrow> bindE (chainNode dial chainCfg) (\<lambda>client. returnE (client, (chainID, client) # clients))) w
        = (Inr (client, clients'), w1)"
    unfolding chainClient_def by (auto simp: bindE_liftE_Inr)
  then show ?thesis
    by (auto simp: chainNode_def NewClient_def bindE_Inr_iff rpc_def split: option.splits if_splits)
qed (use assms in \<open>simp add: chainClient_def\<close>)

lemma addTimestamps_Inr:
  assumes "addTimestamps dial E cfg clients bts w = (Inr (), w')"
  shows "same_logs w w' \<and> timed_blocks (w_db w') = timed_blocks (w_db w) \<union> set bts
    \<and> (\<forall>k. k \<notin> set bts \<longrightarrow> lookup ts_key (db_block_timestamps (w_db w')) k = lookup ts_key (db_block_timestamps (w_db w)) k)"
  using assms
proof (induction bts arbitrary: clients w)
  case (Cons k0 bts)
  obtain chainID blockNumber where k0: "k0 = (chainID, blockNumber)" by fastforce
  from Cons.prems obtain client clients' w1 t w2 u w3 where
    c: "chainClient dial cfg chainID clients w = (Inr (client, clients'), w1)"
    and t: "HeaderByNumber client blockNumber w1 = (Inr t, w2)"
    and e: "BlockTimestamps_Ensure E \<lparr>bt_ChainID = chainID, bt_BlockNumber = blockNumber, bt_Timestamp = int64_of t\<rparr> w2 = (Inr u, w3)"
    and rest: "addTimestamps dial E cfg clients' bts w3 = (Inr (), w')"
    by (auto simp: k0 bindE_Inr_iff)
  have db: "w_db w1 = w_db w" "w_db w2 = w_db w1"
    using chainClient_db [OF c] t by (auto simp: HeaderByNumber_def rpc_def)
  have "same_logs w2 w3" using keepsE_apply [OF ensures_same(1) e] .
  note BlockTimestamps_Ensure_Inr(2) [OF e]
  then have "timed_blocks (w_db w3) = insert (chainID, blockNumber) (timed_blocks (w_db w2))"
    and "k \<noteq> (chainID, blockNumber) \<Longrightarrow>
      lookup ts_key (db_block_timestamps (w_db w3)) k = lookup ts_key (db_block_timestamps (w_db w2)) k" for k
    by (auto simp: set_eq_iff timed_lookup ts_key_def)
  with Cons.IH [OF rest] \<open>same_logs w2 w3\<close> db show ?case by (auto simp: same_logs_def k0)
qed (simp add: returnE_def)

lemma fixBlockTimestamps_Inr:
  assumes "\<And>xs. set (order xs) = set xs" and "fixBlockTimestamps dial E order cfg w = (Inr u, w')"
  shows "timed_blocks (w_db w') = log_blocks (w_db w') \<and> same_logs w w'
    \<and> (\<forall>k \<in> log_blocks (w_db w) \<inter> timed_blocks (w_db w).
        lookup ts_key (db_block_timestamps (w_db w')) k = lookup ts_key (db_block_timestamps (w_db w)) k)"
proof -
  let ?d = "w_db w"
  from assms(2) obtain w1 w2 logs where del: "deleteOrphans E w = (Inr (), w1)"
    and sel: "logsWithoutTimestamp E w1 = (Inr logs, w2)"
    and add: "addTimestamps dial E cfg [] (order (remdups (map log_block logs))) w2 = (Inr (), w')"
    by (auto simp: fixBlockTimestamps_def bindE_Inr_iff)
  have d1: "w_db w1 = ?d\<lparr>db_block_timestamps :=
      filter (\<lambda>r. ts_key (r_val r) \<in> log_blocks ?d) (db_block_timestamps ?d)\<rparr>"
    using del by (auto simp: deleteOrphans_def db_exec_Inr log_blocks_def)
  have d2: "w_db w2 = w_db w1"
    and logs: "set logs = {l \<in> set (vals (db_logs ?d)). log_block l \<notin> timed_blocks (w_db w1)}"
    using sel by (auto simp: logsWithoutTimestamp_def db_query_Inr timed_blocks_def d1)
  have missing: "set (order (remdups (map log_block logs))) = log_blocks ?d - timed_blocks (w_db w1)"
    by (auto simp: assms(1) logs log_blocks_def)
  have old: "timed_blocks (w_db w1) = timed_blocks ?d \<inter> log_blocks ?d"
    by (auto simp: timed_blocks_def d1 vals_def)
  have keep: "lookup ts_key (db_block_timestamps (w_db w1)) k = lookup ts_key (db_block_timestamps ?d) k"
    if "k \<in> log_blocks ?d" for k
    using lookup_filter [of "\<lambda>k. k \<in> log_blocks ?d", OF that] by (simp add: d1)
  note add = addTimestamps_Inr [OF add, unfolded missing d2]
  then have "same_logs w w'" and "timed_blocks (w_db w') = log_blocks ?d"
    unfolding old by (auto simp: same_logs_def d1 d2)
  moreover have "lookup ts_key (db_block_timestamps (w_db w')) k = lookup ts_key (db_block_timestamps ?d) k"
    if "k \<in> log_blocks ?d \<inter> timed_blocks ?d" for k
  proof -
    from that have "k \<notin> log_blocks ?d - timed_blocks (w_db w1)" by (simp add: old)
    with add have "lookup ts_key (db_block_timestamps (w_db w')) k = lookup ts_key (db_block_timestamps (w_db w1)) k"
      by blast
    with keep that show ?thesis by simp
  qed
  ultimately show ?thesis by (auto simp: log_blocks_def same_logs_def)
qed

text \<open>Property C27. When the command ends well, the blocks with a timestamp are exactly the blocks with a log, a
  timestamp that was there before and belongs to a log is as it was, and logs and cursors are untouched.\<close>

theorem fix_timestamps_exact:
  assumes "\<And>xs. set (order xs) = set xs" and "fixBlockTimestamps dial E order cfg w = (Inr u, w')"
  shows "timed_blocks (w_db w') = log_blocks (w_db w') \<and> same_logs w w'
    \<and> (\<forall>k \<in> log_blocks (w_db w) \<inter> timed_blocks (w_db w).
        lookup ts_key (db_block_timestamps (w_db w')) k = lookup ts_key (db_block_timestamps (w_db w)) k)"
  by (rule fixBlockTimestamps_Inr [OF assms])

text \<open>Property C28. It also deletes the timestamps by which the alerts know how far a bridge has been processed: when
  the last processed blocks of the cursors hold no log, as the ends of quiet ranges do, the query for the least
  processed time fails after it.\<close>

theorem fix_timestamps_blinds_alerts:
  assumes "\<And>xs. set (order xs) = set xs" and "fixBlockTimestamps dial E order cfg w = (Inr u, w')"
    and "list_all (\<lambda>c. min_cursor q c \<longrightarrow> (lc_ChainID c, lc_LastProcessedBlock c) \<notin> log_blocks (w_db w))
      (vals (db_logs_cursors (w_db w)))"
  shows "fst (findMinProcessedTime E q w') = Inl (Err ErrDB)"
proof -
  from fixBlockTimestamps_Inr [OF assms(1,2)] have "timed_blocks (w_db w') = log_blocks (w_db w)"
    and "db_logs_cursors (w_db w') = db_logs_cursors (w_db w)"
    by (simp_all add: same_logs_def log_blocks_def)
  with assms(3) have "(lc_ChainID c, lc_LastProcessedBlock c) \<notin> ts_key ` set (vals (db_block_timestamps (w_db w')))"
    if "c \<in> set (vals (db_logs_cursors (w_db w')))" "min_cursor q c" for c
    using that by (auto simp: list_all_iff timed_blocks_def)
  then have "t \<notin> set (processed_times q (w_db w'))" for t
    unfolding processed_times_in by (metis imageI)
  then have "processed_times q (w_db w') = []" by (metis last_in_set)
  then show ?thesis
    by (simp add: findMinProcessedTime_def db_query_def db_exec_def Let_def split: db_fault.split)
qed

end
