(* ===== verification/IndexerLive.thy ===== *)
theory IndexerLive
  imports IndexerSteps
begin

text \<open>
  How a contract monitor catches up. Between two polls of the head of the chain the goroutines can only take finitely
  many steps, except for those by which a failed call sets one of them back; and when no more can be taken,
  everything that was scheduled has been handled.
\<close>

section \<open>What is left to do\<close>

text \<open>
  A failed call: nothing but the world has changed, or the logs fetcher is back at the fetch of its range, or
  the processor at the start of its batch or at recording it.
\<close>

definition setback :: "indexer \<Rightarrow> indexer \<Rightarrow> bool" where
  "setback s s' \<longleftrightarrow> s' = s\<lparr>ix_w := ix_w s'\<rparr>
     \<or> (\<exists>c r logs. ix_lf s = LfSave c r logs \<and> ix_lf s' = LfFetch r)
     \<or> (\<exists>b ts rest. ix_lp s = LpRun b ts rest \<and> rest \<noteq> lb_Logs b \<and> ix_lp s' = LpRun b ts (lb_Logs b))
     \<or> (\<exists>c b. ix_lp s = LpSave c b \<and> ix_lp s' = LpRecord b)"

text \<open>A step of the logs fetcher or the processor, or of the block fetcher handing over its ranges.\<close>

definition work_step :: "geth \<Rightarrow> env \<Rightarrow> ContractMonitor \<Rightarrow> (Log \<Rightarrow> (world, unit) io) \<Rightarrow> indexer \<Rightarrow> indexer \<Rightarrow> bool" where
  "work_step G E m handle s s' \<longleftrightarrow> lf_step G E m s s' \<or> lp_step E m handle s s'
     \<or> bf_step m s s' \<and> (\<exists>rs start. ix_bf s = BfSend rs start)"

text \<open>The fetches that are left, and the steps that are left when nothing more is fetched.\<close>

definition lf_fetches :: "logs_fetcher \<Rightarrow> nat" where
  "lf_fetches lf = (case lf of LfSend bs \<Rightarrow> 0 | LfIdle \<Rightarrow> 0 | _ \<Rightarrow> 1)"

definition fetches_due :: "indexer \<Rightarrow> nat" where
  "fetches_due s = length (bf_pending (ix_bf s)) + length (ix_ranges s) + lf_fetches (ix_lf s)"

definition batch_steps :: "LogsBatch \<Rightarrow> nat" where
  "batch_steps b = length (lb_Logs b) + 7"

definition bf_steps :: "block_fetcher \<Rightarrow> nat" where
  "bf_steps bf = (case bf of BfPoll start \<Rightarrow> 0 | BfSend rs start \<Rightarrow> 7 * length rs + 1)"

definition lf_steps :: "logs_fetcher \<Rightarrow> nat" where
  "lf_steps lf = (case lf of LfLoad f t \<Rightarrow> 0 | LfSend bs \<Rightarrow> sum_list (map (\<lambda>b. batch_steps b + 1) bs) + 1 | LfIdle \<Rightarrow> 0
     | LfFetch r \<Rightarrow> 4 | LfRecord r logs \<Rightarrow> 3 | LfPrepare r logs \<Rightarrow> 2 | LfSave c r logs \<Rightarrow> 1)"

definition lp_steps :: "logs_processor \<Rightarrow> nat" where
  "lp_steps lp = (case lp of LpIdle \<Rightarrow> 0 | LpRun b ts rest \<Rightarrow> length rest + (if ts then 0 else 1) + 5
     | LpRecord b \<Rightarrow> 4 | LpPrepare b \<Rightarrow> 3 | LpSave c b \<Rightarrow> 2)"

definition steps_due :: "indexer \<Rightarrow> nat" where
  "steps_due s = bf_steps (ix_bf s) + 6 * length (ix_ranges s) + lf_steps (ix_lf s)
     + sum_list (map batch_steps (ix_logs s)) + lp_steps (ix_lp s)"

lemmas due_defs = fetches_due_def steps_due_def lf_fetches_def batch_steps_def bf_steps_def lf_steps_def lp_steps_def
  bf_pending_def

lemma bf_closer:
  assumes "bf_step m s s'" and "ix_bf s = BfSend rs start"
  shows "(s', s) \<in> measures [fetches_due, steps_due]"
  using assms by cases (auto simp: due_defs)

lemma lf_closer:
  assumes "lf_step G E m s s'" and "\<not> setback s s'"
  shows "(s', s) \<in> measures [fetches_due, steps_due]"
  using assms
proof cases
  case (SaveFetchedFails c r logs e w')
  with assms(2) show ?thesis by (simp add: setback_def)
qed (auto simp: due_defs setback_def)

lemma lp_closer:
  assumes "lp_step E m handle s s'" and "ix_up s'" and "\<not> setback s s'"
  shows "(s', s) \<in> measures [fetches_due, steps_due]"
  using assms
proof cases
  case (Timestamp b rest r w')
  have "r = Inr ()"
  proof (rule ccontr)
    assume "r \<noteq> Inr ()"
    then have "s' = s\<lparr>ix_w := w'\<rparr>" using Timestamp(1,2) by (cases s) simp
    then show False using assms(3) by (simp add: setback_def)
  qed
  with Timestamp show ?thesis by (simp add: due_defs)
next
  case (HandleLogFails b ts l rest e w')
  have "l # rest = lb_Logs b" using HandleLogFails(1,2) assms(3) by (auto simp: setback_def)
  then have "s' = s\<lparr>ix_w := w'\<rparr>" using HandleLogFails(1,2) by (cases s) simp
  then show ?thesis using assms(3) by (simp add: setback_def)
next
  case (SaveProcessedFails c b e w')
  with assms(3) show ?thesis by (simp add: setback_def)
qed (auto simp: due_defs setback_def)

lemma work_wf: "wf {(s', s). work_step G E m handle s s' \<and> ix_up s' \<and> \<not> setback s s'}"
  by (rule wf_subset [of "measures [fetches_due, steps_due]"])
    (auto simp: work_step_def dest: bf_closer lf_closer lp_closer)

section \<open>When nothing is left to do\<close>

lemma idle:
  assumes "\<not> Ex (work_step G E m handle s)"
  shows "queue s = []" "range_list s = []" "\<not> loading (ix_lf s)"
proof -
  have lp: "ix_lp s = LpIdle \<and> ix_logs s = []" and lf: "\<not> Ex (lf_step G E m s)"
    using assms lp_progress [of E m handle s] by (auto simp: work_step_def)
  with lf_progress [of G E m s] have idle: "ix_lf s = LfIdle" "ix_ranges s = []"
    by (auto simp: defaultLogsChanCap_def)
  have "bf_pending (ix_bf s) = []"
  proof (cases "ix_bf s")
    case (BfSend rs start)
    have "\<not> Ex (bf_step m s)" using assms BfSend by (auto simp: work_step_def)
    then show ?thesis
      using BfSend idle(2) bf_step.SendRange [of s "hd rs" "tl rs" start m]
      by (cases rs) (auto simp: bf_pending_def defaultBlockRangesChanCap_def)
  qed (simp add: bf_pending_def)
  with lp idle show "queue s = []" "range_list s = []" "\<not> loading (ix_lf s)"
    by (simp_all add: queue_def range_list_def part_defs loading_def)
qed

section \<open>Properties\<close>

text \<open>Property C4. A contract monitor catches up. Between two polls of the chain's head there is no infinite run of its
  goroutines with only finitely many failed calls, for the other steps decrease a well-founded order; and in every
  reachable state of a running monitor in which none of them can take a step but the poll, every wanted log below the
  next block to schedule has been handled.\<close>

theorem monitor_catches_up:
  assumes "m \<in> {homeMonitor G E cfg N, foreignMonitor G E cfg N N'}" and "setting_ok G m chain"
    and "reachable G E m (processLog L m) chain s" and "ix_up s" and "\<not> Ex (work_step G E m (processLog L m) s)"
    and "rl \<in> set chain" "wanted G m rl" "rl_BlockNumber rl < bf_start (ix_bf s)"
  shows "wf {(s', s). work_step G E m (processLog L m) s s' \<and> ix_up s' \<and> \<not> setback s s'}
    \<and> done_log (handled_log L m) (bs_ChainID (mon_cfg m)) (w_db (ix_w s)) rl"
proof
  show "wf {(s', s). work_step G E m (processLog L m) s s' \<and> ix_up s' \<and> \<not> setback s s'}" by (rule work_wf)
  note idle = idle [OF assms(5)]
  from inv_up_says [OF monitors_inv [OF assms(1-3)] assms(4) idle(3) assms(6-8)]
  show "done_log (handled_log L m) (bs_ChainID (mon_cfg m)) (w_db (ix_w s)) rl"
    unfolding idle(1,2) by (simp add: queued_def)
qed

end
