(* ===== verification/CatchUpRun.thy ===== *)
theory CatchUpRun
  imports IndexerLive SampleRun
begin

text \<open>
  The run of theory \<open>SampleRun\<close> goes on until nothing is left to do: the batches are sent and processed. The
  property of theory \<open>IndexerLive\<close> is applied to its end.
\<close>

section \<open>The calls\<close>

abbreviation demo_handle :: "Log \<Rightarrow> (world, unit) io" where
  "demo_handle \<equiv> processLog sample_abilib demo_monitor"

lemma demo_handle_row: "demo_handle demo_row w = (Inr (), w)"
proof -
  have "mon_ABI demo_monitor = ErcToNativeABI sample_geth"
    by (simp add: demo_monitor_def homeMonitor_def getBridgeABI_def demo_bridge_def sample_config_init_def sample_config_def
        Config_init_def BridgeConfig_init_def BridgeSideConfig_init_def sample_bridge_def sample_side_def Let_def)
  moreover have "FindMatchingEventABI (ErcToNativeABI sample_geth) [7] = Inr None"
    by code_simp
  moreover have t: "Topics demo_row = [7]" "log_Topic0 demo_row = Some 7"
    by (simp_all add: Topics_def demo_row_def demo_log_def NewLog_def)
  ultimately have "ParseLog sample_abilib (mon_ABI demo_monitor) demo_row = Inr ([], [])" by (simp add: ParseLog_def)
  moreover have "map_of (mon_eventHandlers demo_monitor) [] = None"
    by (simp add: demo_monitor_def homeMonitor_def registered_names)
  ultimately show ?thesis using t(2) by (simp add: processLog_def bindE_apply bindE_liftE_apply returnE_def)
qed

lemma demo_timestamp:
  assumes "int4_ok n"
  shows "\<exists>w'. tryToGetBlockTimestamp sample_env demo_monitor n w = (Inr (), w')"
  using assms
  by (auto simp: tryToGetBlockTimestamp_def bindE_apply IgnoreErrNotFound_def BlockTimestamps_GetByBlockNumber_def sample_query
      first_row_def HeaderByNumber_def rpc_def demo_node_def sample_node_def BlockTimestamps_Ensure_def sample_exec
      ensure_stmt_def ensure_row_def returnE_def split: list.split)

lemma demo_save_any: "cursor_ok c \<Longrightarrow> \<exists>w'. LogsCursors_Ensure sample_env c w = (Inr (), w')"
  by (simp add: LogsCursors_Ensure_def sample_exec ensure_stmt_def ensure_row_def)

section \<open>A batch\<close>

definition demo_busy :: "world \<Rightarrow> progress \<Rightarrow> LogsBatch list \<Rightarrow> logs_processor \<Rightarrow> indexer" where
  "demo_busy w p bs lp = (demo_at w p [] bs (BfPoll 199) LfIdle)\<lparr>ix_lp := lp\<rparr>"

lemma demo_busy_sel [simp]:
  "ix_up (demo_busy w p bs lp) = True" "ix_w (demo_busy w p bs lp) = w" "ix_p (demo_busy w p bs lp) = p"
  "ix_logs (demo_busy w p bs lp) = bs" "ix_lp (demo_busy w p bs lp) = lp" "ix_bf (demo_busy w p bs lp) = BfPoll 199"
  "ix_lf (demo_busy w p bs lp) = LfIdle" "ix_ranges (demo_busy w p bs lp) = []"
  by (simp_all add: demo_busy_def demo_at_def)

abbreviation demo_to :: "indexer \<Rightarrow> indexer \<Rightarrow> bool" where
  "demo_to \<equiv> run_path sample_geth sample_env demo_monitor demo_handle"

lemma demo_lp:
  assumes "demo_to s0 (demo_busy w p bs lp)" and "lp_step sample_env demo_monitor demo_handle (demo_busy w p bs lp) s'"
    and "s' = demo_busy w' p' bs' lp'"
  shows "demo_to s0 (demo_busy w' p' bs' lp')"
  using run_path.Snoc [OF assms(1)] assms(2,3) by (simp add: run_step_def)

lemma demo_batch_done:
  assumes run: "demo_to s0 (demo_busy w p (b # bs) LpIdle)"
    and b: "lb_Logs b = [] \<or> lb_Logs b = [demo_row]" "int4_ok (lb_BlockNumber b)"
    and c: "pg_logsCursor p = demo_cursor\<lparr>lc_LastProcessedBlock := q\<rparr>" "q \<le> lb_BlockNumber b" "lb_BlockNumber b \<le> 198"
  shows "\<exists>w' p'. demo_to s0 (demo_busy w' p' bs LpIdle)
    \<and> pg_logsCursor p' = demo_cursor\<lparr>lc_LastProcessedBlock := lb_BlockNumber b\<rparr>"
proof -
  let ?n = "lb_BlockNumber b" and ?step = "lp_step sample_env demo_monitor demo_handle"
  have 1: "demo_to s0 (demo_busy w p bs (LpRun b False (lb_Logs b)))"
    by (rule demo_lp [OF run lp_step.TakeBatch [of _ b bs]]) (simp_all add: demo_busy_def demo_at_def)
  obtain w1 where ts: "tryToGetBlockTimestamp sample_env demo_monitor ?n w = (Inr (), w1)"
    using demo_timestamp [OF b(2)] by blast
  have 2: "demo_to s0 (demo_busy w1 p bs (LpRun b True (lb_Logs b)))"
    by (rule demo_lp [OF 1 lp_step.Timestamp [of _ b "lb_Logs b" sample_env demo_monitor "Inr ()" w1]])
      (simp_all add: demo_busy_def demo_at_def ts)
  have 3: "demo_to s0 (demo_busy w1 p bs (LpRun b True []))"
    using b(1)
  proof
    assume "lb_Logs b = [demo_row]"
    show ?thesis
      by (rule demo_lp [OF 2 [unfolded \<open>lb_Logs b = [demo_row]\<close>] lp_step.HandleLog [of _ b True demo_row "[]" demo_handle "()" w1]])
        (simp_all add: demo_busy_def demo_at_def demo_handle_row)
  qed (use 2 in simp)
  have 4: "demo_to s0 (demo_busy w1 p bs (LpRecord b))"
    by (rule demo_lp [OF 3 lp_step.Handled [of _ b]]) (simp_all add: demo_busy_def demo_at_def)
  let ?p = "recordIsSynced (p\<lparr>pg_logsCursor := (pg_logsCursor p)\<lparr>lc_LastProcessedBlock := ?n\<rparr>\<rparr>)"
  have cursor: "pg_logsCursor ?p = demo_cursor\<lparr>lc_LastProcessedBlock := ?n\<rparr>"
    using c(1) by (simp add: recordIsSynced_def demo_cursor_def)
  have 5: "demo_to s0 (demo_busy w1 ?p bs (LpPrepare b))"
    by (rule demo_lp [OF 4 lp_step.SetProcessed [of _ b ?p]])
      (use c in \<open>simp_all add: demo_busy_def demo_at_def setProcessed_def not_less\<close>)
  have 6: "demo_to s0 (demo_busy w1 ?p bs (LpSave (pg_logsCursor ?p) b))"
    by (rule demo_lp [OF 5 lp_step.PrepareProcessed [of _ b]]) (simp_all add: demo_busy_def demo_at_def mem_cursor_def)
  have "cursor_ok (pg_logsCursor ?p)"
    unfolding cursor using c(3) b(2) by (simp add: cursor_ok_def demo_cursor_def int4_ok_def int4_max_def)
  then obtain w2 where save: "LogsCursors_Ensure sample_env (pg_logsCursor ?p) w1 = (Inr (), w2)"
    using demo_save_any by blast
  have 7: "demo_to s0 (demo_busy w2 ?p bs LpIdle)"
    by (rule demo_lp [OF 6 lp_step.SaveProcessed [of _ "pg_logsCursor ?p" b sample_env "()" w2]])
      (simp_all add: demo_busy_def demo_at_def save)
  with cursor show ?thesis by blast
qed

section \<open>The rest of the run\<close>

definition demo_sent :: "LogsBatch list" where
  "demo_sent = [\<lparr>lb_BlockNumber = 120, lb_Logs = [demo_row]\<rparr>, \<lparr>lb_BlockNumber = 198, lb_Logs = []\<rparr>]"

lemma demo_submitted_batches: "submitLogs [demo_row] 198 = demo_sent"
  by (simp add: submitLogs_def Let_def SplitLogsInBatches_cut cut_batches.simps demo_sent_def demo_row_def demo_log_def NewLog_def
      sentinelLog_def MaxUint32_def)

definition demo_sending :: "LogsBatch list \<Rightarrow> block_fetcher \<Rightarrow> logs_fetcher \<Rightarrow> indexer" where
  "demo_sending bs bf lf = demo_at \<lparr>w_db = demo_final, w_tick = 6\<rparr> (demo_prog 198 198) [] bs bf lf"

lemma demo_sending_step:
  assumes "demo_to s0 (demo_sending bs bf lf)"
    and "bf_step demo_monitor (demo_sending bs bf lf) s' \<or> lf_step sample_geth sample_env demo_monitor (demo_sending bs bf lf) s'"
  shows "demo_to s0 s'"
  by (rule run_path.Snoc [OF assms(1)]) (use assms(2) in \<open>auto simp: run_step_def demo_sending_def demo_at_def\<close>)

lemma demo_all_sent:
  "demo_to demo_end (demo_busy \<lparr>w_db = demo_final, w_tick = 6\<rparr> (demo_prog 198 198) (demo_batch # demo_sent) LpIdle)"
proof -
  obtain b1 b2 where sent: "demo_sent = [b1, b2]" by (simp add: demo_sent_def)
  note defs = demo_sending_def demo_at_def defaultLogsChanCap_def
  have "demo_end = demo_sending [demo_batch] (BfSend [] 199) (LfSend [b1, b2])"
    by (simp add: demo_end_def demo_fetching_def demo_sending_def demo_submitted_batches sent)
  then have 0: "demo_to demo_end (demo_sending [demo_batch] (BfSend [] 199) (LfSend [b1, b2]))"
    using run_path.Nil [of sample_geth sample_env demo_monitor demo_handle demo_end] by simp
  have 1: "demo_to demo_end (demo_sending [demo_batch, b1] (BfSend [] 199) (LfSend [b2]))"
    by (rule demo_sending_step [OF 0])
      (use lf_step.SendBatch [of "demo_sending [demo_batch] (BfSend [] 199) (LfSend [b1, b2])" b1 "[b2]"] in \<open>simp add: defs\<close>)
  have 2: "demo_to demo_end (demo_sending [demo_batch, b1, b2] (BfSend [] 199) (LfSend []))"
    by (rule demo_sending_step [OF 1])
      (use lf_step.SendBatch [of "demo_sending [demo_batch, b1] (BfSend [] 199) (LfSend [b2])" b2 "[]"] in \<open>simp add: defs\<close>)
  have 3: "demo_to demo_end (demo_sending [demo_batch, b1, b2] (BfSend [] 199) LfIdle)"
    by (rule demo_sending_step [OF 2])
      (use lf_step.Submitted [of "demo_sending [demo_batch, b1, b2] (BfSend [] 199) (LfSend [])"] in \<open>simp add: defs\<close>)
  have "demo_to demo_end (demo_sending [demo_batch, b1, b2] (BfPoll 199) LfIdle)"
    by (rule demo_sending_step [OF 3])
      (use bf_step.Scheduled [of "demo_sending [demo_batch, b1, b2] (BfSend [] 199) LfIdle"] in \<open>simp add: defs\<close>)
  then show ?thesis by (simp add: demo_busy_def demo_sending_def sent demo_at_def)
qed

lemma demo_all_done:
  obtains w p where "demo_to demo_end (demo_busy w p [] LpIdle)"
proof -
  note ok = int4_ok_def int4_max_def demo_batch_def
  obtain b1 b2 where sent: "demo_sent = [b1, b2]" and bs: "b1 = \<lparr>lb_BlockNumber = 120, lb_Logs = [demo_row]\<rparr>"
    "b2 = \<lparr>lb_BlockNumber = 198, lb_Logs = []\<rparr>" by (simp add: demo_sent_def)
  have "pg_logsCursor (demo_prog 198 198) = demo_cursor\<lparr>lc_LastProcessedBlock := 99\<rparr>"
    by (simp add: demo_prog_def demo_cursor_def)
  from demo_batch_done [OF demo_all_sent [unfolded sent] _ _ this] obtain w1 p1 where
    1: "demo_to demo_end (demo_busy w1 p1 [b1, b2] LpIdle)" "pg_logsCursor p1 = demo_cursor\<lparr>lc_LastProcessedBlock := 99\<rparr>"
    by (auto simp: ok)
  from demo_batch_done [OF 1(1) _ _ 1(2)] obtain w2 p2 where
    2: "demo_to demo_end (demo_busy w2 p2 [b2] LpIdle)" "pg_logsCursor p2 = demo_cursor\<lparr>lc_LastProcessedBlock := 120\<rparr>"
    by (auto simp: ok bs)
  from demo_batch_done [OF 2(1) _ _ 2(2)] that show thesis by (auto simp: ok bs)
qed

section \<open>The property applied\<close>

lemma demo_idle: "\<not> Ex (work_step sample_geth sample_env demo_monitor demo_handle (demo_busy w p [] LpIdle))"
  by (auto simp: work_step_def elim: lf_step.cases lp_step.cases)

lemma monitor_catches_up_witness:
  "\<exists>w p. reachable sample_geth sample_env demo_monitor demo_handle [demo_log] (demo_busy w p [] LpIdle)
    \<and> done_log (handled_log sample_abilib demo_monitor) ''100'' (w_db w) demo_log"
proof -
  obtain w p where "demo_to demo_end (demo_busy w p [] LpIdle)" by (rule demo_all_done)
  from reachable_path [OF this demo_reachable]
  have r: "reachable sample_geth sample_env demo_monitor demo_handle [demo_log] (demo_busy w p [] LpIdle)" .
  have "rl_BlockNumber demo_log < bf_start (ix_bf (demo_busy w p [] LpIdle))" by (simp add: bf_start_def demo_log_def)
  from monitor_catches_up [OF demo_monitor_home demo_setting r _ demo_idle _ demo_wanted this] r show ?thesis by auto
qed

end
