(* ===== verification/AlertStuck.thy ===== *)
theory AlertStuck
  imports AlertFacts
begin

text \<open>
  The alert of stuck messages and the alert of the last activity of validators: which rows they report, in
  terms of the tables and of the ledger of theory \<open>Ledger\<close>.
\<close>

section \<open>Groups\<close>

lemma group_rows_in:
  "g \<in> set (group_rows key rows) \<longleftrightarrow> (\<exists>j \<in> set rows. g = filter (\<lambda>i. key i = key j) rows)"
  by (auto simp: group_rows_def)

lemma group_hd:
  assumes "g \<in> set (group_rows key rows)"
  shows "hd g \<in> set rows \<and> g = filter (\<lambda>i. key i = key (hd g)) rows"
proof -
  from assms obtain j where j: "j \<in> set rows" "g = filter (\<lambda>i. key i = key j) rows" by (auto simp: group_rows_in)
  then have "g \<noteq> []" by (auto simp: filter_empty_conv)
  then have "hd g \<in> set g" by simp
  with j show ?thesis by auto
qed

lemma group_heads:
  assumes "j \<in> set rows"
  shows "\<exists>g \<in> set (group_rows key rows). hd g \<in> set rows \<and> key (hd g) = key j"
proof -
  have "filter (\<lambda>i. key i = key j) rows \<in> set (group_rows key rows)" using assms by (auto simp: group_rows_in)
  then obtain g where g: "g \<in> set (group_rows key rows)" "j \<in> set g" using assms by auto
  with group_hd [OF g(1)] show ?thesis by (metis (mono_tags, lifting) mem_Collect_eq set_filter)
qed

section \<open>Stuck messages\<close>

text \<open>
  A sent message is stuck: on the way to the foreign chain, when its signatures were not collected, or when
  the bridge is to execute it and has not; on the way to the home chain, when it was not executed.
\<close>

definition waits :: "AlertJobParams \<Rightarrow> database \<Rightarrow> Log \<Rightarrow> Message \<Rightarrow> bool" where
  "waits q d l m \<longleftrightarrow> (case msg_Direction m of
     DirectionHomeToForeign \<Rightarrow> ap_HomeStartBlockNumber q \<le> log_BlockNumber l \<and>
       (collected_of d (msg_BridgeID m) (msg_MsgHash m) = []
        \<or> executed_of d (msg_BridgeID m) (msg_MessageID m) = [] \<and> msg_DataType m = 0
          \<and> msg_Sender m \<in> set (ap_HomeWhitelistedSenders q))
   | DirectionForeignToHome \<Rightarrow> ap_ForeignStartBlockNumber q \<le> log_BlockNumber l
       \<and> executed_of d (msg_BridgeID m) (msg_MessageID m) = [])"

definition stuck :: "AlertJobParams \<Rightarrow> database \<Rightarrow> SentMessage \<Rightarrow> Log \<Rightarrow> BlockTimestamp \<Rightarrow> Message \<Rightarrow> bool" where
  "stuck q d s l bt m \<longleftrightarrow> s \<in> set (vals (db_sent_messages d)) \<and> (l, bt) \<in> set (log_times d (sm_LogID s))
     \<and> m \<in> set (vals (db_messages d)) \<and> msg_key m = (sm_BridgeID s, sm_MsgHash s) \<and> sm_BridgeID s = ap_Bridge q
     \<and> waits q d l m"

lemma left_join_exists: "(\<exists>x. x \<in> set (left_join xs))"
  by (cases xs) (auto simp: left_join_def)

lemma messages_of_in: "m \<in> set (messages_of d b h) \<longleftrightarrow> m \<in> set (vals (db_messages d)) \<and> msg_key m = (b, h)"
  by (auto simp: messages_of_def msg_key_def)

lemma stuck_home_in:
  "(s, l, bt, m, sg) \<in> set (stuck_home q d) \<longleftrightarrow> stuck q d s l bt m \<and> msg_Direction m = DirectionHomeToForeign
     \<and> sg \<in> set (left_join (signed_of d (msg_BridgeID m) (msg_MsgHash m)))"
proof -
  have "(s, l, bt, m, sg) \<in> set (stuck_home q d) \<longleftrightarrow> s \<in> set (vals (db_sent_messages d))
      \<and> (l, bt) \<in> set (log_times d (sm_LogID s)) \<and> m \<in> set (messages_of d (sm_BridgeID s) (sm_MsgHash s))
      \<and> sg \<in> set (left_join (signed_of d (msg_BridgeID m) (msg_MsgHash m)))
      \<and> (\<exists>cm \<in> set (left_join (collected_of d (msg_BridgeID m) (msg_MsgHash m))).
          \<exists>em \<in> set (left_join (executed_of d (msg_BridgeID m) (msg_MessageID m))). msg_Direction m = DirectionHomeToForeign
            \<and> (cm = None \<or> em = None \<and> msg_DataType m = 0 \<and> msg_Sender m \<in> set (ap_HomeWhitelistedSenders q))
            \<and> sm_BridgeID s = ap_Bridge q \<and> ap_HomeStartBlockNumber q \<le> log_BlockNumber l)"
    unfolding stuck_home_def by (auto split: if_splits)
  then show ?thesis
    using left_join_exists [of "collected_of d (msg_BridgeID m) (msg_MsgHash m)"]
      left_join_exists [of "executed_of d (msg_BridgeID m) (msg_MessageID m)"]
    by (auto simp: stuck_def waits_def messages_of_in)
qed

lemma stuck_foreign_in:
  "(s, l, bt, m, sg) \<in> set (stuck_foreign q d) \<longleftrightarrow> stuck q d s l bt m \<and> msg_Direction m = DirectionForeignToHome
     \<and> sg \<in> set (left_join (signed_of d (msg_BridgeID m) (msg_MsgHash m)))"
proof -
  have "(s, l, bt, m, sg) \<in> set (stuck_foreign q d) \<longleftrightarrow> s \<in> set (vals (db_sent_messages d))
      \<and> (l, bt) \<in> set (log_times d (sm_LogID s)) \<and> m \<in> set (messages_of d (sm_BridgeID s) (sm_MsgHash s))
      \<and> sg \<in> set (left_join (signed_of d (msg_BridgeID m) (msg_MsgHash m)))
      \<and> (\<exists>em \<in> set (left_join (executed_of d (msg_BridgeID m) (msg_MessageID m))). msg_Direction m = DirectionForeignToHome
            \<and> em = None \<and> sm_BridgeID s = ap_Bridge q \<and> ap_ForeignStartBlockNumber q \<le> log_BlockNumber l)"
    unfolding stuck_foreign_def by (auto split: if_splits)
  then show ?thesis
    by (auto simp: stuck_def waits_def messages_of_in)
qed

lemma concat_guard: "concat (map (\<lambda>x. if P x then f x else []) xs) = concat (map f (filter P xs))"
  by (induction xs) auto

text \<open>In a database that satisfies its constraints every join but the ones with signatures, collections and
  executions finds at most one row.\<close>

lemma stuck_rows:
  assumes "db_inv d" and "stuck q d s l bt m"
  shows "log_times d (sm_LogID s) = [(l, bt)]" "messages_of d (sm_BridgeID s) (sm_MsgHash s) = [m]"
proof -
  have inv: "distinct (map log_ID (vals (db_logs d)))" "distinct (map ts_key (vals (db_block_timestamps d)))"
      "distinct (map msg_key (vals (db_messages d)))"
    using assms(1) by (simp_all add: db_inv_def logs_inv_def keys_inv_def log_ids_def)
  from assms(2) have in_tables: "l \<in> set (vals (db_logs d))" "log_ID l = sm_LogID s"
      "bt \<in> set (vals (db_block_timestamps d))" "ts_key bt = (log_ChainID l, log_BlockNumber l)"
      "m \<in> set (vals (db_messages d))" "msg_key m = (sm_BridgeID s, sm_MsgHash s)"
    by (auto simp: stuck_def log_times_in)
  have "filter (\<lambda>x. log_ID x = sm_LogID s) (vals (db_logs d)) = [l]"
    using filter_key [OF inv(1) in_tables(1)] in_tables(2) by simp
  moreover have "filter (\<lambda>b. bt_ChainID b = log_ChainID l \<and> bt_BlockNumber b = log_BlockNumber l)
      (vals (db_block_timestamps d)) = [bt]"
    using filter_key [OF inv(2) in_tables(3)] in_tables(4) by (simp add: ts_key_def)
  moreover have "log_times d i = concat (map (\<lambda>l. map (Pair l) (filter (\<lambda>b. bt_ChainID b = log_ChainID l
      \<and> bt_BlockNumber b = log_BlockNumber l) (vals (db_block_timestamps d)))) (filter (\<lambda>x. log_ID x = i) (vals (db_logs d))))" for i
    by (simp add: log_times_def concat_if concat_guard)
  ultimately show "log_times d (sm_LogID s) = [(l, bt)]" by simp
  show "messages_of d (sm_BridgeID s) (sm_MsgHash s) = [m]"
    using filter_key [OF inv(3) in_tables(5)] in_tables(6) by (simp add: messages_of_def msg_key_def)
qed

lemma concat_map_single:
  "distinct xs \<Longrightarrow> x \<in> set xs \<Longrightarrow> (\<And>y. y \<in> set xs \<Longrightarrow> y \<noteq> x \<Longrightarrow> f y = []) \<Longrightarrow> concat (map f xs) = f x"
proof (induction xs)
  case (Cons y xs)
  show ?case
  proof (cases "y = x")
    case True
    with Cons.prems have "\<forall>z \<in> set xs. f z = []" by auto
    then have "concat (map f xs) = []" by simp
    with True show ?thesis by simp
  next
    case False
    with Cons show ?thesis by auto
  qed
qed simp

text \<open>
  How often a signature is counted: on the way to the foreign chain once for every pair of a collection and
  an execution the message has.
\<close>

definition copies :: "AlertJobParams \<Rightarrow> database \<Rightarrow> Message \<Rightarrow> nat" where
  "copies q d m = (case msg_Direction m of DirectionForeignToHome \<Rightarrow> 1 | DirectionHomeToForeign \<Rightarrow>
     length [(). cm \<leftarrow> left_join (collected_of d (msg_BridgeID m) (msg_MsgHash m)),
       em \<leftarrow> left_join (executed_of d (msg_BridgeID m) (msg_MessageID m)),
       cm = None \<or> em = None \<and> msg_DataType m = 0 \<and> msg_Sender m \<in> set (ap_HomeWhitelistedSenders q)])"

definition home_part :: "AlertJobParams \<Rightarrow> database \<Rightarrow> SentMessage \<Rightarrow> stuck_join list" where
  "home_part q d s = [(s, l, bt, m, sg). (l, bt) \<leftarrow> log_times d (sm_LogID s),
     m \<leftarrow> messages_of d (sm_BridgeID s) (sm_MsgHash s),
     sg \<leftarrow> left_join (signed_of d (msg_BridgeID m) (msg_MsgHash m)),
     cm \<leftarrow> left_join (collected_of d (msg_BridgeID m) (msg_MsgHash m)),
     em \<leftarrow> left_join (executed_of d (msg_BridgeID m) (msg_MessageID m)),
     msg_Direction m = DirectionHomeToForeign
     \<and> (cm = None \<or> em = None \<and> msg_DataType m = 0 \<and> msg_Sender m \<in> set (ap_HomeWhitelistedSenders q))
     \<and> sm_BridgeID s = ap_Bridge q \<and> ap_HomeStartBlockNumber q \<le> log_BlockNumber l]"

definition foreign_part :: "AlertJobParams \<Rightarrow> database \<Rightarrow> SentMessage \<Rightarrow> stuck_join list" where
  "foreign_part q d s = [(s, l, bt, m, sg). (l, bt) \<leftarrow> log_times d (sm_LogID s),
     m \<leftarrow> messages_of d (sm_BridgeID s) (sm_MsgHash s),
     sg \<leftarrow> left_join (signed_of d (msg_BridgeID m) (msg_MsgHash m)),
     em \<leftarrow> left_join (executed_of d (msg_BridgeID m) (msg_MessageID m)),
     msg_Direction m = DirectionForeignToHome \<and> em = None
     \<and> sm_BridgeID s = ap_Bridge q \<and> ap_ForeignStartBlockNumber q \<le> log_BlockNumber l]"

lemma parts: "stuck_home q d = concat (map (home_part q d) (vals (db_sent_messages d)))"
  "stuck_foreign q d = concat (map (foreign_part q d) (vals (db_sent_messages d)))"
  unfolding stuck_home_def stuck_foreign_def home_part_def foreign_part_def by (rule refl)+

lemma part_fst:
  "set (home_part q d s) \<subseteq> {s} \<times> UNIV" "set (foreign_part q d s) \<subseteq> {s} \<times> UNIV"
  unfolding home_part_def foreign_part_def by (simp_all add: case_prod_beta image_subset_iff UN_subset_iff)

lemma fst_stuck_key: "fst (stuck_key j) = sm_LogID (fst j)"
  by (simp add: stuck_key_def case_prod_beta)

lemma part_key:
  "j \<in> set (home_part q d s) \<Longrightarrow> fst (stuck_key j) = sm_LogID s"
  "j \<in> set (foreign_part q d s) \<Longrightarrow> fst (stuck_key j) = sm_LogID s"
  using part_fst [of q d s] by (auto simp: fst_stuck_key)

lemma filter_part:
  assumes "distinct (map sm_LogID xs)" "s \<in> set xs" "\<And>s j. j \<in> set (f s) \<Longrightarrow> fst (stuck_key j) = sm_LogID s"
    and "\<And>j. j \<in> set (f s) \<Longrightarrow> stuck_key j = (sm_LogID s, k)"
  shows "filter (\<lambda>j. stuck_key j = (sm_LogID s, k)) (concat (map f xs)) = f s"
proof -
  have "filter (\<lambda>j. stuck_key j = (sm_LogID s, k)) (concat (map f xs)) =
      concat (map (\<lambda>x. filter (\<lambda>j. stuck_key j = (sm_LogID s, k)) (f x)) xs)"
    by (simp add: filter_concat comp_def)
  also have "\<dots> = filter (\<lambda>j. stuck_key j = (sm_LogID s, k)) (f s)"
  proof (rule concat_map_single)
    show "distinct xs" using assms(1) by (simp add: distinct_map)
    fix y assume "y \<in> set xs" "y \<noteq> s"
    then have "sm_LogID y \<noteq> sm_LogID s" using assms(1,2) by (auto simp: distinct_map inj_on_def)
    with assms(3) show "filter (\<lambda>j. stuck_key j = (sm_LogID s, k)) (f y) = []"
      by (auto simp: filter_empty_conv) (metis fst_conv)
  qed (rule assms(2))
  also have "\<dots> = f s" using assms(4) by (simp add: filter_id_conv)
  finally show ?thesis .
qed

lemma pairs_replicate:
  fixes y :: stuck_join
  shows "concat (map (\<lambda>x. concat (map (\<lambda>z. if C x z then [y] else []) zs)) xs) =
     replicate (length (concat (map (\<lambda>x. concat (map (\<lambda>z. if C x z then [()] else []) zs)) xs))) y"
  by (induction xs) (simp_all add: concat_if map_replicate_const replicate_add)

lemma home_part_rows:
  assumes "db_inv d" "stuck q d s l bt m" "msg_Direction m = DirectionHomeToForeign"
  shows "home_part q d s = concat (map (\<lambda>sg. replicate (copies q d m) (s, l, bt, m, sg))
    (left_join (signed_of d (msg_BridgeID m) (msg_MsgHash m))))"
proof -
  have side: "sm_BridgeID s = ap_Bridge q" "ap_HomeStartBlockNumber q \<le> log_BlockNumber l"
    using assms(2,3) by (simp_all add: stuck_def waits_def)
  show ?thesis
    unfolding home_part_def stuck_rows [OF assms(1,2)] copies_def assms(3)
    by (simp add: side assms(3) pairs_replicate)
qed

lemma foreign_part_rows:
  assumes "db_inv d" "stuck q d s l bt m" "msg_Direction m = DirectionForeignToHome"
  shows "foreign_part q d s = concat (map (\<lambda>sg. replicate (copies q d m) (s, l, bt, m, sg))
    (left_join (signed_of d (msg_BridgeID m) (msg_MsgHash m))))"
proof -
  have side: "sm_BridgeID s = ap_Bridge q" "ap_ForeignStartBlockNumber q \<le> log_BlockNumber l"
      "executed_of d (msg_BridgeID m) (msg_MessageID m) = []"
    using assms(2,3) by (simp_all add: stuck_def waits_def)
  show ?thesis
    unfolding foreign_part_def stuck_rows [OF assms(1,2)] copies_def assms(3)
    by (simp add: side assms(3))
qed

lemma count_join:
  "count_rows (\<lambda>(s, l, bt, m, sg). sg) (concat (map (\<lambda>sg. replicate n (s, l, bt, m, sg)) (left_join xs))) = length xs * n"
proof (cases xs)
  case (Cons x ys)
  have "count_rows (\<lambda>(s, l, bt, m, sg). sg) (concat (map (\<lambda>sg. replicate n (s, l, bt, m, sg)) (map Some zs))) = length zs * n" for zs
    by (induction zs) (simp_all add: count_rows_def)
  moreover have "left_join xs = map Some xs" using Cons by (simp add: left_join_def)
  ultimately show ?thesis by (simp only:)
qed (simp add: count_rows_def)

text \<open>The report of a sent message.\<close>

definition stuck_report :: "AlertJobParams \<Rightarrow> database \<Rightarrow> time \<Rightarrow> SentMessage \<Rightarrow> Log \<Rightarrow> BlockTimestamp \<Rightarrow> Message \<Rightarrow> StuckMessage" where
  "stuck_report q d now s l bt m = \<lparr>st_ChainID = log_ChainID l, st_BlockNumber = log_BlockNumber l,
     st_Age = now - bt_Timestamp bt, st_TransactionHash = log_TransactionHash l, st_MsgHash = sm_MsgHash s,
     st_Count = length (signed_of d (msg_BridgeID m) (msg_MsgHash m)) * copies q d m\<rparr>"

lemma stuck_group:
  assumes inv: "db_inv d" and st: "stuck q d s l bt m"
    and part: "f s = concat (map (\<lambda>sg. replicate (copies q d m) (s, l, bt, m, sg))
      (left_join (signed_of d (msg_BridgeID m) (msg_MsgHash m))))"
    and keys: "\<And>s j. j \<in> set (f s) \<Longrightarrow> fst (stuck_key j) = sm_LogID s" and ne: "f s \<noteq> []"
  shows "stuck_message now (filter (\<lambda>i. stuck_key i = stuck_key (s, l, bt, m, sg))
    (concat (map f (vals (db_sent_messages d))))) = stuck_report q d now s l bt m"
proof -
  have "distinct (map sm_LogID (vals (db_sent_messages d)))" "s \<in> set (vals (db_sent_messages d))"
    using inv st by (simp_all add: db_inv_def keys_inv_def stuck_def)
  moreover have "stuck_key j = (sm_LogID s, log_ID l, bt_Timestamp bt)" if "j \<in> set (f s)" for j
    using that by (auto simp: part stuck_key_def)
  ultimately have g: "filter (\<lambda>i. stuck_key i = stuck_key (s, l, bt, m, sg)) (concat (map f (vals (db_sent_messages d)))) = f s"
    using filter_part [of "vals (db_sent_messages d)" s f "(log_ID l, bt_Timestamp bt)"] keys by (simp add: stuck_key_def)
  have "hd (f s) \<in> set (f s)" using ne by simp
  then obtain sg' where "hd (f s) = (s, l, bt, m, sg')" by (auto simp: part)
  then show ?thesis unfolding g stuck_message_def by (simp add: part count_join stuck_report_def)
qed

text \<open>One half of the union: the groups of the joined rows of one direction.\<close>

lemma side_groups:
  assumes inv: "db_inv d" and J: "J = concat (map f (vals (db_sent_messages d)))"
    and J_in: "\<And>s l bt m sg. (s, l, bt, m, sg) \<in> set J \<longleftrightarrow> stuck q d s l bt m \<and> msg_Direction m = dir
      \<and> sg \<in> set (left_join (signed_of d (msg_BridgeID m) (msg_MsgHash m)))"
    and part: "\<And>s l bt m. stuck q d s l bt m \<Longrightarrow> msg_Direction m = dir \<Longrightarrow>
      f s = concat (map (\<lambda>sg. replicate (copies q d m) (s, l, bt, m, sg))
        (left_join (signed_of d (msg_BridgeID m) (msg_MsgHash m))))"
    and sent: "\<And>s. set (f s) \<subseteq> {s} \<times> UNIV"
  shows "stuck_message now ` set (group_rows stuck_key J) =
    {stuck_report q d now s l bt m | s l bt m. stuck q d s l bt m \<and> msg_Direction m = dir}"
proof -
  have report: "stuck_message now (filter (\<lambda>i. stuck_key i = stuck_key (s, l, bt, m, sg)) J) = stuck_report q d now s l bt m
      \<and> stuck q d s l bt m \<and> msg_Direction m = dir"
    if j: "(s, l, bt, m, sg) \<in> set J" for s l bt m sg
  proof -
    from j have st: "stuck q d s l bt m" "msg_Direction m = dir" by (simp_all add: J_in)
    have "(s, l, bt, m, sg) \<in> set (f s)" using j sent by (fastforce simp: J)
    then have ne: "f s \<noteq> []" by auto
    have key: "fst (stuck_key j) = sm_LogID x" if "j \<in> set (f x)" for x j
      using that sent [of x] by (auto simp: fst_stuck_key)
    from stuck_group [OF inv st(1), of f, OF part [OF st] key ne] st show ?thesis
      unfolding J by blast
  qed
  have listed: "\<exists>g \<in> set (group_rows stuck_key J). stuck_message now g = stuck_report q d now s l bt m"
    if "stuck q d s l bt m" "msg_Direction m = dir" for s l bt m
  proof -
    obtain sg where "sg \<in> set (left_join (signed_of d (msg_BridgeID m) (msg_MsgHash m)))" using left_join_exists by blast
    with that have j: "(s, l, bt, m, sg) \<in> set J" by (simp add: J_in)
    then have "filter (\<lambda>i. stuck_key i = stuck_key (s, l, bt, m, sg)) J \<in> set (group_rows stuck_key J)"
      unfolding group_rows_in by blast
    with report [OF j] show ?thesis by blast
  qed
  show ?thesis
  proof (intro equalityI subsetI)
    fix r assume "r \<in> stuck_message now ` set (group_rows stuck_key J)"
    then obtain j where "j \<in> set J" "r = stuck_message now (filter (\<lambda>i. stuck_key i = stuck_key j) J)"
      by (auto simp: group_rows_in)
    moreover obtain s l bt m sg where "j = (s, l, bt, m, sg)" by (cases j)
    ultimately show "r \<in> {stuck_report q d now s l bt m | s l bt m. stuck q d s l bt m \<and> msg_Direction m = dir}"
      using report by blast
  next
    fix r assume "r \<in> {stuck_report q d now s l bt m | s l bt m. stuck q d s l bt m \<and> msg_Direction m = dir}"
    then obtain s l bt m where "r = stuck_report q d now s l bt m" "stuck q d s l bt m" "msg_Direction m = dir" by blast
    with listed show "r \<in> stuck_message now ` set (group_rows stuck_key J)" by (metis imageI)
  qed
qed

lemma stuck_foreign_pending:
  assumes "db_inv d" "stuck q d s l bt m" "msg_Direction m = DirectionForeignToHome"
  shows "m \<in> ledger_pending (ledger_of (ap_Bridge q) d)"
proof -
  have "distinct (map msg_key (vals (db_messages d)))" using assms(1) by (simp add: db_inv_def keys_inv_def)
  from ran_lookup [OF this, of "ap_Bridge q"] assms show ?thesis
    by (auto simp: ledger_pending_def ledger_of_executed stuck_def waits_def msg_key_def executed_def executed_of_def
        list_ex_iff filter_empty_conv)
qed

text \<open>Property C26. The alert of stuck messages reports exactly the sent messages that wait, each with its
  block, its age and the number of its signatures. Those on the way to the home chain are pending messages of
  the ledger. (On the way to the foreign chain a signature is counted once for every pair of a collection and an
  execution of the message.)\<close>

theorem stuck_messages_listed:
  assumes "db_inv (w_db w)" and "FindStuckMessages E q w = (Inr rs, w')"
  shows "\<exists>now. set rs = {stuck_report q (w_db w) now s l bt m | s l bt m. stuck q (w_db w) s l bt m}
    \<and> {m. \<exists>s l bt. stuck q (w_db w) s l bt m \<and> msg_Direction m = DirectionForeignToHome}
        \<subseteq> ledger_pending (ledger_of (ap_Bridge q) (w_db w))"
proof -
  let ?d = "w_db w" and ?now = "env_clock E (w_tick w)"
  have "rs = StuckMessages_rows q ?now ?d" using assms(2) by (simp add: FindStuckMessages_def select_rows_Inr)
  then have "set rs = stuck_message ?now ` set (group_rows stuck_key (stuck_home q ?d))
      \<union> stuck_message ?now ` set (group_rows stuck_key (stuck_foreign q ?d))"
    by (simp add: StuckMessages_rows_def)
  also have "\<dots> = {stuck_report q ?d ?now s l bt m | s l bt m. stuck q ?d s l bt m \<and> msg_Direction m = DirectionHomeToForeign}
      \<union> {stuck_report q ?d ?now s l bt m | s l bt m. stuck q ?d s l bt m \<and> msg_Direction m = DirectionForeignToHome}"
    by (intro arg_cong2 [where f = "(\<union>)"] side_groups [OF assms(1) parts(1) stuck_home_in home_part_rows [OF assms(1)] part_fst(1)]
        side_groups [OF assms(1) parts(2) stuck_foreign_in foreign_part_rows [OF assms(1)] part_fst(2)])
  also have "\<dots> = {stuck_report q ?d ?now s l bt m | s l bt m. stuck q ?d s l bt m}"
    by (auto, metis Direction.exhaust)
  finally show ?thesis using stuck_foreign_pending [OF assms(1)] by blast
qed

section \<open>Validators\<close>

text \<open>The alert of validator activity names each address that is active for the bridge on some
  chain, once, and no other.\<close>

theorem validator_activity_listed:
  assumes "FindLastValidatorActivity E q w = (Inr rs, w')"
  shows "distinct (map lv_Address rs) \<and> set (map lv_Address rs) =
    {a. \<exists>c. a \<in># validators_of (ap_Bridge q) c (w_db w)}"
proof -
  let ?vs = "filter (\<lambda>v. bv_BridgeID v = ap_Bridge q) (vals (db_bridge_validators (w_db w)))"
  let ?gs = "validator_groups q (w_db w)"
  from assms have rs: "map lv_Address rs = map (\<lambda>g. bv_Address (hd g)) ?gs"
    by (auto simp: FindLastValidatorActivity_def db_exec_Inr Let_def split: if_splits)
  have hd: "bv_Address (hd (filter (\<lambda>v. bv_Address v = a) ?vs)) = a" if "a \<in> bv_Address ` set ?vs" for a
    using group_hd [of "filter (\<lambda>v. bv_Address v = a) ?vs" bv_Address ?vs] that
    by (auto simp: group_rows_in filter_empty_conv) (metis (mono_tags, lifting) filter_empty_conv hd_in_set mem_Collect_eq set_filter)
  have gs: "?gs = filter (\<lambda>g. count_rows bv_RemovedLogID g < length g)
      (map (\<lambda>a. filter (\<lambda>v. bv_Address v = a) ?vs) (remdups (map bv_Address ?vs)))"
    by (simp add: validator_groups_def group_rows_def)
  have "map (\<lambda>g. bv_Address (hd g)) ?gs = filter (\<lambda>a. count_rows bv_RemovedLogID (filter (\<lambda>v. bv_Address v = a) ?vs)
      < length (filter (\<lambda>v. bv_Address v = a) ?vs)) (remdups (map bv_Address ?vs))"
    unfolding gs filter_map map_map comp_def by (rule map_idI) (use hd in auto)
  moreover have "count_rows bv_RemovedLogID xs < length xs \<longleftrightarrow> (\<exists>v \<in> set xs. bv_RemovedLogID v = None)"
    for xs :: "BridgeValidator list"
    by (induction xs) (auto simp: count_rows_def less_Suc_eq_le)
  ultimately have "map lv_Address rs = filter (\<lambda>a. \<exists>v \<in> set ?vs. bv_Address v = a \<and> bv_RemovedLogID v = None)
      (remdups (map bv_Address ?vs))"
    unfolding rs by (simp add: Bex_def conj_ac)
  then have "distinct (map lv_Address rs)" "set (map lv_Address rs) =
      {a. \<exists>v \<in> set ?vs. bv_Address v = a \<and> bv_RemovedLogID v = None}"
    by (simp, simp only: set_filter set_remdups set_map, blast)
  then show ?thesis by (auto simp: validators_of_def active_validator_def)
qed

end
