(* ===== verification/AlertRuns.thy ===== *)
theory AlertRuns
  imports AlertStuck PresenterRuns
begin

text \<open>
  Concrete answers of the alert queries, on small databases: the properties of theories \<open>AlertFacts\<close>
  and \<open>AlertStuck\<close> applied to them.
\<close>

section \<open>Jobs\<close>

definition alert_bridge :: BridgeConfig where
  "alert_bridge = view_bridge\<lparr>bc_Alerts := [(''stuck_message_confirmation'', Some emptyAlertConfig)]\<rparr>"

definition alert_q :: AlertJobParams where
  "alert_q = alert_params alert_bridge emptyAlertConfig"

definition alert_demo :: Job where
  "alert_demo = new_job (NewAlertStuckMessageConfirmation ''b'') 300 20
     (\<lambda>q. fmapE StuckMessages (FindStuckMessages sample_env q)) alert_q"

lemma alert_manager: "NewAlertManager D sample_env alert_bridge = Inr [(''stuck_message_confirmation'', alert_demo)]"
  by (simp add: NewAlertManager_def alert_bridge_def alert_jobs_def alert_demo_def alert_q_def)

lemma alert_jobs_never_panic_witness: "fst (fst (Job_Start [False, True, True] alert_demo view_world)) = Inr ()"
  by (rule alert_jobs_never_panic [OF alert_manager]) simp

lemma alert_q_sel [simp]: "ap_Bridge alert_q = ''b''" "ap_HomeChainID alert_q = ''100''" "ap_ForeignChainID alert_q = ''1''"
  "ap_HomeStartBlockNumber alert_q = 0" "ap_ForeignStartBlockNumber alert_q = 0" "ap_HomeWhitelistedSenders alert_q = []"
  "ap_HomeBridgeAddress alert_q = 10" "ap_ForeignBridgeAddress alert_q = 20"
  by (simp_all add: alert_q_def alert_params_def alert_bridge_def emptyAlertConfig_def view_bridge_def view_side_def
      bs_ChainID_def sample_chain_def sample_side_def)

lemma alert_sides_ok [simp]: "sides_ok alert_q"
  by (simp add: sides_ok_def int4_ok_def)

lemma alert_found: "FindStuckMessages sample_env alert_q w =
    (Inr (StuckMessages_rows alert_q (int (w_tick w)) (w_db w)), w\<lparr>w_tick := Suc (w_tick w)\<rparr>)"
  by (simp add: FindStuckMessages_def select_rows_def sample_exec)

lemma alert_metric_shows_answer_witness:
  "\<exists>j' w'. Execute alert_demo True view_world = ((Inr (), j'), w') \<and>
     fst ` set (gv_Series (j_Metric j')) = label_values (gv_Labels (j_Metric alert_demo)) `
       StuckMessage_json ` set (StuckMessages_rows alert_q 0 (w_db view_world))"
proof -
  have func: "j_Func alert_demo (j_Params alert_demo) view_world =
      (Inr (StuckMessages (StuckMessages_rows alert_q 0 (w_db view_world))), view_world\<lparr>w_tick := 1\<rparr>)"
    by (simp add: alert_demo_def new_job_def fmapE_def bindE_apply alert_found) (simp add: view_world_def)
  obtain r j' w' where ex: "Execute alert_demo True view_world = ((r, j'), w')" by (metis surj_pair)
  from alert_metric_shows_answer [OF alert_manager _ this] func
  have "r = Inr ()" "fst ` set (gv_Series (j_Metric j')) = label_values (gv_Labels (j_Metric alert_demo)) `
       set (map StuckMessage_json (StuckMessages_rows alert_q 0 (w_db view_world)))" by (auto simp: Let_def)
  with ex show ?thesis by auto
qed

section \<open>Stuck messages\<close>

text \<open>The message of \<open>view_world\<close> was sent in the second log and signed once; nothing was collected.\<close>

lemma view_more:
  "vals (db_messages (w_db view_world)) = [view_message 7 8 DirectionHomeToForeign, view_message 9 11 DirectionForeignToHome]"
  "vals (db_collected_messages (w_db view_world)) = []"
proof -
  show "vals (db_messages (w_db view_world)) = [view_message 7 8 DirectionHomeToForeign, view_message 9 11 DirectionForeignToHome]"
    by (simp add: view_tables vals_def)
  show "vals (db_collected_messages (w_db view_world)) = []"
    by (simp add: view_world_def emptyDatabase_def vals_def)
qed

lemma view_message_sel: "msg_BridgeID (view_message i m d) = ''b''" "msg_MsgHash (view_message i m d) = i"
  "msg_MessageID (view_message i m d) = m" "msg_Direction (view_message i m d) = d" "msg_DataType (view_message i m d) = 0"
  "msg_Sender (view_message i m d) = 4"
  by (simp_all add: view_message_def)

lemma view_stuck: "stuck alert_q (w_db view_world) \<lparr>sm_LogID = 2, sm_BridgeID = ''b'', sm_MsgHash = 7\<rparr> (sample_log 2 10)
    \<lparr>bt_ChainID = ''100'', bt_BlockNumber = 122, bt_Timestamp = 6\<rparr> (view_message 7 8 DirectionHomeToForeign)"
  by (simp add: stuck_def view_tables(1-5,7) view_more log_times_in ts_key_def msg_key_def waits_def collected_of_def view_message_sel)

lemma stuck_messages_listed_witness:
  "\<exists>now. stuck_report alert_q (w_db view_world) now \<lparr>sm_LogID = 2, sm_BridgeID = ''b'', sm_MsgHash = 7\<rparr> (sample_log 2 10)
    \<lparr>bt_ChainID = ''100'', bt_BlockNumber = 122, bt_Timestamp = 6\<rparr> (view_message 7 8 DirectionHomeToForeign)
    \<in> set (StuckMessages_rows alert_q 0 (w_db view_world))"
proof -
  have "FindStuckMessages sample_env alert_q view_world =
      (Inr (StuckMessages_rows alert_q 0 (w_db view_world)), view_world\<lparr>w_tick := 1\<rparr>)"
    by (simp add: alert_found) (simp add: view_world_def)
  from stuck_messages_listed [OF view_inv this] view_stuck show ?thesis by blast
qed

section \<open>Unknown executions\<close>

text \<open>An execution of a message that was never seen, and cursors of both sides.\<close>

definition alert_world :: world where
  "alert_world = view_world\<lparr>w_db := (w_db view_world)\<lparr>
     db_executed_messages := [saved_row \<lparr>em_LogID = 1, em_BridgeID = ''b'', em_MessageID = 99, em_Status = True\<rparr>],
     db_logs_cursors := [saved_row \<lparr>lc_ChainID = ''100'', lc_Address = 10, lc_LastFetchedBlock = 123,
       lc_LastProcessedBlock = 123\<rparr>]\<rparr>\<rparr>"

lemma alert_tables:
  "vals (db_executed_messages (w_db alert_world)) = [\<lparr>em_LogID = 1, em_BridgeID = ''b'', em_MessageID = 99, em_Status = True\<rparr>]"
  "vals (db_logs_cursors (w_db alert_world)) = [\<lparr>lc_ChainID = ''100'', lc_Address = 10, lc_LastFetchedBlock = 123,
       lc_LastProcessedBlock = 123\<rparr>]"
  "db_logs (w_db alert_world) = db_logs (w_db view_world)"
  "db_block_timestamps (w_db alert_world) = db_block_timestamps (w_db view_world)"
  "db_messages (w_db alert_world) = db_messages (w_db view_world)" "w_tick alert_world = 0"
  by (simp_all add: alert_world_def vals_def) (simp add: view_world_def)

lemma alert_min: "findMinProcessedTime sample_env alert_q alert_world = (Inr 7, alert_world\<lparr>w_tick := 1\<rparr>)"
  by (simp add: findMinProcessedTime_def sample_query processed_times_def alert_tables view_tables min_cursor_def Let_def)

lemma unknown_executions_listed_witness:
  "\<exists>now rs w'. FindUnknownExecutions sample_env alert_q alert_world = (Inr rs, w')
    \<and> \<lparr>ue_ChainID = ''100'', ue_BlockNumber = 121, ue_Age = now - 5, ue_TransactionHash = 9, ue_MessageID = 99\<rparr> \<in> set rs"
proof -
  let ?e = "\<lparr>em_LogID = 1, em_BridgeID = ''b'', em_MessageID = 99, em_Status = True\<rparr>"
  let ?bt = "\<lparr>bt_ChainID = ''100'', bt_BlockNumber = 121, bt_Timestamp = 5\<rparr>"
  obtain rs w' where run: "FindUnknownExecutions sample_env alert_q alert_world = (Inr rs, w')"
    by (rule that) (simp add: FindUnknownExecutions_def bindE_apply alert_min select_rows_def sample_exec)
  from unknown_executions_listed [OF run] obtain t now where t: "t = Min (set (processed_times alert_q (w_db alert_world)))"
    and rs: "set rs = {unknown_execution now e l bt | e l bt. e \<in> set (vals (db_executed_messages (w_db alert_world)))
        \<and> (l, bt) \<in> set (log_times (w_db alert_world) (em_LogID e)) \<and> em_BridgeID e = ap_Bridge alert_q
        \<and> (on_home alert_q l \<or> on_foreign alert_q l) \<and> bt_Timestamp bt \<le> t
        \<and> \<not> message_known (w_db alert_world) (ap_Bridge alert_q) (em_MessageID e)}" by blast
  have "t = 7" by (simp add: t processed_times_def alert_tables view_tables min_cursor_def)
  moreover have "(sample_log 1 10, ?bt) \<in> set (log_times (w_db alert_world) 1)"
    by (simp add: log_times_in alert_tables view_tables ts_key_def)
  moreover have "\<not> message_known (w_db alert_world) ''b'' 99"
    by (simp add: message_known_def alert_tables view_more) (simp add: view_message_def)
  ultimately have "unknown_execution now ?e (sample_log 1 10) ?bt \<in> set rs"
    unfolding rs by (force simp: alert_tables on_home_def)
  with run show ?thesis by (auto simp: unknown_execution_def)
qed

lemma handled_message_not_unknown_witness:
  "\<exists>m. m \<in> set (vals (db_messages (w_db view_handled)))
    \<and> (case fst (FindUnknownExecutions sample_env (alert_q\<lparr>ap_Bridge := beh_bridgeID sample_handlers\<rparr>) view_handled) of
        Inl e \<Rightarrow> True | Inr rs \<Rightarrow> list_all (\<lambda>r. ue_MessageID r \<noteq> msg_MessageID m) rs)"
  using handled_message_not_unknown [OF handled_in handled_run db_le_refl,
      of "alert_q\<lparr>ap_Bridge := beh_bridgeID sample_handlers\<rparr>" sample_env] by auto

section \<open>Validators\<close>

lemma view_validator_sel [simp]: "bv_BridgeID (view_validator l c a) = ''b''" "bv_Address (view_validator l c a) = a"
  by (simp_all add: view_validator_def)

lemma view_ages: "validator_groups alert_q (w_db view_world) =
    [[view_validator 1 ''100'' 66, view_validator 2 ''1'' 66], [view_validator 3 ''1'' 67]]"
  by (simp add: validator_groups_def group_rows_def view_tables view_validator_def count_rows_def)

lemma view_last: "last_active (w_db view_world) ''b'' 66 = Some 7" "last_active (w_db view_world) ''b'' 67 = None"
  "added_time (w_db view_world) (view_validator 3 ''1'' 67) = Some 7"
  by (simp_all add: last_active_def added_time_def view_tables view_signed_def view_validator_def log_times_def sql_max_def)

lemma validator_activity_listed_witness:
  "\<exists>rs w'. FindLastValidatorActivity sample_env alert_q view_world = (Inr rs, w') \<and> set (map lv_Address rs) = {66, 67}"
proof -
  obtain rs w' where run: "FindLastValidatorActivity sample_env alert_q view_world = (Inr rs, w')"
    by (rule that) (simp add: FindLastValidatorActivity_def sample_exec Let_def view_ages group_activity_def
        List.map_filter_def activity_def view_last sql_max_def)
  from validator_activity_listed [OF run] have "set (map lv_Address rs) = {a. \<exists>c. a \<in># validators_of ''b'' c (w_db view_world)}"
    by simp
  also have "\<dots> = {66, 67}" by (auto simp: validators_of_def view_tables view_validator_def active_validator_def)
  finally show ?thesis using run by blast
qed

end
