(* ===== verification/CommandRuns.thy ===== *)
theory CommandRuns
  imports ReprocessEnds FixTimestamps CatchUpRun AlertRuns
begin

text \<open>
  Concrete runs of the programs: the start of a monitor and of the process, a call that reprocesses one block,
  and the repair of block timestamps. The properties of theories \<open>Monitor\<close>, \<open>Reprocess\<close> and
  \<open>FixTimestamps\<close> are applied to them.
\<close>

section \<open>Start-up\<close>

definition start_world :: world where
  "start_world = \<lparr>w_db = emptyDatabase, w_tick = 0\<rparr>"

lemma start_contract_on:
  assumes "bs_ValidatorContractAddress cfg \<noteq> 0" and "bs_Chain cfg \<noteq> None"
  shows "NewContractMonitor G sample_env calldata b cfg N \<lparr>w_db = d, w_tick = t\<rparr> =
    (Inr (\<lparr>mon_bridgeCfg = b, mon_cfg = cfg, mon_client = N, mon_ABI = getBridgeABI G (bc_BridgeMode b),
       mon_eventHandlers = []\<rparr>, initialProgress (case saved_cursor cfg d of Some c \<Rightarrow> c | None \<Rightarrow> initialCursor cfg)),
     \<lparr>w_db = d, w_tick = Suc t\<rparr>)"
proof -
  have own: "(\<lambda>c. lc_ChainID c = bs_ChainID cfg \<and> lc_Address c = bs_Address cfg) = own_cursor cfg"
    by (simp add: own_cursor_def cursor_key_def fun_eq_iff)
  have "sideChainID cfg = Inr (bs_ChainID cfg)" using assms(2) by (simp add: sideChainID_Inr)
  then show ?thesis
    using assms
    by (simp add: NewContractMonitor_def bindE_apply readCursor_def IgnoreErrNotFound_def own first_row_filter
        LogsCursors_GetByChainIDAndAddress_def sample_query saved_cursor_def split: option.split)
qed

lemma start_contract:
  assumes "bs_ValidatorContractAddress cfg \<noteq> 0" and "bs_Chain cfg \<noteq> None"
  shows "NewContractMonitor G sample_env calldata b cfg N \<lparr>w_db = emptyDatabase, w_tick = t\<rparr> =
    (Inr (\<lparr>mon_bridgeCfg = b, mon_cfg = cfg, mon_client = N, mon_ABI = getBridgeABI G (bc_BridgeMode b),
       mon_eventHandlers = []\<rparr>, initialProgress (initialCursor cfg)), \<lparr>w_db = emptyDatabase, w_tick = Suc t\<rparr>)"
  by (simp add: start_contract_on [OF assms] saved_cursor_def emptyDatabase_def vals_def)

lemma start_bridge_on: "\<exists>mon. NewMonitor D G sample_env calldata alert_bridge N N' \<lparr>w_db = d, w_tick = t\<rparr> =
    (Inr mon, \<lparr>w_db = d, w_tick = Suc (Suc t)\<rparr>)"
proof -
  have v: "bs_ValidatorContractAddress (bc_Home alert_bridge) \<noteq> 0" "bs_ValidatorContractAddress (bc_Foreign alert_bridge) \<noteq> 0"
    "bs_Chain (bc_Home alert_bridge) \<noteq> None" "bs_Chain (bc_Foreign alert_bridge) \<noteq> None"
    by (simp_all add: alert_bridge_def view_bridge_def view_side_def sample_side_def)
  have "NewAlertManager D sample_env alert_bridge = Inr [(''stuck_message_confirmation'', alert_demo)]"
    by (rule alert_manager)
  with v registered_in_abi [of G alert_bridge sample_env N] show ?thesis
    by (simp add: NewMonitor_def bindE_apply start_contract_on)
qed

lemma start_bridge: "\<exists>mon. NewMonitor D G sample_env calldata alert_bridge N N' \<lparr>w_db = emptyDatabase, w_tick = t\<rparr> =
    (Inr mon, \<lparr>w_db = emptyDatabase, w_tick = Suc (Suc t)\<rparr>)"
  by (rule start_bridge_on)

text \<open>The home side has a saved cursor, the foreign side has none.\<close>

definition resumed_database :: database where
  "resumed_database = emptyDatabase\<lparr>db_logs_cursors := [saved_row
     \<lparr>lc_ChainID = ''100'', lc_Address = bs_Address (bc_Home alert_bridge), lc_LastFetchedBlock = 140, lc_LastProcessedBlock = 130\<rparr>]\<rparr>"

lemma monitor_starts_witness:
  "\<exists>mon w'. NewMonitor (\<lambda>v. v) sample_geth sample_env (Inr []) alert_bridge demo_node demo_node
      \<lparr>w_db = resumed_database, w_tick = 0\<rparr> = (Inr mon, w')
    \<and> map fst (mo_alertManager mon) = [''stuck_message_confirmation'']
    \<and> mo_homeMonitor mon = homeMonitor sample_geth sample_env (mo_cfg mon) demo_node
    \<and> lc_LastProcessedBlock (pg_logsCursor (mo_home mon)) = 130
    \<and> pg_logsCursor (mo_foreign mon) = initialCursor (bc_Foreign (mo_cfg mon))"
proof -
  obtain mon where run: "NewMonitor (\<lambda>v. v) sample_geth sample_env (Inr []) alert_bridge demo_node demo_node
      \<lparr>w_db = resumed_database, w_tick = 0\<rparr> = (Inr mon, \<lparr>w_db = resumed_database, w_tick = Suc (Suc 0)\<rparr>)"
    using start_bridge_on by blast
  note m = monitor_starts [OF run]
  have v: "bs_ValidatorContractAddress (bc_Home alert_bridge) \<noteq> 0" "bs_ValidatorContractAddress (bc_Foreign alert_bridge) \<noteq> 0"
    by (simp_all add: alert_bridge_def view_bridge_def view_side_def sample_side_def)
  with m have cfg: "bc_Home (mo_cfg mon) = bc_Home alert_bridge" "bc_Foreign (mo_cfg mon) = bc_Foreign alert_bridge"
    by (auto simp: resolved_def resolved_side_def)
  have keys: "bs_ChainID (bc_Home alert_bridge) = ''100''" "bs_ChainID (bc_Foreign alert_bridge) = ''1''"
    by (simp_all add: alert_bridge_def view_bridge_def view_side_def bs_ChainID_def sample_chain_def)
  have "saved_cursor (bc_Home alert_bridge) resumed_database = Some \<lparr>lc_ChainID = ''100'', lc_Address = bs_Address (bc_Home alert_bridge),
      lc_LastFetchedBlock = 140, lc_LastProcessedBlock = 130\<rparr>" "saved_cursor (bc_Foreign alert_bridge) resumed_database = None"
    by (simp_all add: saved_cursor_def resumed_database_def vals_def saved_row_def own_cursor_def cursor_key_def keys)
  with m have "lc_LastProcessedBlock (pg_logsCursor (mo_home mon)) = 130"
    "pg_logsCursor (mo_foreign mon) = initialCursor (bc_Foreign (mo_cfg mon))"
    by (simp_all add: starts_at_def cfg initialProgress_def)
  moreover have "map fst (bc_Alerts alert_bridge) = [''stuck_message_confirmation'']" by (simp add: alert_bridge_def)
  ultimately show ?thesis using m run by auto
qed

text \<open>Two bridges, one disabled.\<close>

definition start_config :: Config where
  "start_config = view_config\<lparr>cfg_Bridges := [(''b'', alert_bridge), (''c'', alert_bridge\<lparr>bc_ID := ''c''\<rparr>)],
     cfg_DisabledBridges := [''c'']\<rparr>"

text \<open>A node per RPC section; the sample chains have their id for a host.\<close>

definition start_dial :: "RPCConfig \<Rightarrow> node" where
  "start_dial r = view_node\<lparr>node_ChainID := (\<lambda>t. Inr (if rpc_Host r = ''1'' then 1 else 100))\<rparr>"

abbreviation start_node :: "string \<Rightarrow> node" where
  "start_node c \<equiv> start_dial (the (ch_RPC (sample_chain c)))"

lemma big_string_100: "big_string 100 = ''100''"
  by code_simp

lemma start_client:
  "c \<in> {''1'', ''100''} \<Longrightarrow> chainNode start_dial (sample_chain c) w = (Inr (start_node c), w\<lparr>w_tick := Suc (Suc (w_tick w))\<rparr>)"
  by (auto simp: chainNode_def NewClient_def bindE_apply rpc_def start_dial_def sample_chain_def view_node_def sample_node_def
      big_string_1 big_string_100)

lemma bridges_started_witness:
  "\<exists>ms w'. startMonitors start_dial (\<lambda>v. v) sample_geth sample_env (Inr []) (monitoredBridges start_config) start_world = (Inr ms, w')
    \<and> set (map (\<lambda>m. bc_ID (mo_cfg m)) ms) = {''b''}"
proof -
  have bs: "monitoredBridges start_config = [(''b'', Some alert_bridge)]"
    by (simp add: monitoredBridges_def start_config_def view_config_def sample_config_def)
  have sides: "bs_Chain (bc_Home alert_bridge) = Some (sample_chain ''100'')" "bs_Chain (bc_Foreign alert_bridge) = Some (sample_chain ''1'')"
    "\<And>c. ch_ChainID (sample_chain c) = c"
    by (simp_all add: alert_bridge_def view_bridge_def view_side_def sample_chain_def)
  obtain mon where run: "NewMonitor (\<lambda>v. v) sample_geth sample_env (Inr []) alert_bridge (start_node ''100'')
      (start_node ''1'') \<lparr>w_db = emptyDatabase, w_tick = Suc (Suc (Suc (Suc 0)))\<rparr> =
      (Inr mon, \<lparr>w_db = emptyDatabase, w_tick = Suc (Suc (Suc (Suc (Suc (Suc 0)))))\<rparr>)"
    using start_bridge by blast
  have go: "\<exists>ms w'. startMonitors start_dial (\<lambda>v. v) sample_geth sample_env (Inr []) (monitoredBridges start_config) start_world = (Inr ms, w')"
    by (simp add: bs startMonitor_def bindE_apply sideClient_def sides start_client start_world_def run)
  have "distinct (map fst (cfg_Bridges start_config))" "list_all (\<lambda>(bridgeID, b). bc_ID b = bridgeID) (cfg_Bridges start_config)"
    by (simp_all add: start_config_def alert_bridge_def view_bridge_def)
  moreover have "{bridgeID. chosen start_config bridgeID} = {''b''}"
    by (auto simp: chosen_def start_config_def view_config_def sample_config_def)
  ultimately show ?thesis using go bridges_started by metis
qed

section \<open>Block timestamps\<close>

text \<open>A log without a timestamp in block 120, and a timestamp without a log in the last processed block.\<close>

definition fix_world :: world where
  "fix_world = \<lparr>w_db = demo_final\<lparr>db_block_timestamps := [saved_row \<lparr>bt_ChainID = ''100'', bt_BlockNumber = 99,
     bt_Timestamp = 7\<rparr>]\<rparr>, w_tick = 0\<rparr>"

lemma fix_logs: "vals (db_logs demo_final) = [demo_row]" "log_block demo_row = (''100'', 120)"
  by (simp_all add: demo_final_def demo_saved_def vals_def log_block_def demo_row_def demo_log_def)

lemma fix_run: "\<exists>w'. fixBlockTimestamps start_dial sample_env (\<lambda>xs. xs) view_config fix_world = (Inr (), w')"
proof -
  have "fst (BlockTimestamps_Ensure sample_env \<lparr>bt_ChainID = ''100'', bt_BlockNumber = 120, bt_Timestamp = t\<rparr> w) = Inr ()" for t w
    by (simp add: BlockTimestamps_Ensure_def sample_exec ensure_stmt_def ensure_row_def int4_ok_def int4_max_def Let_def chain_id_ok_def
        split: option.split)
  then have ens: "\<exists>w'. BlockTimestamps_Ensure sample_env \<lparr>bt_ChainID = ''100'', bt_BlockNumber = 120, bt_Timestamp = t\<rparr> w = (Inr (), w')" for t w
    by (metis surjective_pairing)
  have rows: "db_logs demo_final = [\<lparr>r_val = demo_row, r_created = 4, r_updated = 4\<rparr>]"
    by (simp add: demo_final_def demo_saved_def)
  have "deleteOrphans sample_env fix_world = (Inr (), \<lparr>w_db = demo_final\<lparr>db_block_timestamps := []\<rparr>, w_tick = 1\<rparr>)"
    by (simp add: deleteOrphans_def sample_exec fix_world_def rows vals_def saved_row_def ts_key_def fix_logs)
  moreover have "logsWithoutTimestamp sample_env \<lparr>w_db = demo_final\<lparr>db_block_timestamps := []\<rparr>, w_tick = 1\<rparr> =
      (Inr [demo_row], \<lparr>w_db = demo_final\<lparr>db_block_timestamps := []\<rparr>, w_tick = 2\<rparr>)"
    by (simp add: logsWithoutTimestamp_def sample_query fix_logs)
  moreover have "HeaderByNumber (start_node ''100'') 120 w = (Inr 1600000000, w\<lparr>w_tick := Suc (w_tick w)\<rparr>)" for w
    by (simp add: HeaderByNumber_def rpc_def start_dial_def view_node_def sample_node_def)
  moreover have "ch_ChainID (sample_chain ''100'') = ''100''" by (simp add: sample_chain_def)
  ultimately show ?thesis
    using ens [of "int64_of 1600000000" "\<lparr>w_db = demo_final\<lparr>db_block_timestamps := []\<rparr>, w_tick = 5\<rparr>"]
    by (auto simp: fixBlockTimestamps_def bindE_apply fix_logs chainClient_def view_chain bindE_liftE_apply start_client returnE_def)
qed

lemma fix_timestamps_exact_witness:
  "\<exists>w'. fixBlockTimestamps start_dial sample_env (\<lambda>xs. xs) view_config fix_world = (Inr (), w')
    \<and> timed_blocks (w_db w') = {(''100'', 120)}"
proof -
  obtain w' where run: "fixBlockTimestamps start_dial sample_env (\<lambda>xs. xs) view_config fix_world = (Inr (), w')"
    using fix_run by blast
  from fix_timestamps_exact [OF _ this] have "timed_blocks (w_db w') = log_blocks (w_db fix_world)"
    by (simp add: same_logs_def log_blocks_def)
  then show ?thesis using run by (simp add: log_blocks_def fix_world_def fix_logs)
qed

lemma fix_timestamps_blinds_alerts_witness:
  "\<exists>w'. fixBlockTimestamps start_dial sample_env (\<lambda>xs. xs) view_config fix_world = (Inr (), w')
    \<and> fst (findMinProcessedTime sample_env alert_q fix_world) = Inr 7
    \<and> fst (findMinProcessedTime sample_env alert_q w') = Inl (Err ErrDB)"
proof -
  obtain w' where run: "fixBlockTimestamps start_dial sample_env (\<lambda>xs. xs) view_config fix_world = (Inr (), w')"
    using fix_run by blast
  have "list_all (\<lambda>c. min_cursor alert_q c \<longrightarrow> (lc_ChainID c, lc_LastProcessedBlock c) \<notin> log_blocks (w_db fix_world))
      (vals (db_logs_cursors (w_db fix_world)))"
    by (simp add: log_blocks_def fix_world_def fix_logs) (simp add: demo_final_def vals_def demo_cursor_def)
  from fix_timestamps_blinds_alerts [OF _ run this] run show ?thesis
    by (simp add: findMinProcessedTime_def sample_query processed_times_def fix_world_def Let_def)
      (simp add: demo_final_def vals_def demo_cursor_def saved_row_def min_cursor_def)
qed

section \<open>Reprocessing a block\<close>

text \<open>A full run: the sender is done before the caller looks.\<close>

definition redo_prog :: progress where
  "redo_prog = \<lparr>pg_logsCursor = demo_cursor\<lparr>lc_LastProcessedBlock := 198\<rparr>, pg_headBlock = 198, pg_isSynced = True\<rparr>"

definition redo_world :: world where
  "redo_world = \<lparr>w_db = emptyDatabase\<lparr>db_block_timestamps := [saved_row \<lparr>bt_ChainID = ''100'', bt_BlockNumber = 120,
     bt_Timestamp = 7\<rparr>]\<rparr>, w_tick = 0\<rparr>"

definition redo_saved :: "nat \<Rightarrow> world" where
  "redo_saved t = \<lparr>w_db = (w_db redo_world)\<lparr>db_logs := [\<lparr>r_val = demo_row, r_created = 1, r_updated = 1\<rparr>], db_logs_seq := 1\<rparr>, w_tick = t\<rparr>"

definition redo_range :: BlocksRange where
  "redo_range = \<lparr>br_From = 120, br_To = 120\<rparr>"

definition redo_batch :: LogsBatch where
  "redo_batch = \<lparr>lb_BlockNumber = 120, lb_Logs = [demo_row]\<rparr>"

lemma redo_fetch:
  "tryToFetchLogs sample_geth sample_env demo_monitor redo_range (redo_prog, redo_world) =
     (Inr [redo_batch], (redo_prog, redo_saved 2))"
proof -
  let ?q = "\<lparr>fq_BlockHash = None, fq_FromBlock = Some 120, fq_ToBlock = Some 120, fq_Addresses = [10, 77], fq_Topics = []\<rparr>"
  have queries: "buildFilterQueries sample_geth demo_monitor redo_range = [?q]"
    by (simp add: buildFilterQueries_def redo_range_def int64_of_def)
  have "q_matches 120 120 [10, 77] [] demo_log" by (simp add: q_matches_def demo_log_def)
  then have safe: "FilterLogsSafe demo_node ?q w = (Inr [demo_log], w\<lparr>w_tick := Suc (w_tick w)\<rparr>)" for w
    by (simp add: FilterLogsSafe_def bindE_apply bindE_liftE_apply rpc_def toFilterArg_def big_Int64_def big_Uint64_def
        demo_node_def)
  have ens: "Logs_Ensure sample_env [NewLog ''100'' demo_log] (redo_world\<lparr>w_tick := 1\<rparr>) = (Inr [demo_row], redo_saved 2)"
    by (simp add: Logs_Ensure_def bindE_apply sample_exec redo_world_def redo_saved_def emptyDatabase_def log_columns_ok_def
        int4_ok_def int4_max_def Let_def put_log_def upsert_def lookup_def vals_def demo_row_def demo_log_def)
  have "fetchAndSaveLogs sample_geth sample_env demo_monitor redo_range redo_world = (Inr [demo_row], redo_saved 2)"
    using ens by (simp add: fetchAndSaveLogs_def queries bindE_apply safe) (simp add: redo_world_def)
  moreover have "submitLogs [demo_row] 120 = [redo_batch]"
    by (simp add: submitLogs_def SplitLogsInBatches_cut redo_batch_def demo_row_def demo_log_def Let_def
        sentinelLog_def MaxUint32_def)
  ultimately show ?thesis
    by (simp add: tryToFetchLogs_def bindE_apply recordFetchedBlockNumber_def setFetched_def redo_prog_def redo_range_def
        demo_cursor_def)
qed

lemma redo_timestamp: "tryToGetBlockTimestamp sample_env demo_monitor 120 (redo_saved t) = (Inr (), redo_saved (Suc t))"
  by (simp add: tryToGetBlockTimestamp_def bindE_apply IgnoreErrNotFound_def BlockTimestamps_GetByBlockNumber_def sample_query
      redo_saved_def redo_world_def saved_row_def vals_def int4_ok_def int4_max_def first_row_def returnE_def)

lemma redo_process: "tryToProcessLogsBatch sample_abilib demo_monitor redo_batch (redo_saved t) = (Inr (), redo_saved t)"
  by (simp add: tryToProcessLogsBatch_def redo_batch_def bindE_apply demo_handle_row returnE_def)

lemma redo_record: "recordProcessedBlockNumber sample_env 120 (redo_prog, w) = (Inr (), (redo_prog, w))"
  by (simp add: recordProcessedBlockNumber_def setProcessed_def redo_prog_def)

lemma redo_split: "SplitBlockRange 120 120 1000 = Some [redo_range]"
proof -
  have "split_ranges 120 120 1000 = [(120, 120)]" by (simp add: split_ranges.simps)
  with SplitBlockRange_ranges [of 1000 120 120] show ?thesis by (simp add: range_of_def redo_range_def)
qed

definition redo_at :: "world \<Rightarrow> BlocksRange option list \<Rightarrow> LogsBatch option list \<Rightarrow> BlocksRange option list \<Rightarrow> fetch_task \<Rightarrow>
    batch_task \<Rightarrow> main_task \<Rightarrow> reprocess" where
  "redo_at w rs ls sn f b mn = \<lparr>rp_w = w, rp_p = redo_prog, rp_ranges = rs, rp_logs = ls, rp_sender = sn, rp_fetcher = f,
     rp_processor = b, rp_main = mn\<rparr>"

abbreviation redo_run :: "reprocess \<Rightarrow> reprocess \<Rightarrow> bool" where
  "redo_run \<equiv> rp_run sample_abilib sample_geth sample_env demo_monitor [demo_log]"

lemma redo_start: "ProcessBlockRange demo_monitor 120 120 redo_prog redo_world =
    redo_at redo_world [None] [] [Some redo_range, None] RtIdle BtIdle MtFetching"
  by (simp add: ProcessBlockRange_def redo_prog_def redo_split redo_at_def Let_def)

lemma redo_go:
  assumes "redo_run s (redo_at w rs ls sn f b mn)" and "mn = MtFetching \<or> mn = MtStub \<or> mn = MtProcessing"
    and "rp_step sample_abilib sample_geth sample_env demo_monitor (redo_at w rs ls sn f b mn) s'"
  shows "redo_run s s'"
  by (rule rp_run.Step [OF assms(1) _ assms(3)]) (use assms(2) in \<open>auto simp: rp_running_def redo_at_def\<close>)

lemmas redo_simps = redo_at_def defaultBlockRangesChanCap_def defaultLogsChanCap_def

text \<open>The sender has sent everything before anything else happens.\<close>

lemma redo_sent: "redo_run (redo_at redo_world [None] [] [Some redo_range, None] RtIdle BtIdle MtFetching)
    (redo_at redo_world [None, Some redo_range, None] [] [] RtIdle BtIdle MtFetching)"
proof -
  let ?s = "redo_at redo_world [None] [] [Some redo_range, None] RtIdle BtIdle MtFetching"
  have "redo_run ?s ?s" by (rule rp_run.Refl)
  from redo_go [OF this _ rp_step.SendRange, of "Some redo_range" "[None]"]
  have "redo_run ?s (redo_at redo_world [None, Some redo_range] [] [None] RtIdle BtIdle MtFetching)" by (simp add: redo_simps)
  from redo_go [OF this _ rp_step.SendRange, of None "[]"] show ?thesis by (simp add: redo_simps)
qed

lemma redo_fetched: "redo_run (redo_at redo_world [None, Some redo_range, None] [] [] RtIdle BtIdle MtFetching)
    (redo_at (redo_saved 2) [] [Some redo_batch, None] [] RtIdle BtIdle MtProcessing)"
proof -
  let ?s = "redo_at redo_world [None, Some redo_range, None] [] [] RtIdle BtIdle MtFetching"
  have "redo_run ?s ?s" by (rule rp_run.Refl)
  from redo_go [OF this _ rp_step.SkipRange, of "[Some redo_range, None]"]
  have "redo_run ?s (redo_at redo_world [Some redo_range, None] [] [] RtIdle BtIdle MtFetching)" by (simp add: redo_simps)
  from redo_go [OF this _ rp_step.TakeRange, of redo_range "[None]"]
  have "redo_run ?s (redo_at redo_world [None] [] [] (RtFetch redo_range) BtIdle MtFetching)" by (simp add: redo_simps)
  from redo_go [OF this _ rp_step.Fetch, of redo_range "[redo_batch]" redo_prog "redo_saved 2"]
  have "redo_run ?s (redo_at (redo_saved 2) [None] [] [] (RtSend [redo_batch]) BtIdle MtFetching)"
    by (simp add: redo_simps redo_fetch)
  from redo_go [OF this _ rp_step.SendBatch, of redo_batch "[]"]
  have "redo_run ?s (redo_at (redo_saved 2) [None] [Some redo_batch] [] (RtSend []) BtIdle MtFetching)" by (simp add: redo_simps)
  from redo_go [OF this _ rp_step.Submitted]
  have "redo_run ?s (redo_at (redo_saved 2) [None] [Some redo_batch] [] RtIdle BtIdle MtFetching)" by (simp add: redo_simps)
  from redo_go [OF this _ rp_step.SkipRange, of "[]"]
  have "redo_run ?s (redo_at (redo_saved 2) [] [Some redo_batch] [] RtIdle BtIdle MtFetching)" by (simp add: redo_simps)
  from redo_go [OF this _ rp_step.FetchedAll]
  have "redo_run ?s (redo_at (redo_saved 2) [] [Some redo_batch] [] RtIdle BtIdle MtStub)" by (simp add: redo_simps)
  from redo_go [OF this _ rp_step.SendStub] show ?thesis by (simp add: redo_simps)
qed

lemma redo_processed: "redo_run (redo_at (redo_saved 2) [] [Some redo_batch, None] [] RtIdle BtIdle MtProcessing)
    (redo_at (redo_saved 3) [] [] [] RtIdle BtIdle (MtReturned (Inr ())))"
proof -
  let ?s = "redo_at (redo_saved 2) [] [Some redo_batch, None] [] RtIdle BtIdle MtProcessing"
  have b: "lb_BlockNumber redo_batch = 120" by (simp add: redo_batch_def)
  have "redo_run ?s ?s" by (rule rp_run.Refl)
  from redo_go [OF this _ rp_step.TakeBatch, of redo_batch "[None]"]
  have "redo_run ?s (redo_at (redo_saved 2) [] [None] [] RtIdle (BtRun redo_batch False False) MtProcessing)"
    by (simp add: redo_simps)
  from redo_go [OF this _ rp_step.Timestamp, of redo_batch False "Inr ()" "redo_saved 3"]
  have "redo_run ?s (redo_at (redo_saved 3) [] [None] [] RtIdle (BtRun redo_batch True False) MtProcessing)"
    using redo_timestamp [of 2] by (simp add: redo_simps b)
  from redo_go [OF this _ rp_step.Process, of redo_batch True "()" "redo_saved 3"]
  have "redo_run ?s (redo_at (redo_saved 3) [] [None] [] RtIdle (BtRun redo_batch True True) MtProcessing)"
    using redo_process [of 3] by (simp add: redo_simps)
  from redo_go [OF this _ rp_step.Processed]
  have "redo_run ?s (redo_at (redo_saved 3) [] [None] [] RtIdle (BtRecord redo_batch) MtProcessing)" by (simp add: redo_simps)
  from redo_go [OF this _ rp_step.Record, of redo_batch "()" redo_prog "redo_saved 3"]
  have "redo_run ?s (redo_at (redo_saved 3) [] [None] [] RtIdle BtIdle MtProcessing)" by (simp add: redo_simps b redo_record)
  from redo_go [OF this _ rp_step.SkipBatch, of "[]"]
  have "redo_run ?s (redo_at (redo_saved 3) [] [] [] RtIdle BtIdle MtProcessing)" by (simp add: redo_simps)
  from redo_go [OF this _ rp_step.ProcessedAll] show ?thesis by (simp add: redo_simps)
qed

lemma rp_run_trans: "rp_run L G E m chain s' s'' \<Longrightarrow> rp_run L G E m chain s s' \<Longrightarrow> rp_run L G E m chain s s''"
  by (induction rule: rp_run.induct) (auto intro: rp_run.Step rp_run.Others)

lemma reprocess_complete_witness:
  "done_log (handled_log sample_abilib demo_monitor) ''100'' (w_db (redo_saved 3)) demo_log"
proof -
  have run: "redo_run (ProcessBlockRange demo_monitor 120 120 redo_prog redo_world)
      (redo_at redo_world [None, Some redo_range, None] [] [] RtIdle BtIdle MtFetching)"
    unfolding redo_start by (rule redo_sent)
  have hon: "honest (bs_ChainID (mon_cfg demo_monitor)) [demo_log] (w_db redo_world)"
    by (simp add: honest_def redo_world_def emptyDatabase_def)
  have "done_log (handled_log sample_abilib demo_monitor) (bs_ChainID (mon_cfg demo_monitor))
      (w_db (rp_w (redo_at (redo_saved 3) [] [] [] RtIdle BtIdle (MtReturned (Inr ()))))) demo_log"
    by (rule reprocess_complete [OF demo_monitor_home demo_setting hon _ run _ _ rp_run_trans [OF redo_processed redo_fetched]])
      (use demo_wanted in \<open>simp_all add: redo_at_def demo_log_def\<close>)
  then show ?thesis by (simp add: redo_at_def)
qed

lemma reprocess_may_do_nothing_witness:
  "\<exists>s. redo_run (ProcessBlockRange demo_monitor 120 120 redo_prog redo_world) s \<and> rp_main s = MtReturned (Inr ())
    \<and> db_logs (w_db (rp_w s)) = [] \<and> rp_sender s = [Some redo_range, None]"
proof -
  have "(120 :: uint) \<le> lc_LastProcessedBlock (pg_logsCursor redo_prog)" by (simp add: redo_prog_def)
  from reprocess_may_do_nothing [OF this] obtain s where
    "redo_run (ProcessBlockRange demo_monitor 120 120 redo_prog redo_world) s" "rp_main s = MtReturned (Inr ())"
    "rp_w s = redo_world" "rp_sender s = rp_sender (ProcessBlockRange demo_monitor 120 120 redo_prog redo_world)"
    by blast
  then show ?thesis unfolding redo_start by (auto simp: redo_at_def redo_world_def emptyDatabase_def)
qed

lemma reprocess_ends_witness:
  "\<exists>s'. rp_step sample_abilib sample_geth sample_env demo_monitor (ProcessBlockRange demo_monitor 120 120 redo_prog redo_world) s'
    \<and> rp_main s' \<noteq> MtCancelled"
  using reprocess_ends [of sample_abilib sample_geth sample_env demo_monitor "ProcessBlockRange demo_monitor 120 120 redo_prog redo_world"]
  by (simp add: redo_start redo_at_def rp_running_def)

end
