(* ===== verification/ConfigFile.thy ===== *)
theory ConfigFile
  imports Config
begin

text \<open>
  How a program gets its configuration: \<open>ReadConfigFromFile\<close>, \<open>ReadConfigWithEnv\<close> and
  \<open>ReadConfig\<close> of \<open>config/config.go\<close>, and \<open>config/yaml.go\<close>. Reading a file and the
  environment are parameters, and so is the YAML decoder, a partial function from texts to configurations: it
  knows the fields and refuses others. The expansion of references to the environment is \<open>os.ExpandEnv\<close>
  of the standard library, byte for byte.

  The lemmas show what a file written with \<open>${NAME}\<close> references turns into, and that the configuration
  every program runs with is well formed.
\<close>

section \<open>References to the environment\<close>

definition isShellSpecialVar :: "char \<Rightarrow> bool" where
  "isShellSpecialVar c \<longleftrightarrow> c \<in> set ''*#$@!?-0123456789''"

definition isAlphaNum :: "char \<Rightarrow> bool" where
  "isAlphaNum c \<longleftrightarrow> c = CHR ''_'' \<or> (let n = of_char c :: nat in
     48 \<le> n \<and> n \<le> 57 \<or> 97 \<le> n \<and> n \<le> 122 \<or> 65 \<le> n \<and> n \<le> 90)"

text \<open>The name behind a dollar sign, and the number of bytes it takes; bad syntax takes bytes without a name.\<close>

definition getShellName :: "string \<Rightarrow> string \<times> nat" where
  "getShellName s =
     (if hd s = CHR ''{'' then
        if length s > 2 \<and> isShellSpecialVar (s ! 1) \<and> s ! 2 = CHR ''}'' then ([s ! 1], 3)
        else if CHR ''}'' \<in> set (tl s) then
          let name = takeWhile (\<lambda>c. c \<noteq> CHR ''}'') (tl s) in if name = [] then ([], 2) else (name, length name + 2)
        else ([], 1)
      else if isShellSpecialVar (hd s) then ([hd s], 1)
      else let name = takeWhile isAlphaNum s in (name, length name))"

text \<open>A dollar sign that nothing follows, or no name follows, stays.\<close>

function ExpandEnv :: "(string \<Rightarrow> string) \<Rightarrow> string \<Rightarrow> string" where
  "ExpandEnv getenv [] = []"
| "ExpandEnv getenv (c # s) =
     (if c = CHR ''$'' \<and> s \<noteq> [] then
        let (name, w) = getShellName s in
        (if name = [] then (if w > 0 then [] else [c]) else getenv name) @ ExpandEnv getenv (drop w s)
      else c # ExpandEnv getenv s)"
  by pat_completeness auto

termination
  by (relation "measure (\<lambda>(getenv, s). length s)") auto

section \<open>Reading\<close>

definition parseYaml :: "(string \<Rightarrow> Config option) \<Rightarrow> string \<Rightarrow> Config res" where
  "parseYaml decode blob = (case decode blob of None \<Rightarrow> Inl (Err ErrParse) | Some cfg \<Rightarrow> Inr cfg)"

definition ReadConfig :: "(string \<Rightarrow> Config option) \<Rightarrow> string \<Rightarrow> Config res" where
  "ReadConfig decode blob = res_bind (parseYaml decode blob) Config_init"

definition ReadConfigWithEnv :: "(string \<Rightarrow> Config option) \<Rightarrow> (string \<Rightarrow> string) \<Rightarrow> string \<Rightarrow> Config res" where
  "ReadConfigWithEnv decode getenv blob = ReadConfig decode (ExpandEnv getenv blob)"

text \<open>The system a program runs on.\<close>

record system =
  os_ReadFile :: "string \<Rightarrow> string option"
  os_Getenv :: "string \<Rightarrow> string"
  yaml_Decode :: "string \<Rightarrow> Config option"

definition ReadConfigFromFile :: "system \<Rightarrow> string \<Rightarrow> Config res" where
  "ReadConfigFromFile S path = (case os_ReadFile S path of
     None \<Rightarrow> Inl (Err ErrIO)
   | Some blob \<Rightarrow> ReadConfigWithEnv (yaml_Decode S) (os_Getenv S) blob)"

section \<open>What the expansion does\<close>

declare ExpandEnv.simps(2) [simp del]

lemma ExpandEnv_other: "c \<noteq> CHR ''$'' \<Longrightarrow> ExpandEnv getenv (c # s) = c # ExpandEnv getenv s"
  by (simp add: ExpandEnv.simps(2))

lemma ExpandEnv_plain_append: "CHR ''$'' \<notin> set a \<Longrightarrow> ExpandEnv getenv (a @ s) = a @ ExpandEnv getenv s"
  by (induction a) (auto simp: ExpandEnv_other)

lemma takeWhile_name: "CHR ''}'' \<notin> set name \<Longrightarrow> takeWhile (\<lambda>c. c \<noteq> CHR ''}'') (name @ CHR ''}'' # s) = name"
  by (induction name) auto

lemma getShellName_braces:
  assumes "name \<noteq> []" and "CHR ''}'' \<notin> set name"
  shows "getShellName (CHR ''{'' # name @ CHR ''}'' # s) = (name, length name + 2)"
proof (cases "isShellSpecialVar (hd name) \<and> tl name = []")
  case True
  with assms(1) obtain c where "name = [c]" "isShellSpecialVar c" by (cases name) auto
  then show ?thesis by (simp add: getShellName_def)
next
  case False
  from assms obtain c cs where name: "name = c # cs" by (cases name) auto
  with False assms(2) have "\<not> (isShellSpecialVar c \<and> (cs @ CHR ''}'' # s) ! 0 = CHR ''}'')"
    by (cases cs) auto
  then show ?thesis
    using assms takeWhile_name [OF assms(2), of s] by (auto simp: getShellName_def name Let_def)
qed

lemma ExpandEnv_braces:
  assumes "name \<noteq> []" and "CHR ''}'' \<notin> set name"
  shows "ExpandEnv getenv (''${'' @ name @ CHR ''}'' # s) = getenv name @ ExpandEnv getenv s"
  using assms by (simp add: ExpandEnv.simps(2) getShellName_braces)

text \<open>
  A text in pieces: text without a dollar sign, and references in braces. Such a text is filled piece by piece, and what
  the environment holds is not looked at again.
\<close>

datatype piece = Plain string | Reference string

fun piece_ok :: "piece \<Rightarrow> bool" where
  "piece_ok (Plain a) \<longleftrightarrow> CHR ''$'' \<notin> set a"
| "piece_ok (Reference name) \<longleftrightarrow> name \<noteq> [] \<and> CHR ''}'' \<notin> set name"

fun written :: "piece \<Rightarrow> string" where
  "written (Plain a) = a"
| "written (Reference name) = ''${'' @ name @ ''}''"

fun filled :: "(string \<Rightarrow> string) \<Rightarrow> piece \<Rightarrow> string" where
  "filled getenv (Plain a) = a"
| "filled getenv (Reference name) = getenv name"

lemma ExpandEnv_pieces:
  "list_all piece_ok ps \<Longrightarrow> ExpandEnv getenv (concat (map written ps)) = concat (map (filled getenv) ps)"
proof (induction ps)
  case (Cons p ps)
  then show ?case
    by (cases p) (simp_all add: ExpandEnv_plain_append ExpandEnv_braces [simplified])
qed simp

text \<open>
  A dollar sign of a value, such as a password, does not survive: what follows it is taken for a name.
\<close>

lemma takeWhile_all_append: "list_all P a \<Longrightarrow> s = [] \<or> \<not> P (hd s) \<Longrightarrow> takeWhile P (a @ s) = a"
  by (induction a) (cases s; simp)+

lemma ExpandEnv_bare:
  assumes "list_all isAlphaNum name" and "name \<noteq> []" "\<not> isShellSpecialVar (hd name)"
    and "s = [] \<or> \<not> isAlphaNum (hd s)"
  shows "ExpandEnv getenv (CHR ''$'' # name @ s) = getenv name @ ExpandEnv getenv s"
proof -
  from assms(1,2) have "hd name \<noteq> CHR ''{''" by (cases name) (auto simp: isAlphaNum_def Let_def)
  with assms have "getShellName (name @ s) = (name, length name)"
    by (simp add: getShellName_def takeWhile_all_append Let_def)
  with assms(2) show ?thesis by (simp add: ExpandEnv.simps(2))
qed

lemma ReadConfigFromFile_wf:
  assumes "ReadConfigFromFile S path = Inr cfg"
  shows "\<exists>blob raw. os_ReadFile S path = Some blob \<and> yaml_Decode S (ExpandEnv (os_Getenv S) blob) = Some raw
    \<and> list_all (bridge_wf cfg) (cfg_Bridges cfg) \<and> cfg_Chains cfg = cfg_Chains raw
    \<and> map fst (cfg_Bridges cfg) = map fst (cfg_Bridges raw)"
proof -
  from assms obtain blob raw where "os_ReadFile S path = Some blob" "yaml_Decode S (ExpandEnv (os_Getenv S) blob) = Some raw"
    and init: "Config_init raw = Inr cfg"
    by (auto simp: ReadConfigFromFile_def ReadConfigWithEnv_def ReadConfig_def parseYaml_def split: option.splits)
  with Config_init_wf [OF init] show ?thesis by blast
qed

section \<open>Properties\<close>

definition sample_system :: system where
  "sample_system = \<lparr>os_ReadFile = (\<lambda>p. if p = ''config.yml'' then Some ''host: rpc/${KEY}'' else None),
     os_Getenv = (\<lambda>n. if n = ''KEY'' then ''a$b'' else []),
     yaml_Decode = (\<lambda>s. if s = ''host: rpc/a$b'' then Some sample_config else None)\<rparr>"

text \<open>A configuration text of plain pieces and \<open>${NAME}\<close> references is read as the text with every
  reference replaced by the variable's value, which is not expanded again.\<close>

theorem env_references_filled:
  assumes "list_all piece_ok ps"
  shows "ReadConfigWithEnv decode getenv (concat (map written ps)) = ReadConfig decode (concat (map (filled getenv) ps))"
  by (simp add: ReadConfigWithEnv_def ExpandEnv_pieces [OF assms])

lemma env_references_filled_witness:
  "ReadConfigWithEnv (yaml_Decode sample_system) (os_Getenv sample_system) ''host: rpc/${KEY}'' = Inr sample_config_init"
proof -
  have "list_all piece_ok [Plain ''host: rpc/'', Reference ''KEY'']" by simp
  from env_references_filled [OF this] show ?thesis
    by (simp add: sample_system_def ReadConfig_def parseYaml_def sample_config_init_ok)
qed

text \<open>Property C39. A configuration a program has read is one that the decoder gave for the expanded text of the file, and it is
  well formed: the chain of every side is the entry of the list of chains under its chain's name (which is there, but is nil when
  the file has a null for it), every side has a positive range size, no token has a zero block bound (unless
  the side starts at 0), only foreign sides of ERC to native bridges have tokens and those have at least one,
  the mode is one of the two known ones, no alert starts before its side; the bridges and their ids are those of the file.\<close>

theorem config_file_wf:
  assumes "ReadConfigFromFile S path = Inr cfg"
  shows "\<exists>blob raw. os_ReadFile S path = Some blob \<and> yaml_Decode S (ExpandEnv (os_Getenv S) blob) = Some raw
    \<and> list_all (bridge_wf cfg) (cfg_Bridges cfg) \<and> cfg_Chains cfg = cfg_Chains raw
    \<and> map fst (cfg_Bridges cfg) = map fst (cfg_Bridges raw)"
  by (rule ReadConfigFromFile_wf [OF assms])

lemma sample_file: "ReadConfigFromFile sample_system ''config.yml'' = Inr sample_config_init"
proof -
  have "list_all piece_ok [Plain ''host: rpc/'', Reference ''KEY'']" by simp
  from ExpandEnv_pieces [OF this] show ?thesis
    by (simp add: ReadConfigFromFile_def ReadConfigWithEnv_def sample_system_def ReadConfig_def parseYaml_def sample_config_init_ok)
qed

lemma config_file_wf_witness: "list_all (bridge_wf sample_config_init) (cfg_Bridges sample_config_init)"
  using config_file_wf [OF sample_file] by blast

end
