(* ===== verification/Connect.thy ===== *)
theory Connect
  imports EthClient
begin

text \<open>
  \<open>db/db.go\<close>: connecting to the database and bringing its schema up to date, and the name under which
  the duration of a statement is recorded. What \<open>sqlx\<close> and the migration library do is the parameter
  \<open>postgres\<close>, functions of the time of the call; a migration may change the database, and reports with an error of its
  own that there was nothing to do. The statements themselves are \<open>db_exec\<close> and \<open>db_query\<close> of theory \<open>Database\<close>.

  The lemmas show which settings survive in the text of the connection URL, what connecting leaves of the database,
  and that the recorded name keeps only the name of a method.
\<close>

section \<open>The URL of the database\<close>

record sqlx =
  cx_URL :: string
  cx_MaxIdleConns :: nat
  cx_MaxOpenConns :: nat

record DB =
  db_cfg :: "DBConfig option"
  db_conn :: "sqlx option"

definition dbURL :: "DB \<Rightarrow> string \<Rightarrow> string res" where
  "dbURL db prefix = (case db_cfg db of
     None \<Rightarrow> Inl Panic
   | Some cfg \<Rightarrow> Inr (prefix @ ''://'' @ dbc_User cfg @ '':'' @ dbc_Password cfg @ ''@'' @ dbc_Host cfg @ '':'' @
       big_string (dbc_Port cfg) @ ''/'' @ dbc_DB cfg))"

section \<open>Connecting\<close>

datatype migrate_error = ErrNoChange | MigrateFailed go_error

record postgres =
  pg_Connect :: "string \<Rightarrow> nat \<Rightarrow> unit res"
  pg_Migrate :: "string \<Rightarrow> string \<Rightarrow> nat \<Rightarrow> unit res"
  pg_Up :: "nat \<Rightarrow> database \<Rightarrow> migrate_error option \<times> database"

definition NewDB :: "postgres \<Rightarrow> DBConfig option \<Rightarrow> (world, DB) io" where
  "NewDB P cfg =
     (let db = \<lparr>db_cfg = cfg, db_conn = None\<rparr> in
      bindE (liftE (dbURL db ''postgres'')) (\<lambda>url.
      bindE (rpc (pg_Connect P url)) (\<lambda>_.
      returnE (db\<lparr>db_conn := Some \<lparr>cx_URL = url, cx_MaxIdleConns = 3, cx_MaxOpenConns = 10\<rparr>\<rparr>))))"

text \<open>The call of the library that applies what is pending.\<close>

definition Up :: "postgres \<Rightarrow> (world, migrate_error option) io" where
  "Up P w = (let (err, d) = pg_Up P (w_tick w) (w_db w) in (Inr err, \<lparr>w_db = d, w_tick = Suc (w_tick w)\<rparr>))"

definition Migrate :: "postgres \<Rightarrow> DB \<Rightarrow> (world, unit) io" where
  "Migrate P db =
     bindE (liftE (dbURL db ''pgx'')) (\<lambda>url.
     bindE (rpc (pg_Migrate P ''file://db/migrations'' url)) (\<lambda>_.
     bindE (Up P) (\<lambda>err. case err of
       None \<Rightarrow> returnE ()
     | Some ErrNoChange \<Rightarrow> returnE ()
     | Some (MigrateFailed e) \<Rightarrow> failE (Err e))))"

definition ConnectToDBAndMigrate :: "postgres \<Rightarrow> DBConfig option \<Rightarrow> (world, DB) io" where
  "ConnectToDBAndMigrate P cfg =
     bindE (NewDB P cfg) (\<lambda>db.
     bindE (Migrate P db) (\<lambda>_.
     returnE db))"

section \<open>The name of a statement\<close>

text \<open>
  The function on the stack is what the runtime reports: the path of the package, a dot, for a method its
  receiver in parentheses and another dot, and the name.
\<close>

definition receiver_mark :: string where
  "receiver_mark = [CHR ''('', CHR ''*'']"

definition method_name :: "string \<Rightarrow> string \<Rightarrow> string \<Rightarrow> string" where
  "method_name package recv func = package @ ''.'' @ receiver_mark @ recv @ '').'' @ func"

definition TrimPrefix :: "string \<Rightarrow> string \<Rightarrow> string" where
  "TrimPrefix s p = (if take (length p) s = p then drop (length p) s else s)"

definition getCurrentFuncName :: "(nat \<Rightarrow> string option) \<Rightarrow> nat \<Rightarrow> string" where
  "getCurrentFuncName stack skip = (case stack skip of
     None \<Rightarrow> ''unknown''
   | Some name \<Rightarrow>
       (let name = rev (takeWhile (\<lambda>c. c \<noteq> CHR ''.'') (rev name));
            name = TrimPrefix name receiver_mark
        in remove1 (CHR '')'') name))"

section \<open>What connecting leaves\<close>

lemma NewDB_Inr:
  assumes "NewDB P cfg w = (Inr db, w')"
  shows "w_db w' = w_db w \<and> w_tick w' = Suc (w_tick w) \<and> db_cfg db = cfg \<and> cfg \<noteq> None
    \<and> (\<exists>url. dbURL \<lparr>db_cfg = cfg, db_conn = None\<rparr> ''postgres'' = Inr url
        \<and> pg_Connect P url (w_tick w) = Inr () \<and> db_conn db = Some \<lparr>cx_URL = url, cx_MaxIdleConns = 3, cx_MaxOpenConns = 10\<rparr>)"
  using assms by (auto simp: NewDB_def Let_def bindE_Inr_iff rpc_def dbURL_def split: option.splits)

lemma NewDB_db: "NewDB P cfg w = (r, w') \<Longrightarrow> w_db w' = w_db w \<and> w_tick w \<le> w_tick w'"
  by (auto simp: NewDB_def Let_def bindE_apply bindE_liftE_apply rpc_def split: sum.splits prod.splits)

definition migrated :: "postgres \<Rightarrow> database \<Rightarrow> database \<Rightarrow> bool" where
  "migrated P d d' \<longleftrightarrow> d' = d \<or> (\<exists>t err. pg_Up P t d = (err, d'))"

lemma Migrate_db: "Migrate P db w = (r, w') \<Longrightarrow> migrated P (w_db w) (w_db w') \<and> w_tick w \<le> w_tick w'"
  by (auto simp: Migrate_def Up_def bindE_apply bindE_liftE_apply rpc_def migrated_def Let_def
      split: sum.splits prod.splits option.splits migrate_error.splits)

lemma Migrate_Inr: "Migrate P db w = (Inr u, w') \<Longrightarrow> \<exists>t. pg_Up P t (w_db w) \<in> {None, Some ErrNoChange} \<times> {w_db w'}"
  by (fastforce simp: Migrate_def Up_def bindE_Inr_iff rpc_def Let_def split: prod.splits option.splits migrate_error.splits)

text \<open>Without a section for PostgreSQL in the configuration there is no error message but a panic.\<close>

lemma connect_without_config: "ConnectToDBAndMigrate P None w = (Inl Panic, w)"
  by (simp add: ConnectToDBAndMigrate_def NewDB_def dbURL_def Let_def bindE_apply bindE_liftE_apply)

lemma connect_db: "ConnectToDBAndMigrate P cfg w = (r, w') \<Longrightarrow> migrated P (w_db w) (w_db w') \<and> w_tick w \<le> w_tick w'"
proof -
  assume run: "ConnectToDBAndMigrate P cfg w = (r, w')"
  obtain a w1 where new: "NewDB P cfg w = (a, w1)" by fastforce
  note n = NewDB_db [OF new]
  show ?thesis
  proof (cases a)
    case (Inl e)
    with run new n show ?thesis by (simp add: ConnectToDBAndMigrate_def bindE_apply migrated_def)
  next
    case (Inr db)
    obtain b w2 where mig: "Migrate P db w1 = (b, w2)" by fastforce
    from Migrate_db [OF mig] n run new mig Inr show ?thesis
      by (auto simp: ConnectToDBAndMigrate_def bindE_apply split: sum.splits)
  qed
qed

lemma connect_Inr:
  assumes "ConnectToDBAndMigrate P cfg w = (Inr db, w')"
  shows "db_cfg db = cfg \<and> cfg \<noteq> None \<and> (\<exists>t. pg_Up P t (w_db w) \<in> {None, Some ErrNoChange} \<times> {w_db w'})"
proof -
  from assms obtain w1 u where new: "NewDB P cfg w = (Inr db, w1)" and mig: "Migrate P db w1 = (Inr u, w')"
    by (auto simp: ConnectToDBAndMigrate_def bindE_Inr_iff)
  from NewDB_Inr [OF new] Migrate_Inr [OF mig] show ?thesis by auto
qed

section \<open>Reading a URL\<close>

text \<open>
  The parts of a URL as they are taken apart again: the authority ends at the first slash, its user part at the last at sign, and the
  port follows the last colon. Queries, fragments and escapes are left out, and so are the characters that mark them.
\<close>

definition cut_first :: "char \<Rightarrow> string \<Rightarrow> string \<times> string" where
  "cut_first c s = (takeWhile (\<lambda>x. x \<noteq> c) s, tl (dropWhile (\<lambda>x. x \<noteq> c) s))"

definition cut_last :: "char \<Rightarrow> string \<Rightarrow> string \<times> string" where
  "cut_last c s = (case cut_first c (rev s) of (b, a) \<Rightarrow> (rev a, rev b))"

definition int_value :: "string \<Rightarrow> int" where
  "int_value s = (if s \<noteq> [] \<and> hd s = CHR ''-'' then - int (digits_value 0 (tl s)) else int (digits_value 0 s))"

definition read_url :: "string \<Rightarrow> string \<times> DBConfig" where
  "read_url url =
     (let (scheme, rest) = cut_first (CHR '':'') url;
          (authority, path) = cut_first (CHR ''/'') (drop 2 rest);
          (userinfo, hostport) = cut_last (CHR ''@'') authority;
          (user, password) = cut_first (CHR '':'') userinfo;
          (host, port) = cut_last (CHR '':'') hostport
      in (scheme, \<lparr>dbc_User = user, dbc_Password = password, dbc_Host = host, dbc_Port = int_value port, dbc_DB = path\<rparr>))"

definition url_safe :: "DBConfig \<Rightarrow> bool" where
  "url_safe cfg \<longleftrightarrow> CHR '':'' \<notin> set (dbc_User cfg) \<and> CHR ''@'' \<notin> set (dbc_Host cfg)
     \<and> list_all (\<lambda>s. CHR ''/'' \<notin> set s) [dbc_User cfg, dbc_Password cfg, dbc_Host cfg]
     \<and> list_all (\<lambda>s. set s \<inter> set ''?#%'' = {}) [dbc_User cfg, dbc_Password cfg, dbc_Host cfg, dbc_DB cfg]"

lemma cut_first_append: "c \<notin> set a \<Longrightarrow> cut_first c (a @ c # b) = (a, b)"
  by (induction a) (auto simp: cut_first_def)

lemma cut_last_append: "c \<notin> set b \<Longrightarrow> cut_last c (a @ c # b) = (a, b)"
  using cut_first_append [of c "rev b" "rev a"] by (simp add: cut_last_def)

lemma decimal_digits_range: "c \<in> set (decimal_digits n) \<Longrightarrow> of_char c \<in> {48..57 :: nat}"
proof (induction n rule: decimal_digits.induct)
  case (1 n)
  then show ?case
    by (cases "n < 10") (auto simp: decimal_digits.simps [of n])
qed

lemma big_string_chars: "c \<in> set (big_string v) \<Longrightarrow> c = CHR ''-'' \<or> of_char c \<in> {48..57 :: nat}"
  using decimal_digits_range by (auto simp: big_string_def split: if_splits)

lemma big_string_clean: "CHR ''/'' \<notin> set (big_string v)" "CHR ''@'' \<notin> set (big_string v)" "CHR '':'' \<notin> set (big_string v)"
  using big_string_chars by fastforce+

lemma minus_no_digit: "\<not> (48 :: nat) \<le> of_char (CHR ''-'')"
  by simp

lemma int_value_big_string: "int_value (big_string v) = v"
proof -
  have ne: "decimal_digits n \<noteq> []" for n by (subst decimal_digits.simps) simp
  have "hd (decimal_digits n) \<noteq> CHR ''-''" for n
    using decimal_digits_range [OF hd_in_set [OF ne], of n] by (metis atLeastAtMost_iff minus_no_digit)
  with ne show ?thesis by (simp add: int_value_def big_string_def digits_value_decimal)
qed

lemma func_name_bare:
  assumes "CHR ''.'' \<notin> set func" and "CHR '')'' \<notin> set func" "CHR ''('' \<notin> set func"
    and "stack skip = Some (method_name package recv func)"
  shows "getCurrentFuncName stack skip = func"
proof -
  have "rev (takeWhile (\<lambda>c. c \<noteq> CHR ''.'') (rev (method_name package recv func))) = func"
    using cut_last_append [OF assms(1), of "package @ ''.'' @ receiver_mark @ recv @ '')''"]
    by (simp add: cut_last_def cut_first_def method_name_def)
  moreover have "TrimPrefix func receiver_mark = func"
    using assms(3) by (cases func) (auto simp: TrimPrefix_def receiver_mark_def)
  ultimately show ?thesis
    using assms(2,4) by (simp add: getCurrentFuncName_def Let_def remove1_idem)
qed

section \<open>Properties\<close>

text \<open>Property C40. The settings of the database survive in its URL: taken apart again it gives the same
  settings, provided that the texts are free of the characters that separate the parts of a URL.\<close>

theorem db_url_roundtrip:
  assumes "url_safe cfg" and "CHR '':'' \<notin> set prefix"
  shows "\<exists>url. dbURL \<lparr>db_cfg = Some cfg, db_conn = c\<rparr> prefix = Inr url \<and> read_url url = (prefix, cfg)"
proof -
  let ?hp = "dbc_Host cfg @ CHR '':'' # big_string (dbc_Port cfg)"
  let ?ui = "dbc_User cfg @ CHR '':'' # dbc_Password cfg"
  let ?auth = "?ui @ CHR ''@'' # ?hp"
  have slash: "CHR ''/'' \<notin> set ?auth" and at: "CHR ''@'' \<notin> set ?hp" and user: "CHR '':'' \<notin> set (dbc_User cfg)"
    using assms(1) by (auto simp: url_safe_def big_string_clean)
  have url: "dbURL \<lparr>db_cfg = Some cfg, db_conn = c\<rparr> prefix =
      Inr (prefix @ CHR '':'' # ''//'' @ ?auth @ CHR ''/'' # dbc_DB cfg)"
    by (simp add: dbURL_def)
  have 1: "cut_first (CHR '':'') (prefix @ CHR '':'' # ''//'' @ ?auth @ CHR ''/'' # dbc_DB cfg) =
      (prefix, ''//'' @ ?auth @ CHR ''/'' # dbc_DB cfg)"
    by (rule cut_first_append [OF assms(2)])
  have 2: "cut_first (CHR ''/'') (drop 2 (''//'' @ ?auth @ CHR ''/'' # dbc_DB cfg)) = (?auth, dbc_DB cfg)"
    using cut_first_append [OF slash, of "dbc_DB cfg"] by simp
  have 3: "cut_last (CHR ''@'') ?auth = (?ui, ?hp)" by (rule cut_last_append [OF at])
  have 4: "cut_first (CHR '':'') ?ui = (dbc_User cfg, dbc_Password cfg)" by (rule cut_first_append [OF user])
  have 5: "cut_last (CHR '':'') ?hp = (dbc_Host cfg, big_string (dbc_Port cfg))"
    by (rule cut_last_append [OF big_string_clean(3)])
  have "read_url (prefix @ CHR '':'' # ''//'' @ ?auth @ CHR ''/'' # dbc_DB cfg) = (prefix, cfg)"
    unfolding read_url_def Let_def 1 prod.case 2 3 4 5 by (simp add: int_value_big_string)
  with url show ?thesis by blast
qed

definition sample_db :: DBConfig where
  "sample_db = \<lparr>dbc_User = ''postgres'', dbc_Password = ''pass'', dbc_Host = ''localhost'', dbc_Port = 5432, dbc_DB = ''db''\<rparr>"

lemma db_url_roundtrip_witness:
  "\<exists>url. dbURL \<lparr>db_cfg = Some sample_db, db_conn = None\<rparr> ''pgx'' = Inr url \<and> read_url url = (''pgx'', sample_db)"
  by (rule db_url_roundtrip) (simp_all add: url_safe_def sample_db_def)

text \<open>A slash in the password is not escaped: the URL names another host.\<close>

theorem db_url_slash_lost:
  "\<exists>url. dbURL \<lparr>db_cfg = Some (sample_db\<lparr>dbc_Password := ''a@b:1/c''\<rparr>), db_conn = None\<rparr> ''pgx'' = Inr url
    \<and> dbc_Host (snd (read_url url)) = ''b''"
  by (simp add: dbURL_def sample_db_def read_url_def cut_first_def cut_last_def)

text \<open>The name recorded for a method call is the bare name of the method: calls of methods of one name are not told apart.\<close>

theorem func_name_is_method:
  assumes "CHR ''.'' \<notin> set func" and "CHR '')'' \<notin> set func" "CHR ''('' \<notin> set func"
    and "stack skip = Some (method_name package recv func)"
  shows "getCurrentFuncName stack skip = func"
  by (rule func_name_bare [of func stack skip package recv, OF assms])

lemma func_name_is_method_witness:
  "getCurrentFuncName (\<lambda>n. Some (method_name ''repository/postgres'' ''logsRepo'' ''Ensure'')) 2 = ''Ensure''
   \<and> getCurrentFuncName (\<lambda>n. Some (method_name ''repository/postgres'' ''messagesRepo'' ''Ensure'')) 2 = ''Ensure''"
  by (intro conjI func_name_is_method [OF _ _ _ refl]) simp_all

end
