(* ===== verification/Process.thy ===== *)
theory Process
  imports Monitor IndexerSteps
begin

text \<open>
  The process of \<open>cmd/monitor/main.go\<close>: the contract monitors of all its bridges, whose goroutines
  work on one database. Each contract monitor was described alone in theory \<open>Indexer\<close>, with the rest of
  the world as \<open>other_activity\<close>. Here they are put together: what each does to the database is within
  what the others allow for, so a run of the process is, seen from either side of any bridge, a run of that contract
  monitor alone.

  The alert jobs of the bridges run beside them, and only read. The presenter only reads as well (theory
  \<open>PresenterFacts\<close>); like every other client of the database it is part of \<open>Outside\<close>.
\<close>

section \<open>What a contract monitor does to the database\<close>

definition side_key :: "BridgeSideConfig \<Rightarrow> string \<times> address" where
  "side_key cfg = (bs_ChainID cfg, bs_Address cfg)"

text \<open>The logs of the chains, by chain id.\<close>

type_synonym chains = "string \<Rightarrow> RpcLog list"

definition guarantee :: "chains \<Rightarrow> BridgeSideConfig \<Rightarrow> world \<Rightarrow> world \<Rightarrow> bool" where
  "guarantee chainOf cfg w w' \<longleftrightarrow> db_le (w_db w) (w_db w') \<and> w_tick w \<le> w_tick w'
     \<and> (\<forall>c. honest c (chainOf c) (w_db w) \<longrightarrow> honest c (chainOf c) (w_db w'))
     \<and> (\<forall>k. k \<noteq> side_key cfg \<longrightarrow> filter (\<lambda>c. cursor_key c = k) (vals (db_logs_cursors (w_db w'))) =
          filter (\<lambda>c. cursor_key c = k) (vals (db_logs_cursors (w_db w))))"

lemma own_cursor_side: "own_cursor cfg = (\<lambda>c. cursor_key c = side_key cfg)"
  by (simp add: fun_eq_iff own_cursor_def side_key_def)

lemma guarantee_other:
  assumes "guarantee chainOf cfg w w'" and "side_key cfg' \<noteq> side_key cfg"
  shows "other_activity cfg' (chainOf (bs_ChainID cfg')) (w_db w) (w_db w')"
  using assms unfolding guarantee_def other_activity_def own_cursor_side by blast

lemma guarantee_same_logs: "grows w w' \<Longrightarrow> same_logs w w' \<Longrightarrow> guarantee chainOf cfg w w'"
  by (auto simp: guarantee_def grows_def same_logs_def intro: honest_same)

lemma guarantee_refl [simp]: "guarantee chainOf cfg w w"
  by (simp add: guarantee_def)

lemma guarantee_same_db: "w_db w' = w_db w \<Longrightarrow> w_tick w \<le> w_tick w' \<Longrightarrow> guarantee chainOf cfg w w'"
  by (simp add: guarantee_def)

lemma LoadUnprocessedLogs_grows: "keepsE grows (LoadUnprocessedLogs E m f t)"
  unfolding LoadUnprocessedLogs_def Logs_Find_def by auto

context keyed
begin

lemma upsert_other_key:
  assumes "key new \<noteq> k"
  shows "filter (\<lambda>v. key v = k) (vals (upsert key upd now new rows)) = filter (\<lambda>v. key v = k) (vals rows)"
proof -
  have "filter (\<lambda>v. key v = k) (map (\<lambda>v. if key v = key new then upd v new else v) vs) = filter (\<lambda>v. key v = k) vs"
    for vs
  proof (induction vs)
    case (Cons v vs)
    with assms key_upd [of v new] show ?case by (cases "key v = key new") simp_all
  qed simp
  then show ?thesis by (simp only: vals_upsert) (simp add: assms)
qed

end

lemma guarantee_cursor:
  assumes "cursor_key c = side_key cfg" and run: "LogsCursors_Ensure E c w = (res, w')"
  shows "guarantee chainOf cfg w w'"
proof -
  have g: "grows w w'" by (rule keepsE_apply [OF LogsCursors_Ensure_grows run])
  have db: "w_db w' = w_db w \<or> w_db w' = (w_db w)\<lparr>db_logs_cursors :=
      upsert cursor_key upd_cursor (env_clock E (w_tick w)) c (db_logs_cursors (w_db w))\<rparr>"
    using run
    by (auto simp: LogsCursors_Ensure_def db_exec_def Let_def ensure_stmt_def
        split: option.splits prod.splits db_fault.splits dest!: ensure_row_SomeD)
  then have "filter (\<lambda>x. cursor_key x = k) (vals (db_logs_cursors (w_db w'))) =
      filter (\<lambda>x. cursor_key x = k) (vals (db_logs_cursors (w_db w)))" if "k \<noteq> side_key cfg" for k
    using cursors_tbl.upsert_other_key [of c k] that unfolding assms(1) [symmetric] by (elim disjE) simp_all
  moreover have "honest ch (chainOf ch) (w_db w')" if "honest ch (chainOf ch) (w_db w)" for ch
    using that LogsCursors_Ensure_effect(1) [OF run] by (rule honest_same)
  ultimately show ?thesis using g unfolding guarantee_def grows_def by blast
qed

lemma fetchQueries_chain:
  "fetchQueries m qs w = (Inr logs, w') \<Longrightarrow> \<forall>l \<in> set logs. log_ChainID l = bs_ChainID (mon_cfg m)"
proof (induction qs arbitrary: w logs w')
  case (Cons q qs)
  from Cons.prems obtain batch w1 rest w2 where "fetchQueries m qs w1 = (Inr rest, w2)"
    and "logs = map (NewLog (bs_ChainID (mon_cfg m))) batch @ rest"
    by (auto simp only: fetchQueries.simps bindE_Inr_iff io_apply prod.inject sum.inject)
  with Cons.IH show ?case by (auto simp: NewLog_def Let_def)
qed simp

lemma guarantee_fetch:
  assumes ok: "setting_ok G m (chainOf (bs_ChainID (mon_cfg m)))" and small: "unat (br_To r) < 2 ^ 63"
    and run: "fetchAndSaveLogs G E m r w = (res, w')"
    and hon: "honest (bs_ChainID (mon_cfg m)) (chainOf (bs_ChainID (mon_cfg m))) (w_db w)"
  shows "guarantee chainOf (mon_cfg m) w w'"
proof -
  let ?c = "bs_ChainID (mon_cfg m)"
  note frame = fetchAndSave_frame [OF ok hon small run]
  have g: "grows w w'" by (rule keepsE_apply [OF fetchAndSaveLogs_grows run])
  have old: "x \<in> set (vals (db_logs (w_db w)))"
    if x: "x \<in> set (vals (db_logs (w_db w')))" "log_ChainID x \<noteq> ?c" for x
  proof -
    from fetchAndSave_run [OF run] consider
        (failed) e where "fetchQueries m (buildFilterQueries G m r) w = (Inl e, w')"
      | (none) "w_db w' = w_db w"
      | (some) logs w1 where "fetchQueries m (buildFilterQueries G m r) w = (Inr logs, w1)" "w_db w1 = w_db w"
          "Logs_Ensure E (sort_key log_pos_of logs) w1 = (res, w')"
      by auto
    then show ?thesis
    proof cases
      case failed
      with x(1) fetchQueries_db show ?thesis by metis
    next
      case none
      with x(1) show ?thesis by simp
    next
      case some
      with fetchQueries_chain [OF some(1)] Logs_Ensure_effect(2) [OF some(3) x(1)] x(2) show ?thesis by auto
    qed
  qed
  have "honest c (chainOf c) (w_db w')" if "honest c (chainOf c) (w_db w)" for c
    using that frame(2) old by (cases "c = ?c") (auto simp: honest_def)
  with g frame(1) show ?thesis by (simp add: guarantee_def grows_def)
qed

context log_handler
begin

lemma run_guarantee:
  assumes ok: "setting_ok G m (chainOf (bs_ChainID (mon_cfg m)))"
    and i: "indexer_inv (goals G m (chainOf (bs_ChainID (mon_cfg m))) handled) (mon_cfg m) (chainOf (bs_ChainID (mon_cfg m))) s"
    and up: "ix_up s" and st: "run_step G E m handle s s'"
  shows "guarantee chainOf (mon_cfg m) (ix_w s) (ix_w s')"
proof -
  let ?chain = "chainOf (bs_ChainID (mon_cfg m))"
  let ?g = "goals G m ?chain handled"
  have hon: "honest (bs_ChainID (mon_cfg m)) ?chain (w_db (ix_w s))" and inv: "inv_up ?g (mon_cfg m) (w_db (ix_w s)) s"
    using i up by (simp_all add: indexer_inv_def inv_db_def)
  have range: "unat (br_To r) < 2 ^ 63" if "ix_lf s = LfFetch r" for r
    using inv that by (simp add: inv_up_def range_list_def lf_range_def range_ok_def)
  have own: "cursor_key c = side_key (mon_cfg m)" if "cursor_inv ?g (mon_cfg m) (w_db (ix_w s)) c" for c
    using that by (simp add: cursor_inv_def own_cursor_side)
  have fetch: "guarantee chainOf (mon_cfg m) (ix_w s) w'"
    if "ix_lf s = LfFetch r" "fetchAndSaveLogs G E m r (ix_w s) = (res, w')" for r w' and res :: "Log list res"
    by (rule guarantee_fetch [where chainOf = chainOf, OF ok range [OF that(1)] that(2) hon])
  from st consider "bf_step m s s'" | "lf_step G E m s s'" | "lp_step E m handle s s'" by (auto simp: run_step_def)
  then show ?thesis
  proof cases
    case 1
    then show ?thesis
      by cases (auto intro!: guarantee_same_db simp: BlockNumber_def rpc_def)
  next
    case 2
    then show ?thesis
    proof cases
      case (Load f t bs w')
      with LoadUnprocessedLogs_db [OF Load(3)] keepsE_apply [OF LoadUnprocessedLogs_grows Load(3)]
      show ?thesis by (auto intro!: guarantee_same_db simp: grows_def)
    next
      case (LoadFails f t e w')
      with LoadUnprocessedLogs_db [OF LoadFails(3)] keepsE_apply [OF LoadUnprocessedLogs_grows LoadFails(3)]
      show ?thesis by (auto intro!: guarantee_same_db simp: grows_def)
    next
      case (SaveFetched c r logs u w')
      have "cursor_key c = side_key (mon_cfg m)" using inv SaveFetched(2) by (intro own) (simp add: inv_up_def lf_inv_def)
      from guarantee_cursor [OF this SaveFetched(3)] SaveFetched(1) show ?thesis by simp
    next
      case (SaveFetchedFails c r logs e w')
      have "cursor_key c = side_key (mon_cfg m)" using inv SaveFetchedFails(2) by (intro own) (simp add: inv_up_def lf_inv_def)
      from guarantee_cursor [OF this SaveFetchedFails(3)] SaveFetchedFails(1) show ?thesis by simp
    qed (auto intro: fetch)
  next
    case 3
    then show ?thesis
    proof cases
      case (Timestamp b rest r w')
      with keepsE_apply [OF tryToGetBlockTimestamp_grows Timestamp(3)] keepsE_apply [OF tryToGetBlockTimestamp_same Timestamp(3)]
      show ?thesis by (simp add: guarantee_same_logs)
    next
      case (HandleLog b ts l rest u w')
      with keepsE_apply [OF handle_grows HandleLog(3)] keepsE_apply [OF handle_same HandleLog(3)]
      show ?thesis by (simp add: guarantee_same_logs)
    next
      case (HandleLogFails b ts l rest e w')
      with keepsE_apply [OF handle_grows HandleLogFails(3)] keepsE_apply [OF handle_same HandleLogFails(3)]
      show ?thesis by (simp add: guarantee_same_logs)
    next
      case (HandleLogPanics b ts l rest w')
      with keepsE_apply [OF handle_grows HandleLogPanics(3)] keepsE_apply [OF handle_same HandleLogPanics(3)]
      show ?thesis by (simp add: guarantee_same_logs)
    next
      case (SaveProcessed c b u w')
      have "cursor_key c = side_key (mon_cfg m)" using inv SaveProcessed(2) by (intro own) (simp add: inv_up_def lp_inv_def)
      from guarantee_cursor [OF this SaveProcessed(3)] SaveProcessed(1) show ?thesis by simp
    next
      case (SaveProcessedFails c b e w')
      have "cursor_key c = side_key (mon_cfg m)" using inv SaveProcessedFails(2) by (intro own) (simp add: inv_up_def lp_inv_def)
      from guarantee_cursor [OF this SaveProcessedFails(3)] SaveProcessedFails(1) show ?thesis by simp
    qed auto
  qed
qed

end

section \<open>The contract monitors of a configuration\<close>

text \<open>The node of a side, and the contract monitors of the bridges that have the addresses of their validator
  contracts in the configuration.\<close>

definition side_node :: "(RPCConfig \<Rightarrow> node) \<Rightarrow> BridgeSideConfig \<Rightarrow> node" where
  "side_node dial cfg = dial (the (ch_RPC (the (bs_Chain cfg))))"

definition bridgeMonitors :: "(RPCConfig \<Rightarrow> node) \<Rightarrow> geth \<Rightarrow> env \<Rightarrow> BridgeConfig option \<Rightarrow> ContractMonitor list" where
  "bridgeMonitors dial G E bridge = (case bridge of None \<Rightarrow> [] | Some b \<Rightarrow>
     [homeMonitor G E b (side_node dial (bc_Home b)),
      foreignMonitor G E b (side_node dial (bc_Home b)) (side_node dial (bc_Foreign b))])"

definition processMonitors :: "(RPCConfig \<Rightarrow> node) \<Rightarrow> geth \<Rightarrow> env \<Rightarrow> (string \<times> BridgeConfig option) list \<Rightarrow>
    ContractMonitor list" where
  "processMonitors dial G E bridges = concat (map (\<lambda>(bridgeID, b). bridgeMonitors dial G E b) bridges)"

definition validators_configured :: "BridgeConfig option \<Rightarrow> bool" where
  "validators_configured bridge \<longleftrightarrow> (case bridge of None \<Rightarrow> True | Some b \<Rightarrow>
     bs_ValidatorContractAddress (bc_Home b) \<noteq> 0 \<and> bs_ValidatorContractAddress (bc_Foreign b) \<noteq> 0)"

section \<open>The process\<close>

text \<open>
  A run of the process: whether it is alive, the database and the clock it shares, the goroutines of each contract
  monitor with their memory (of the home and the foreign side of each bridge in turn), and the alert jobs of each bridge. The world and the flag inside an \<open>indexer\<close> are replaced by the shared ones
  when one of its goroutines takes a step; \<open>seen_from\<close> does it.
\<close>

record process =
  pc_up :: bool
  pc_w :: world
  pc_runs :: "(ContractMonitor \<times> indexer) list"
  pc_alerts :: "AlertManager list"

definition seen_from :: "bool \<Rightarrow> world \<Rightarrow> indexer \<Rightarrow> indexer" where
  "seen_from up w r = r\<lparr>ix_up := up, ix_w := w\<rparr>"

text \<open>\<open>Monitor.Start\<close>\<close>

definition Monitor_Start :: "world \<Rightarrow> Monitor \<Rightarrow> (ContractMonitor \<times> indexer) list" where
  "Monitor_Start w m =
     [(mo_homeMonitor m, Start w (pg_logsCursor (mo_home m))),
      (mo_foreignMonitor m, Start w (pg_logsCursor (mo_foreign m)))]"

text \<open>\<open>Monitor.IsSynced\<close> of the \<open>k\<close>-th bridge, read by its alert jobs.\<close>

definition bridge_synced :: "process \<Rightarrow> nat \<Rightarrow> bool" where
  "bridge_synced s k \<longleftrightarrow> pg_isSynced (ix_p (snd (pc_runs s ! (2 * k))))
     \<and> pg_isSynced (ix_p (snd (pc_runs s ! (2 * k + 1))))"

text \<open>
  All monitors are made before the first is started, and a fatal error on the way ends the process. A panic in any
  goroutine ends it as well. A job may execute at any time: it does nothing on a bridge that is not synced, which
  includes the time before its manager has started it. \<open>Outside\<close> is whatever else happens on the database.
\<close>

inductive process_step :: "(RPCConfig \<Rightarrow> node) \<Rightarrow> (string \<Rightarrow> string) \<Rightarrow> abilib \<Rightarrow> geth \<Rightarrow> env \<Rightarrow> byte list res \<Rightarrow>
    Config \<Rightarrow> chains \<Rightarrow> process \<Rightarrow> process \<Rightarrow> bool"
  for dial :: "RPCConfig \<Rightarrow> node" and D :: "string \<Rightarrow> string" and L :: abilib and G :: geth and E :: env
    and calldata :: "byte list res" and cfg :: Config and chainOf :: chains where
  Launch: "\<not> pc_up s \<Longrightarrow> startMonitors dial D G E calldata (monitoredBridges cfg) (pc_w s) = (Inr mons, w') \<Longrightarrow>
    process_step dial D L G E calldata cfg chainOf s
      \<lparr>pc_up = True, pc_w = w', pc_runs = concat (map (Monitor_Start w') mons), pc_alerts = map mo_alertManager mons\<rparr>"
| LaunchFails: "\<not> pc_up s \<Longrightarrow> startMonitors dial D G E calldata (monitoredBridges cfg) (pc_w s) = (Inl e, w') \<Longrightarrow>
    process_step dial D L G E calldata cfg chainOf s (s\<lparr>pc_w := w'\<rparr>)"
| Goroutine: "pc_up s \<Longrightarrow> i < length (pc_runs s) \<Longrightarrow> pc_runs s ! i = (m, r) \<Longrightarrow>
    run_step G E m (processLog L m) (seen_from True (pc_w s) r) r' \<Longrightarrow>
    process_step dial D L G E calldata cfg chainOf s
      (s\<lparr>pc_up := ix_up r', pc_w := ix_w r', pc_runs := (pc_runs s)[i := (m, r')]\<rparr>)"
| Alert: "pc_up s \<Longrightarrow> k < length (pc_alerts s) \<Longrightarrow> a < length (pc_alerts s ! k) \<Longrightarrow>
    pc_alerts s ! k ! a = (name, j) \<Longrightarrow> Execute j (bridge_synced s k) (pc_w s) = ((res, j'), w') \<Longrightarrow>
    process_step dial D L G E calldata cfg chainOf s
      (s\<lparr>pc_up := (res \<noteq> Inl Panic), pc_w := w', pc_alerts := (pc_alerts s)[k := (pc_alerts s ! k)[a := (name, j')]]\<rparr>)"
| Killed: "process_step dial D L G E calldata cfg chainOf s (s\<lparr>pc_up := False\<rparr>)"
| Outside: "list_all (\<lambda>m. other_activity (mon_cfg m) (chainOf (bs_ChainID (mon_cfg m))) (w_db (pc_w s)) d')
      (processMonitors dial G E (monitoredBridges cfg)) \<Longrightarrow> w_tick (pc_w s) \<le> t' \<Longrightarrow>
    process_step dial D L G E calldata cfg chainOf s (s\<lparr>pc_w := \<lparr>w_db = d', w_tick = t'\<rparr>\<rparr>)"

text \<open>The states that can be reached from an empty database.\<close>

inductive process_reachable :: "(RPCConfig \<Rightarrow> node) \<Rightarrow> (string \<Rightarrow> string) \<Rightarrow> abilib \<Rightarrow> geth \<Rightarrow> env \<Rightarrow> byte list res \<Rightarrow>
    Config \<Rightarrow> chains \<Rightarrow> process \<Rightarrow> bool"
  for dial :: "RPCConfig \<Rightarrow> node" and D :: "string \<Rightarrow> string" and L :: abilib and G :: geth and E :: env
    and calldata :: "byte list res" and cfg :: Config and chainOf :: chains where
  Installed: "\<not> pc_up s \<Longrightarrow> pc_runs s = [] \<Longrightarrow> pc_alerts s = [] \<Longrightarrow> w_db (pc_w s) = emptyDatabase \<Longrightarrow>
    process_reachable dial D L G E calldata cfg chainOf s"
| Next: "process_reachable dial D L G E calldata cfg chainOf s \<Longrightarrow>
    process_step dial D L G E calldata cfg chainOf s s' \<Longrightarrow> process_reachable dial D L G E calldata cfg chainOf s'"

text \<open>
  What a configuration has to satisfy: it names the validator contracts, no two sides are the same contract on the
  same chain, and each contract monitor has a setting as in theory \<open>Indexer\<close>, the sides on one chain with the
  same logs.
\<close>

definition process_ok :: "(RPCConfig \<Rightarrow> node) \<Rightarrow> geth \<Rightarrow> env \<Rightarrow> Config \<Rightarrow> chains \<Rightarrow> bool" where
  "process_ok dial G E cfg chainOf \<longleftrightarrow>
     list_all (\<lambda>(bridgeID, b). validators_configured b) (monitoredBridges cfg)
     \<and> distinct (map (\<lambda>m. side_key (mon_cfg m)) (processMonitors dial G E (monitoredBridges cfg)))
     \<and> list_all (\<lambda>m. setting_ok G m (chainOf (bs_ChainID (mon_cfg m)))) (processMonitors dial G E (monitoredBridges cfg))"

section \<open>What start-up reads\<close>

text \<open>The contract monitor \<open>m\<close> has read its cursor at some time between \<open>w\<close> and \<open>w'\<close>.\<close>

definition has_read :: "env \<Rightarrow> world \<Rightarrow> world \<Rightarrow> ContractMonitor \<Rightarrow> LogsCursor \<Rightarrow> bool" where
  "has_read E w w' m c \<longleftrightarrow> (\<exists>w1 w2. w_db w1 = w_db w \<and> w_tick w \<le> w_tick w1
     \<and> readCursor E (mon_cfg m) w1 = (Inr c, w2) \<and> w_tick w2 \<le> w_tick w')"

lemma has_read_widen: "has_read E w1 w2 m c \<Longrightarrow> quiet w w1 \<Longrightarrow> quiet w2 w' \<Longrightarrow> has_read E w w' m c"
  unfolding has_read_def quiet_def by (metis order_trans)

lemma readCursor_grows: "keepsE grows (readCursor E cfg)"
  unfolding readCursor_def LogsCursors_GetByChainIDAndAddress_def by auto

lemma readCursor_quiet: "keepsE quiet (readCursor E cfg)"
  using readCursor_grows [of E cfg] readCursor_Inl [OF prod.collapse [symmetric], of E cfg]
  by (auto simp: keepsE_def quiet_def grows_def)

lemma NewContractMonitor_quiet: "keepsE quiet (NewContractMonitor G E calldata b cfg N)"
  unfolding NewContractMonitor_def ValidatorContractAddress_def Contract_Call_def CallContract_def
  by (auto simp: Let_def intro!: keepsE_quiet_bindE readCursor_quiet)

lemma NewMonitor_quiet: "keepsE quiet (NewMonitor D G E calldata cfg N N')"
  unfolding NewMonitor_def
  by (auto simp: Let_def split: prod.split intro!: keepsE_quiet_bindE NewContractMonitor_quiet)

lemma startMonitor_quiet: "keepsE quiet (startMonitor dial D G E calldata bridge)"
  unfolding startMonitor_def sideClient_def chainNode_def NewClient_def
  by (auto simp: Let_def split: option.split intro!: keepsE_quiet_bindE NewMonitor_quiet)

lemma startMonitors_quiet: "keepsE quiet (startMonitors dial D G E calldata bridges)"
  by (induction bridges) (auto intro!: keepsE_quiet_bindE startMonitor_quiet)

text \<open>The alert jobs only read.\<close>

definition reads_job :: "Job \<Rightarrow> bool" where
  "reads_job j \<longleftrightarrow> (\<forall>q. keepsE quiet (j_Func j q))"

definition reading_jobs :: "AlertManager \<Rightarrow> bool" where
  "reading_jobs jobs \<longleftrightarrow> list_all (\<lambda>(name, j). reads_job j) jobs"

lemma quiet_exec: "(\<And>now d. snd (stmt now d) = d) \<Longrightarrow> keepsE quiet (db_exec E stmt)"
  by (auto simp: keepsE_def db_exec_def quiet_def Let_def split: prod.split db_fault.split) (metis snd_conv)+

lemma quiet_select: "keepsE quiet (select_rows E ok rows)"
  unfolding select_rows_def by (rule quiet_exec) simp

lemma quiet_min_time: "keepsE quiet (findMinProcessedTime E q)"
  unfolding findMinProcessedTime_def db_query_def by (rule quiet_exec) simp

lemma quiet_fmap: "keepsE quiet m \<Longrightarrow> keepsE quiet (fmapE f m)"
  unfolding fmapE_def by (auto intro: keepsE_quiet_bindE)

lemma alert_queries_quiet:
  "keepsE quiet (FindUnknownConfirmations E q)" "keepsE quiet (FindUnknownExecutions E q)"
  "keepsE quiet (FindStuckMessages E q)" "keepsE quiet (FindFailedExecutions E q)"
  "keepsE quiet (FindStuckInformationRequests E q)" "keepsE quiet (FindFailedInformationRequests E q)"
  "keepsE quiet (FindDifferentInformationSignatures E q)" "keepsE quiet (FindUnknownInformationSignatures E q)"
  "keepsE quiet (FindUnknownInformationExecutions E q)" "keepsE quiet (FindUnknownErcToNativeConfirmations E q)"
  "keepsE quiet (FindUnknownErcToNativeExecutions E q)" "keepsE quiet (FindStuckErcToNativeMessages D E q)"
  unfolding FindUnknownConfirmations_def FindUnknownExecutions_def FindStuckMessages_def FindFailedExecutions_def
    FindStuckInformationRequests_def FindFailedInformationRequests_def FindDifferentInformationSignatures_def
    FindUnknownInformationSignatures_def FindUnknownInformationExecutions_def FindUnknownErcToNativeConfirmations_def
    FindUnknownErcToNativeExecutions_def FindStuckErcToNativeMessages_def
  by (intro keepsE_quiet_bindE quiet_select quiet_min_time)+

lemma activity_quiet: "keepsE quiet (FindLastValidatorActivity E q)"
  unfolding FindLastValidatorActivity_def by (rule quiet_exec) (simp add: Let_def)

lemma NewAlertManager_reads:
  assumes "NewAlertManager D E cfg = Inr jobs"
  shows "reading_jobs jobs"
proof -
  have job: "reads_job (mk p)" if "(name, mk) \<in> set (alert_jobs D E b)" for name mk p b
    using that by (auto simp: alert_jobs_def new_job_def reads_job_def intro!: quiet_fmap alert_queries_quiet activity_quiet)
  have "list_all2 (\<lambda>a j. reads_job (snd j)) (bc_Alerts cfg) jobs"
    by (rule list_all2_mono [OF map_res_list_all2 [OF assms[unfolded NewAlertManager_def]]])
      (auto split: prod.splits option.splits dest!: map_of_SomeD intro: job)
  then show ?thesis by (auto simp: reading_jobs_def list_all2_conv_all_nth list_all_length case_prod_beta)
qed

lemma Execute_reads:
  assumes "Execute j isSynced w = ((res, j'), w')" and "reads_job j"
  shows "quiet w w' \<and> reads_job j'"
proof (cases isSynced)
  case True
  obtain r w1 where run: "j_Func j (j_Params j) w = (r, w1)" by fastforce
  have "keepsE quiet (j_Func j (j_Params j))" using assms(2) by (simp add: reads_job_def)
  then have "quiet w w1" using run by (rule keepsE_apply)
  moreover have "w' = w1 \<and> j_Func j' = j_Func j"
    using assms(1) True run by (auto simp: Execute_def Let_def split: sum.splits if_splits)
  ultimately show ?thesis using assms(2) by (simp add: reads_job_def)
qed (use assms in \<open>auto simp: Execute_def\<close>)

lemma startMonitors_jobs:
  "startMonitors dial D G E calldata bridges w = (Inr mons, w') \<Longrightarrow> list_all reading_jobs (map mo_alertManager mons)"
proof (induction bridges arbitrary: w mons)
  case (Cons e bridges)
  obtain bridgeID b where e: "e = (bridgeID, b)" by (cases e)
  from Cons.prems obtain m ms w1 where m: "startMonitor dial D G E calldata b w = (Inr m, w1)"
    and rest: "startMonitors dial D G E calldata bridges w1 = (Inr ms, w')" and mons: "mons = m # ms"
    by (auto simp: e bindE_Inr_iff)
  from m have "\<exists>c. NewAlertManager D E c = Inr (mo_alertManager m)"
    by (auto simp: startMonitor_def NewMonitor_def bindE_Inr_iff liftE_def failE_def Let_def split: option.splits)
  then have "reading_jobs (mo_alertManager m)" by (auto intro: NewAlertManager_reads)
  with Cons.IH [OF rest] show ?case by (simp add: mons)
qed simp

lemma NewContractMonitor_read:
  assumes "NewContractMonitor G E calldata b cfg N w = (Inr (m, p), w')" and "bs_ValidatorContractAddress cfg \<noteq> 0"
  shows "mon_cfg m = cfg \<and> readCursor E cfg w = (Inr (pg_logsCursor p), w')"
  using assms by (auto simp: NewContractMonitor_def bindE_Inr_iff initialProgress_def Let_def)

lemma NewMonitor_read:
  assumes run: "NewMonitor D G E calldata b homeNode foreignNode w = (Inr mon, w')"
    and v: "bs_ValidatorContractAddress (bc_Home b) \<noteq> 0" "bs_ValidatorContractAddress (bc_Foreign b) \<noteq> 0"
  shows "mo_homeMonitor mon = homeMonitor G E b homeNode \<and> mo_foreignMonitor mon = foreignMonitor G E b homeNode foreignNode
    \<and> has_read E w w' (mo_homeMonitor mon) (pg_logsCursor (mo_home mon))
    \<and> has_read E w w' (mo_foreignMonitor mon) (pg_logsCursor (mo_foreign mon))"
proof -
  obtain home hp w1 foreign fp where
    home: "NewContractMonitor G E calldata b (bc_Home b) homeNode w = (Inr (home, hp), w1)"
    and foreign: "NewContractMonitor G E calldata (b\<lparr>bc_Home := mon_cfg home\<rparr>) (bc_Foreign b) foreignNode w1
        = (Inr (foreign, fp), w')"
    and mon: "mo_home mon = hp" "mo_foreign mon = fp"
    using run unfolding NewMonitor_def by (auto simp: bindE_Inr_iff liftE_def Let_def)
  note h = NewContractMonitor_read [OF home v(1)] and f = NewContractMonitor_read [OF foreign v(2)]
  from monitor_made [OF run] have r: "resolved b (mo_cfg mon)"
    and ms: "mo_homeMonitor mon = homeMonitor G E (mo_cfg mon) homeNode"
      "mo_foreignMonitor mon = foreignMonitor G E (mo_cfg mon) homeNode foreignNode" by auto
  from r v have cfg: "mo_cfg mon = b" by (auto simp: resolved_def resolved_side_def)
  have q: "quiet w w1" "quiet w1 w'"
    using keepsE_apply [OF readCursor_quiet, of E "bc_Home b" w] keepsE_apply [OF readCursor_quiet, of E "bc_Foreign b" w1] h f
    by auto
  have "has_read E w w1 (mo_homeMonitor mon) hp'" if "hp' = pg_logsCursor hp" for hp'
    using h that by (auto simp: has_read_def ms cfg homeMonitor_def)
  moreover have "has_read E w1 w' (mo_foreignMonitor mon) fp'" if "fp' = pg_logsCursor fp" for fp'
    using f that by (auto simp: has_read_def ms cfg foreignMonitor_def)
  ultimately show ?thesis using q by (auto simp: ms cfg mon intro: has_read_widen)
qed

lemma startMonitor_read:
  assumes run: "startMonitor dial D G E calldata bridge w = (Inr mon, w')" and v: "validators_configured bridge"
  shows "list_all2 (\<lambda>m (m', r). m' = m \<and> (\<exists>c. r = Start w0 c \<and> has_read E w w' m c))
    (bridgeMonitors dial G E bridge) (Monitor_Start w0 mon)"
proof -
  from run obtain b hc fc w1 w2 where b: "bridge = Some b"
    and h: "sideClient dial (bc_Home b) w = (Inr hc, w1)" and f: "sideClient dial (bc_Foreign b) w1 = (Inr fc, w2)"
    and new: "NewMonitor D G E calldata b hc fc w2 = (Inr mon, w')"
    by (auto simp: startMonitor_def bindE_Inr_iff failE_def split: option.splits)
  have client: "N = side_node dial cfg \<and> quiet u u'" if "sideClient dial cfg u = (Inr N, u')" for cfg N u u'
    by (rule sideClient_Inr [OF that]) (simp add: side_node_def quiet_def)
  from client [OF h] client [OF f] have nodes: "hc = side_node dial (bc_Home b)" "fc = side_node dial (bc_Foreign b)"
    and q: "quiet w w2" by (auto intro: quiet_trans)
  note r = NewMonitor_read [OF new] 
  show ?thesis
    using r v has_read_widen [OF _ q quiet_refl]
    by (auto simp: b bridgeMonitors_def Monitor_Start_def validators_configured_def nodes)
qed

lemma startMonitors_read:
  "startMonitors dial D G E calldata bridges w = (Inr mons, w') \<Longrightarrow>
   list_all (\<lambda>(bridgeID, b). validators_configured b) bridges \<Longrightarrow>
   list_all2 (\<lambda>m (m', r). m' = m \<and> (\<exists>c. r = Start w0 c \<and> has_read E w w' m c))
     (processMonitors dial G E bridges) (concat (map (Monitor_Start w0) mons))"
proof (induction bridges arbitrary: w mons)
  case (Cons e bridges)
  obtain bridgeID b where e: "e = (bridgeID, b)" by (cases e)
  from Cons.prems(1) obtain m ms w1 where m: "startMonitor dial D G E calldata b w = (Inr m, w1)"
    and rest: "startMonitors dial D G E calldata bridges w1 = (Inr ms, w')" and mons: "mons = m # ms"
    by (auto simp: e bindE_Inr_iff)
  have q: "quiet w w1" "quiet w1 w'"
    using keepsE_apply [OF startMonitor_quiet m] keepsE_apply [OF startMonitors_quiet rest] .
  have "list_all2 (\<lambda>m (m', r). m' = m \<and> (\<exists>c. r = Start w0 c \<and> has_read E w w' m c))
      (bridgeMonitors dial G E b) (Monitor_Start w0 m)"
    using Cons.prems(2) by (intro list_all2_mono [OF startMonitor_read [OF m]])
      (auto simp: e intro: has_read_widen [OF _ quiet_refl q(2)])
  moreover have "list_all2 (\<lambda>m (m', r). m' = m \<and> (\<exists>c. r = Start w0 c \<and> has_read E w w' m c))
      (processMonitors dial G E bridges) (concat (map (Monitor_Start w0) ms))"
    using Cons.prems(2) by (intro list_all2_mono [OF Cons.IH [OF rest]])
      (auto intro: has_read_widen [OF _ q(1) quiet_refl])
  ultimately show ?case by (simp add: processMonitors_def mons e list_all2_appendI)
qed (simp add: processMonitors_def)

section \<open>The process refines its contract monitors\<close>

definition alone :: "abilib \<Rightarrow> geth \<Rightarrow> env \<Rightarrow> chains \<Rightarrow> ContractMonitor \<Rightarrow> indexer \<Rightarrow> bool" where
  "alone L G E chainOf m s \<longleftrightarrow> reachable G E m (processLog L m) (chainOf (bs_ChainID (mon_cfg m))) s"

definition process_inv :: "abilib \<Rightarrow> geth \<Rightarrow> env \<Rightarrow> chains \<Rightarrow> ContractMonitor list \<Rightarrow> process \<Rightarrow> bool" where
  "process_inv L G E chainOf ms s \<longleftrightarrow> list_all reading_jobs (pc_alerts s) \<and> (if pc_up s
     then list_all2 (\<lambda>m (m', r). m' = m \<and> alone L G E chainOf m (seen_from True (pc_w s) r)) ms (pc_runs s)
     else list_all (\<lambda>m. \<exists>r. alone L G E chainOf m (seen_from False (pc_w s) r)) ms)"

lemma seen_from_sel [simp]: "ix_up (seen_from up w r) = up" "ix_w (seen_from up w r) = w"
  by (simp_all add: seen_from_def)

lemma seen_from_twice [simp]: "seen_from up w (seen_from up' w' r) = seen_from up w r"
  by (simp add: seen_from_def)

lemma seen_from_same [simp]: "seen_from (ix_up r) (ix_w r) r = r"
  by (simp add: seen_from_def)

lemma alone_other:
  assumes "alone L G E chainOf m (seen_from up w r)" and "w_tick w \<le> w_tick w'"
    and "other_activity (mon_cfg m) (chainOf (bs_ChainID (mon_cfg m))) (w_db w) (w_db w')"
  shows "alone L G E chainOf m (seen_from up w' r)"
  using assms step.Other [of m "chainOf (bs_ChainID (mon_cfg m))" "seen_from up w r" "w_db w'" "w_tick w'"]
  unfolding alone_def by (cases w') (auto simp: seen_from_def intro: reachable.Next)

lemma alone_quiet:
  "alone L G E chainOf m (seen_from up w r) \<Longrightarrow> quiet w w' \<Longrightarrow> alone L G E chainOf m (seen_from up w' r)"
  by (rule alone_other) (auto simp: quiet_def other_activity_def)

lemma alone_stop: "alone L G E chainOf m (seen_from up w r) \<Longrightarrow> alone L G E chainOf m (seen_from False w r)"
  unfolding alone_def using step.Stop [of G E m "processLog L m" _ "seen_from up w r"]
  by (cases r) (auto simp: seen_from_def intro: reachable.Next)

lemma alone_restart:
  assumes a: "alone L G E chainOf m (seen_from False w r)" and "has_read E w w' m c" and db: "w_db w' = w_db w"
  shows "alone L G E chainOf m (seen_from True w' (Start w0 c))"
proof -
  from assms(2) obtain w1 w2 where w: "w_db w1 = w_db w" "w_tick w \<le> w_tick w1"
    and read: "readCursor E (mon_cfg m) w1 = (Inr c, w2)" and t: "w_tick w2 \<le> w_tick w'"
    by (auto simp: has_read_def)
  have q: "quiet w w1" "quiet w2 w'"
    using w t db readCursor_Inr(1) [OF read] by (simp_all add: quiet_def)
  from alone_quiet [OF a q(1)] step.Restart [of "seen_from False w1 r" E m c w2] read
  have "alone L G E chainOf m (Start w2 c)" unfolding alone_def by (auto intro: reachable.Next)
  then have "alone L G E chainOf m (seen_from True w2 (Start w0 c))" by (simp add: seen_from_def Start_def)
  from alone_quiet [OF this q(2)] show ?thesis .
qed

lemma processMonitors_kind:
  assumes "m \<in> set (processMonitors dial G E bridges)"
  obtains b N N' where "m \<in> {homeMonitor G E b N, foreignMonitor G E b N N'}"
  using assms that by (auto simp: processMonitors_def bridgeMonitors_def split: option.splits)

lemma monitors_guarantee:
  assumes "m \<in> {homeMonitor G E b N, foreignMonitor G E b N N'}" and "setting_ok G m (chainOf (bs_ChainID (mon_cfg m)))"
    and "alone L G E chainOf m s" "ix_up s" and "run_step G E m (processLog L m) s s'"
  shows "guarantee chainOf (mon_cfg m) (ix_w s) (ix_w s')"
proof -
  note inv = monitors_inv [OF assms(1,2) assms(3) [unfolded alone_def]]
  from assms(1) consider "m = homeMonitor G E b N" | "m = foreignMonitor G E b N N'" by blast
  then show ?thesis
  proof cases
    case 1
    from home.run_guarantee [where chainOf = chainOf, OF assms(2) [unfolded 1] inv [unfolded 1] assms(4) assms(5) [unfolded 1]]
    show ?thesis unfolding 1 .
  next
    case 2
    from foreign.run_guarantee [where chainOf = chainOf, OF assms(2) [unfolded 2] inv [unfolded 2] assms(4) assms(5) [unfolded 2]]
    show ?thesis unfolding 2 .
  qed
qed

text \<open>One goroutine acts: its own contract monitor takes a step, every other one sees other activity.\<close>

lemma goroutine_inv:
  assumes ok: "process_ok dial G E cfg chainOf" and up: "pc_up s"
    and inv: "process_inv L G E chainOf (processMonitors dial G E (monitoredBridges cfg)) s"
    and i: "i < length (pc_runs s)" "pc_runs s ! i = (m, r)"
    and run: "run_step G E m (processLog L m) (seen_from True (pc_w s) r) r'"
  shows "process_inv L G E chainOf (processMonitors dial G E (monitoredBridges cfg))
    (s\<lparr>pc_up := ix_up r', pc_w := ix_w r', pc_runs := (pc_runs s)[i := (m, r')]\<rparr>)"
proof -
  let ?ms = "processMonitors dial G E (monitoredBridges cfg)"
  from inv have jobs: "list_all reading_jobs (pc_alerts s)" by (simp add: process_inv_def)
  from inv up have all: "list_all2 (\<lambda>m (m', r). m' = m \<and> alone L G E chainOf m (seen_from True (pc_w s) r)) ?ms (pc_runs s)"
    by (simp add: process_inv_def)
  then have len: "length ?ms = length (pc_runs s)" by (rule list_all2_lengthD)
  from list_all2_nthD2 [OF all i(1)] i(2) have m: "m = ?ms ! i" and a: "alone L G E chainOf m (seen_from True (pc_w s) r)"
    by auto
  have m_in: "m \<in> set ?ms" using m i(1) len by simp
  obtain b N N' where kind: "m \<in> {homeMonitor G E b N, foreignMonitor G E b N N'}" by (rule processMonitors_kind [OF m_in])
  have set: "setting_ok G m (chainOf (bs_ChainID (mon_cfg m)))" using ok m_in by (simp add: process_ok_def list_all_iff)
  have g: "guarantee chainOf (mon_cfg m) (pc_w s) (ix_w r')"
    using monitors_guarantee [OF kind set a _ run] by simp
  have own: "alone L G E chainOf m r'"
    using reachable.Next [OF a [unfolded alone_def] step.Run [OF _ run]] unfolding alone_def by simp
  have other: "alone L G E chainOf (?ms ! j) (seen_from True (ix_w r') q)"
    if j: "j < length ?ms" "j \<noteq> i" and b: "alone L G E chainOf (?ms ! j) (seen_from True (pc_w s) q)" for j q
  proof (rule alone_other [OF b])
    have "side_key (mon_cfg (?ms ! j)) \<noteq> side_key (mon_cfg m)"
      using ok j i(1) len by (auto simp: process_ok_def m nth_eq_iff_index_eq distinct_conv_nth)
    from guarantee_other [OF g this] show "other_activity (mon_cfg (?ms ! j))
      (chainOf (bs_ChainID (mon_cfg (?ms ! j)))) (w_db (pc_w s)) (w_db (ix_w r'))" .
    show "w_tick (pc_w s) \<le> w_tick (ix_w r')" using g by (simp add: guarantee_def)
  qed
  have at: "fst (((pc_runs s)[i := (m, r')]) ! j) = ?ms ! j \<and>
      alone L G E chainOf (?ms ! j) (seen_from (ix_up r') (ix_w r') (snd (((pc_runs s)[i := (m, r')]) ! j)))"
    if j: "j < length ?ms" for j
  proof (cases "j = i")
    case True
    with own m i(1) show ?thesis by simp
  next
    case False
    from list_all2_nthD [OF all j] have "fst (pc_runs s ! j) = ?ms ! j"
      "alone L G E chainOf (?ms ! j) (seen_from True (pc_w s) (snd (pc_runs s ! j)))" by auto
    with other [OF j False] alone_stop [of L G E chainOf "?ms ! j"] False show ?thesis by (cases "ix_up r'") auto
  qed
  show ?thesis
  proof (cases "ix_up r'")
    case True
    with at len jobs show ?thesis by (auto simp: process_inv_def list_all2_conv_all_nth case_prod_beta)
  next
    case False
    with at jobs show ?thesis by (auto simp: process_inv_def list_all_length)
  qed
qed

lemma process_step_inv:
  assumes ok: "process_ok dial G E cfg chainOf"
    and inv: "process_inv L G E chainOf (processMonitors dial G E (monitoredBridges cfg)) s"
    and st: "process_step dial D L G E calldata cfg chainOf s s'"
  shows "process_inv L G E chainOf (processMonitors dial G E (monitoredBridges cfg)) s'"
  using st
proof cases
  case (Launch mons w')
  let ?ms = "processMonitors dial G E (monitoredBridges cfg)"
  have q: "quiet (pc_w s) w'" by (rule keepsE_apply [OF startMonitors_quiet Launch(3)])
  have "list_all2 (\<lambda>m (m', r). m' = m \<and> (\<exists>c. r = Start w' c \<and> has_read E (pc_w s) w' m c)) ?ms
      (concat (map (Monitor_Start w') mons))"
    using ok by (intro startMonitors_read [OF Launch(3)]) (simp add: process_ok_def)
  moreover have down: "\<exists>r. alone L G E chainOf m (seen_from False (pc_w s) r)" if "m \<in> set ?ms" for m
    using inv Launch(2) that by (simp add: process_inv_def list_all_iff)
  have started: "alone L G E chainOf m (seen_from True w' (Start w' c))"
    if "m \<in> set ?ms" "has_read E (pc_w s) w' m c" for m c
    using down [OF that(1)] alone_restart [OF _ that(2)] q unfolding quiet_def by blast
  ultimately have "list_all2 (\<lambda>m (m', r). m' = m \<and> alone L G E chainOf m (seen_from True w' r)) ?ms
      (concat (map (Monitor_Start w') mons))"
    by (elim list.rel_mono_strong) (auto intro: started)
  with startMonitors_jobs [OF Launch(3)] show ?thesis by (simp add: process_inv_def Launch(1))
next
  case (LaunchFails e w')
  have q: "quiet (pc_w s) w'" by (rule keepsE_apply [OF startMonitors_quiet LaunchFails(3)])
  with inv LaunchFails(1,2) show ?thesis by (fastforce simp: process_inv_def list_all_iff dest: alone_quiet [OF _ q])
next
  case (Goroutine i m r r')
  show ?thesis unfolding Goroutine(1) by (rule goroutine_inv [OF ok Goroutine(2) inv Goroutine(3-5)])
next
  case (Alert k a name j res j' w')
  let ?jobs = "(pc_alerts s ! k)[a := (name, j')]"
  have jobs: "reading_jobs (pc_alerts s ! k)" using inv Alert(3) by (simp add: process_inv_def list_all_length)
  then have "reads_job j" using Alert(4,5) by (auto simp: reading_jobs_def list_all_length dest: spec [of _ a])
  from Execute_reads [OF Alert(6) this] have q: "quiet (pc_w s) w'" and "reads_job j'" by simp_all
  with jobs have "reading_jobs ?jobs"
    by (auto simp: reading_jobs_def list_all_iff dest!: set_update_subset_insert [THEN subsetD])
  with inv have "list_all reading_jobs ((pc_alerts s)[k := ?jobs])"
    by (auto simp: process_inv_def list_all_iff dest!: set_update_subset_insert [THEN subsetD])
  moreover from inv Alert(2) have "list_all2 (\<lambda>m (m', r). m' = m \<and> alone L G E chainOf m (seen_from True (pc_w s) r))
      (processMonitors dial G E (monitoredBridges cfg)) (pc_runs s)" by (simp add: process_inv_def)
  then have up: "list_all2 (\<lambda>m (m', r). m' = m \<and> alone L G E chainOf m (seen_from True w' r))
      (processMonitors dial G E (monitoredBridges cfg)) (pc_runs s)"
    by (elim list.rel_mono_strong) (auto intro: alone_quiet [OF _ q])
  moreover from up have "list_all (\<lambda>m. \<exists>r. alone L G E chainOf m (seen_from False w' r))
      (processMonitors dial G E (monitoredBridges cfg))"
    by (fastforce simp: list_all2_conv_all_nth list_all_length case_prod_beta intro: alone_stop)
  ultimately show ?thesis by (simp add: Alert(1) process_inv_def)
next
  case Killed
  from inv show ?thesis
    by (fastforce simp: Killed process_inv_def list_all2_conv_all_nth list_all_length case_prod_beta intro: alone_stop split: if_splits)
next
  case (Outside d' t')
  let ?w = "\<lparr>w_db = d', w_tick = t'\<rparr>"
  have keep: "alone L G E chainOf m (seen_from up ?w r)"
    if "m \<in> set (processMonitors dial G E (monitoredBridges cfg))" "alone L G E chainOf m (seen_from up (pc_w s) r)" for m up r
    using that Outside(2,3) by (intro alone_other [OF that(2)]) (auto simp: list_all_iff)
  show ?thesis
  proof (cases "pc_up s")
    case True
    with inv have "list_all2 (\<lambda>m (m', r). m' = m \<and> alone L G E chainOf m (seen_from True (pc_w s) r))
        (processMonitors dial G E (monitoredBridges cfg)) (pc_runs s)" by (simp add: process_inv_def)
    then have "list_all2 (\<lambda>m (m', r). m' = m \<and> alone L G E chainOf m (seen_from True ?w r))
        (processMonitors dial G E (monitoredBridges cfg)) (pc_runs s)"
      by (elim list.rel_mono_strong) (auto intro: keep)
    with True inv show ?thesis by (simp add: Outside(1) process_inv_def)
  next
    case False
    with inv keep show ?thesis by (fastforce simp: Outside(1) process_inv_def list_all_iff)
  qed
qed

lemma process_reachable_inv:
  assumes ok: "process_ok dial G E cfg chainOf" and "process_reachable dial D L G E calldata cfg chainOf s"
  shows "process_inv L G E chainOf (processMonitors dial G E (monitoredBridges cfg)) s"
  using assms(2)
proof induction
  case (Installed s)
  have "alone L G E chainOf m (seen_from False (pc_w s) r)" for m r
    unfolding alone_def using Installed
    by (intro reachable.Installed) (simp add: installed_def honest_def emptyDatabase_def vals_def)
  with Installed show ?case by (auto simp: process_inv_def list_all_iff)
next
  case (Next s s')
  show ?case by (rule process_step_inv [OF ok Next.IH Next.hyps(2)])
qed

section \<open>Properties\<close>

text \<open>Property C2. The process refines each of its contract monitors. In every state that it can reach, by start-ups
  that succeed or fail, any interleaving of the goroutines of all bridges, panics, kills and other clients of the
  database, it is up with one run for each contract monitor of the configuration, in order, and what one of them sees,
  its own memory and the shared database, is a state that it can reach alone, with the rest as other activity.\<close>

theorem process_refines_monitors:
  assumes "process_ok dial G E cfg chainOf" and "process_reachable dial D L G E calldata cfg chainOf s"
  shows "if pc_up s
    then list_all2 (\<lambda>m (m', r). m' = m \<and>
        reachable G E m (processLog L m) (chainOf (bs_ChainID (mon_cfg m))) (seen_from True (pc_w s) r))
      (processMonitors dial G E (monitoredBridges cfg)) (pc_runs s)
    else list_all (\<lambda>m. \<exists>r.
        reachable G E m (processLog L m) (chainOf (bs_ChainID (mon_cfg m))) (seen_from False (pc_w s) r))
      (processMonitors dial G E (monitoredBridges cfg))"
  using process_reachable_inv [OF assms] unfolding process_inv_def alone_def by (rule conjunct2)

text \<open>Nothing is lost by the process: in every state it can reach, for either side of every bridge it
  monitors, a cursor in the database tells the truth. Every wanted log of the side's chain up to the last fetched
  block is saved, and every one up to the last processed block has been handled.\<close>

theorem process_loses_nothing:
  assumes "process_ok dial G E cfg chainOf" and "process_reachable dial D L G E calldata cfg chainOf s"
    and "m \<in> set (processMonitors dial G E (monitoredBridges cfg))"
    and "c \<in> set (vals (db_logs_cursors (w_db (pc_w s))))" "own_cursor (mon_cfg m) c"
    and "rl \<in> set (chainOf (bs_ChainID (mon_cfg m)))" "wanted G m rl"
  shows "(rl_BlockNumber rl \<le> lc_LastFetchedBlock c \<longrightarrow> saved (bs_ChainID (mon_cfg m)) (w_db (pc_w s)) rl) \<and>
    (rl_BlockNumber rl \<le> lc_LastProcessedBlock c \<longrightarrow>
      done_log (handled_log L m) (bs_ChainID (mon_cfg m)) (w_db (pc_w s)) rl)"
proof -
  obtain up r where r: "alone L G E chainOf m (seen_from up (pc_w s) r)"
    using process_reachable_inv [OF assms(1,2)] assms(3)
    by (fastforce simp: process_inv_def list_all2_conv_all_nth list_all_iff in_set_conv_nth split: if_splits)
  obtain b N N' where "m \<in> {homeMonitor G E b N, foreignMonitor G E b N N'}"
    using assms(3) by (rule processMonitors_kind)
  moreover have "setting_ok G m (chainOf (bs_ChainID (mon_cfg m)))"
    using assms(1,3) by (auto simp: process_ok_def list_all_iff)
  ultimately have "indexer_inv (goals G m (chainOf (bs_ChainID (mon_cfg m))) (handled_log L m)) (mon_cfg m)
      (chainOf (bs_ChainID (mon_cfg m))) (seen_from up (pc_w s) r)"
    using r unfolding alone_def by (rule monitors_inv)
  from inv_db_says [OF this] assms(4-7) show ?thesis by simp
qed

end
