(* ===== verification/Startup.thy ===== *)
theory Startup
  imports ConfigFile Connect Process Reprocess FixTimestamps PresenterFacts
begin

text \<open>
  The three programs from their first line: \<open>cmd/monitor/main.go\<close>, \<open>cmd/reprocess_block_range/main.go\<close> and
  \<open>cmd/fix_block_timestamps/main.go\<close> read \<open>config.yml\<close>, connect to the database, bring its schema up to date,
  and go on as theories \<open>Process\<close>, \<open>Reprocess\<close> and \<open>FixTimestamps\<close> describe. A fatal message ends a
  program; it is an error here. The level of the log, the listener for Prometheus and the signal that cancels the context are left
  out (a cancelled run is a killed one).

  The lemmas show what a program has done to the database when it ends early, which bridges the monitor program
  watches and shows, and that the whole program, presenter and restarts included, loses no log.
\<close>

section \<open>The programs\<close>

record monitor_app =
  app_cfg :: Config
  app_db :: DB
  app_presenter :: "(presenter \<times> string) option"
  app_monitors :: "Monitor list"

text \<open>
  The presenter is started before the bridges are chosen, and shares the configuration with \<open>main\<close> and the monitors: what
  they do to its bridges it sees, after the start at the latest.
\<close>

definition sharedConfig :: "Config \<Rightarrow> Monitor list \<Rightarrow> Config" where
  "sharedConfig cfg monitors = cfg\<lparr>cfg_Bridges :=
     map (\<lambda>((bridgeID, bridge), m). (bridgeID, mo_cfg m)) (zip (monitoredBridges cfg) monitors)\<rparr>"

definition monitor_main ::
  "system \<Rightarrow> postgres \<Rightarrow> (RPCConfig \<Rightarrow> node) \<Rightarrow> (string \<Rightarrow> string) \<Rightarrow> geth \<Rightarrow> env \<Rightarrow> byte list res \<Rightarrow> (world, monitor_app) io" where
  "monitor_main S P dial D G E calldata =
     bindE (liftE (ReadConfigFromFile S ''config.yml'')) (\<lambda>cfg.
     bindE (ConnectToDBAndMigrate P (cfg_DBConfig cfg)) (\<lambda>dbConn.
     bindE (startMonitors dial D G E calldata (monitoredBridges cfg)) (\<lambda>monitors.
     let cfg' = sharedConfig cfg monitors in
     returnE \<lparr>app_cfg = cfg', app_db = dbConn,
       app_presenter = (case cfg_Presenter cfg of None \<Rightarrow> None | Some p \<Rightarrow> Some (NewPresenter E cfg', prc_Host p)),
       app_monitors = monitors\<rparr>)))"

text \<open>The command line of the reprocessing command.\<close>

record flags =
  fl_bridgeID :: string
  fl_home :: bool
  fl_foreign :: bool
  fl_fromBlock :: uint
  fl_toBlock :: uint

definition defaultFlags :: flags where
  "defaultFlags = \<lparr>fl_bridgeID = [], fl_home = False, fl_foreign = False, fl_fromBlock = 0, fl_toBlock = 0\<rparr>"

definition reprocess_main ::
  "system \<Rightarrow> postgres \<Rightarrow> (RPCConfig \<Rightarrow> node) \<Rightarrow> (string \<Rightarrow> string) \<Rightarrow> geth \<Rightarrow> env \<Rightarrow> byte list res \<Rightarrow> flags \<Rightarrow>
    (world, reprocess) io" where
  "reprocess_main S P dial D G E calldata fl =
     bindE (liftE (ReadConfigFromFile S ''config.yml'')) (\<lambda>cfg.
     bindE (liftE (reprocessArgs cfg (fl_bridgeID fl) (fl_home fl) (fl_foreign fl) (fl_fromBlock fl) (fl_toBlock fl))) (\<lambda>args.
     bindE (ConnectToDBAndMigrate P (cfg_DBConfig cfg)) (\<lambda>dbConn.
     reprocessBlockRange dial D G E calldata args)))"

definition fix_main ::
  "system \<Rightarrow> postgres \<Rightarrow> (RPCConfig \<Rightarrow> node) \<Rightarrow> env \<Rightarrow> ((string \<times> uint) list \<Rightarrow> (string \<times> uint) list) \<Rightarrow> (world, unit) io" where
  "fix_main S P dial E order =
     bindE (liftE (ReadConfigFromFile S ''config.yml'')) (\<lambda>cfg.
     bindE (ConnectToDBAndMigrate P (cfg_DBConfig cfg)) (\<lambda>dbConn.
     fixBlockTimestamps dial E order cfg))"

section \<open>What start-up does to the database\<close>

lemma keepsE_quietD: "keepsE quiet m \<Longrightarrow> m w = (r, w') \<Longrightarrow> w_db w' = w_db w \<and> w_tick w \<le> w_tick w'"
  by (metis keepsE_def quiet_def snd_conv)

lemma monitor_main_Inr:
  assumes "monitor_main S P dial D G E calldata w = (Inr app, w')"
  obtains cfg db w1 where "ReadConfigFromFile S ''config.yml'' = Inr cfg"
    and "ConnectToDBAndMigrate P (cfg_DBConfig cfg) w = (Inr db, w1)"
    and "startMonitors dial D G E calldata (monitoredBridges cfg) w1 = (Inr (app_monitors app), w')"
    and "app_cfg app = sharedConfig cfg (app_monitors app)"
    and "app_presenter app = (case cfg_Presenter cfg of None \<Rightarrow> None | Some p \<Rightarrow> Some (NewPresenter E (app_cfg app), prc_Host p))"
proof -
  from assms obtain cfg db w1 ms where calls: "ReadConfigFromFile S ''config.yml'' = Inr cfg"
      "ConnectToDBAndMigrate P (cfg_DBConfig cfg) w = (Inr db, w1)"
      "startMonitors dial D G E calldata (monitoredBridges cfg) w1 = (Inr ms, w')"
    and app: "app = \<lparr>app_cfg = sharedConfig cfg ms, app_db = db, app_presenter = (case cfg_Presenter cfg of None \<Rightarrow> None
       | Some p \<Rightarrow> Some (NewPresenter E (sharedConfig cfg ms), prc_Host p)), app_monitors = ms\<rparr>"
    by (auto simp: monitor_main_def bindE_Inr_iff Let_def)
  show thesis by (rule that [of cfg db w1]) (simp_all add: calls app split: option.split)
qed

lemma then_quiet:
  assumes run: "bindE (ConnectToDBAndMigrate P cfg) f w = (r, w')" and f: "\<And>db. keepsE quiet (f db)"
  shows "migrated P (w_db w) (w_db w') \<and> w_tick w \<le> w_tick w'"
proof -
  obtain a w1 where c: "ConnectToDBAndMigrate P cfg w = (a, w1)" by fastforce
  note d = connect_db [OF c]
  show ?thesis
  proof (cases a)
    case (Inl e)
    with run c d show ?thesis by (simp add: bindE_apply)
  next
    case (Inr db)
    with run c have "f db w1 = (r, w')" by (simp add: bindE_apply)
    from keepsE_quietD [OF f this] d show ?thesis by auto
  qed
qed

lemma monitor_main_db:
  assumes "monitor_main S P dial D G E calldata w = (r, w')"
  shows "migrated P (w_db w) (w_db w') \<and> w_tick w \<le> w_tick w'"
proof (cases "ReadConfigFromFile S ''config.yml''")
  case (Inl e)
  with assms show ?thesis by (auto simp: monitor_main_def migrated_def)
next
  case (Inr cfg)
  from assms show ?thesis unfolding monitor_main_def Inr bindE_liftE
    by (rule then_quiet) (auto simp: Let_def intro!: keepsE_quiet_bindE startMonitors_quiet)
qed

lemma reprocessBlockRange_quiet: "keepsE quiet (reprocessBlockRange dial D G E calldata args)"
  by (auto simp: reprocessBlockRange_def split: prod.split intro!: keepsE_quiet_bindE startMonitor_quiet)
    (simp add: keepsE_def)

lemma sharedConfig_keys:
  assumes "length (monitoredBridges cfg) = length ms"
  shows "map fst (cfg_Bridges (sharedConfig cfg ms)) = map fst (monitoredBridges cfg)"
  by (rule nth_equalityI) (simp_all add: sharedConfig_def assms split_beta)

section \<open>The program\<close>

text \<open>
  The monitor program as it is run on a machine: it is started when it is not running, its process takes the steps of theory
  \<open>Process\<close>, its presenter answers requests, and it may end at any time. \<open>pm_app\<close> is what the last start has made.
\<close>

record program =
  pm_process :: process
  pm_app :: "monitor_app option"

inductive program_step :: "system \<Rightarrow> postgres \<Rightarrow> (RPCConfig \<Rightarrow> node) \<Rightarrow> (string \<Rightarrow> string) \<Rightarrow> abilib \<Rightarrow> geth \<Rightarrow> env \<Rightarrow> byte list res \<Rightarrow>
    chains \<Rightarrow> program \<Rightarrow> program \<Rightarrow> bool"
  for S :: system and P :: postgres and dial :: "RPCConfig \<Rightarrow> node" and D :: "string \<Rightarrow> string" and L :: abilib and G :: geth
    and E :: env and calldata :: "byte list res" and chainOf :: chains where
  Main: "\<not> pc_up (pm_process s) \<Longrightarrow> monitor_main S P dial D G E calldata (pc_w (pm_process s)) = (Inr app, w') \<Longrightarrow>
    program_step S P dial D L G E calldata chainOf s
      \<lparr>pm_process = \<lparr>pc_up = True, pc_w = w', pc_runs = concat (map (Monitor_Start w') (app_monitors app)),
         pc_alerts = map mo_alertManager (app_monitors app)\<rparr>, pm_app = Some app\<rparr>"
| MainFails: "\<not> pc_up (pm_process s) \<Longrightarrow> monitor_main S P dial D G E calldata (pc_w (pm_process s)) = (Inl e, w') \<Longrightarrow>
    program_step S P dial D L G E calldata chainOf s (s\<lparr>pm_process := (pm_process s)\<lparr>pc_w := w'\<rparr>\<rparr>)"
| Work: "ReadConfigFromFile S ''config.yml'' = Inr cfg \<Longrightarrow>
    process_step dial D L G E calldata cfg chainOf (pm_process s) p' \<Longrightarrow> (pc_up p' \<longrightarrow> pc_up (pm_process s)) \<Longrightarrow>
    program_step S P dial D L G E calldata chainOf s (s\<lparr>pm_process := p'\<rparr>)"
| Request: "pc_up (pm_process s) \<Longrightarrow> pm_app s = Some app \<Longrightarrow> app_presenter app = Some (p, host) \<Longrightarrow>
    Serve p G HexToHash K N required r route (pc_w (pm_process s)) = (answer, w') \<Longrightarrow>
    program_step S P dial D L G E calldata chainOf s (s\<lparr>pm_process := (pm_process s)\<lparr>pc_w := w'\<rparr>\<rparr>)"

inductive program_reachable :: "system \<Rightarrow> postgres \<Rightarrow> (RPCConfig \<Rightarrow> node) \<Rightarrow> (string \<Rightarrow> string) \<Rightarrow> abilib \<Rightarrow> geth \<Rightarrow> env \<Rightarrow>
    byte list res \<Rightarrow> chains \<Rightarrow> program \<Rightarrow> bool"
  for S :: system and P :: postgres and dial :: "RPCConfig \<Rightarrow> node" and D :: "string \<Rightarrow> string" and L :: abilib and G :: geth
    and E :: env and calldata :: "byte list res" and chainOf :: chains where
  Installed: "w_db w = emptyDatabase \<Longrightarrow> program_reachable S P dial D L G E calldata chainOf
    \<lparr>pm_process = \<lparr>pc_up = False, pc_w = w, pc_runs = [], pc_alerts = []\<rparr>, pm_app = None\<rparr>"
| Next: "program_reachable S P dial D L G E calldata chainOf s \<Longrightarrow> program_step S P dial D L G E calldata chainOf s s' \<Longrightarrow>
    program_reachable S P dial D L G E calldata chainOf s'"

text \<open>
  The migrations keep the rows: the schema is new, or already that of the program, for which the library reports that there
  is nothing to change.
\<close>

definition migrations_keep :: "postgres \<Rightarrow> bool" where
  "migrations_keep P \<longleftrightarrow> (\<forall>t d. snd (pg_Up P t d) = d)"

lemma migrations_keepD: "migrations_keep P \<Longrightarrow> migrated P d d' \<Longrightarrow> d' = d"
  unfolding migrations_keep_def migrated_def by (metis snd_conv)

lemma process_waits:
  assumes "process_reachable dial D L G E calldata cfg chainOf s" and "w_db w = w_db (pc_w s)" "w_tick (pc_w s) \<le> w_tick w"
  shows "process_reachable dial D L G E calldata cfg chainOf (s\<lparr>pc_w := w\<rparr>)"
proof -
  have "list_all (\<lambda>m. other_activity (mon_cfg m) (chainOf (bs_ChainID (mon_cfg m))) (w_db (pc_w s)) (w_db w))
      (processMonitors dial G E (monitoredBridges cfg))"
    by (simp add: list_all_iff other_activity_def assms(2))
  from process_reachable.Next [OF assms(1) process_step.Outside [OF this assms(3)]] show ?thesis
    by (cases w) simp
qed

text \<open>The process inside the program is a run of theory \<open>Process\<close>.\<close>

lemma program_process:
  assumes cfg: "ReadConfigFromFile S ''config.yml'' = Inr cfg" and keep: "migrations_keep P"
    and "program_reachable S P dial D L G E calldata chainOf s"
  shows "process_reachable dial D L G E calldata cfg chainOf (pm_process s)"
  using assms(3)
proof induction
  case (Installed w)
  show ?case by (rule process_reachable.Installed) (simp_all add: Installed)
next
  case (Next s s')
  from Next.hyps(2) show ?case
  proof cases
    case (Main app w')
    obtain cfg' db w1 where cfg': "ReadConfigFromFile S ''config.yml'' = Inr cfg'"
      and c: "ConnectToDBAndMigrate P (cfg_DBConfig cfg') (pc_w (pm_process s)) = (Inr db, w1)"
      and start: "startMonitors dial D G E calldata (monitoredBridges cfg') w1 = (Inr (app_monitors app), w')"
      by (rule monitor_main_Inr [OF Main(3)])
    from connect_db [OF c] have db: "w_db w1 = w_db (pc_w (pm_process s))" "w_tick (pc_w (pm_process s)) \<le> w_tick w1"
      using migrations_keepD [OF keep] by auto
    have "process_step dial D L G E calldata cfg chainOf ((pm_process s)\<lparr>pc_w := w1\<rparr>) (pm_process s')"
      using process_step.Launch [of "(pm_process s)\<lparr>pc_w := w1\<rparr>"] Main(1,2) start cfg cfg' by simp
    with process_waits [OF Next.IH db] show ?thesis by (rule process_reachable.Next)
  next
    case (MainFails e w')
    with monitor_main_db [OF MainFails(3)] migrations_keepD [OF keep] process_waits [OF Next.IH] show ?thesis by auto
  next
    case (Work cfg' p')
    with cfg process_reachable.Next [OF Next.IH] show ?thesis by auto
  next
    case (Request app p host HexToHash K N required r route answer w')
    with keepsE_quietD [OF reads_Serve Request(5)] process_waits [OF Next.IH] show ?thesis by auto
  qed
qed

section \<open>Properties\<close>

text \<open>Property C1. The monitor program loses nothing. In every state it can reach from an empty database, by starts from its configuration
  file that succeed or fail, any interleaving of the goroutines of all bridges, alert jobs, requests to the presenter, panics,
  kills and other clients of the database, for either side of every bridge it monitors, a cursor in the database
  tells the truth: every wanted log of the side's chain up to the last fetched block is saved, and every one up to the
  last processed block has been handled.\<close>

theorem program_loses_nothing:
  assumes "ReadConfigFromFile S ''config.yml'' = Inr cfg" and "migrations_keep P" and "process_ok dial G E cfg chainOf"
    and "program_reachable S P dial D L G E calldata chainOf s" and "w = pc_w (pm_process s)"
    and "m \<in> set (processMonitors dial G E (monitoredBridges cfg))"
    and "c \<in> set (vals (db_logs_cursors (w_db w)))" "own_cursor (mon_cfg m) c"
    and "rl \<in> set (chainOf (bs_ChainID (mon_cfg m)))" "wanted G m rl"
  shows "(rl_BlockNumber rl \<le> lc_LastFetchedBlock c \<longrightarrow> saved (bs_ChainID (mon_cfg m)) (w_db w) rl) \<and>
    (rl_BlockNumber rl \<le> lc_LastProcessedBlock c \<longrightarrow> done_log (handled_log L m) (bs_ChainID (mon_cfg m)) (w_db w) rl)"
  using process_loses_nothing [OF assms(3) program_process [OF assms(1,2,4)] assms(6) _ assms(8-10)] assms(5,7) by simp

text \<open>Property C20. A start of the monitor program that succeeds has read a well-formed configuration, has left the rows of the
  database to the migrations, monitors exactly the bridges that are not disabled and, when some are
  enabled, are among them, each once, and both sides of each have a chain (the configuration may hold a nil chain, but no
  monitor starts on it); and its presenter, which runs when it is configured, knows these bridges and no others.\<close>

theorem monitor_main_starts:
  assumes "\<And>blob raw. yaml_Decode S blob = Some raw \<Longrightarrow> distinct (map fst (cfg_Bridges raw))"
    and "monitor_main S P dial D G E calldata w = (Inr app, w')"
  shows "\<exists>cfg. ReadConfigFromFile S ''config.yml'' = Inr cfg \<and> list_all (bridge_wf cfg) (cfg_Bridges cfg)
    \<and> migrated P (w_db w) (w_db w')
    \<and> set (map (\<lambda>m. bc_ID (mo_cfg m)) (app_monitors app)) = {bridgeID. chosen cfg bridgeID}
    \<and> distinct (map (\<lambda>m. bc_ID (mo_cfg m)) (app_monitors app))
    \<and> list_all (\<lambda>m. has_chains (mo_cfg m)) (app_monitors app)
    \<and> (app_presenter app = None \<longleftrightarrow> cfg_Presenter cfg = None)
    \<and> (case app_presenter app of None \<Rightarrow> True | Some (p, host) \<Rightarrow>
        (\<forall>bridgeID. map_of (cfg_Bridges (pr_cfg p)) bridgeID = None \<longleftrightarrow> \<not> chosen cfg bridgeID))"
proof -
  obtain cfg db w1 where cfg: "ReadConfigFromFile S ''config.yml'' = Inr cfg"
    and start: "startMonitors dial D G E calldata (monitoredBridges cfg) w1 = (Inr (app_monitors app), w')"
    and shared: "app_cfg app = sharedConfig cfg (app_monitors app)"
    and pr: "app_presenter app = (case cfg_Presenter cfg of None \<Rightarrow> None | Some p \<Rightarrow> Some (NewPresenter E (app_cfg app), prc_Host p))"
    by (rule monitor_main_Inr [OF assms(2)])
  from ReadConfigFromFile_wf [OF cfg] obtain raw blob where "yaml_Decode S blob = Some raw"
    and wf: "list_all (bridge_wf cfg) (cfg_Bridges cfg)" and names: "map fst (cfg_Bridges cfg) = map fst (cfg_Bridges raw)"
    by blast
  with assms(1) have dist: "distinct (map fst (cfg_Bridges cfg))" by metis
  have ids: "list_all (\<lambda>(bridgeID, b). bc_ID b = bridgeID) (cfg_Bridges cfg)"
    using wf by (auto simp: list_all_iff bridge_wf_def)
  note ch = startMonitors_chosen [OF dist ids start]
  have "map fst (cfg_Bridges (app_cfg app)) = map fst (monitoredBridges cfg)"
    unfolding shared by (rule sharedConfig_keys [OF startMonitors_rel [OF start, THEN list_all2_lengthD]])
  then have keys: "fst ` set (cfg_Bridges (app_cfg app)) = {bridgeID. chosen cfg bridgeID}"
    using ch by (metis list.set_map)
  have "map_of (cfg_Bridges (app_cfg app)) i = None \<longleftrightarrow> \<not> chosen cfg i" for i
    using keys by (auto simp: map_of_eq_None_iff)
  then have knows: "case app_presenter app of None \<Rightarrow> True | Some (p, host) \<Rightarrow>
      (\<forall>bridgeID. map_of (cfg_Bridges (pr_cfg p)) bridgeID = None \<longleftrightarrow> \<not> chosen cfg bridgeID)"
    by (simp add: pr NewPresenter_def split: option.split)
  have pres: "app_presenter app = None \<longleftrightarrow> cfg_Presenter cfg = None" by (simp add: pr split: option.split)
  show ?thesis
    by (intro exI [of _ cfg] conjI cfg wf pres knows startMonitors_chains [OF start] conjunct1 [OF monitor_main_db [OF assms(2)]]) (use ch in blast)+
qed

text \<open>Property C21. The reprocessing command checks its arguments before it connects to the database: when the
  configuration or an argument is wrong it ends with nothing done. Otherwise the range it goes on with is not empty, begins
  at or after the first block of the side, and up to the call of \<open>ProcessBlockRange\<close> only the migrations change the
  database.\<close>

theorem reprocess_checks_first:
  assumes "reprocess_main S P dial D G E calldata fl w = (r, w')"
  shows "case res_bind (ReadConfigFromFile S ''config.yml'') (\<lambda>cfg.
      reprocessArgs cfg (fl_bridgeID fl) (fl_home fl) (fl_foreign fl) (fl_fromBlock fl) (fl_toBlock fl)) of
    Inl e \<Rightarrow> r = Inl e \<and> w' = w
  | Inr (bridge, home, fromBlock, toBlock) \<Rightarrow>
      home = fl_home fl \<and> home \<noteq> fl_foreign fl \<and> toBlock = fl_toBlock fl
      \<and> fromBlock = max (fl_fromBlock fl) (bs_StartBlock (if home then bc_Home bridge else bc_Foreign bridge))
      \<and> fromBlock \<le> toBlock \<and> migrated P (w_db w) (w_db w')
      \<and> (\<forall>s. r = Inr s \<longrightarrow> (\<exists>mon. s = Monitor_ProcessBlockRange mon home fromBlock toBlock w'))"
proof (cases "ReadConfigFromFile S ''config.yml''")
  case (Inl e)
  with assms show ?thesis by (simp add: reprocess_main_def)
next
  case cfg: (Inr cfg)
  let ?args = "reprocessArgs cfg (fl_bridgeID fl) (fl_home fl) (fl_foreign fl) (fl_fromBlock fl) (fl_toBlock fl)"
  show ?thesis
  proof (cases ?args)
    case (Inl e)
    with assms cfg show ?thesis by (simp add: reprocess_main_def)
  next
    case (Inr args)
    obtain bridge home fromBlock toBlock where args: "args = (bridge, home, fromBlock, toBlock)" by (cases args) auto
    have run: "bindE (ConnectToDBAndMigrate P (cfg_DBConfig cfg)) (\<lambda>db. reprocessBlockRange dial D G E calldata args) w = (r, w')"
      using assms cfg Inr by (simp add: reprocess_main_def)
    have "migrated P (w_db w) (w_db w')"
      using then_quiet [OF run] reprocessBlockRange_quiet by blast
    moreover have "\<exists>mon. s = Monitor_ProcessBlockRange mon home fromBlock toBlock w'" if "r = Inr s" for s
      using run that by (auto simp: bindE_Inr_iff reprocessBlockRange_def args)
    moreover have "home = fl_home fl \<and> home \<noteq> fl_foreign fl \<and> toBlock = fl_toBlock fl
      \<and> fromBlock = max (fl_fromBlock fl) (bs_StartBlock (if home then bc_Home bridge else bc_Foreign bridge))
      \<and> fromBlock \<le> toBlock"
      using Inr by (auto simp: reprocessArgs_def args Let_def max_def split: if_splits option.splits)
    ultimately show ?thesis using cfg Inr by (auto simp: args)
  qed
qed

end
