(* ===== verification/Metrics.thy ===== *)
theory Metrics
  imports Connect EthClient
begin

text \<open>
  What the program counts for Prometheus: \<open>ethclient/metrics.go\<close> with the calls of
  \<open>ethclient/ethclient.go\<close> that use it, and \<open>db/metrics.go\<close> with the statements of \<open>db/db.go\<close>.
  A vector of counters or of histograms is a function from labels to counts (of observations, for a histogram), and each
  function here is the one of theory \<open>EthClient\<close> or \<open>Database\<close> with what it records beside it. The gauges of
  \<open>monitor/metrics.go\<close> are in theory \<open>Gauges\<close>.

  The lemmas show that recording changes nothing else, and what is counted for a call.
\<close>

section \<open>Calls of a node\<close>

text \<open>What \<open>errors.Is\<close> and \<open>errors.As\<close> find in the error of a call; \<open>errs t\<close> is the one
  that a call at the time \<open>t\<close> fails with, if it fails.\<close>

datatype call_error = DeadlineExceeded | RpcError int string | OtherError

type_synonym errors = "nat \<Rightarrow> call_error"

record rpc_metrics =
  RequestResults :: "string \<times> string \<times> string \<times> string \<Rightarrow> nat"
  RequestDurations :: "string \<times> string \<times> string \<Rightarrow> nat"

definition add_one :: "'k \<Rightarrow> ('k \<Rightarrow> nat) \<Rightarrow> 'k \<Rightarrow> nat" where
  "add_one k f = f(k := Suc (f k))"

fun call_status :: "call_error option \<Rightarrow> string" where
  "call_status None = ''ok''"
| "call_status (Some DeadlineExceeded) = ''timeout''"
| "call_status (Some (RpcError code msg)) = ''error-'' @ big_string code @ ''-'' @ msg"
| "call_status (Some OtherError) = ''error''"

definition ObserveError :: "string \<Rightarrow> string \<Rightarrow> string \<Rightarrow> call_error option \<Rightarrow> rpc_metrics \<Rightarrow> rpc_metrics" where
  "ObserveError chainID url query err ms =
     ms\<lparr>RequestResults := add_one (chainID, url, query, call_status err) (RequestResults ms)\<rparr>"

definition ObserveDuration :: "string \<Rightarrow> string \<Rightarrow> string \<Rightarrow> rpc_metrics \<Rightarrow> rpc_metrics" where
  "ObserveDuration chainID url query ms =
     ms\<lparr>RequestDurations := add_one (chainID, url, query) (RequestDurations ms)\<rparr>"

record rpcClient =
  rc_chainID :: string
  rc_url :: string
  rc_timeout :: int
  rc_client :: node

text \<open>A method of the client: the call, the error it returned, then, deferred, the duration.\<close>

definition observed :: "rpcClient \<Rightarrow> errors \<Rightarrow> string \<Rightarrow> (world, 'a) io \<Rightarrow> (rpc_metrics \<times> world, 'a) io" where
  "observed c errs query call = (\<lambda>(ms, w).
     let (r, w') = call w;
         err = (case r of Inl _ \<Rightarrow> Some (errs (w_tick w)) | Inr _ \<Rightarrow> None)
     in (r, (ObserveDuration (rc_chainID c) (rc_url c) query (ObserveError (rc_chainID c) (rc_url c) query err ms), w')))"

definition BlockNumber_observed :: "rpcClient \<Rightarrow> errors \<Rightarrow> (rpc_metrics \<times> world, uint) io" where
  "BlockNumber_observed c errs = observed c errs ''eth_blockNumber'' (BlockNumber (rc_client c))"

definition HeaderByNumber_observed :: "rpcClient \<Rightarrow> errors \<Rightarrow> uint \<Rightarrow> (rpc_metrics \<times> world, uint) io" where
  "HeaderByNumber_observed c errs n = observed c errs ''eth_getBlockByNumber'' (HeaderByNumber (rc_client c) n)"

definition FilterLogs_observed :: "rpcClient \<Rightarrow> errors \<Rightarrow> FilterQuery \<Rightarrow> (rpc_metrics \<times> world, RpcLog list) io" where
  "FilterLogs_observed c errs q = observed c errs ''eth_getLogs'' (FilterLogs (rc_client c) q)"

definition TransactionByHash_observed :: "rpcClient \<Rightarrow> errors \<Rightarrow> hash \<Rightarrow> (rpc_metrics \<times> world, Transaction) io" where
  "TransactionByHash_observed c errs h = observed c errs ''eth_getTransactionByHash'' (TransactionByHash (rc_client c) h)"

definition TransactionReceiptByHash_observed ::
  "rpcClient \<Rightarrow> errors \<Rightarrow> (nat \<Rightarrow> hash \<Rightarrow> 'receipt res) \<Rightarrow> hash \<Rightarrow> (rpc_metrics \<times> world, 'receipt) io" where
  "TransactionReceiptByHash_observed c errs receipts h =
     observed c errs ''eth_getTransactionReceipt'' (TransactionReceiptByHash receipts h)"

definition CallContract_observed :: "rpcClient \<Rightarrow> errors \<Rightarrow> address \<Rightarrow> byte list \<Rightarrow> (rpc_metrics \<times> world, byte list) io" where
  "CallContract_observed c errs to data = observed c errs ''eth_call'' (CallContract (rc_client c) to data)"

text \<open>
  \<open>FilterLogsSafe\<close> records the value of its variable \<open>err\<close> when it returns. The check of the block number
  returns an error without assigning the variable.
\<close>

definition FilterLogsSafe_err :: "node \<Rightarrow> errors \<Rightarrow> FilterQuery \<Rightarrow> nat \<Rightarrow> call_error option" where
  "FilterLogsSafe_err N errs q t =
     (case toFilterArg q of
       Inl _ \<Rightarrow> Some OtherError
     | Inr arg \<Rightarrow> (case node_BatchLogsAndBlock N t arg of
         Inl _ \<Rightarrow> Some (errs t)
       | Inr (logsElem, blockElem) \<Rightarrow> (case logsElem of
           Inl _ \<Rightarrow> Some (errs t)
         | Inr logs \<Rightarrow> (case blockElem of Inl _ \<Rightarrow> Some (errs t) | Inr blockNumber \<Rightarrow> None))))"

definition FilterLogsSafe_observed :: "rpcClient \<Rightarrow> errors \<Rightarrow> FilterQuery \<Rightarrow> (rpc_metrics \<times> world, RpcLog list) io" where
  "FilterLogsSafe_observed c errs q = (\<lambda>(ms, w).
     let (r, w') = FilterLogsSafe (rc_client c) q w;
         err = FilterLogsSafe_err (rc_client c) errs q (w_tick w)
     in (r, (ObserveDuration (rc_chainID c) (rc_url c) ''eth_getLogsSafe''
       (ObserveError (rc_chainID c) (rc_url c) ''eth_getLogsSafe'' err ms), w')))"

text \<open>What a call has added: one result with a status, and one duration.\<close>

definition counted :: "rpcClient \<Rightarrow> string \<Rightarrow> string \<Rightarrow> rpc_metrics \<Rightarrow> rpc_metrics \<Rightarrow> bool" where
  "counted c query status ms ms' \<longleftrightarrow>
     RequestResults ms' = add_one (rc_chainID c, rc_url c, query, status) (RequestResults ms)
     \<and> RequestDurations ms' = add_one (rc_chainID c, rc_url c, query) (RequestDurations ms)"

lemma observed_run:
  assumes "observed c errs query call (ms, w) = (r, (ms', w'))"
  shows "call w = (r, w')"
    and "counted c query (call_status (case r of Inl _ \<Rightarrow> Some (errs (w_tick w)) | Inr _ \<Rightarrow> None)) ms ms'"
  using assms
  by (auto simp: observed_def Let_def counted_def ObserveError_def ObserveDuration_def split: prod.splits)

lemma FilterLogsSafe_observed_run:
  assumes "FilterLogsSafe_observed c errs q (ms, w) = (r, (ms', w'))"
  shows "FilterLogsSafe (rc_client c) q w = (r, w')"
    and "counted c ''eth_getLogsSafe'' (call_status (FilterLogsSafe_err (rc_client c) errs q (w_tick w))) ms ms'"
  using assms
  by (auto simp: FilterLogsSafe_observed_def Let_def counted_def ObserveError_def ObserveDuration_def split: prod.splits)

lemma call_status_ok: "call_status err = ''ok'' \<longleftrightarrow> err = None"
  by (cases err rule: call_status.cases) auto

text \<open>The variable is nil when the call has returned logs, and when the node was behind.\<close>

lemma FilterLogsSafe_err_None:
  assumes "FilterLogsSafe N q w = (r, w')"
  shows "FilterLogsSafe_err N errs q (w_tick w) = None \<longleftrightarrow>
    (\<exists>logs. r = Inr logs) \<or> (r = Inl (Err ErrNodeIsNotSynced) \<and>
      (\<exists>arg logs n. toFilterArg q = Inr arg \<and> node_BatchLogsAndBlock N (w_tick w) arg = Inr (Inr logs, Inr n)))"
proof -
  have to: "\<exists>b. fq_ToBlock q = Some b" if "toFilterArg q = Inr arg" for arg
    using that by (auto simp: toFilterArg_def Let_def split: if_splits option.splits)
  show ?thesis
    using assms to
    by (auto simp: FilterLogsSafe_err_def FilterLogsSafe_def bindE_apply bindE_liftE_apply rpc_def
        split: sum.splits prod.splits option.splits if_splits)
qed

section \<open>Statements of the database\<close>

text \<open>The histogram of durations by the name of the function that called the method of \<open>DB\<close>.\<close>

type_synonym db_metrics = "string \<Rightarrow> nat"

definition timed :: "(nat \<Rightarrow> string option) \<Rightarrow> (world, 'a) io \<Rightarrow> (db_metrics \<times> world, 'a) io" where
  "timed stack call = (\<lambda>(ms, w). let (r, w') = call w in (r, (add_one (getCurrentFuncName stack 2) ms, w')))"

definition ExecContext :: "(nat \<Rightarrow> string option) \<Rightarrow> env \<Rightarrow> (time \<Rightarrow> database \<Rightarrow> 'a res \<times> database) \<Rightarrow>
    (db_metrics \<times> world, 'a) io" where
  "ExecContext stack E stmt = timed stack (db_exec E stmt)"

definition GetContext :: "(nat \<Rightarrow> string option) \<Rightarrow> env \<Rightarrow> (database \<Rightarrow> 'a list) \<Rightarrow> (db_metrics \<times> world, 'a) io" where
  "GetContext stack E q = timed stack (db_query E (\<lambda>d. first_row (q d)))"

definition SelectContext :: "(nat \<Rightarrow> string option) \<Rightarrow> env \<Rightarrow> (database \<Rightarrow> 'a list) \<Rightarrow> (db_metrics \<times> world, 'a list) io" where
  "SelectContext stack E q = timed stack (db_query E (\<lambda>d. Inr (q d)))"

lemma timed_run:
  "timed stack call (ms, w) = (r, (ms', w')) \<longleftrightarrow> call w = (r, w') \<and> ms' = add_one (getCurrentFuncName stack 2) ms"
  by (auto simp: timed_def split: prod.splits)

section \<open>The contract of a counted call\<close>

text \<open>A method that counts is the call itself with one result and one duration more; it is honest when its result is
  \<open>ok\<close> exactly for an answer.\<close>

locale counted_call =
  fixes c :: rpcClient and query :: string and call :: "(world, 'a) io" and meth :: "(rpc_metrics \<times> world, 'a) io"
  assumes same_answer: "meth (ms, w) = (r, (ms', w')) \<Longrightarrow> call w = (r, w')"
    and once: "meth (ms, w) = (r, (ms', w')) \<Longrightarrow> \<exists>status. counted c query status ms ms'"
begin

lemma one_duration:
  assumes "meth (ms, w) = (r, (ms', w'))"
  shows "RequestDurations ms' (rc_chainID c, rc_url c, query) = Suc (RequestDurations ms (rc_chainID c, rc_url c, query))"
  using once [OF assms] by (auto simp: counted_def add_one_def)

lemma other_labels:
  assumes "meth (ms, w) = (r, (ms', w'))" and "(i, u, q) \<noteq> (rc_chainID c, rc_url c, query)"
  shows "RequestResults ms' (i, u, q, status) = RequestResults ms (i, u, q, status)"
  using once [OF assms(1)] assms(2) by (auto simp: counted_def add_one_def)

end

locale honest_call = counted_call +
  assumes ok_iff: "meth (ms, w) = (r, (ms', w')) \<Longrightarrow> counted c query ''ok'' ms ms' \<longleftrightarrow> \<not> isl r"
begin

lemma failure_shows:
  assumes "meth (ms, w) = (Inl f, (ms', w'))"
  shows "RequestResults ms' (rc_chainID c, rc_url c, query, ''ok'') = RequestResults ms (rc_chainID c, rc_url c, query, ''ok'')"
proof -
  from once [OF assms] obtain status where st: "counted c query status ms ms'" by blast
  with ok_iff [OF assms] have "status \<noteq> ''ok''" by auto
  with st show ?thesis by (simp add: counted_def add_one_def)
qed

end

lemma counted_status: "counted c query a ms ms' \<Longrightarrow> counted c query b ms ms' \<Longrightarrow> a = b"
  by (auto simp: counted_def add_one_def fun_eq_iff split: if_splits)

lemma observed_honest: "honest_call c query call (observed c errs query call)"
proof
  fix ms w r ms' w'
  assume run: "observed c errs query call (ms, w) = (r, (ms', w'))"
  note o = observed_run [OF run]
  show "call w = (r, w')" and "\<exists>status. counted c query status ms ms'" using o by blast+
  show "counted c query ''ok'' ms ms' \<longleftrightarrow> \<not> isl r"
    using o(2) counted_status [OF o(2), of "''ok''"] call_status_ok by (cases r) auto
qed

interpretation block_number: honest_call c "''eth_blockNumber''" "BlockNumber (rc_client c)" "BlockNumber_observed c errs" for c errs
  unfolding BlockNumber_observed_def by (rule observed_honest)

interpretation header_by_number: honest_call c "''eth_getBlockByNumber''" "HeaderByNumber (rc_client c) n"
  "HeaderByNumber_observed c errs n" for c errs n
  unfolding HeaderByNumber_observed_def by (rule observed_honest)

interpretation filter_logs: honest_call c "''eth_getLogs''" "FilterLogs (rc_client c) q" "FilterLogs_observed c errs q" for c errs q
  unfolding FilterLogs_observed_def by (rule observed_honest)

interpretation transaction: honest_call c "''eth_getTransactionByHash''" "TransactionByHash (rc_client c) h"
  "TransactionByHash_observed c errs h" for c errs h
  unfolding TransactionByHash_observed_def by (rule observed_honest)

interpretation receipt: honest_call c "''eth_getTransactionReceipt''" "TransactionReceiptByHash receipts h"
  "TransactionReceiptByHash_observed c errs receipts h" for c errs receipts h
  unfolding TransactionReceiptByHash_observed_def by (rule observed_honest)

interpretation contract_call: honest_call c "''eth_call''" "CallContract (rc_client c) a d" "CallContract_observed c errs a d" for c errs a d
  unfolding CallContract_observed_def by (rule observed_honest)

interpretation filter_logs_safe: counted_call c "''eth_getLogsSafe''" "FilterLogsSafe (rc_client c) q"
  "FilterLogsSafe_observed c errs q" for c errs q
  by unfold_locales (blast dest: FilterLogsSafe_observed_run)+

section \<open>Properties\<close>

text \<open>Property C35. A call of \<open>FilterLogsSafe\<close> is counted once, with the answer of the call itself. The status
  is \<open>ok\<close> for logs, but also for an error: when the node answered and its block number is behind the end of the
  query.\<close>

theorem safe_logs_counted:
  assumes "FilterLogsSafe_observed c errs q (ms, w) = (r, (ms', w'))"
  shows "FilterLogsSafe (rc_client c) q w = (r, w')
    \<and> RequestDurations ms' (rc_chainID c, rc_url c, ''eth_getLogsSafe'') =
        Suc (RequestDurations ms (rc_chainID c, rc_url c, ''eth_getLogsSafe''))
    \<and> (counted c ''eth_getLogsSafe'' ''ok'' ms ms' \<longleftrightarrow> (\<exists>logs. r = Inr logs) \<or> (r = Inl (Err ErrNodeIsNotSynced)
        \<and> (\<exists>arg logs n. toFilterArg q = Inr arg \<and> node_BatchLogsAndBlock (rc_client c) (w_tick w) arg = Inr (Inr logs, Inr n))))"
proof -
  note run = FilterLogsSafe_observed_run [OF assms]
  have "counted c ''eth_getLogsSafe'' ''ok'' ms ms' \<longleftrightarrow> FilterLogsSafe_err (rc_client c) errs q (w_tick w) = None"
    by (metis run(2) counted_status call_status_ok)
  with FilterLogsSafe_err_None [OF run(1)] filter_logs_safe.same_answer [OF assms] filter_logs_safe.one_duration [OF assms]
  show ?thesis by simp
qed

definition zero_metrics :: rpc_metrics where
  "zero_metrics = \<lparr>RequestResults = (\<lambda>k. 0), RequestDurations = (\<lambda>k. 0)\<rparr>"

definition behind_client :: rpcClient where
  "behind_client = \<lparr>rc_chainID = ''100'', rc_url = ''http://rpc'', rc_timeout = 20, rc_client = sample_node 40 []\<rparr>"

lemma safe_logs_counted_witness:
  "\<exists>ms'. fst (FilterLogsSafe (sample_node 40 []) (sample_query 5 50) \<lparr>w_db = emptyDatabase, w_tick = 0\<rparr>) = Inl (Err ErrNodeIsNotSynced)
    \<and> counted behind_client ''eth_getLogsSafe'' ''ok'' zero_metrics ms'"
proof -
  let ?w = "\<lparr>w_db = emptyDatabase, w_tick = 0\<rparr>"
  have safe: "FilterLogsSafe (sample_node 40 []) (sample_query 5 50) ?w =
      (Inl (Err ErrNodeIsNotSynced), \<lparr>w_db = emptyDatabase, w_tick = 1\<rparr>)"
    by (simp add: FilterLogsSafe_def bindE_apply bindE_liftE_apply rpc_def toFilterArg_def sample_query_def
        sample_node_def big_Int64_def big_Uint64_def)
  then obtain ms' where "FilterLogsSafe_observed behind_client (\<lambda>t. OtherError) (sample_query 5 50) (zero_metrics, ?w) =
      (Inl (Err ErrNodeIsNotSynced), (ms', \<lparr>w_db = emptyDatabase, w_tick = 1\<rparr>))"
    by (simp add: FilterLogsSafe_observed_def behind_client_def)
  from safe_logs_counted [OF this] safe show ?thesis
    by (auto simp: behind_client_def toFilterArg_def sample_query_def sample_node_def big_Int64_def)
qed

text \<open>A failed call of any other method is not counted as \<open>ok\<close>.\<close>

theorem failed_calls_show:
  assumes "k = (rc_chainID c, rc_url c, ''eth_getLogs'', ''ok'')"
    and "FilterLogs_observed c errs q (ms, w) = (Inl f, (ms', w'))"
  shows "RequestResults ms' k = RequestResults ms k"
  unfolding assms(1) by (rule filter_logs.failure_shows [OF assms(2)])

lemma failed_calls_show_witness:
  "\<exists>ms' w'. FilterLogs_observed (behind_client\<lparr>rc_client := (sample_node 40 [])\<lparr>node_FilterLogs := (\<lambda>t q. Inl (Err ErrRPC))\<rparr>\<rparr>)
      (\<lambda>t. DeadlineExceeded) (sample_query 5 50) (zero_metrics, \<lparr>w_db = emptyDatabase, w_tick = 0\<rparr>) = (Inl (Err ErrRPC), (ms', w'))
    \<and> RequestResults ms' (''100'', ''http://rpc'', ''eth_getLogs'', ''ok'') = 0"
proof -
  let ?c = "behind_client\<lparr>rc_client := (sample_node 40 [])\<lparr>node_FilterLogs := (\<lambda>t q. Inl (Err ErrRPC))\<rparr>\<rparr>"
  obtain ms' w' where run: "FilterLogs_observed ?c (\<lambda>t. DeadlineExceeded) (sample_query 5 50)
      (zero_metrics, \<lparr>w_db = emptyDatabase, w_tick = 0\<rparr>) = (Inl (Err ErrRPC), (ms', w'))"
    by (simp add: FilterLogs_observed_def observed_def FilterLogs_def rpc_def Let_def)
  from failed_calls_show [OF refl this] run show ?thesis by (auto simp: behind_client_def zero_metrics_def)
qed

text \<open>Statements of methods with one name are recorded under that name, whatever their receivers.\<close>

theorem statement_recorded_by_method:
  assumes "CHR ''.'' \<notin> set func" "CHR '')'' \<notin> set func" "CHR ''('' \<notin> set func"
    and "stack 2 = Some (method_name package recv func)"
    and "ExecContext stack E stmt (ms, w) = (r, (ms', w'))"
  shows "db_exec E stmt w = (r, w') \<and> ms' = add_one func ms"
  using assms(5) func_name_bare [of func stack 2 package recv, OF assms(1-4)] by (simp add: ExecContext_def timed_run)

definition ensure_caller :: "nat \<Rightarrow> string option" where
  "ensure_caller n = Some (method_name ''postgres'' ''logsRepo'' ''Ensure'')"

lemma statement_recorded_by_method_witness:
  "\<exists>r w'. ExecContext ensure_caller \<lparr>env_db = (\<lambda>t. DbOk), env_clock = int\<rparr> (\<lambda>now d. (Inr (), d))
     ((\<lambda>k. 0), \<lparr>w_db = emptyDatabase, w_tick = 0\<rparr>) = (r, (add_one ''Ensure'' (\<lambda>k. 0), w'))"
proof -
  obtain r ms' w' where run: "ExecContext ensure_caller \<lparr>env_db = (\<lambda>t. DbOk), env_clock = int\<rparr>
      (\<lambda>now d. (Inr (), d)) ((\<lambda>k. 0), \<lparr>w_db = emptyDatabase, w_tick = 0\<rparr>) = (r, (ms', w'))"
    by (metis surjective_pairing)
  from statement_recorded_by_method [OF _ _ _ ensure_caller_def this] run show ?thesis by auto
qed

end
