(* ===== verification/ProcessRuns.thy ===== *)
theory ProcessRuns
  imports Process CommandRuns
begin

text \<open>
  A concrete run of the process: it starts the two contract monitors of one bridge on an empty database, and the
  logs fetcher of the home side saves a log and its cursor. The properties of theory \<open>Process\<close> are applied
  to its last state.
\<close>

section \<open>The configuration\<close>

definition proc_config :: Config where
  "proc_config = sample_config_init\<lparr>cfg_Bridges := [(''xdai-bridge'', demo_bridge)]\<rparr>"

definition proc_foreign_node :: node where
  "proc_foreign_node = (sample_node 300 [])\<lparr>node_ChainID := (\<lambda>t. Inr 1)\<rparr>"

definition proc_dial :: "RPCConfig \<Rightarrow> node" where
  "proc_dial r = (if rpc_Host r = ''1'' then proc_foreign_node else demo_node)"

definition proc_chains :: chains where
  "proc_chains c = (if c = ''100'' then [demo_log] else [])"

definition proc_foreign :: ContractMonitor where
  "proc_foreign = foreignMonitor sample_geth sample_env demo_bridge demo_node proc_foreign_node"

lemma demo_bridge_sel:
  "bc_Alerts demo_bridge = []" "bc_Home demo_bridge = demo_cfg"
  "bs_Chain (bc_Foreign demo_bridge) = Some (sample_chain ''1'')" "bs_Address (bc_Foreign demo_bridge) = 20"
  "bs_ValidatorContractAddress (bc_Foreign demo_bridge) = 77" "bs_StartBlock (bc_Foreign demo_bridge) = 200"
  "bs_MaxBlockRangeSize (bc_Foreign demo_bridge) = 1000" "bs_BlockConfirmations (bc_Foreign demo_bridge) = 2"
  "bs_Chain demo_cfg = Some (sample_chain ''100'')"
  by (simp_all add: demo_cfg_def demo_monitor_def homeMonitor_def demo_bridge_def sample_config_init_def sample_config_def
      Config_init_def BridgeConfig_init_def BridgeSideConfig_init_def sample_bridge_def sample_side_def Let_def)

lemma proc_foreign_sel: "mon_cfg proc_foreign = bc_Foreign demo_bridge" "mon_client proc_foreign = proc_foreign_node"
  by (simp_all add: proc_foreign_def foreignMonitor_def)

lemma ch_sample [simp]: "ch_ChainID (sample_chain c) = c"
  "ch_RPC (sample_chain c) = Some \<lparr>rpc_Host = c, rpc_Timeout = 20, rpc_RPS = 0\<rparr>"
  by (simp_all add: sample_chain_def)

lemma proc_bridges: "monitoredBridges proc_config = [(''xdai-bridge'', Some demo_bridge)]"
  by (simp add: monitoredBridges_def proc_config_def sample_config_init_def sample_config_def Config_init_def
      BridgeConfig_init_def BridgeSideConfig_init_def sample_bridge_def sample_side_def Let_def)

lemma proc_monitors: "processMonitors proc_dial sample_geth sample_env [(''xdai-bridge'', Some demo_bridge)] =
    [demo_monitor, proc_foreign]"
  by (simp add: processMonitors_def bridgeMonitors_def side_node_def demo_bridge_sel proc_dial_def
      demo_monitor_def proc_foreign_def)

lemma proc_ok: "process_ok proc_dial sample_geth sample_env proc_config proc_chains"
proof -
  have id: "bs_ChainID (bc_Foreign demo_bridge) = ''1''" by (simp add: bs_ChainID_def demo_bridge_sel)
  have "setting_ok sample_geth proc_foreign []"
    by (simp add: setting_ok_def chain_wf_def node_honest_def heads_ok_def proc_foreign_sel proc_foreign_node_def
        sample_node_def demo_bridge_sel)
  with demo_setting show ?thesis
    by (simp add: process_ok_def proc_monitors proc_bridges validators_configured_def demo_bridge_sel side_key_def
        proc_foreign_sel id proc_chains_def)
qed

section \<open>The run\<close>

lemma start_no_alerts:
  assumes "bs_ValidatorContractAddress (bc_Home b) \<noteq> 0" "bs_ValidatorContractAddress (bc_Foreign b) \<noteq> 0" "bc_Alerts b = []"
    and "bs_Chain (bc_Home b) \<noteq> None" "bs_Chain (bc_Foreign b) \<noteq> None"
  shows "\<exists>mon. NewMonitor D G sample_env calldata b N N' \<lparr>w_db = emptyDatabase, w_tick = t\<rparr> =
    (Inr mon, \<lparr>w_db = emptyDatabase, w_tick = Suc (Suc t)\<rparr>)"
proof -
  have "NewAlertManager D sample_env b = Inr []" by (simp add: NewAlertManager_def assms(3))
  moreover have "b\<lparr>bc_Home := bc_Home b, bc_Foreign := bc_Foreign b\<rparr> = b" by (cases b) simp
  ultimately show ?thesis
    using registered_in_abi [of G b sample_env N] by (simp add: NewMonitor_def bindE_apply start_contract assms(1,2,4,5))
qed

lemma proc_launch:
  obtains mon where "startMonitors proc_dial (\<lambda>v. v) sample_geth sample_env (Inr []) (monitoredBridges proc_config) (demo_empty t) =
      (Inr [mon], demo_empty (6 + t))"
    and "mo_alertManager mon = []" and "\<forall>w. Monitor_Start w mon = [(demo_monitor, Start w (initialCursor demo_cfg)),
      (proc_foreign, Start w (initialCursor (bc_Foreign demo_bridge)))]"
proof -
  let ?new = "NewMonitor (\<lambda>v. v) sample_geth sample_env (Inr []) demo_bridge demo_node proc_foreign_node"
  have v: "bs_ValidatorContractAddress (bc_Home demo_bridge) \<noteq> 0" "bs_ValidatorContractAddress (bc_Foreign demo_bridge) \<noteq> 0"
    by (simp_all add: demo_bridge_sel)
  have ch: "bs_Chain (bc_Home demo_bridge) \<noteq> None" "bs_Chain (bc_Foreign demo_bridge) \<noteq> None"
    by (simp_all add: demo_bridge_sel)
  obtain mon where run: "?new (demo_empty (4 + t)) = (Inr mon, demo_empty (6 + t))"
    using start_no_alerts [OF v demo_bridge_sel(1) ch, of "\<lambda>v. v" sample_geth "Inr []" demo_node proc_foreign_node "4 + t"]
    by (auto simp: demo_empty_def)
  note r = NewMonitor_read [OF run v]
  from monitor_made [OF run] have "resolved demo_bridge (mo_cfg mon)"
    and at: "starts_at (bc_Home (mo_cfg mon)) emptyDatabase (mo_home mon)"
      "starts_at (bc_Foreign (mo_cfg mon)) emptyDatabase (mo_foreign mon)"
    by (auto simp: demo_empty_def)
  with v have "mo_cfg mon = demo_bridge" by (auto simp: resolved_def resolved_side_def)
  with at have "pg_logsCursor (mo_home mon) = initialCursor demo_cfg"
    "pg_logsCursor (mo_foreign mon) = initialCursor (bc_Foreign demo_bridge)"
    by (simp_all add: starts_at_def saved_cursor_def initialProgress_def emptyDatabase_def vals_def demo_bridge_sel)
  with r have ms: "\<forall>w. Monitor_Start w mon = [(demo_monitor, Start w (initialCursor demo_cfg)),
      (proc_foreign, Start w (initialCursor (bc_Foreign demo_bridge)))]"
    by (simp add: Monitor_Start_def demo_monitor_def proc_foreign_def)
  have four: "4 + t = Suc (Suc (Suc (Suc t)))" by simp
  have clients: "NewClient demo_node ''100'' (demo_empty u) = (Inr demo_node, demo_empty (2 + u))"
    "NewClient proc_foreign_node ''1'' (demo_empty u) = (Inr proc_foreign_node, demo_empty (2 + u))" for u
    by (simp_all add: NewClient_def bindE_apply rpc_def demo_node_def sample_node_def proc_foreign_node_def demo_empty_def
        big_string_1 big_string_100)
  have "startMonitors proc_dial (\<lambda>v. v) sample_geth sample_env (Inr []) (monitoredBridges proc_config) (demo_empty t) =
      (Inr [mon], demo_empty (6 + t))"
    using run four by (simp add: proc_bridges startMonitor_def bindE_apply sideClient_def chainNode_def demo_bridge_sel proc_dial_def clients)
  moreover have "mo_alertManager mon = []" using monitor_made [OF run] by (simp add: demo_bridge_sel)
  ultimately show ?thesis using ms by (rule that)
qed

text \<open>A path of one contract monitor is a path of the process.\<close>

abbreviation up_step :: "(RPCConfig \<Rightarrow> node) \<Rightarrow> (string \<Rightarrow> string) \<Rightarrow> abilib \<Rightarrow> geth \<Rightarrow> env \<Rightarrow> byte list res \<Rightarrow> Config \<Rightarrow> chains \<Rightarrow>
    process \<Rightarrow> process \<Rightarrow> bool" where
  "up_step dial D L G E calldata cfg chainOf \<equiv> \<lambda>s s'. pc_up s \<and> process_step dial D L G E calldata cfg chainOf s s'"

lemma process_path:
  assumes "run_path G E m (processLog L m) r r'"
    and "pc_up s" "ix_up r" "ix_w r = pc_w s" "i < length (pc_runs s)" "pc_runs s ! i = (m, r)"
  shows "(up_step dial D L G E calldata cfg chainOf)\<^sup>*\<^sup>* s
    (s\<lparr>pc_up := ix_up r', pc_w := ix_w r', pc_runs := (pc_runs s)[i := (m, r')]\<rparr>)"
  using assms(1)
proof induction
  case Nil
  have "(pc_runs s)[i := (m, r)] = pc_runs s" using list_update_id [of "pc_runs s" i] assms(6) by simp
  with assms(2-4) have "s\<lparr>pc_up := ix_up r, pc_w := ix_w r, pc_runs := (pc_runs s)[i := (m, r)]\<rparr> = s"
    by (cases s) simp
  then show ?case by simp
next
  case (Snoc s' s'')
  let ?s = "s\<lparr>pc_up := ix_up s', pc_w := ix_w s', pc_runs := (pc_runs s)[i := (m, s')]\<rparr>"
  have seen: "seen_from True (pc_w ?s) s' = s'" using seen_from_same [of s'] Snoc.hyps(2) by simp
  have run: "run_step G E m (processLog L m) (seen_from True (pc_w ?s) s') s''" unfolding seen by (rule Snoc.hyps(3))
  have "process_step dial D L G E calldata cfg chainOf ?s
      (?s\<lparr>pc_up := ix_up s'', pc_w := ix_w s'', pc_runs := (pc_runs ?s)[i := (m, s'')]\<rparr>)"
    by (rule process_step.Goroutine [OF _ _ _ run]) (use Snoc.hyps(2) assms(5) in simp_all)
  then have "up_step dial D L G E calldata cfg chainOf ?s
      (s\<lparr>pc_up := ix_up s'', pc_w := ix_w s'', pc_runs := (pc_runs s)[i := (m, s'')]\<rparr>)"
    using Snoc.hyps(2) by simp
  with Snoc.IH show ?case by (rule rtranclp.rtrancl_into_rtrancl)
qed

lemma process_reachable_steps:
  "(up_step dial D L G E calldata cfg chainOf)\<^sup>*\<^sup>* s s' \<Longrightarrow> process_reachable dial D L G E calldata cfg chainOf s \<Longrightarrow>
    process_reachable dial D L G E calldata cfg chainOf s'"
  by (induction rule: rtranclp_induct) (auto intro: process_reachable.Next)

text \<open>The state after the start, and the one after the path.\<close>

definition proc_begin :: "nat \<Rightarrow> process" where
  "proc_begin t = \<lparr>pc_up = True, pc_w = demo_empty t, pc_runs = [(demo_monitor, Start (demo_empty t) (initialCursor demo_cfg)),
     (proc_foreign, Start (demo_empty t) (initialCursor (bc_Foreign demo_bridge)))], pc_alerts = [[]]\<rparr>"

definition proc_end_at :: "nat \<Rightarrow> process" where
  "proc_end_at t = \<lparr>pc_up = True, pc_w = demo_end_at t, pc_runs = [(demo_monitor, demo_end_from t),
     (proc_foreign, Start (demo_empty t) (initialCursor (bc_Foreign demo_bridge)))], pc_alerts = [[]]\<rparr>"

abbreviation proc_end :: process where
  "proc_end \<equiv> proc_end_at 6"

lemma proc_steps: "(up_step dial D sample_abilib sample_geth sample_env calldata cfg chainOf)\<^sup>*\<^sup>* (proc_begin t) (proc_end_at t)"
proof -
  have start: "Start (demo_empty t) (initialCursor demo_cfg) =
      demo_at (demo_empty t) (demo_prog 99 0) [] [] (BfPoll 100) (LfLoad 100 99)"
    by (simp add: Start_def demo_initial initialProgress_def demo_at_def demo_prog_def demo_cursor_def)
  have "ix_up (demo_end_from t)" "ix_w (demo_end_from t) = demo_end_at t"
    by (simp_all add: demo_end_from_def demo_fetching_def demo_at_def)
  then have "(proc_begin t)\<lparr>pc_up := ix_up (demo_end_from t), pc_w := ix_w (demo_end_from t),
      pc_runs := (pc_runs (proc_begin t))[0 := (demo_monitor, demo_end_from t)]\<rparr> = proc_end_at t"
    by (simp add: proc_begin_def proc_end_at_def)
  moreover have "(up_step dial D sample_abilib sample_geth sample_env calldata cfg chainOf)\<^sup>*\<^sup>* (proc_begin t)
      ((proc_begin t)\<lparr>pc_up := ix_up (demo_end_from t), pc_w := ix_w (demo_end_from t),
        pc_runs := (pc_runs (proc_begin t))[0 := (demo_monitor, demo_end_from t)]\<rparr>)"
    by (rule process_path [OF demo_path]) (simp_all add: proc_begin_def start, simp_all add: demo_at_def)
  ultimately show ?thesis by simp
qed

lemma proc_reachable:
  "process_reachable proc_dial (\<lambda>v. v) sample_abilib sample_geth sample_env (Inr []) proc_config proc_chains proc_end"
proof -
  let ?s0 = "\<lparr>pc_up = False, pc_w = demo_empty 0, pc_runs = [], pc_alerts = []\<rparr>"
  let ?reach = "process_reachable proc_dial (\<lambda>v. v) sample_abilib sample_geth sample_env (Inr []) proc_config proc_chains"
  obtain mon where run: "startMonitors proc_dial (\<lambda>v. v) sample_geth sample_env (Inr []) (monitoredBridges proc_config)
      (demo_empty 0) = (Inr [mon], demo_empty (6 + 0))" and mon: "mo_alertManager mon = []"
      "\<forall>w. Monitor_Start w mon = [(demo_monitor, Start w (initialCursor demo_cfg)),
        (proc_foreign, Start w (initialCursor (bc_Foreign demo_bridge)))]"
    by (rule proc_launch [of 0])
  have "?reach ?s0" by (rule process_reachable.Installed) (simp_all add: demo_empty_def)
  moreover have "process_step proc_dial (\<lambda>v. v) sample_abilib sample_geth sample_env (Inr []) proc_config proc_chains ?s0 (proc_begin 6)"
    using process_step.Launch [of ?s0, simplified, OF run [simplified]] by (simp add: mon proc_begin_def)
  ultimately have "?reach (proc_begin 6)" by (rule process_reachable.Next)
  with proc_steps show ?thesis by (rule process_reachable_steps)
qed

section \<open>The properties applied\<close>

text \<open>The contract monitor of the foreign side has not moved, and sees what the home side has saved.\<close>

lemma process_refines_monitors_witness:
  "reachable sample_geth sample_env proc_foreign (processLog sample_abilib proc_foreign) []
    (seen_from True (demo_end_at 6) (Start (demo_empty 6) (initialCursor (bc_Foreign demo_bridge))))"
proof -
  have "bs_ChainID (mon_cfg proc_foreign) = ''1''" by (simp add: proc_foreign_sel bs_ChainID_def demo_bridge_sel)
  with process_refines_monitors [OF proc_ok proc_reachable] show ?thesis
    by (simp add: proc_end_at_def proc_bridges proc_monitors proc_chains_def)
qed

lemma process_loses_nothing_witness: "saved ''100'' (w_db (demo_end_at 6)) demo_log"
proof -
  have c: "demo_cursor \<in> set (vals (db_logs_cursors (w_db (pc_w proc_end))))" "own_cursor (mon_cfg demo_monitor) demo_cursor"
    by (simp_all add: proc_end_at_def demo_end_at_def demo_final_at_def vals_def own_cursor_def cursor_key_def demo_cursor_def)
  have m: "demo_monitor \<in> set (processMonitors proc_dial sample_geth sample_env (monitoredBridges proc_config))"
    "demo_log \<in> set (proc_chains (bs_ChainID (mon_cfg demo_monitor)))"
    by (simp_all add: proc_bridges proc_monitors proc_chains_def)
  have "rl_BlockNumber demo_log \<le> lc_LastFetchedBlock demo_cursor" by (simp add: demo_log_def demo_cursor_def)
  with process_loses_nothing [OF proc_ok proc_reachable m(1) c m(2) demo_wanted] show ?thesis
    by (simp add: proc_end_at_def)
qed

end
