(* ===== verification/ProgramRuns.thy ===== *)
theory ProgramRuns
  imports Startup Metrics ProcessRuns
begin

text \<open>
  A concrete run of the monitor program, from its configuration file to a log that its process has saved, and a run of the
  reprocessing command that ends at its arguments. The properties of theory \<open>Startup\<close> are applied to them.
\<close>

section \<open>The machine\<close>

definition prog_config :: Config where
  "prog_config = proc_config\<lparr>cfg_Presenter := Some \<lparr>prc_Host = '':3333''\<rparr>\<rparr>"

definition prog_system :: system where
  "prog_system = \<lparr>os_ReadFile = (\<lambda>p. if p = ''config.yml'' then Some ''bridges'' else None), os_Getenv = (\<lambda>n. []),
     yaml_Decode = (\<lambda>s. if s = ''bridges'' then Some prog_config else None)\<rparr>"

definition prog_postgres :: postgres where
  "prog_postgres = \<lparr>pg_Connect = (\<lambda>url t. Inr ()), pg_Migrate = (\<lambda>dir url t. Inr ()), pg_Up = (\<lambda>t d. (Some ErrNoChange, d))\<rparr>"

lemma prog_bridges: "cfg_Bridges prog_config = [(''xdai-bridge'', demo_bridge)]"
  by (simp add: prog_config_def proc_config_def)

lemma prog_wf: "list_all (bridge_wf prog_config) (cfg_Bridges prog_config)"
  unfolding prog_bridges
  by (simp add: bridge_wf_def side_wf_def token_wf_def prog_config_def proc_config_def demo_bridge_def demo_cfg_def demo_monitor_def
      homeMonitor_def sample_config_init_def sample_config_def Config_init_def BridgeConfig_init_def BridgeSideConfig_init_def
      TokenConfig_init_def sample_bridge_def sample_side_def Let_def MaxUint32_def)

lemma prog_file: "ReadConfigFromFile prog_system ''config.yml'' = Inr prog_config"
proof -
  have "list_all piece_ok [Plain ''bridges'']" by simp
  from ExpandEnv_pieces [OF this] Config_init_stable [OF prog_wf] show ?thesis
    by (simp add: ReadConfigFromFile_def ReadConfigWithEnv_def ReadConfig_def parseYaml_def prog_system_def)
qed

lemma prog_keep: "migrations_keep prog_postgres"
  by (simp add: migrations_keep_def prog_postgres_def)

lemma prog_connect:
  "\<exists>db. ConnectToDBAndMigrate prog_postgres (cfg_DBConfig prog_config) (demo_empty 0) = (Inr db, demo_empty 3)"
proof -
  have "cfg_DBConfig prog_config \<noteq> None"
    by (simp add: prog_config_def proc_config_def sample_config_init_def sample_config_def Config_init_def
        BridgeConfig_init_def BridgeSideConfig_init_def sample_bridge_def sample_side_def Let_def)
  then show ?thesis
    by (auto simp: ConnectToDBAndMigrate_def NewDB_def Migrate_def Up_def dbURL_def prog_postgres_def bindE_apply rpc_def
        demo_empty_def Let_def)
qed

lemma prog_monitored: "monitoredBridges prog_config = monitoredBridges proc_config"
  by (simp add: monitoredBridges_def prog_config_def)

lemma prog_ok: "process_ok proc_dial sample_geth sample_env prog_config proc_chains"
  using proc_ok by (simp add: process_ok_def prog_monitored)

section \<open>The run\<close>

lemma prog_main:
  obtains app where "monitor_main prog_system prog_postgres proc_dial (\<lambda>v. v) sample_geth sample_env (Inr []) (demo_empty 0) =
      (Inr app, demo_empty 9)"
    and "concat (map (Monitor_Start (demo_empty 9)) (app_monitors app)) = pc_runs (proc_begin 9)"
    and "map mo_alertManager (app_monitors app) = [[]]"
proof -
  obtain mon where mon: "startMonitors proc_dial (\<lambda>v. v) sample_geth sample_env (Inr []) (monitoredBridges proc_config) (demo_empty 3) =
      (Inr [mon], demo_empty (6 + 3))" "mo_alertManager mon = []"
      "\<forall>w. Monitor_Start w mon = [(demo_monitor, Start w (initialCursor demo_cfg)),
        (proc_foreign, Start w (initialCursor (bc_Foreign demo_bridge)))]"
    by (rule proc_launch [of 3])
  obtain db where db: "ConnectToDBAndMigrate prog_postgres (cfg_DBConfig prog_config) (demo_empty 0) = (Inr db, demo_empty 3)"
    using prog_connect by blast
  let ?app = "\<lparr>app_cfg = sharedConfig prog_config [mon], app_db = db,
      app_presenter = Some (NewPresenter sample_env (sharedConfig prog_config [mon]), '':3333''), app_monitors = [mon]\<rparr>"
  have "cfg_Presenter prog_config = Some \<lparr>prc_Host = '':3333''\<rparr>" by (simp add: prog_config_def)
  then have "monitor_main prog_system prog_postgres proc_dial (\<lambda>v. v) sample_geth sample_env (Inr []) (demo_empty 0) =
      (Inr ?app, demo_empty 9)"
    using mon(1) db by (simp add: monitor_main_def prog_file bindE_apply prog_monitored Let_def)
  then show ?thesis by (rule that) (simp_all add: mon proc_begin_def)
qed

lemma program_works:
  assumes "(up_step dial D L G E calldata cfg chainOf)\<^sup>*\<^sup>* p p'" and "ReadConfigFromFile S ''config.yml'' = Inr cfg"
    and "program_reachable S P dial D L G E calldata chainOf \<lparr>pm_process = p, pm_app = app\<rparr>"
  shows "program_reachable S P dial D L G E calldata chainOf \<lparr>pm_process = p', pm_app = app\<rparr>"
  using assms(1)
proof (induction rule: rtranclp_induct)
  case (step q q')
  then have "program_step S P dial D L G E calldata chainOf \<lparr>pm_process = q, pm_app = app\<rparr> \<lparr>pm_process = q', pm_app = app\<rparr>"
    using program_step.Work [OF assms(2), of dial D L G E calldata chainOf "\<lparr>pm_process = q, pm_app = app\<rparr>" q' P] by simp
  with step.IH show ?case by (rule program_reachable.Next)
qed (rule assms(3))

lemma prog_reachable:
  "\<exists>app. program_reachable prog_system prog_postgres proc_dial (\<lambda>v. v) sample_abilib sample_geth sample_env (Inr []) proc_chains
     \<lparr>pm_process = proc_end_at 9, pm_app = app\<rparr>"
proof -
  let ?reach = "program_reachable prog_system prog_postgres proc_dial (\<lambda>v. v) sample_abilib sample_geth sample_env (Inr []) proc_chains"
  let ?s0 = "\<lparr>pm_process = \<lparr>pc_up = False, pc_w = demo_empty 0, pc_runs = [], pc_alerts = []\<rparr>, pm_app = None\<rparr>"
  obtain app where main: "monitor_main prog_system prog_postgres proc_dial (\<lambda>v. v) sample_geth sample_env (Inr []) (demo_empty 0) =
      (Inr app, demo_empty 9)" and runs: "concat (map (Monitor_Start (demo_empty 9)) (app_monitors app)) = pc_runs (proc_begin 9)"
      "map mo_alertManager (app_monitors app) = [[]]"
    by (rule prog_main)
  have "?reach ?s0" by (rule program_reachable.Installed) (simp add: demo_empty_def)
  moreover have "program_step prog_system prog_postgres proc_dial (\<lambda>v. v) sample_abilib sample_geth sample_env (Inr []) proc_chains
      ?s0 \<lparr>pm_process = proc_begin 9, pm_app = Some app\<rparr>"
    using program_step.Main [of ?s0, simplified, OF main] runs by (simp add: proc_begin_def)
  ultimately have "?reach \<lparr>pm_process = proc_begin 9, pm_app = Some app\<rparr>" by (rule program_reachable.Next)
  from program_works [OF proc_steps prog_file this] show ?thesis by blast
qed

section \<open>The properties applied\<close>

lemma program_loses_nothing_witness: "saved ''100'' (w_db (demo_end_at 9)) demo_log"
proof -
  obtain app where reach: "program_reachable prog_system prog_postgres proc_dial (\<lambda>v. v) sample_abilib sample_geth sample_env (Inr [])
      proc_chains \<lparr>pm_process = proc_end_at 9, pm_app = app\<rparr>"
    using prog_reachable by blast
  have c: "demo_cursor \<in> set (vals (db_logs_cursors (w_db (demo_end_at 9))))" "own_cursor (mon_cfg demo_monitor) demo_cursor"
    by (simp_all add: demo_end_at_def demo_final_at_def vals_def own_cursor_def cursor_key_def demo_cursor_def)
  have m: "demo_monitor \<in> set (processMonitors proc_dial sample_geth sample_env (monitoredBridges prog_config))"
    "demo_log \<in> set (proc_chains (bs_ChainID (mon_cfg demo_monitor)))"
    by (simp_all add: prog_monitored proc_bridges proc_monitors proc_chains_def)
  have "rl_BlockNumber demo_log \<le> lc_LastFetchedBlock demo_cursor" by (simp add: demo_log_def demo_cursor_def)
  with program_loses_nothing [OF prog_file prog_keep prog_ok reach refl m(1) _ c(2) m(2) demo_wanted] c(1) show ?thesis
    by (simp add: proc_end_at_def)
qed

lemma monitor_main_starts_witness:
  "\<exists>app w'. monitor_main prog_system prog_postgres proc_dial (\<lambda>v. v) sample_geth sample_env (Inr []) (demo_empty 0) = (Inr app, w')
    \<and> set (map (\<lambda>m. bc_ID (mo_cfg m)) (app_monitors app)) = {''xdai-bridge''} \<and> app_presenter app \<noteq> None"
proof -
  obtain app where main: "monitor_main prog_system prog_postgres proc_dial (\<lambda>v. v) sample_geth sample_env (Inr []) (demo_empty 0) =
      (Inr app, demo_empty 9)"
    by (rule prog_main)
  have distinct: "distinct (map fst (cfg_Bridges raw))" if "yaml_Decode prog_system blob = Some raw" for blob raw
    using that by (auto simp: prog_system_def prog_bridges split: if_splits)
  have "{bridgeID. chosen prog_config bridgeID} = {''xdai-bridge''}"
    by (auto simp: chosen_def prog_bridges) (simp_all add: prog_config_def proc_config_def sample_config_init_def sample_config_def
        Config_init_def BridgeConfig_init_def BridgeSideConfig_init_def sample_bridge_def sample_side_def Let_def)
  moreover have "cfg_Presenter prog_config \<noteq> None" by (simp add: prog_config_def)
  ultimately show ?thesis using monitor_main_starts [OF distinct main] main by (auto simp: prog_file)
qed

text \<open>Both sides are asked for.\<close>

lemma reprocess_checks_first_witness:
  "fst (reprocess_main prog_system prog_postgres proc_dial (\<lambda>v. v) sample_geth sample_env (Inr [])
     (defaultFlags\<lparr>fl_bridgeID := ''xdai-bridge'', fl_home := True, fl_foreign := True\<rparr>) (demo_empty 0)) = Inl (Err ErrInvalidConfig)"
proof -
  let ?fl = "defaultFlags\<lparr>fl_bridgeID := ''xdai-bridge'', fl_home := True, fl_foreign := True\<rparr>"
  obtain r w' where run: "reprocess_main prog_system prog_postgres proc_dial (\<lambda>v. v) sample_geth sample_env (Inr []) ?fl
      (demo_empty 0) = (r, w')"
    by (metis surjective_pairing)
  have "reprocessArgs prog_config ''xdai-bridge'' True True 0 0 = Inl (Err ErrInvalidConfig)" by (simp add: reprocessArgs_def)
  with reprocess_checks_first [OF run] run show ?thesis by (simp add: prog_file defaultFlags_def)
qed

end
