(* ===== verification/RequestLog.thy ===== *)
theory RequestLog
  imports Middleware
begin

text \<open>
  \<open>presenter/http/middleware/logger.go\<close>: the middleware that logs every request. The variable
  \<open>logger\<close> is a parameter of the outer function, so that all requests share it: a request assigns it its own
  fields, and reads it again for its context and its two lines. Requests run concurrently; a step is one access to
  the variable.

  The lemmas show that requests which do not overlap have their own fields on their lines, and that others have not.
\<close>

section \<open>The middleware\<close>

record request_fields =
  rf_request_id :: string
  rf_http_method :: string
  rf_http_path :: string

datatype log_line = HandlingRequest | RequestCompleted

datatype request_pc = RqArrived | RqNamed | RqInContext | RqServing | RqDone

text \<open>The shared fields, the logger of each request's context, and the lines with the request that wrote them.\<close>

record request_log =
  lg_shared :: "request_fields option"
  lg_context :: "nat \<Rightarrow> request_fields option"
  lg_pc :: "nat \<Rightarrow> request_pc"
  lg_lines :: "(nat \<times> log_line \<times> request_fields option) list"

definition emptyLog :: request_log where
  "emptyLog = \<lparr>lg_shared = None, lg_context = (\<lambda>i. None), lg_pc = (\<lambda>i. RqArrived), lg_lines = []\<rparr>"

text \<open>\<open>WithFields\<close> replaces fields of the same names: what the logger had of an earlier request is gone.\<close>

inductive NewLoggerMiddleware :: "(nat \<Rightarrow> request_fields) \<Rightarrow> nat \<Rightarrow> request_log \<Rightarrow> request_log \<Rightarrow> bool"
  for req :: "nat \<Rightarrow> request_fields" and i :: nat where
  Assign: "lg_pc s i = RqArrived \<Longrightarrow>
    NewLoggerMiddleware req i s (s\<lparr>lg_shared := Some (req i), lg_pc := (lg_pc s)(i := RqNamed)\<rparr>)"
| PutContext: "lg_pc s i = RqNamed \<Longrightarrow>
    NewLoggerMiddleware req i s (s\<lparr>lg_context := (lg_context s)(i := lg_shared s), lg_pc := (lg_pc s)(i := RqInContext)\<rparr>)"
| Handling: "lg_pc s i = RqInContext \<Longrightarrow>
    NewLoggerMiddleware req i s (s\<lparr>lg_lines := lg_lines s @ [(i, HandlingRequest, lg_shared s)],
      lg_pc := (lg_pc s)(i := RqServing)\<rparr>)"
| Completed: "lg_pc s i = RqServing \<Longrightarrow>
    NewLoggerMiddleware req i s (s\<lparr>lg_lines := lg_lines s @ [(i, RequestCompleted, lg_shared s)],
      lg_pc := (lg_pc s)(i := RqDone)\<rparr>)"

text \<open>Runs under a restriction on who may act: none for concurrent requests.\<close>

inductive request_run :: "(nat \<Rightarrow> request_fields) \<Rightarrow> (nat \<Rightarrow> request_log \<Rightarrow> bool) \<Rightarrow> request_log \<Rightarrow> bool"
  for req :: "nat \<Rightarrow> request_fields" and may :: "nat \<Rightarrow> request_log \<Rightarrow> bool" where
  Empty: "request_run req may emptyLog"
| Act: "request_run req may s \<Longrightarrow> may i s \<Longrightarrow> NewLoggerMiddleware req i s s' \<Longrightarrow> request_run req may s'"

text \<open>A request acts only when no other is on its way.\<close>

definition no_other :: "nat \<Rightarrow> request_log \<Rightarrow> bool" where
  "no_other i s \<longleftrightarrow> (\<forall>j. j \<noteq> i \<longrightarrow> lg_pc s j = RqArrived \<or> lg_pc s j = RqDone)"

definition on_its_way :: "request_log \<Rightarrow> nat \<Rightarrow> bool" where
  "on_its_way s i \<longleftrightarrow> lg_pc s i \<noteq> RqArrived \<and> lg_pc s i \<noteq> RqDone"

lemma request_run_serial:
  assumes "request_run req no_other s"
  shows "(\<forall>i. on_its_way s i \<longrightarrow> lg_shared s = Some (req i)) \<and> list_all (\<lambda>(i, l, f). f = Some (req i)) (lg_lines s)"
  using assms
proof induction
  case Empty
  show ?case by (simp add: emptyLog_def on_its_way_def)
next
  case (Act s i s')
  have other: "\<not> on_its_way s j" if "j \<noteq> i" for j using Act.hyps(2) that by (auto simp: no_other_def on_its_way_def)
  have own: "lg_shared s = Some (req i)" if "lg_pc s i \<in> {RqNamed, RqInContext, RqServing}"
    using Act.IH that by (auto simp: on_its_way_def)
  from Act.hyps(3) show ?case
  proof cases
    case Assign
    with Act.IH other show ?thesis by (auto simp: on_its_way_def)
  next
    case PutContext
    with Act.IH other own show ?thesis by (auto simp: on_its_way_def)
  next
    case Handling
    with Act.IH other own show ?thesis by (auto simp: on_its_way_def)
  next
    case Completed
    with Act.IH other own show ?thesis by (auto simp: on_its_way_def)
  qed
qed

section \<open>Properties\<close>

text \<open>When requests do not overlap, both lines of every request carry its own fields.\<close>

theorem serial_requests_named:
  assumes "request_run req no_other s"
  shows "list_all (\<lambda>(i, l, f). f = Some (req i)) (lg_lines s)"
  using request_run_serial [OF assms] by blast

text \<open>When a second request arrives while the first is being served, the line that says that the first one is
  completed carries the fields of the second.\<close>

theorem overlapping_requests_mixed:
  assumes "i \<noteq> j"
  shows "\<exists>s. request_run req (\<lambda>k s. True) s \<and> (i, RequestCompleted, Some (req j)) \<in> set (lg_lines s)"
proof -
  note act = request_run.Act [of req "\<lambda>k s. True", OF _ TrueI]
  let ?at = "\<lambda>pc s. request_run req (\<lambda>k s. True) s \<and> lg_pc s i = pc \<and> lg_pc s j = RqArrived"
  have "?at RqNamed (emptyLog\<lparr>lg_shared := Some (req i), lg_pc := (lg_pc emptyLog)(i := RqNamed)\<rparr>)"
    using assms act [OF request_run.Empty NewLoggerMiddleware.Assign [of emptyLog i]] by (simp add: emptyLog_def)
  then obtain s1 where s1: "?at RqNamed s1" by blast
  then have "?at RqInContext (s1\<lparr>lg_context := (lg_context s1)(i := lg_shared s1), lg_pc := (lg_pc s1)(i := RqInContext)\<rparr>)"
    using assms act [OF _ NewLoggerMiddleware.PutContext [of s1 i]] by simp
  then obtain s2 where s2: "?at RqInContext s2" by blast
  then have "?at RqServing (s2\<lparr>lg_lines := lg_lines s2 @ [(i, HandlingRequest, lg_shared s2)],
      lg_pc := (lg_pc s2)(i := RqServing)\<rparr>)"
    using assms act [OF _ NewLoggerMiddleware.Handling [of s2 i]] by simp
  then obtain s where s: "request_run req (\<lambda>k s. True) s" "lg_pc s i = RqServing" "lg_pc s j = RqArrived" by blast
  let ?s' = "s\<lparr>lg_shared := Some (req j), lg_pc := (lg_pc s)(j := RqNamed)\<rparr>"
  have "request_run req (\<lambda>k s. True) ?s'" by (rule act [OF s(1) NewLoggerMiddleware.Assign [OF s(3)]])
  moreover have "lg_pc ?s' i = RqServing" using s(2) assms by simp
  ultimately have "request_run req (\<lambda>k s. True) (?s'\<lparr>lg_lines := lg_lines ?s' @ [(i, RequestCompleted, lg_shared ?s')],
      lg_pc := (lg_pc ?s')(i := RqDone)\<rparr>)"
    by (rule act [OF _ NewLoggerMiddleware.Completed])
  then show ?thesis by (intro exI conjI) (assumption, simp)
qed

end
