(* ===== verification/Contexts.thy ===== *)
theory Contexts
  imports Middleware
begin

text \<open>
  \<open>logging/logger.go\<close> and \<open>utils/context.go\<close>: what the program keeps in a \<open>context.Context\<close>, and how it waits
  with one.

  A context is the chain that \<open>context.WithValue\<close> builds: every link has a key and a value, and a lookup finds the
  innermost link with its key. Keys of two packages are different even where their numbers are the same, because a
  key is compared with its type. Theory Middleware keeps the values of a request in a record with one field per key;
  the lemmas show that this record is what the chain holds, that the logger of a request is among its values without
  hiding any of them, and what a sleep waits for.
\<close>

section \<open>Contexts and loggers\<close>

text \<open>A logger of logrus: whether its output is discarded, its level, and the fields of its lines.\<close>

datatype log_level = InfoLevel | OtherLevel uint32

record logger =
  lr_Discards :: bool
  lr_Level :: log_level
  lr_Fields :: "(string \<times> string) list"

text \<open>\<open>logrus.New\<close> starts at the level \<open>InfoLevel\<close>, which \<open>New\<close> sets once more.\<close>

definition logrus_New :: logger where
  "logrus_New = \<lparr>lr_Discards = False, lr_Level = InfoLevel, lr_Fields = []\<rparr>"

definition New :: logger where
  "New = logrus_New\<lparr>lr_Level := InfoLevel\<rparr>"

definition NullLogger :: logger where
  "NullLogger = logrus_New\<lparr>lr_Discards := True\<rparr>"

text \<open>The keys of the package \<open>middleware\<close> in the order of their constants, and the one of the package \<open>logging\<close>.\<close>

datatype middleware_key = bridgeCfgCtxKey | chainCfgCtxKey | fromBlockNumberCtxKey | toBlockNumberCtxKey
  | txHashCtxKey | filterCtxKey

datatype logging_key = loggerCtxKey

datatype ctx_key = MiddlewareKey middleware_key | LoggingKey logging_key

datatype ctx_value = IsLogger logger | IsBridgeConfig BridgeConfig | IsChainConfig ChainConfig | IsUint uint
  | IsHash hash | IsFilterContext FilterContext

datatype go_context = Background | WithValue go_context ctx_key ctx_value

fun ctx_Value :: "go_context \<Rightarrow> ctx_key \<Rightarrow> ctx_value option" where
  "ctx_Value Background k = None"
| "ctx_Value (WithValue c k' v) k = (if k = k' then Some v else ctx_Value c k)"

definition WithLogger :: "go_context \<Rightarrow> logger \<Rightarrow> go_context" where
  "WithLogger ctx l = WithValue ctx (LoggingKey loggerCtxKey) (IsLogger l)"

definition LoggerFromContext :: "go_context \<Rightarrow> logger" where
  "LoggerFromContext ctx = (case ctx_Value ctx (LoggingKey loggerCtxKey) of
     Some (IsLogger l) \<Rightarrow> l
   | _ \<Rightarrow> NullLogger)"

section \<open>The record of a request's values\<close>

text \<open>The type assertions with which the values are read.\<close>

definition as_chain :: "ctx_value option \<Rightarrow> ChainConfig option" where
  "as_chain v = (case v of Some (IsChainConfig c) \<Rightarrow> Some c | _ \<Rightarrow> None)"

definition as_bridge :: "ctx_value option \<Rightarrow> BridgeConfig option" where
  "as_bridge v = (case v of Some (IsBridgeConfig b) \<Rightarrow> Some b | _ \<Rightarrow> None)"

definition as_uint :: "ctx_value option \<Rightarrow> uint option" where
  "as_uint v = (case v of Some (IsUint n) \<Rightarrow> Some n | _ \<Rightarrow> None)"

definition as_hash :: "ctx_value option \<Rightarrow> hash option" where
  "as_hash v = (case v of Some (IsHash h) \<Rightarrow> Some h | _ \<Rightarrow> None)"

definition as_filter :: "ctx_value option \<Rightarrow> FilterContext option" where
  "as_filter v = (case v of Some (IsFilterContext f) \<Rightarrow> Some f | _ \<Rightarrow> None)"

lemmas as_defs = as_chain_def as_bridge_def as_uint_def as_hash_def as_filter_def

definition request_values :: "go_context \<Rightarrow> request_ctx" where
  "request_values c = (let get = (\<lambda>k. ctx_Value c (MiddlewareKey k)) in
     \<lparr>cx_bridgeCfg = as_bridge (get bridgeCfgCtxKey), cx_chainCfg = as_chain (get chainCfgCtxKey),
      cx_fromBlockNumber = as_uint (get fromBlockNumberCtxKey), cx_toBlockNumber = as_uint (get toBlockNumberCtxKey),
      cx_txHash = as_hash (get txHashCtxKey), cx_filter = as_filter (get filterCtxKey)\<rparr>)"

text \<open>The context that \<open>GetFilterMiddleware\<close> hands on, and the values of the context, as the code builds them.\<close>

definition filter_value :: "go_context \<Rightarrow> FilterContext" where
  "filter_value ctx = (let get = (\<lambda>k. ctx_Value ctx (MiddlewareKey k)) in
     \<lparr>fc_ChainID = map_option ch_ChainID (as_chain (get chainCfgCtxKey)),
      fc_FromBlock = as_uint (get fromBlockNumberCtxKey), fc_ToBlock = as_uint (get toBlockNumberCtxKey),
      fc_TxHash = as_hash (get txHashCtxKey)\<rparr>)"

definition WithFilter :: "go_context \<Rightarrow> go_context" where
  "WithFilter ctx = WithValue ctx (MiddlewareKey filterCtxKey) (IsFilterContext (filter_value ctx))"

lemma request_values_simps [simp]:
  "request_values Background = emptyContext"
  "request_values (WithValue c (MiddlewareKey bridgeCfgCtxKey) (IsBridgeConfig b)) = (request_values c)\<lparr>cx_bridgeCfg := Some b\<rparr>"
  "request_values (WithValue c (MiddlewareKey chainCfgCtxKey) (IsChainConfig h)) = (request_values c)\<lparr>cx_chainCfg := Some h\<rparr>"
  "request_values (WithValue c (MiddlewareKey fromBlockNumberCtxKey) (IsUint n)) = (request_values c)\<lparr>cx_fromBlockNumber := Some n\<rparr>"
  "request_values (WithValue c (MiddlewareKey toBlockNumberCtxKey) (IsUint n)) = (request_values c)\<lparr>cx_toBlockNumber := Some n\<rparr>"
  "request_values (WithValue c (MiddlewareKey txHashCtxKey) (IsHash t)) = (request_values c)\<lparr>cx_txHash := Some t\<rparr>"
  "request_values (WithValue c (MiddlewareKey filterCtxKey) (IsFilterContext f)) = (request_values c)\<lparr>cx_filter := Some f\<rparr>"
  "request_values (WithValue c (LoggingKey l) v) = request_values c"
  by (simp_all add: request_values_def emptyContext_def as_defs Let_def)

text \<open>
  A handler over the chain, as the code has it, behaves as one over the record: the middlewares of theory
  Middleware keep that, whatever logger the chain holds.
\<close>

lemma filter_middleware_values:
  "GetFilterMiddleware h (request_values c) = h (request_values (WithFilter c))"
proof -
  have "filter_value c = \<lparr>fc_ChainID = map_option ch_ChainID (cx_chainCfg (request_values c)),
      fc_FromBlock = cx_fromBlockNumber (request_values c), fc_ToBlock = cx_toBlockNumber (request_values c),
      fc_TxHash = cx_txHash (request_values c)\<rparr>"
    by (simp add: filter_value_def request_values_def Let_def)
  then show ?thesis by (simp add: GetFilterMiddleware_def WithFilter_def)
qed

lemma logger_found [simp]: "LoggerFromContext (WithLogger c l) = l"
  by (simp add: LoggerFromContext_def WithLogger_def)

lemma logger_through_values [simp]:
  "LoggerFromContext (WithValue c (MiddlewareKey k) v) = LoggerFromContext c"
  by (simp add: LoggerFromContext_def)

lemma logger_hides_no_value [simp]: "request_values (WithLogger c l) = request_values c"
  by (simp add: WithLogger_def)

lemma no_logger [simp]: "LoggerFromContext Background = NullLogger"
  by (simp add: LoggerFromContext_def)

text \<open>Behind the logging middleware any number of values of the request leave its logger where it is.\<close>

inductive behind_logger :: "logger \<Rightarrow> go_context \<Rightarrow> bool" for l :: logger where
  Logged: "behind_logger l (WithLogger c l)"
| Valued: "behind_logger l c \<Longrightarrow> behind_logger l (WithValue c (MiddlewareKey k) v)"

lemma behind_logger_has: "behind_logger l c \<Longrightarrow> LoggerFromContext c = l"
  by (induction rule: behind_logger.induct) simp_all

section \<open>Sleeping with a context\<close>

text \<open>
  \<open>ContextSleep\<close> at time \<open>now\<close> for \<open>d\<close>, with a context that ends at the time \<open>closes\<close>, if ever. When the context has
  ended by the time the timer fires, \<open>select\<close> may choose either; \<open>pick\<close> is its choice. The result is nothing or the
  time of the timer, with the time of the return.
\<close>

definition ContextSleep :: "(time \<Rightarrow> bool) \<Rightarrow> time \<Rightarrow> time option \<Rightarrow> time \<Rightarrow> time option \<times> time" where
  "ContextSleep pick now closes d = (let fires = now + max 0 d in
     case closes of
       None \<Rightarrow> (Some fires, fires)
     | Some c \<Rightarrow> (let ends = max now c in
         if ends < fires \<or> (ends = fires \<and> pick fires) then (None, ends) else (Some fires, fires)))"

text \<open>Nothing is returned only when the context has ended; a time only after the whole of \<open>d\<close>.\<close>

lemma sleep_result:
  assumes "ContextSleep pick now closes d = (r, t)"
  shows "case r of None \<Rightarrow> (\<exists>c. closes = Some c \<and> c \<le> t) | Some t' \<Rightarrow> t' = t \<and> t = now + max 0 d"
  using assms by (auto simp: ContextSleep_def Let_def split: option.splits if_splits)

text \<open>A sleep never lasts longer than \<open>d\<close>, nor longer than the context.\<close>

lemma sleep_bounded:
  assumes "ContextSleep pick now closes d = (r, t)"
  shows "now \<le> t \<and> t \<le> now + max 0 d \<and> (\<forall>c. closes = Some c \<longrightarrow> t \<le> max now c)"
  using assms by (auto simp: ContextSleep_def Let_def split: option.splits if_splits)

text \<open>A loop that sleeps after every round, and returns at the first sleep that returns nothing, does not outlive the
  end of its context by a round: the sleep after that end returns nothing, unless its time is zero.\<close>

lemma sleep_after_end:
  assumes "closes = Some c" and "c \<le> now" and "0 < d"
  shows "ContextSleep pick now closes d = (None, now)"
  using assms by (simp add: ContextSleep_def Let_def)

end
