(* ===== verification/Gauges.thy ===== *)
theory Gauges
  imports ContractMonitor
begin

text \<open>
  The gauges of \<open>monitor/metrics.go\<close> and the functions of \<open>monitor/contract_monitor.go\<close> that set them, one
  access to shared memory at a time. The block fetcher records the head, the logs processor the last processed block, and
  both call \<open>recordIsSynced\<close>, which reads the two numbers, assigns \<open>isSynced\<close>, reads it back and sets its
  gauge; nothing orders the accesses of one goroutine and those of the other. (The indexer of theory
  \<open>Indexer\<close>, where the gauges are left out, computes the flag in one step.)

  The lemmas show what the gauges say all the same, and where the flag and its gauge are wrong.
\<close>

section \<open>Gauges\<close>

text \<open>
  The four gauges of a contract monitor, at zero when the process starts. They hold a \<open>float64\<close> of a block number, exact
  below \<open>2^53\<close>; the number itself is kept here, and the flag instead of one or zero. \<open>Start\<close> sets two of them
  before it starts the goroutines.
\<close>

record gauges =
  syncedMetric :: bool
  headBlockMetric :: uint
  fetchedBlockMetric :: uint
  processedBlockMetric :: uint

definition zero_gauges :: gauges where
  "zero_gauges = \<lparr>syncedMetric = False, headBlockMetric = 0, fetchedBlockMetric = 0, processedBlockMetric = 0\<rparr>"

definition Start_gauges :: "LogsCursor \<Rightarrow> gauges \<Rightarrow> gauges" where
  "Start_gauges c g = g\<lparr>processedBlockMetric := lc_LastProcessedBlock c, fetchedBlockMetric := lc_LastFetchedBlock c\<rparr>"

section \<open>Recording\<close>

text \<open>
  Where a goroutine is: not recording; the number is in memory and its gauge is next; the comparison is next; its outcome
  is to be assigned; the flag is to be read back; what was read is to be shown. One of the two numbers that are compared is
  written by the goroutine that compares them, so one step reads both.
\<close>

datatype recorder = Ready | ShowBlock uint | Compare | AssignFlag bool | ReadFlag | ShowFlag bool

definition synced_value :: "progress \<Rightarrow> bool" where
  "synced_value p \<longleftrightarrow> lc_LastProcessedBlock (pg_logsCursor p) + defaultSyncedThreshold > pg_headBlock p"

fun recordIsSynced_next :: "recorder \<Rightarrow> progress \<times> gauges \<Rightarrow> (recorder \<times> progress \<times> gauges) option" where
  "recordIsSynced_next Compare (p, g) = Some (AssignFlag (synced_value p), p, g)"
| "recordIsSynced_next (AssignFlag b) (p, g) = Some (ReadFlag, p\<lparr>pg_isSynced := b\<rparr>, g)"
| "recordIsSynced_next ReadFlag (p, g) = Some (ShowFlag (pg_isSynced p), p, g)"
| "recordIsSynced_next (ShowFlag b) (p, g) = Some (Ready, p, g\<lparr>syncedMetric := b\<rparr>)"
| "recordIsSynced_next _ (p, g) = None"

text \<open>
  The memory the goroutines share, the gauges, and where each goroutine is (the logs fetcher records one number, with a gauge
  and no flag). No step reads \<open>rg_alone\<close>: it says whether the recording that started last, of the head or of the
  processed block, found the other goroutine ready.
\<close>

record recording =
  rg_p :: progress
  rg_g :: gauges
  rg_bf :: recorder
  rg_lf :: "uint option"
  rg_lp :: recorder
  rg_alone :: bool

text \<open>
  \<open>recordHeadBlockNumber\<close>, \<open>recordFetchedBlockNumber\<close> and \<open>recordProcessedBlockNumber\<close> with any
  number; a number behind the one in memory is ignored, which is no step. Each number is written by its goroutine only, so the
  check and the write are one step.
\<close>

inductive record_step :: "recording \<Rightarrow> recording \<Rightarrow> bool" where
  Head: "rg_bf s = Ready \<Longrightarrow> \<not> n < pg_headBlock (rg_p s) \<Longrightarrow>
    record_step s (s\<lparr>rg_p := (rg_p s)\<lparr>pg_headBlock := n\<rparr>, rg_bf := ShowBlock n, rg_alone := (rg_lp s = Ready)\<rparr>)"
| HeadShown: "rg_bf s = ShowBlock n \<Longrightarrow>
    record_step s (s\<lparr>rg_g := (rg_g s)\<lparr>headBlockMetric := n\<rparr>, rg_bf := Compare\<rparr>)"
| HeadFlag: "recordIsSynced_next (rg_bf s) (rg_p s, rg_g s) = Some (r, p, g) \<Longrightarrow>
    record_step s (s\<lparr>rg_p := p, rg_g := g, rg_bf := r\<rparr>)"
| Fetched: "rg_lf s = None \<Longrightarrow> \<not> n < lc_LastFetchedBlock (pg_logsCursor (rg_p s)) \<Longrightarrow>
    record_step s (s\<lparr>rg_p := (rg_p s)\<lparr>pg_logsCursor := (pg_logsCursor (rg_p s))\<lparr>lc_LastFetchedBlock := n\<rparr>\<rparr>, rg_lf := Some n\<rparr>)"
| FetchedShown: "rg_lf s = Some n \<Longrightarrow>
    record_step s (s\<lparr>rg_g := (rg_g s)\<lparr>fetchedBlockMetric := n\<rparr>, rg_lf := None\<rparr>)"
| Processed: "rg_lp s = Ready \<Longrightarrow> \<not> n < lc_LastProcessedBlock (pg_logsCursor (rg_p s)) \<Longrightarrow>
    record_step s (s\<lparr>rg_p := (rg_p s)\<lparr>pg_logsCursor := (pg_logsCursor (rg_p s))\<lparr>lc_LastProcessedBlock := n\<rparr>\<rparr>,
      rg_lp := ShowBlock n, rg_alone := (rg_bf s = Ready)\<rparr>)"
| ProcessedShown: "rg_lp s = ShowBlock n \<Longrightarrow>
    record_step s (s\<lparr>rg_g := (rg_g s)\<lparr>processedBlockMetric := n\<rparr>, rg_lp := Compare\<rparr>)"
| ProcessedFlag: "recordIsSynced_next (rg_lp s) (rg_p s, rg_g s) = Some (r, p, g) \<Longrightarrow>
    record_step s (s\<lparr>rg_p := p, rg_g := g, rg_lp := r\<rparr>)"

definition recording_start :: "LogsCursor \<Rightarrow> recording" where
  "recording_start c = \<lparr>rg_p = initialProgress c, rg_g = Start_gauges c zero_gauges, rg_bf = Ready, rg_lf = None,
     rg_lp = Ready, rg_alone = False\<rparr>"

inductive recording_runs :: "LogsCursor \<Rightarrow> recording \<Rightarrow> bool" for c :: LogsCursor where
  Started: "recording_runs c (recording_start c)"
| Recorded: "recording_runs c s \<Longrightarrow> record_step s s' \<Longrightarrow> recording_runs c s'"

section \<open>What the gauges say\<close>

definition at_rest :: "recording \<Rightarrow> bool" where
  "at_rest s \<longleftrightarrow> rg_bf s = Ready \<and> rg_lf s = None \<and> rg_lp s = Ready"

text \<open>A gauge of a block number holds the number in memory, except while its goroutine is about to set it: then it is behind.\<close>

definition block_shown :: "recorder \<Rightarrow> uint \<Rightarrow> uint \<Rightarrow> bool" where
  "block_shown r n gauge \<longleftrightarrow> (case r of ShowBlock k \<Rightarrow> k = n \<and> gauge \<le> n | _ \<Rightarrow> gauge = n)"

definition blocks_shown :: "recording \<Rightarrow> bool" where
  "blocks_shown s \<longleftrightarrow> block_shown (rg_bf s) (pg_headBlock (rg_p s)) (headBlockMetric (rg_g s))
     \<and> block_shown (rg_lp s) (lc_LastProcessedBlock (pg_logsCursor (rg_p s))) (processedBlockMetric (rg_g s))
     \<and> block_shown (case rg_lf s of None \<Rightarrow> Ready | Some k \<Rightarrow> ShowBlock k)
         (lc_LastFetchedBlock (pg_logsCursor (rg_p s))) (fetchedBlockMetric (rg_g s))"

definition blocks_le :: "gauges \<Rightarrow> gauges \<Rightarrow> bool" where
  "blocks_le g g' \<longleftrightarrow> headBlockMetric g \<le> headBlockMetric g' \<and> fetchedBlockMetric g \<le> fetchedBlockMetric g'
     \<and> processedBlockMetric g \<le> processedBlockMetric g'"

text \<open>The flag is what the numbers in memory say, and its gauge shows it.\<close>

definition flag_shown :: "progress \<Rightarrow> gauges \<Rightarrow> bool" where
  "flag_shown p g \<longleftrightarrow> pg_isSynced p = synced_value p \<and> syncedMetric g = pg_isSynced p"

fun on_the_way :: "recorder \<Rightarrow> progress \<Rightarrow> gauges \<Rightarrow> bool" where
  "on_the_way Ready p g \<longleftrightarrow> flag_shown p g"
| "on_the_way (AssignFlag b) p g \<longleftrightarrow> b = synced_value p"
| "on_the_way ReadFlag p g \<longleftrightarrow> pg_isSynced p = synced_value p"
| "on_the_way (ShowFlag b) p g \<longleftrightarrow> b = pg_isSynced p \<and> pg_isSynced p = synced_value p"
| "on_the_way _ p g \<longleftrightarrow> True"

definition alone_inv :: "recording \<Rightarrow> bool" where
  "alone_inv s \<longleftrightarrow> (rg_alone s \<longrightarrow> (rg_lp s = Ready \<and> on_the_way (rg_bf s) (rg_p s) (rg_g s))
     \<or> (rg_bf s = Ready \<and> on_the_way (rg_lp s) (rg_p s) (rg_g s)))"

lemma recordIsSynced_next_blocks:
  assumes "recordIsSynced_next r (p, g) = Some (r', p', g')"
  shows "pg_headBlock p' = pg_headBlock p" "pg_logsCursor p' = pg_logsCursor p" "headBlockMetric g' = headBlockMetric g"
    "fetchedBlockMetric g' = fetchedBlockMetric g" "processedBlockMetric g' = processedBlockMetric g"
    "block_shown r' n k = block_shown r n k" "r \<noteq> Ready"
  using assms by (cases r; auto simp: block_shown_def)+

lemma recordIsSynced_next_way:
  "recordIsSynced_next r (p, g) = Some (r', p', g') \<Longrightarrow> on_the_way r p g \<Longrightarrow> on_the_way r' p' g'"
  by (cases r) (auto simp: flag_shown_def synced_value_def)

lemma fetched_flag [simp]:
  "synced_value (p\<lparr>pg_logsCursor := (pg_logsCursor p)\<lparr>lc_LastFetchedBlock := n\<rparr>\<rparr>) = synced_value p"
  by (simp add: synced_value_def)

lemma on_the_way_fetched:
  "on_the_way r (p\<lparr>pg_logsCursor := (pg_logsCursor p)\<lparr>lc_LastFetchedBlock := n\<rparr>\<rparr>) g = on_the_way r p g"
  "on_the_way r p (g\<lparr>fetchedBlockMetric := n\<rparr>) = on_the_way r p g"
  by (cases r; simp add: flag_shown_def)+

lemma step_blocks: "record_step s s' \<Longrightarrow> blocks_shown s \<Longrightarrow> blocks_shown s' \<and> blocks_le (rg_g s) (rg_g s')"
  by (induction rule: record_step.induct)
    (auto simp: blocks_shown_def blocks_le_def recordIsSynced_next_blocks, auto simp: block_shown_def not_less)

lemma step_alone: "record_step s s' \<Longrightarrow> alone_inv s \<Longrightarrow> alone_inv s'"
proof (induction rule: record_step.induct)
  case (HeadFlag s r p g)
  then show ?case
    using recordIsSynced_next_way [OF HeadFlag(1)] recordIsSynced_next_blocks(7) [OF HeadFlag(1)] by (auto simp: alone_inv_def)
next
  case (ProcessedFlag s r p g)
  then show ?case
    using recordIsSynced_next_way [OF ProcessedFlag(1)] recordIsSynced_next_blocks(7) [OF ProcessedFlag(1)]
    by (auto simp: alone_inv_def)
qed (auto simp: alone_inv_def on_the_way_fetched)

lemma recorded_inv: "recording_runs c s \<Longrightarrow> blocks_shown s \<and> alone_inv s"
proof (induction rule: recording_runs.induct)
  case Started
  show ?case
    by (simp add: recording_start_def blocks_shown_def block_shown_def alone_inv_def initialProgress_def Start_gauges_def
        zero_gauges_def)
next
  case (Recorded s s')
  then show ?case using step_blocks step_alone by blast
qed

section \<open>Recordings alone and overlapping\<close>

lemma recorded_steps: "record_step\<^sup>*\<^sup>* s t \<Longrightarrow> recording_runs c s \<Longrightarrow> recording_runs c t"
  by (induction rule: rtranclp_induct) (auto intro: recording_runs.Recorded)

lemma steps_one: "record_step s s1 \<Longrightarrow> s1 = s' \<Longrightarrow> record_step\<^sup>*\<^sup>* s' t \<Longrightarrow> record_step\<^sup>*\<^sup>* s t"
  by (simp add: converse_rtranclp_into_rtranclp)

lemma steps_none: "s = t \<Longrightarrow> record_step\<^sup>*\<^sup>* s t"
  by simp

lemma synced_value_record: "recordIsSynced p = p\<lparr>pg_isSynced := synced_value p\<rparr>"
  by (simp add: recordIsSynced_def synced_value_def)

text \<open>The six steps of a goroutine in a row do what theory \<open>ContractMonitor\<close> says, and show it.\<close>

lemma head_steps:
  assumes "rg_bf s = Ready" and "\<not> n < pg_headBlock (rg_p s)"
  shows "record_step\<^sup>*\<^sup>* s (s\<lparr>rg_p := recordHeadBlockNumber n (rg_p s),
    rg_g := (rg_g s)\<lparr>headBlockMetric := n, syncedMetric := pg_isSynced (recordHeadBlockNumber n (rg_p s))\<rparr>,
    rg_alone := (rg_lp s = Ready)\<rparr>)"
  apply (rule steps_one [OF record_step.Head [OF assms] refl])
  apply (rule steps_one [OF record_step.HeadShown refl], simp)
  apply (rule steps_one [OF record_step.HeadFlag refl], simp)
  apply (rule steps_one [OF record_step.HeadFlag refl], simp)
  apply (rule steps_one [OF record_step.HeadFlag refl], simp)
  apply (rule steps_one [OF record_step.HeadFlag refl], simp)
  apply (rule steps_none)
  using assms
  by (cases s) (simp add: recordHeadBlockNumber_def synced_value_record)

lemma processed_steps:
  assumes "rg_lp s = Ready" and "setProcessed n (rg_p s) = Some p'"
  shows "record_step\<^sup>*\<^sup>* s (s\<lparr>rg_p := p', rg_g := (rg_g s)\<lparr>processedBlockMetric := n, syncedMetric := pg_isSynced p'\<rparr>,
    rg_alone := (rg_bf s = Ready)\<rparr>)"
proof -
  from assms(2) have n: "\<not> n < lc_LastProcessedBlock (pg_logsCursor (rg_p s))" by (auto simp: setProcessed_def)
  show ?thesis
    apply (rule steps_one [OF record_step.Processed [OF assms(1) n] refl])
    apply (rule steps_one [OF record_step.ProcessedShown refl], simp)
    apply (rule steps_one [OF record_step.ProcessedFlag refl], simp)
    apply (rule steps_one [OF record_step.ProcessedFlag refl], simp)
    apply (rule steps_one [OF record_step.ProcessedFlag refl], simp)
    apply (rule steps_one [OF record_step.ProcessedFlag refl], simp)
    apply (rule steps_none)
    using assms n
    by (cases s) (auto simp: setProcessed_def synced_value_record)
qed

text \<open>
  The logs processor compares a processed block with a head that is below it, and the block fetcher records a new head
  before the outcome is assigned, or before it is shown.
\<close>

lemma late_flag:
  assumes "lc_LastProcessedBlock c \<le> n" and "0 < n + 10"
  obtains s where "recording_runs c s" "rg_bf s = Ready" "rg_lf s = None" "rg_lp s = AssignFlag True"
    "pg_headBlock (rg_p s) = 0" "lc_LastProcessedBlock (pg_logsCursor (rg_p s)) = n"
proof -
  let ?s = "recording_start c"
  let ?t = "?s\<lparr>rg_p := (rg_p ?s)\<lparr>pg_logsCursor := (pg_logsCursor (rg_p ?s))\<lparr>lc_LastProcessedBlock := n\<rparr>\<rparr>,
    rg_g := (rg_g ?s)\<lparr>processedBlockMetric := n\<rparr>, rg_lp := AssignFlag True, rg_alone := True\<rparr>"
  have "record_step\<^sup>*\<^sup>* ?s ?t"
    apply (rule steps_one [OF record_step.Processed [where n = n] refl])
      apply (simp_all add: recording_start_def initialProgress_def assms(1) not_less)
    apply (rule steps_one [OF record_step.ProcessedShown refl], simp)
    apply (rule steps_one [OF record_step.ProcessedFlag refl], simp)
    apply (rule steps_none)
    using assms(2)
    by (simp add: synced_value_def defaultSyncedThreshold_def)
  from recorded_steps [OF this recording_runs.Started] that [of ?t] show thesis
    by (simp add: recording_start_def initialProgress_def)
qed

lemma some_block: "\<exists>n :: uint. k \<le> n \<and> 0 < n + 10"
proof (cases "k + 10 = 0")
  case True
  then have "k = - 10" by (simp add: eq_neg_iff_add_eq_0)
  then show ?thesis by (intro exI [of _ "- 9"]) simp
next
  case False
  then show ?thesis by (intro exI [of _ k]) (simp add: word_gt_0)
qed

lemma gauge_wrong: "\<exists>t. recording_runs c t \<and> at_rest t \<and> syncedMetric (rg_g t) \<and> \<not> pg_isSynced (rg_p t)"
proof -
  obtain n where n: "lc_LastProcessedBlock c \<le> n" "0 < n + 10" using some_block by blast
  obtain s where s: "recording_runs c s" "rg_bf s = Ready" "rg_lf s = None" "rg_lp s = AssignFlag True"
    "pg_headBlock (rg_p s) = 0" "lc_LastProcessedBlock (pg_logsCursor (rg_p s)) = n" by (rule late_flag [OF n])
  let ?s = "s\<lparr>rg_p := (rg_p s)\<lparr>pg_isSynced := True\<rparr>, rg_lp := ShowFlag True\<rparr>"
  have "record_step\<^sup>*\<^sup>* s ?s"
    apply (rule steps_one [OF record_step.ProcessedFlag refl], simp add: s(4))
    apply (rule steps_one [OF record_step.ProcessedFlag refl], simp)
    by (rule steps_none) simp
  then have "recording_runs c ?s" using s(1) by (rule recorded_steps)
  moreover have "\<not> n + 10 < pg_headBlock (rg_p ?s)" by (simp add: s(5))
  ultimately obtain t where t: "recording_runs c t" "rg_bf t = Ready" "rg_lf t = None" "rg_lp t = ShowFlag True"
    "rg_p t = recordHeadBlockNumber (n + 10) (rg_p ?s)"
    using recorded_steps [OF head_steps, of ?s "n + 10" c] s by force
  have "recording_runs c (t\<lparr>rg_p := rg_p t, rg_g := (rg_g t)\<lparr>syncedMetric := True\<rparr>, rg_lp := Ready\<rparr>)"
    by (rule recording_runs.Recorded [OF t(1) record_step.ProcessedFlag]) (simp add: t(4))
  moreover have "\<not> pg_isSynced (rg_p t)"
    by (simp add: t(5) recordHeadBlockNumber_def recordIsSynced_def defaultSyncedThreshold_def s(5,6))
  ultimately show ?thesis using t(2,3) by (intro exI [of _ "t\<lparr>rg_p := rg_p t, rg_g := (rg_g t)\<lparr>syncedMetric := True\<rparr>, rg_lp := Ready\<rparr>"])
    (simp add: at_rest_def)
qed

lemma flag_wrong: "\<exists>t. recording_runs c t \<and> at_rest t \<and> pg_isSynced (rg_p t) \<and> \<not> synced_value (rg_p t)"
proof -
  obtain n where n: "lc_LastProcessedBlock c \<le> n" "0 < n + 10" using some_block by blast
  obtain s where s: "recording_runs c s" "rg_bf s = Ready" "rg_lf s = None" "rg_lp s = AssignFlag True"
    "pg_headBlock (rg_p s) = 0" "lc_LastProcessedBlock (pg_logsCursor (rg_p s)) = n" by (rule late_flag [OF n])
  have "\<not> n + 10 < pg_headBlock (rg_p s)" by (simp add: s(5))
  then obtain t where t: "recording_runs c t" "rg_bf t = Ready" "rg_lf t = None" "rg_lp t = AssignFlag True"
    "rg_p t = recordHeadBlockNumber (n + 10) (rg_p s)"
    using recorded_steps [OF head_steps s(1), of "n + 10"] s by force
  let ?t = "t\<lparr>rg_p := (rg_p t)\<lparr>pg_isSynced := True\<rparr>, rg_g := (rg_g t)\<lparr>syncedMetric := True\<rparr>, rg_lp := Ready\<rparr>"
  have "record_step\<^sup>*\<^sup>* t ?t"
    apply (rule steps_one [OF record_step.ProcessedFlag refl], simp add: t(4))
    apply (rule steps_one [OF record_step.ProcessedFlag refl], simp)
    apply (rule steps_one [OF record_step.ProcessedFlag refl], simp)
    by (rule steps_none) simp
  then have "recording_runs c ?t" using t(1) by (rule recorded_steps)
  moreover have "\<not> synced_value (rg_p ?t)"
    by (simp add: t(5) recordHeadBlockNumber_def recordIsSynced_def synced_value_def defaultSyncedThreshold_def s(5,6))
  ultimately show ?thesis using t(2,3) by (intro exI [of _ ?t]) (simp add: at_rest_def)
qed

section \<open>Properties\<close>

text \<open>Property C34. The gauges of the block numbers follow the memory of a contract monitor: in every state of its
  goroutines each holds the number in memory, or is behind it while its goroutine is about to set it, and no step takes one
  back. When all goroutines are at rest and the last recording of a head or a processed block overlapped with no other, the
  flag is what the two numbers say and its gauge shows it. Without that it need not be so: from every start there is a run
  after which, at rest, the gauge says synced and the flag does not, and one after which the flag says synced and the numbers
  do not.\<close>

theorem gauges_show_progress:
  assumes "recording_runs c s"
  shows "blocks_shown s \<and> (record_step s s' \<longrightarrow> blocks_le (rg_g s) (rg_g s'))
    \<and> (at_rest s \<and> rg_alone s \<longrightarrow> flag_shown (rg_p s) (rg_g s))
    \<and> (\<exists>t. recording_runs c t \<and> at_rest t \<and> syncedMetric (rg_g t) \<and> \<not> pg_isSynced (rg_p t))
    \<and> (\<exists>t. recording_runs c t \<and> at_rest t \<and> pg_isSynced (rg_p t) \<and> \<not> synced_value (rg_p t))"
  using recorded_inv [OF assms] step_blocks gauge_wrong flag_wrong by (auto simp: alone_inv_def at_rest_def)

text \<open>A monitor that resumes at block 30 and records the head 32.\<close>

definition resumed_cursor :: LogsCursor where
  "resumed_cursor = \<lparr>lc_ChainID = ''100'', lc_Address = 7, lc_LastFetchedBlock = 40, lc_LastProcessedBlock = 30\<rparr>"

lemma gauges_show_progress_witness:
  "\<exists>s s'. recording_runs resumed_cursor s \<and> pg_headBlock (rg_p s) = 32 \<and> syncedMetric (rg_g s) \<and> headBlockMetric (rg_g s) = 32
    \<and> fetchedBlockMetric (rg_g s) = 40 \<and> processedBlockMetric (rg_g s) = 30
    \<and> record_step s s' \<and> blocks_le (rg_g s) (rg_g s')"
proof -
  let ?s = "recording_start resumed_cursor"
  have ready: "rg_bf ?s = Ready" "\<not> 32 < pg_headBlock (rg_p ?s)" by (simp_all add: recording_start_def initialProgress_def)
  from recorded_steps [OF head_steps [OF ready] recording_runs.Started] obtain s where s: "recording_runs resumed_cursor s"
    "at_rest s" "rg_alone s" "rg_p s = recordHeadBlockNumber 32 (initialProgress resumed_cursor)"
    by (force simp: recording_start_def at_rest_def)
  have "\<not> pg_headBlock (rg_p s) < pg_headBlock (rg_p s)" by simp
  with s(2) obtain s' where step: "record_step s s'" by (blast intro: record_step.Head dest: at_rest_def [THEN iffD1])
  from gauges_show_progress [OF s(1), of s'] s(2,3) step
  have "blocks_shown s" "blocks_le (rg_g s) (rg_g s')" "flag_shown (rg_p s) (rg_g s)" by blast+
  with s step show ?thesis
    by (intro exI [of _ s] exI [of _ s'])
      (simp add: blocks_shown_def block_shown_def at_rest_def flag_shown_def synced_value_def recordHeadBlockNumber_def
        recordIsSynced_def initialProgress_def resumed_cursor_def defaultSyncedThreshold_def)
qed

end
