(* ===== verification/Spec2Isabelle.thy ===== *)
theory Spec2Isabelle
  imports Ranges Decoders HandlerTypes Ledger Bookkeeping IndexerSteps SampleRun PresenterRuns CommandRuns ProgramRuns RequestLog Contexts Gauges
begin

text \<open>
  A model of tokenbridge-monitor and the theorems that make it correct. The program follows the two
  contracts of a token bridge, one on the home and one on the foreign chain: it fetches their logs
  from an Ethereum node, saves them in PostgreSQL, decodes every log and records what it says (messages
  sent, signed, collected, executed; information requests; validators). An HTTP server, the presenter, shows the
  tables, alert jobs query them for what looks wrong, and two commands repair them.

  \<^bold>\<open>The parts and their theories.\<close>

  \<^item> \<open>Prelude\<close>: words for Go's integers, byte slices with Go's panics, results
    (\<open>failure + 'a\<close>: an error or a panic, or a value) and the monad of stateful calls
    (\<open>io\<close>) with the lemma collections the other theories extend.
  \<^item> \<open>Entity\<close>: the structs of \<open>entity/\<close>. \<open>Config\<close>: what \<open>config/config.go\<close> makes of a
    configuration; \<open>ConfigFile\<close>: how a program gets it from its file, with \<open>config/yaml.go\<close>.
  \<^item> \<open>Table\<close>, \<open>Database\<close>, \<open>Repository\<close>: the tables with the constraints of
    \<open>db/migrations/\<close> and one operation per method of \<open>repository/postgres/\<close>. The
    interface of a table with a key is the locale \<open>keyed\<close> (and \<open>keyed_idem\<close>, for
    update clauses that absorb a repetition), interpreted on each of the fourteen tables. \<open>Connect\<close>: the
    connection and the migrations of \<open>db/db.go\<close>.
  \<^item> \<open>Abi\<close>: \<open>contract/abi/abi.go\<close> and the two event tables of
    \<open>contract/bridgeabi/\<close>. \<open>EthClient\<close>: \<open>ethclient/ethclient.go\<close>.
  \<^item> \<open>Ranges\<close>, \<open>Decoders\<close>: \<open>monitor/types.go\<close>, \<open>monitor/decoders.go\<close>.
  \<^item> \<open>Handlers\<close>: every method of \<open>monitor/handlers.go\<close> and their registration in
    \<open>monitor/monitor.go\<close>. \<open>HandlerTypes\<close>: the ways in which a handler can fail.
    \<open>HandlerFrame\<close>: what no handler touches. \<open>Ledger\<close>, \<open>Bookkeeping\<close>: what the
    handlers record, as a refinement of an abstract ledger of messages sent and executed.
  \<^item> \<open>ContractMonitor\<close>: the functions of \<open>monitor/contract_monitor.go\<close>.
    \<open>Indexer\<close>: its goroutines as step relations over a shared state (\<open>bf_step\<close> the block
    fetcher, \<open>lf_step\<close> the logs fetcher, \<open>lp_step\<close> the logs processor), with bounded
    channels, stops at any moment, restarts, and other writers to the database.
    \<open>IndexerSafety\<close>, \<open>IndexerInvariant\<close>, \<open>IndexerSteps\<close>: the invariant of the reachable
    states and its preservation, for any handler with the laws of the locale \<open>log_handler\<close>, which
    is interpreted on the handlers of both monitors. \<open>IndexerLive\<close>: how a monitor catches up with the chain.
    \<open>SampleRun\<close>, \<open>CatchUpRun\<close>: a concrete run for the witnesses.
  \<^item> \<open>PresenterTypes\<close>, \<open>Middleware\<close>, \<open>Presenter\<close>: \<open>presenter/types.go\<close>, the
    filters, the recoverer and the rendering of \<open>presenter/http/\<close>, and the handlers and routes of
    \<open>presenter/presenter.go\<close>. \<open>PresenterFacts\<close>, \<open>PresenterSearch\<close>: their lemmas.
    \<open>PresenterRuns\<close>: concrete answers.
  \<^item> \<open>AlertQueries\<close>, \<open>Alerts\<close>: \<open>monitor/alerts/\<close>, the queries of
    \<open>db_alerts_provider.go\<close>, and the jobs, metrics and manager. \<open>AlertFacts\<close>,
    \<open>AlertStuck\<close>: their lemmas. \<open>AlertRuns\<close>: concrete answers.
  \<^item> \<open>Monitor\<close>: \<open>monitor/monitor.go\<close> and the choice of bridges in
    \<open>cmd/monitor/main.go\<close>. \<open>Reprocess\<close>: \<open>ProcessBlockRange\<close> of
    \<open>monitor/contract_monitor.go\<close> as a step relation, with \<open>cmd/reprocess_block_range/\<close>.
    \<open>ReprocessEnds\<close>: why such a call ends. \<open>FixTimestamps\<close>: \<open>cmd/fix_block_timestamps/\<close>.
    \<open>CommandRuns\<close>: concrete runs of these.
  \<^item> \<open>Process\<close>: the process of \<open>cmd/monitor/main.go\<close>, with the goroutines and the alert jobs of all
    bridges on one database, as a step relation that is composed of those of its contract monitors.
    \<open>ProcessRuns\<close>: a concrete run.
  \<^item> \<open>Startup\<close>: the three programs from their configuration file on (\<open>monitor_main\<close>, \<open>reprocess_main\<close>,
    \<open>fix_main\<close>), and \<open>program_step\<close>, the monitor program with its starts, the process of theory \<open>Process\<close> and
    the requests to its presenter. \<open>ProgramRuns\<close>: a program from its file to a processed log.
  \<^item> \<open>Gauges\<close>: \<open>monitor/metrics.go\<close> and the functions of \<open>monitor/contract_monitor.go\<close> that record
    progress, with every access to shared memory a step (\<open>record_step\<close>).
  \<^item> \<open>Metrics\<close>: \<open>ethclient/metrics.go\<close>, \<open>db/metrics.go\<close> and the calls that record
    in them. What a counted call owes its caller is the locale \<open>counted_call\<close>, and \<open>honest_call\<close> where a result
    counts as what it is; they are interpreted on the seven methods of the client.
  \<^item> \<open>RequestLog\<close>: \<open>presenter/http/middleware/logger.go\<close>. \<open>Contexts\<close>: \<open>logging/logger.go\<close> and
    \<open>utils/context.go\<close>, and why the record of \<open>Middleware\<close> is what a context of Go holds.

  \<^bold>\<open>What the lemmas show.\<close> This theory: nothing the chain has logged for the bridge is
  lost, however the goroutines interleave, calls fail and the process dies, and the goroutines of a monitor are never all stuck
  with work left. \<open>IndexerSafety\<close>: a fetch saves every wanted log of its range, and gives logs of that range only. \<open>IndexerLive\<close>: unless calls fail for ever,
  everything that was scheduled is handled. \<open>Bookkeeping\<close>: the tables say
  what the events said, and after any history of handlers a query for pending messages gives what the ledger of that history
  leaves pending. \<open>Abi\<close>, \<open>Decoders\<close>: decoding is typed, does not depend on the order of a Go map, and inverts the packing of
  the contracts. \<open>Config\<close> and \<open>ConfigFile\<close>: a configuration that a program runs with is well formed, except that
  a chain may be a nil pointer (a null in the file): what dereferences it panics, in the model as in the code. \<open>Ranges\<close> and
  \<open>ContractMonitor\<close>: the cutting into ranges and batches, and where the arithmetic of
  \<open>uint\<close> wraps. \<open>PresenterFacts\<close> and \<open>PresenterSearch\<close>: the presenter only reads, a
  search reaches the database only for bounded ranges of configured chains, and shows what the handlers recorded.
  \<open>AlertFacts\<close> and \<open>AlertStuck\<close>: no job panics on its metric, a metric shows the last answer,
  and a row of an alert means what its name says, in terms of the ledger. \<open>Monitor\<close>: a start-up makes
  a working monitor that goes on from the saved cursors, for the enabled bridges and no others. \<open>Process\<close>: the process refines each of its
  contract monitors, what one does to the database being within what the others allow for, so that nothing is lost by
  the whole either. \<open>Startup\<close>: the same from the configuration file and an empty database on, with starts that fail, restarts
  and requests; what a start has done to the database, and which bridges it monitors and shows. \<open>Connect\<close>: which
  settings the URL of the database keeps. \<open>Metrics\<close>: recording changes no call and no step, and what the counters say. \<open>Gauges\<close>: the gauges follow the progress, and where the flag \<open>isSynced\<close> and its
  gauge are wrong because two goroutines compute it at once. (In \<open>Indexer\<close> and \<open>Process\<close> the flag is computed in one
  step; no theorem depends on its value.) \<open>Reprocess\<close>: a call that returns
  without error, after its sender has sent the last range, has handled every wanted log of its range. \<open>ReprocessEnds\<close>: a call
  that fails only finitely often ends. \<open>RequestLog\<close>: which lines of the log name the right request. \<open>FixTimestamps\<close>: the rows of timestamps are
  afterwards those of the blocks that have logs, and where that hides a message from an alert.

  \<^bold>\<open>What is assumed, and where it appears.\<close> go-ethereum (hashing, ABI decoding, conversion of
  numbers) is the parameter \<open>G\<close> or \<open>L\<close>, with \<open>geth_documented\<close> and
  \<open>abi_documented\<close> where a theorem needs its documented behaviour. A node is the parameter
  \<open>N\<close>: functions of the time of the call, so that every answer may differ and any call may fail;
  \<open>node_honest\<close> says that the logs it gives are those of the chain that match the query, where the chain
  is final (the confirmations exclude reorganisations), and \<open>heads_ok\<close> bounds its block numbers away from
  the wrap-around. A call to the database may fail before or after it took effect (\<open>env_db\<close>). A handler's
  calls run as one step of the processor; the steps of the other goroutines and of other writers come between
  handlers. The system a program runs on (files, environment, the YAML decoder) is the parameter \<open>S\<close>, the drivers of
  PostgreSQL and the migration library are the parameter \<open>P\<close>; \<open>migrations_keep\<close> says that a migration keeps the
  rows, which holds for a database that is new or up to date.

  \<^bold>\<open>Bounds.\<close> No definition has fuel: the one loop that may not end, \<open>SplitBlockRange_loop\<close>, is a
  \<open>partial_function\<close> with value \<open>None\<close> when it does not return. Go's \<open>uint\<close> is a
  64-bit word. Channels have the capacities of the source.

  \<^bold>\<open>Not modelled.\<close> The texts of the log; the values of durations and the help texts of metrics; the SQL of
  the migrations beyond the constraints they declare; the listeners of the HTTP servers, throttling, request ids and the JSON
  text of an answer; the closing of connections. A signal that ends the program is a stop of the process. The text that PostgreSQL makes of a scaled amount is the parameter \<open>D\<close>, and what go-ethereum does
  with signatures is the record \<open>sigcrypto\<close>. A request of the presenter and an alert job run against a
  database that other writers leave alone meanwhile; a step of \<open>Reprocess\<close> is a whole attempt to fetch a
  range or to process a batch's logs, coarser than a step of \<open>Indexer\<close>. Sections that \<open>init\<close> dereferences
  at once (a bridge, its two sides) are there in every \<open>Config\<close>. Contexts are modelled by their effect: a
  cancelled context makes every later call fail, so the run of a monitor ends with its stop. Text of error
  messages is not kept, only the kind of error.
\<close>

section \<open>Nothing is lost\<close>

text \<open>Both contract monitors, in every state that start-up, any interleaving of the goroutines,
  failed or unacknowledged database calls, failed node calls, stops, restarts and other writers can lead to:
  a cursor in the database tells the truth. Every wanted log of the chain up to the last fetched block is
  saved, and every one up to the last processed block has been handled, so that the row of its event is there.\<close>

theorem nothing_lost:
  assumes "m \<in> {homeMonitor G E cfg N, foreignMonitor G E cfg N N'}" and "setting_ok G m chain"
    and "reachable G E m (processLog L m) chain s"
    and "c \<in> set (vals (db_logs_cursors (w_db (ix_w s))))" "own_cursor (mon_cfg m) c"
    and "rl \<in> set chain" "wanted G m rl"
  shows "(rl_BlockNumber rl \<le> lc_LastFetchedBlock c \<longrightarrow> saved (bs_ChainID (mon_cfg m)) (w_db (ix_w s)) rl) \<and>
    (rl_BlockNumber rl \<le> lc_LastProcessedBlock c \<longrightarrow>
      done_log (handled_log L m) (bs_ChainID (mon_cfg m)) (w_db (ix_w s)) rl)"
  by (rule inv_db_says [OF monitors_inv [OF assms(1-3)] assms(4-7)])

lemma nothing_lost_witness:
  "saved ''100'' demo_final demo_log"
proof -
  note all = nothing_lost [OF demo_monitor_home demo_setting demo_reachable demo_final_cursor(1) _ _ demo_wanted]
  have "rl_BlockNumber demo_log \<le> lc_LastFetchedBlock demo_cursor" by (simp add: demo_log_def demo_cursor_def)
  with all show ?thesis by (simp add: demo_final_cursor demo_end_world)
qed

text \<open>Property C3. While a contract monitor runs and has finished loading, no wanted log below the next block
  to schedule is forgotten: it has been handled, or it is in a batch of the queue, or in a range that is yet to
  be fetched.\<close>

theorem nothing_skipped:
  assumes "m \<in> {homeMonitor G E cfg N, foreignMonitor G E cfg N N'}" and "setting_ok G m chain"
    and "reachable G E m (processLog L m) chain s" and "ix_up s" "\<not> loading (ix_lf s)"
    and "rl \<in> set chain" "wanted G m rl" "rl_BlockNumber rl < bf_start (ix_bf s)"
  shows "done_log (handled_log L m) (bs_ChainID (mon_cfg m)) (w_db (ix_w s)) rl
    \<or> queued (bs_ChainID (mon_cfg m)) (queue s) rl
    \<or> list_ex (\<lambda>r. br_From r \<le> rl_BlockNumber rl \<and> rl_BlockNumber rl \<le> br_To r) (range_list s)"
  by (rule inv_up_says [OF monitors_inv [OF assms(1-3)] assms(4-8)])

lemma nothing_skipped_witness:
  "done_log (handled_log sample_abilib demo_monitor) ''100'' demo_final demo_log
    \<or> queued ''100'' (queue demo_end) demo_log
    \<or> list_ex (\<lambda>r. br_From r \<le> 120 \<and> 120 \<le> br_To r) (range_list demo_end)"
proof -
  have "ix_up demo_end" "\<not> loading (ix_lf demo_end)" "rl_BlockNumber demo_log < bf_start (ix_bf demo_end)"
    by (simp_all add: demo_end_def demo_fetching_def demo_at_def loading_def bf_start_def demo_log_def)
  from nothing_skipped [OF demo_monitor_home demo_setting demo_reachable this(1,2) _ demo_wanted this(3)]
  show ?thesis by (simp add: demo_end_world demo_log_def)
qed

text \<open>The cursor in memory, and every copy of it on its way into the database, has its processed
  block at or below its fetched block: the check constraint of the cursors table is never violated by a
  running monitor.\<close>

theorem cursor_constraint_holds:
  assumes "m \<in> {homeMonitor G E cfg N, foreignMonitor G E cfg N N'}" and "setting_ok G m chain"
    and "reachable G E m (processLog L m) chain s" and "ix_up s"
  shows "list_all (\<lambda>c. lc_LastProcessedBlock c \<le> lc_LastFetchedBlock c) (cursors_in_flight s)"
  by (rule inv_in_flight [OF monitors_inv [OF assms(1-3)] assms(4)])

lemma cursor_constraint_holds_witness:
  "list_all (\<lambda>c. lc_LastProcessedBlock c \<le> lc_LastFetchedBlock c) (cursors_in_flight demo_end)"
  by (rule cursor_constraint_holds [OF demo_monitor_home demo_setting demo_reachable])
    (simp add: demo_end_def demo_fetching_def demo_at_def)

text \<open>Within one run of the process the cursor in memory never goes back: no step lowers the fetched
  or the processed block.\<close>

theorem cursor_never_back:
  assumes "run_step G E m handle s s'"
  shows "lc_LastFetchedBlock (mem_cursor s) \<le> lc_LastFetchedBlock (mem_cursor s') \<and>
    lc_LastProcessedBlock (mem_cursor s) \<le> lc_LastProcessedBlock (mem_cursor s')"
  using assms bf_never_back lf_never_back lp_never_back unfolding run_step_def not_back_def by blast

lemma cursor_never_back_witness:
  "\<exists>s. lf_step sample_geth sample_env demo_monitor s demo_end \<and>
     lc_LastFetchedBlock (mem_cursor s) \<le> lc_LastFetchedBlock (mem_cursor demo_end)"
proof -
  let ?s = "demo_fetching \<lparr>w_db = demo_saved, w_tick = 5\<rparr> 198 [] [demo_batch] (LfSave demo_cursor demo_range [demo_row])"
  have st: "lf_step sample_geth sample_env demo_monitor ?s demo_end"
    using lf_step.SaveFetched [of ?s demo_cursor demo_range "[demo_row]" sample_env "()"
        "\<lparr>w_db = demo_final, w_tick = 6\<rparr>" sample_geth demo_monitor]
    by (simp add: demo_end_def demo_fetching_def demo_at_def demo_save [of 4, simplified demo_at_4, simplified] demo_range_def)
  then have "run_step sample_geth sample_env demo_monitor (processLog sample_abilib demo_monitor) ?s demo_end"
    by (simp add: run_step_def)
  from cursor_never_back [OF this] st show ?thesis by blast
qed

text \<open>Property C5. The goroutines of a monitor never deadlock: in every state one of the three can take a step. And as long
  as there is work, a batch to handle, a range to fetch, or logs to load, one of them can take a step that is not the poll
  for new blocks: full channels and empty ones never make all of them wait for each other.\<close>

theorem goroutines_progress:
  assumes "setting_ok G m chain"
  shows "Ex (run_step G E m handle s)
    \<and> (queue s \<noteq> [] \<or> range_list s \<noteq> [] \<or> loading (ix_lf s) \<longrightarrow> Ex (work_step G E m handle s))"
proof -
  have work: "Ex (work_step G E m handle s)" if "queue s \<noteq> [] \<or> range_list s \<noteq> [] \<or> loading (ix_lf s)"
    using that idle [of G E m handle s] by blast
  show ?thesis
  proof (cases "Ex (work_step G E m handle s)")
    case True
    then show ?thesis by (auto simp: work_step_def run_step_def)
  next
    case False
    with work have "bf_pending (ix_bf s) = []" by (auto simp: range_list_def)
    with bf_progress [OF assms, of s] have "Ex (bf_step m s)" by blast
    then show ?thesis using work by (auto simp: run_step_def)
  qed
qed

text \<open>The logs fetcher waits for room in the channel of batches, and the processor is there to make it.\<close>

definition demo_full :: indexer where
  "demo_full = demo_end\<lparr>ix_logs := replicate 200 demo_batch, ix_lf := LfSend [demo_batch], ix_lp := LpIdle\<rparr>"

lemma goroutines_progress_witness:
  "\<not> Ex (lf_step sample_geth sample_env demo_monitor demo_full) \<and>
   Ex (work_step sample_geth sample_env demo_monitor (processLog sample_abilib demo_monitor) demo_full)"
proof -
  have "queue demo_full \<noteq> []" by (simp add: queue_def demo_full_def)
  with goroutines_progress [OF demo_setting, of sample_env "processLog sample_abilib demo_monitor" demo_full]
  have "Ex (work_step sample_geth sample_env demo_monitor (processLog sample_abilib demo_monitor) demo_full)" by blast
  moreover have "\<not> lf_step sample_geth sample_env demo_monitor demo_full s" for s
    by (auto simp: demo_full_def defaultLogsChanCap_def elim!: lf_step.cases)
  ultimately show ?thesis by blast
qed

end
